(* ===== verification/Prelude.thy ===== *)
theory Prelude
  imports Main "HOL-Library.Word"
begin

text \<open>
  Shared vocabulary of the development: bytes and big-endian integers as the wire code packs
  them, Python strings as lists of code points with the string methods the SDK calls, and the
  state-and-exception actions in which the socket code is written.

  Representation choices. A Python \<open>bytes\<close> is a list of 8-bit words. A Python \<open>str\<close> is the
  list of its code points (type \<open>pystr\<close>); ASCII literals of the source are written
  \<open>lit ''...''\<close>. Python integers are unbounded, so they are \<open>int\<close> or \<open>nat\<close>.
\<close>

named_theorems act_simps \<open>how the state-and-exception actions run\<close>
named_theorems str_simps \<open>the Python string methods, unfolded\<close>

section \<open>Bytes and big-endian integers\<close>

type_synonym byte = "8 word"
type_synonym bytes = "byte list"

text \<open>\<open>n.to_bytes(k, "big")\<close> and \<open>int.from_bytes(bs, "big")\<close>.\<close>

fun to_be :: "nat \<Rightarrow> nat \<Rightarrow> bytes" where
  "to_be 0 v = []"
| "to_be (Suc k) v = to_be k (v div 256) @ [of_nat (v mod 256)]"

definition from_be :: "bytes \<Rightarrow> nat" where
  "from_be bs = foldl (\<lambda>acc b. acc * 256 + unat b) 0 bs"

lemma length_to_be [simp]: "length (to_be k v) = k"
  by (induction k arbitrary: v) auto

lemma to_be_1: "to_be (Suc 0) v = [of_nat (v mod 256)]"
  by simp

lemma to_be_2: "to_be 2 v = [of_nat (v div 256 mod 256), of_nat (v mod 256)]"
  by (simp add: numeral_2_eq_2)

lemma to_be_4: "to_be 4 v = [of_nat (v div 256 div 256 div 256 mod 256),
    of_nat (v div 256 div 256 mod 256), of_nat (v div 256 mod 256), of_nat (v mod 256)]"
proof -
  have "(4 :: nat) = Suc (Suc (Suc (Suc 0)))" by simp
  then show ?thesis by (simp only: to_be.simps append.simps)
qed

lemma from_be_Nil [simp]: "from_be [] = 0"
  by (simp add: from_be_def)

lemma from_be_snoc [simp]: "from_be (bs @ [b]) = from_be bs * 256 + unat b"
  by (simp add: from_be_def)

lemma unat_byte_less: "unat (b :: byte) < 256"
  using unsigned_less [of b, where ?'a = nat] by simp

lemma unat_of_nat_byte [simp]: "v < 256 \<Longrightarrow> unat (of_nat v :: byte) = v"
  by (simp add: unat_of_nat take_bit_eq_mod)

lemma from_be_to_be: "v < 256 ^ k \<Longrightarrow> from_be (to_be k v) = v"
proof (induction k arbitrary: v)
  case 0
  then show ?case by simp
next
  case (Suc k)
  then have "v div 256 < 256 ^ k" by (simp add: div_less_iff_less_mult mult.commute)
  then show ?case using Suc.IH by simp
qed

lemma from_be_bound: "from_be bs < 256 ^ length bs"
proof (induction bs rule: rev_induct)
  case Nil
  then show ?case by simp
next
  case (snoc b bs)
  have "from_be bs * 256 + unat b < (from_be bs + 1) * 256"
    using unat_byte_less [of b] by simp
  also have "\<dots> \<le> 256 ^ length bs * 256"
    using snoc.IH by (intro mult_right_mono) auto
  finally show ?case by (simp add: mult.commute)
qed

lemma to_be_from_be: "length bs = k \<Longrightarrow> to_be k (from_be bs) = bs"
proof (induction bs arbitrary: k rule: rev_induct)
  case Nil
  then show ?case by simp
next
  case (snoc b bs)
  have "(from_be bs * 256 + unat b) div 256 = from_be bs"
    and "(from_be bs * 256 + unat b) mod 256 = unat b"
    using unat_byte_less [of b] by auto
  with snoc show ?case by auto
qed

lemma to_be_inject: "v < 256 ^ k \<Longrightarrow> w < 256 ^ k \<Longrightarrow> to_be k v = to_be k w \<longleftrightarrow> v = w"
  by (metis from_be_to_be)

lemma length2_obtain:
  assumes "length xs = 2"
  obtains a b where "xs = [a, b]"
  using assms by (auto simp: numeral_2_eq_2 length_Suc_conv)

section \<open>Python strings\<close>

type_synonym pystr = "nat list"

definition lit :: "string \<Rightarrow> pystr" where
  "lit s = map of_char s"

lemma lit_Nil [simp]: "lit [] = []"
  by (simp add: lit_def)

lemma lit_eq_iff [simp]: "lit s = lit t \<longleftrightarrow> s = t"
  unfolding lit_def by (metis inj_map_eq_map inj_on_def of_char_eq_iff)

lemma lit_eq_Nil [simp]: "lit s = [] \<longleftrightarrow> s = []" "[] = lit s \<longleftrightarrow> s = []"
  by (auto simp: lit_def)

lemma length_lit [simp]: "length (lit s) = length s"
  by (simp add: lit_def)

lemma lit_append: "lit (s @ t) = lit s @ lit t"
  by (simp add: lit_def)

definition isascii :: "pystr \<Rightarrow> bool" where
  "isascii s \<longleftrightarrow> (\<forall>c \<in> set s. c < 128)"

lemma isascii_Nil [simp]: "isascii []"
  by (simp add: isascii_def)

lemma isascii_Cons [simp]: "isascii (c # s) \<longleftrightarrow> c < 128 \<and> isascii s"
  by (simp add: isascii_def)

lemma isascii_append [simp]: "isascii (s @ t) \<longleftrightarrow> isascii s \<and> isascii t"
  by (auto simp: isascii_def)

text \<open>\<open>s.encode("ascii")\<close> on an ASCII string.\<close>

definition ascii_bytes :: "pystr \<Rightarrow> bytes" where
  "ascii_bytes s = map of_nat s"

lemma length_ascii_bytes [simp]: "length (ascii_bytes s) = length s"
  by (simp add: ascii_bytes_def)

lemma ascii_bytes_eq_Nil [simp]: "ascii_bytes s = [] \<longleftrightarrow> s = []"
  by (simp add: ascii_bytes_def)

text \<open>The characters \<open>str.strip()\<close> removes and \<open>str.splitlines()\<close> breaks at.\<close>

definition is_space :: "nat \<Rightarrow> bool" where
  "is_space c \<longleftrightarrow>
     9 \<le> c \<and> c \<le> 13 \<or> 28 \<le> c \<and> c \<le> 32 \<or>
     c \<in> {0x85, 0xA0, 0x1680, 0x2028, 0x2029, 0x202F, 0x205F, 0x3000} \<or> 0x2000 \<le> c \<and> c \<le> 0x200A"

definition is_break :: "nat \<Rightarrow> bool" where
  "is_break c \<longleftrightarrow> 10 \<le> c \<and> c \<le> 13 \<or> 28 \<le> c \<and> c \<le> 30 \<or> c \<in> {0x85, 0x2028, 0x2029}"

definition lstrip :: "pystr \<Rightarrow> pystr" where
  "lstrip s = dropWhile is_space s"

definition rstrip :: "pystr \<Rightarrow> pystr" where
  "rstrip s = rev (dropWhile is_space (rev s))"

definition strip :: "pystr \<Rightarrow> pystr" where
  "strip s = rstrip (lstrip s)"

text \<open>\<open>s.rstrip(x)\<close> of one character, \<open>s.startswith(p)\<close> and \<open>s.endswith(p)\<close>.\<close>

definition rstrip_of :: "nat \<Rightarrow> pystr \<Rightarrow> pystr" where
  "rstrip_of x s = rev (dropWhile (\<lambda>c. c = x) (rev s))"

definition starts :: "pystr \<Rightarrow> pystr \<Rightarrow> bool" where
  "starts p s \<longleftrightarrow> take (length p) s = p"

definition ends :: "pystr \<Rightarrow> pystr \<Rightarrow> bool" where
  "ends p s \<longleftrightarrow> length p \<le> length s \<and> drop (length s - length p) s = p"

text \<open>\<open>sub in s\<close>.\<close>

fun contains :: "pystr \<Rightarrow> pystr \<Rightarrow> bool" where
  "contains sub [] = (sub = [])"
| "contains sub (c # s) = (starts sub (c # s) \<or> contains sub s)"

text \<open>\<open>s.split(sep)\<close> on a one-character separator; never the empty list, as in Python.\<close>

fun split_on :: "nat \<Rightarrow> pystr \<Rightarrow> pystr list" where
  "split_on sep [] = [[]]"
| "split_on sep (c # s) =
     (if c = sep then [] # split_on sep s
      else case split_on sep s of [] \<Rightarrow> [[c]] | w # ws \<Rightarrow> (c # w) # ws)"

text \<open>\<open>sep.join(parts)\<close>.\<close>

fun join_with :: "pystr \<Rightarrow> pystr list \<Rightarrow> pystr" where
  "join_with sep [] = []"
| "join_with sep [w] = w"
| "join_with sep (w # ws) = w @ sep @ join_with sep ws"

text \<open>\<open>s.partition(c)\<close> on one character: the part before, whether it occurs, the part after.\<close>

fun partition_on :: "nat \<Rightarrow> pystr \<Rightarrow> pystr \<times> bool \<times> pystr" where
  "partition_on c [] = ([], False, [])"
| "partition_on c (d # s) =
     (if d = c then ([], True, s)
      else case partition_on c s of (a, f, b) \<Rightarrow> (d # a, f, b))"

definition is_upper :: "nat \<Rightarrow> bool" where "is_upper c \<longleftrightarrow> 65 \<le> c \<and> c \<le> 90"
definition is_lower :: "nat \<Rightarrow> bool" where "is_lower c \<longleftrightarrow> 97 \<le> c \<and> c \<le> 122"
definition is_digit :: "nat \<Rightarrow> bool" where "is_digit c \<longleftrightarrow> 48 \<le> c \<and> c \<le> 57"

lemmas ascii_classes = is_upper_def is_lower_def is_digit_def

text \<open>
  \<open>str.lower()\<close> and \<open>str.upper()\<close> act here on ASCII letters, and \<open>lower\<close> also on U+212A (the
  Kelvin sign), the one other code point whose lower case is a lone ASCII letter. Other
  non-ASCII letters are left as they are: every use of \<open>lower\<close> in the SDK compares the result with
  ASCII text, which they cannot equal either way. \<open>upper\<close> is used on the HTTP method, on the name
  of an organisation that becomes part of an environment variable, and on the parts of a tool id,
  which are ASCII by its grammar: for a non-ASCII method or organisation the model keeps the letters
  as they are, where Python takes their upper case.
\<close>

definition lower_char :: "nat \<Rightarrow> nat" where
  "lower_char c = (if is_upper c then c + 32 else if c = 0x212A then 107 else c)"

definition upper_char :: "nat \<Rightarrow> nat" where
  "upper_char c = (if is_lower c then c - 32 else c)"

definition lower :: "pystr \<Rightarrow> pystr" where "lower s = map lower_char s"
definition upper :: "pystr \<Rightarrow> pystr" where "upper s = map upper_char s"

definition is_alnum :: "nat \<Rightarrow> bool" where
  "is_alnum c \<longleftrightarrow> is_upper c \<or> is_lower c \<or> is_digit c"

text \<open>\<open>re.findall\<close> of a class with \<open>+\<close>: the maximal runs.\<close>

function find_runs :: "(nat \<Rightarrow> bool) \<Rightarrow> pystr \<Rightarrow> pystr list" where
  "find_runs P s =
     (let r = dropWhile (\<lambda>c. \<not> P c) s in
      if r = [] then [] else takeWhile P r # find_runs P (dropWhile P r))"
  by pat_completeness auto
termination
proof (relation "measure (\<lambda>(P, s). length s)")
  fix P :: "nat \<Rightarrow> bool" and s r
  assume r: "r = dropWhile (\<lambda>c. \<not> P c) s" and ne: "r \<noteq> []"
  then have "P (hd r)" using hd_dropWhile [of "\<lambda>c. \<not> P c" s] by auto
  with ne have "length (dropWhile P r) < length r"
    by (cases r) (auto simp: le_imp_less_Suc length_dropWhile_le)
  moreover have "length r \<le> length s" by (simp add: r length_dropWhile_le)
  ultimately show "((P, dropWhile P r), P, s) \<in> measure (\<lambda>(P, s). length s)" by simp
qed simp

declare find_runs.simps [simp del]

lemma find_runs_all: "\<forall>c \<in> set s. P c \<Longrightarrow> find_runs P s = (if s = [] then [] else [s])"
proof -
  assume a: "\<forall>c \<in> set s. P c"
  then have tw: "takeWhile P s = s" and dw: "dropWhile P s = []" by (simp_all add: takeWhile_eq_all_conv)
  have "dropWhile (\<lambda>c. \<not> P c) s = s" using a by (cases s) auto
  moreover have "find_runs P [] = []" by (simp add: find_runs.simps)
  ultimately show ?thesis by (simp add: find_runs.simps [of P s] tw dw)
qed

lemma find_runs_Nil [simp]: "find_runs P [] = []"
  by (simp add: find_runs.simps)

lemma find_runs_step:
  assumes "\<forall>c \<in> set w. P c" and "w \<noteq> []" and "\<not> P d"
  shows "find_runs P (w @ d # s) = w # find_runs P s"
proof -
  from assms obtain c w' where w: "w = c # w'" "P c" by (cases w) auto
  have drop: "find_runs P (d # s) = find_runs P s"
    using assms(3) by (simp add: find_runs.simps [of P "d # s"] find_runs.simps [of P s])
  from assms(1,3) have "takeWhile P (w @ d # s) = w" "dropWhile P (w @ d # s) = d # s"
    by (auto simp: takeWhile_append)
  moreover have "dropWhile (\<lambda>c. \<not> P c) (w @ d # s) = w @ d # s" using w by simp
  ultimately show ?thesis using drop assms(2) by (simp add: find_runs.simps [of P "w @ d # s"])
qed

lemma find_runs_skip: "\<not> P d \<Longrightarrow> find_runs P (d # s) = find_runs P s"
  by (simp add: find_runs.simps [of P "d # s"] find_runs.simps [of P s])

lemma find_runs_parts: "w \<in> set (find_runs P s) \<Longrightarrow> w \<noteq> [] \<and> (\<forall>c \<in> set w. P c) \<and> set w \<subseteq> set s"
proof (induction P s rule: find_runs.induct)
  case (1 P s)
  let ?r = "dropWhile (\<lambda>c. \<not> P c) s"
  have r: "set ?r \<subseteq> set s" by (meson set_dropWhileD subsetI)
  from "1.prems" have ne: "?r \<noteq> []" by (auto simp: find_runs.simps [of P s] Let_def split: if_splits)
  then have "find_runs P s = takeWhile P ?r # find_runs P (dropWhile P ?r)"
    by (simp only: find_runs.simps [of P s] Let_def if_False)
  with "1.prems" consider "w = takeWhile P ?r" | "w \<in> set (find_runs P (dropWhile P ?r))"
    by auto
  then show ?case
  proof cases
    case 1
    moreover have "P (hd ?r)" using hd_dropWhile [of "\<lambda>c. \<not> P c" s] ne by auto
    ultimately show ?thesis using ne r by (cases ?r) (auto dest: set_takeWhileD)
  next
    case 2
    then have "w \<noteq> [] \<and> (\<forall>c \<in> set w. P c) \<and> set w \<subseteq> set (dropWhile P ?r)"
      using "1.IH" [OF refl ne] by blast
    then show ?thesis using r set_dropWhileD [of _ P ?r] by blast
  qed
qed

lemma split_on_ne [simp]: "split_on sep s \<noteq> []"
  by (induction s) (auto split: list.splits)

lemma join_split_on: "join_with [sep] (split_on sep s) = s"
proof (induction s)
  case Nil
  then show ?case by simp
next
  case (Cons c s)
  obtain w ws where "split_on sep s = w # ws"
    using split_on_ne [of sep s] by (cases "split_on sep s") auto
  with Cons show ?case by (cases ws) auto
qed

lemma split_on_append:
  assumes "c \<notin> set w"
  shows "split_on c w = [w]" and "split_on c (w @ c # s) = w # split_on c s"
  using assms by (induction w) auto

lemma split_join: "ws \<noteq> [] \<Longrightarrow> \<forall>w \<in> set ws. c \<notin> set w \<Longrightarrow> split_on c (join_with [c] ws) = ws"
  by (induction "[c]" ws rule: join_with.induct) (auto simp: split_on_append)

lemma split_on_parts: "w \<in> set (split_on sep s) \<Longrightarrow> sep \<notin> set w"
  by (induction s arbitrary: w) (auto split: if_splits list.splits)

lemma split_on_cover: "c \<in> set s \<Longrightarrow> c = sep \<or> (\<exists>w \<in> set (split_on sep s). c \<in> set w)"
proof (induction s)
  case Nil
  then show ?case by simp
next
  case (Cons d s)
  obtain w ws where ws: "split_on sep s = w # ws"
    using split_on_ne [of sep s] by (cases "split_on sep s") auto
  with Cons show ?case by auto
qed

lemma split_on_at: "split_on c (x @ c # y) = split_on c x @ split_on c y"
proof (induction x)
  case Nil
  then show ?case by simp
next
  case (Cons d x)
  obtain w ws where "split_on c x = w # ws" using split_on_ne [of c x] by (cases "split_on c x") auto
  with Cons show ?case by auto
qed

lemma set_split_on: "w \<in> set (split_on sep s) \<Longrightarrow> set w \<subseteq> set s"
proof (induction s arbitrary: w)
  case Nil
  then show ?case by simp
next
  case (Cons c s)
  then show ?case by (fastforce split: if_splits list.splits)
qed

lemma starts_append [simp]: "starts p (p @ s)"
  by (simp add: starts_def)

lemma starts_iff: "starts p s \<longleftrightarrow> (\<exists>t. s = p @ t)"
  unfolding starts_def by (metis append_take_drop_id append_eq_conv_conj)

lemma starts_Nil: "starts [] s"
  by (simp add: starts_def)

lemma starts_Cons: "starts (c # p) (d # s) \<longleftrightarrow> c = d \<and> starts p s" "\<not> starts (c # p) []"
  by (auto simp: starts_def)

lemma starts_lit:
  "starts (lit (c # p)) (lit (d # s)) \<longleftrightarrow> c = d \<and> starts (lit p) (lit s)"
  "\<not> starts (lit (c # p)) (lit [])" "\<not> starts (lit (c # p)) []" "starts (lit []) t"
  "starts (lit (c # p)) (x # t) \<longleftrightarrow> of_char c = x \<and> starts (lit p) t"
  by (auto simp: lit_def starts_def)

lemmas starts_eval = starts_Nil starts_Cons starts_lit

lemma partition_onD: "partition_on c s = (a, True, b) \<Longrightarrow> s = a @ c # b \<and> c \<notin> set a"
  by (induction s arbitrary: a) (auto split: if_splits prod.splits)

lemma takeWhile_mark: "(\<And>c. c \<in> set w \<Longrightarrow> c \<noteq> m) \<Longrightarrow> takeWhile (\<lambda>c. c \<noteq> m) (w @ m # s) = w"
  and dropWhile_mark: "(\<And>c. c \<in> set w \<Longrightarrow> c \<noteq> m) \<Longrightarrow> dropWhile (\<lambda>c. c \<noteq> m) (w @ m # s) = m # s"
  by (induction w) auto

lemma dropWhile_hd: "dropWhile P xs = y # ys \<Longrightarrow> \<not> P y"
  by (metis hd_dropWhile list.distinct(1) list.sel(1))

lemma strip_id:
  "s \<noteq> [] \<Longrightarrow> \<not> is_space (hd s) \<Longrightarrow> \<not> is_space (last s) \<Longrightarrow> strip s = s"
proof -
  assume ne: "s \<noteq> []" and hd: "\<not> is_space (hd s)" and last: "\<not> is_space (last s)"
  from ne hd have "lstrip s = s" by (cases s) (auto simp: lstrip_def)
  moreover from ne last have "dropWhile is_space (rev s) = rev s"
    by (cases s rule: rev_cases) auto
  ultimately show "strip s = s" by (simp add: strip_def rstrip_def)
qed

text \<open>\<open>keyword.kwlist\<close>, and the suffix of a path's last component as \<open>pathlib\<close> has it.\<close>

definition py_keywords :: "pystr list" where
  "py_keywords = map lit [''False'', ''None'', ''True'', ''and'', ''as'', ''assert'', ''async'', ''await'', ''break'',
     ''class'', ''continue'', ''def'', ''del'', ''elif'', ''else'', ''except'', ''finally'', ''for'', ''from'',
     ''global'', ''if'', ''import'', ''in'', ''is'', ''lambda'', ''nonlocal'', ''not'', ''or'', ''pass'', ''raise'',
     ''return'', ''try'', ''while'', ''with'', ''yield'']"

definition path_suffix :: "pystr \<Rightarrow> pystr" where
  "path_suffix path =
     (let name = last (split_on 47 path);
          tail = rev (takeWhile (\<lambda>c. c \<noteq> 46) (rev name))
      in if 46 \<in> set name \<and> tail \<noteq> [] \<and> length tail + 1 < length name then 46 # tail else [])"

subsection \<open>Decimal numerals\<close>

text \<open>\<open>str(n)\<close> for a non-negative \<open>n\<close>, and \<open>int(s)\<close> on a string of ASCII digits.\<close>

fun dec :: "nat \<Rightarrow> pystr" where
  "dec n = (if n < 10 then [48 + n] else dec (n div 10) @ [48 + n mod 10])"

declare dec.simps [simp del]

definition dec_value :: "pystr \<Rightarrow> nat" where
  "dec_value s = foldl (\<lambda>acc c. acc * 10 + (c - 48)) 0 s"

definition dec_int :: "int \<Rightarrow> pystr" where
  "dec_int i = (if i < 0 then lit ''-'' @ dec (nat (- i)) else dec (nat i))"

lemma dec_digits: "c \<in> set (dec n) \<Longrightarrow> is_digit c"
proof (induction n rule: dec.induct)
  case (1 n)
  show ?case
  proof (cases "n < 10")
    case True
    with "1.prems" show ?thesis by (simp add: dec.simps [of n] is_digit_def)
  next
    case False
    then have "n mod 10 < 10" by simp
    with False "1.prems" "1.IH" show ?thesis
      by (auto simp: dec.simps [of n] is_digit_def)
  qed
qed

lemma dec_ne [simp]: "dec n \<noteq> []"
  by (subst dec.simps) simp

lemma dec_value_snoc [simp]: "dec_value (s @ [c]) = dec_value s * 10 + (c - 48)"
  by (simp add: dec_value_def)

lemma dec_value_dec [simp]: "dec_value (dec n) = n"
proof (induction n rule: dec.induct)
  case (1 n)
  show ?case
  proof (cases "n < 10")
    case True
    then show ?thesis by (simp add: dec.simps [of n] dec_value_def)
  next
    case False
    with 1 show ?thesis by (simp add: dec.simps [of n])
  qed
qed

lemma dec_inject [simp]: "dec m = dec n \<longleftrightarrow> m = n"
  by (metis dec_value_dec)

lemma isascii_dec [simp]: "isascii (dec n)"
  using dec_digits by (fastforce simp: isascii_def is_digit_def)

lemma length_dec_le: "n < 10 ^ k \<Longrightarrow> 0 < k \<Longrightarrow> length (dec n) \<le> k"
proof (induction k arbitrary: n)
  case 0
  then show ?case by simp
next
  case (Suc k)
  show ?case
  proof (cases "n < 10")
    case True
    then show ?thesis by (simp add: dec.simps [of n])
  next
    case False
    with Suc.prems have "0 < k" by (cases k) auto
    moreover have "n div 10 < 10 ^ k"
      using Suc.prems by (simp add: div_less_iff_less_mult mult.commute)
    ultimately show ?thesis using Suc.IH False by (simp add: dec.simps [of n])
  qed
qed

section \<open>Actions: state passing with exceptions\<close>

text \<open>
  An action reads and writes a state and either raises (\<open>Inl\<close>) or returns (\<open>Inr\<close>); the state
  survives an exception, as it does in Python.
\<close>

type_synonym ('e, 's, 'a) act = "'s \<Rightarrow> ('e + 'a) \<times> 's"

definition ret :: "'a \<Rightarrow> ('e, 's, 'a) act" where
  "ret x s = (Inr x, s)"

definition throw :: "'e \<Rightarrow> ('e, 's, 'a) act" where
  "throw e s = (Inl e, s)"

definition lift :: "'e + 'a \<Rightarrow> ('e, 's, 'a) act" where
  "lift r s = (r, s)"

definition andthen :: "('e, 's, 'a) act \<Rightarrow> ('a \<Rightarrow> ('e, 's, 'b) act) \<Rightarrow> ('e, 's, 'b) act" where
  "andthen m f s = (case m s of (Inl e, s') \<Rightarrow> (Inl e, s') | (Inr x, s') \<Rightarrow> f x s')"

text \<open>\<open>try: m  except e: h(e)\<close>, where the handler may re-raise.\<close>

definition catch :: "('e, 's, 'a) act \<Rightarrow> ('e \<Rightarrow> ('e, 's, 'a) act) \<Rightarrow> ('e, 's, 'a) act" where
  "catch m h s = (case m s of (Inl e, s') \<Rightarrow> h e s' | (Inr x, s') \<Rightarrow> (Inr x, s'))"

lemmas [act_simps] = ret_def throw_def lift_def andthen_def catch_def

lemma andthen_Inr: "m s = (Inr x, s') \<Longrightarrow> andthen m f s = f x s'"
  by (simp add: andthen_def)

lemma andthen_Inl: "m s = (Inl e, s') \<Longrightarrow> andthen m f s = (Inl e, s')"
  by (simp add: andthen_def)

lemma andthen_InrE:
  assumes "andthen m f s = (Inr y, s'')"
  obtains x s' where "m s = (Inr x, s')" and "f x s' = (Inr y, s'')"
  using assms by (auto simp: andthen_def split: prod.splits sum.splits)

lemma catch_Inr: "m s = (Inr x, s') \<Longrightarrow> catch m h s = (Inr x, s')"
  by (simp add: catch_def)

lemma catch_Inl: "m s = (Inl e, s') \<Longrightarrow> catch m h s = h e s'"
  by (simp add: catch_def)

lemma andthen_assoc: "andthen (andthen m f) g = andthen m (\<lambda>x. andthen (f x) g)"
  by (auto simp: andthen_def fun_eq_iff split: prod.splits sum.splits)

end
