(* ===== verification/Json.thy ===== *)
theory Json
  imports Prelude
begin

text \<open>
  JSON as the SDK uses it: \<open>json.dumps\<close> with the two separator pairs of the code, \<open>json.loads\<close>,
  and UTF-8. An object is an association list in insertion order whose keys are distinct, as a
  Python \<open>dict\<close> is. A \<open>float\<close> is represented by its decimal literal.

  The decoder is recursive descent with fuel; the lemma \<open>fuel_enough\<close> shows that the length of
  the text is always enough, so \<open>None\<close> is a \<open>JSONDecodeError\<close> and never a lack of fuel.
\<close>

section \<open>Values\<close>

datatype json =
    JNull
  | JBool bool
  | JInt int
  | JFloat pystr
  | JStr pystr
  | JArr "json list"
  | JObj "(pystr \<times> json) list"

text \<open>\<open>d[k] = v\<close>: in place when the key is there, at the end otherwise.\<close>

fun upd :: "'k \<Rightarrow> 'v \<Rightarrow> ('k \<times> 'v) list \<Rightarrow> ('k \<times> 'v) list" where
  "upd k v [] = [(k, v)]"
| "upd k v ((k', v') # d) = (if k' = k then (k, v) # d else (k', v') # upd k v d)"

definition has_key :: "'k \<Rightarrow> ('k \<times> 'v) list \<Rightarrow> bool" where
  "has_key k d \<longleftrightarrow> map_of d k \<noteq> None"

lemma map_of_upd: "map_of (upd k v d) = (map_of d)(k \<mapsto> v)"
  by (induction d) auto

lemma map_of_upd_apply [simp]: "map_of (upd k v d) k' = (if k' = k then Some v else map_of d k')"
  by (simp add: map_of_upd)

lemma upd_new: "k \<notin> fst ` set d \<Longrightarrow> upd k v d = d @ [(k, v)]"
  by (induction d) auto

lemma keys_upd [simp]: "fst ` set (upd k v d) = insert k (fst ` set d)"
  by (induction k v d rule: upd.induct) (simp_all add: insert_commute)

lemma distinct_upd [simp]: "distinct (map fst d) \<Longrightarrow> distinct (map fst (upd k v d))"
proof (induction d)
  case Nil
  then show ?case by simp
next
  case (Cons p d)
  then show ?case
    using keys_upd [of k v d] by (cases p) (auto simp del: keys_upd)
qed

text \<open>\<open>d.update(kvs)\<close>.\<close>

definition update_all :: "('k \<times> 'v) list \<Rightarrow> ('k \<times> 'v) list \<Rightarrow> ('k \<times> 'v) list" where
  "update_all kvs d = foldl (\<lambda>d (k, v). upd k v d) d kvs"

lemma map_of_update_all: "map_of (update_all kvs d) = map_of d ++ map_of (rev kvs)"
proof (induction kvs arbitrary: d)
  case Nil
  then show ?case by (simp add: update_all_def)
next
  case (Cons p kvs)
  have "map_of (update_all (p # kvs) d) = map_of (update_all kvs (upd (fst p) (snd p) d))"
    by (cases p) (simp add: update_all_def)
  also have "\<dots> = map_of (upd (fst p) (snd p) d) ++ map_of (rev kvs)" by (rule Cons)
  finally show ?case by (cases p) (auto simp: fun_eq_iff map_add_def split: option.split)
qed

lemma keys_update_all: "fst ` set (update_all kvs d) = fst ` set kvs \<union> fst ` set d"
proof (induction kvs arbitrary: d)
  case Nil
  then show ?case by (simp add: update_all_def)
next
  case (Cons p kvs)
  then have "fst ` set (update_all kvs (upd (fst p) (snd p) d)) = fst ` set kvs \<union> insert (fst p) (fst ` set d)" by simp
  then show ?case by (cases p) (simp add: update_all_def)
qed

lemma distinct_update_all: "distinct (map fst d) \<Longrightarrow> distinct (map fst (update_all kvs d))"
  by (induction kvs arbitrary: d) (auto simp: update_all_def)

section \<open>Encoding\<close>

definition hex_nibble :: "nat \<Rightarrow> nat" where
  "hex_nibble d = (if d < 10 then 48 + d else 87 + d)"

definition hex4 :: "nat \<Rightarrow> pystr" where
  "hex4 n = map hex_nibble [n div 4096 mod 16, n div 256 mod 16, n div 16 mod 16, n mod 16]"

definition u_escape :: "nat \<Rightarrow> pystr" where
  "u_escape n = [92, 117] @ hex4 n"

text \<open>Outside the basic plane \<open>ensure_ascii\<close> writes a surrogate pair.\<close>

definition high_part :: "nat \<Rightarrow> nat" where "high_part c = 0xD800 + (c - 0x10000) div 1024"
definition low_part :: "nat \<Rightarrow> nat" where "low_part c = 0xDC00 + (c - 0x10000) mod 1024"

definition escape_char :: "nat \<Rightarrow> pystr" where
  "escape_char c =
     (if c = 34 \<or> c = 92 then [92, c]
      else if c = 10 then [92, 110] else if c = 13 then [92, 114] else if c = 9 then [92, 116]
      else if c = 12 then [92, 102] else if c = 8 then [92, 98]
      else if 32 \<le> c \<and> c \<le> 126 then [c]
      else if c < 0x10000 then u_escape c
      else u_escape (high_part c) @ u_escape (low_part c))"

definition quote :: "pystr \<Rightarrow> pystr" where
  "quote s = [34] @ concat (map escape_char s) @ [34]"

text \<open>The separators: \<open>(",", ":")\<close> or the default \<open>(", ", ": ")\<close>.\<close>

record seps =
  item_sep :: pystr
  key_sep :: pystr

definition compact :: seps where "compact = \<lparr>item_sep = [44], key_sep = [58]\<rparr>"
definition spaced :: seps where "spaced = \<lparr>item_sep = [44, 32], key_sep = [58, 32]\<rparr>"

fun dumps :: "seps \<Rightarrow> json \<Rightarrow> pystr" where
  "dumps st JNull = lit ''null''"
| "dumps st (JBool b) = (if b then lit ''true'' else lit ''false'')"
| "dumps st (JInt i) = dec_int i"
| "dumps st (JFloat r) = r"
| "dumps st (JStr s) = quote s"
| "dumps st (JArr js) = [91] @ join_with (item_sep st) (map (dumps st) js) @ [93]"
| "dumps st (JObj kvs) =
     [123] @ join_with (item_sep st) (map (\<lambda>(k, v). quote k @ key_sep st @ dumps st v) kvs) @ [125]"

section \<open>Decoding\<close>

definition is_ws :: "nat \<Rightarrow> bool" where
  "is_ws c \<longleftrightarrow> c = 32 \<or> c = 9 \<or> c = 10 \<or> c = 13"

definition skip :: "pystr \<Rightarrow> pystr" where
  "skip s = dropWhile is_ws s"

definition hex_value :: "nat \<Rightarrow> nat option" where
  "hex_value c =
     (if 48 \<le> c \<and> c \<le> 57 then Some (c - 48)
      else if 97 \<le> c \<and> c \<le> 102 then Some (c - 87)
      else if 65 \<le> c \<and> c \<le> 70 then Some (c - 55) else None)"

definition hex4_value :: "nat \<Rightarrow> nat \<Rightarrow> nat \<Rightarrow> nat \<Rightarrow> nat option" where
  "hex4_value a b c d =
     (case (hex_value a, hex_value b, hex_value c, hex_value d) of
        (Some w, Some x, Some y, Some z) \<Rightarrow> Some (w * 4096 + x * 256 + y * 16 + z)
      | _ \<Rightarrow> None)"

definition simple_escape :: "nat \<Rightarrow> nat option" where
  "simple_escape e =
     (if e = 34 \<or> e = 92 \<or> e = 47 then Some e
      else if e = 110 then Some 10 else if e = 114 then Some 13 else if e = 116 then Some 9
      else if e = 102 then Some 12 else if e = 98 then Some 8 else None)"

text \<open>A string is first read as units, each marked when it was written as \<open>\u....\<close>; then an
  escaped high surrogate and an escaped low one become one code point.\<close>

fun units :: "pystr \<Rightarrow> ((bool \<times> nat) list \<times> pystr) option" where
  "units [] = None"
| "units (c # s) =
     (if c = 34 then Some ([], s)
      else if c = 92 then
        (case s of
           [] \<Rightarrow> None
         | e # s1 \<Rightarrow>
             if e = 117 then
               (case s1 of
                  h1 # h2 # h3 # h4 # s2 \<Rightarrow>
                    (case hex4_value h1 h2 h3 h4 of
                       None \<Rightarrow> None
                     | Some u \<Rightarrow> (case units s2 of None \<Rightarrow> None | Some (us, r) \<Rightarrow> Some ((True, u) # us, r)))
                | _ \<Rightarrow> None)
             else
               (case simple_escape e of
                  None \<Rightarrow> None
                | Some u \<Rightarrow> (case units s1 of None \<Rightarrow> None | Some (us, r) \<Rightarrow> Some ((False, u) # us, r))))
      else if c < 32 then None
      else (case units s of None \<Rightarrow> None | Some (us, r) \<Rightarrow> Some ((False, c) # us, r)))"

definition is_high :: "nat \<Rightarrow> bool" where "is_high u \<longleftrightarrow> 0xD800 \<le> u \<and> u < 0xDC00"
definition is_low :: "nat \<Rightarrow> bool" where "is_low u \<longleftrightarrow> 0xDC00 \<le> u \<and> u < 0xE000"

fun merge_units :: "(bool \<times> nat) list \<Rightarrow> pystr" where
  "merge_units [] = []"
| "merge_units [(e, u)] = [u]"
| "merge_units ((e, u) # (f, v) # us) =
     (if e \<and> f \<and> is_high u \<and> is_low v
      then (0x10000 + (u - 0xD800) * 1024 + (v - 0xDC00)) # merge_units us
      else u # merge_units ((f, v) # us))"

definition scan_string :: "pystr \<Rightarrow> (pystr \<times> pystr) option" where
  "scan_string s = map_option (\<lambda>(us, r). (merge_units us, r)) (units s)"

text \<open>Numbers: \<open>-?(0|[1-9]\d*)(\.\d+)?([eE][-+]?\d+)?\<close>.\<close>

definition lex_int :: "pystr \<Rightarrow> (pystr \<times> pystr) option" where
  "lex_int s =
     (case s of
        [] \<Rightarrow> None
      | c # r \<Rightarrow> if c = 48 then Some ([48], r)
                 else if is_digit c then Some (takeWhile is_digit s, dropWhile is_digit s) else None)"

definition lex_frac :: "pystr \<Rightarrow> pystr \<times> pystr" where
  "lex_frac s =
     (case s of
        [] \<Rightarrow> ([], [])
      | c # r \<Rightarrow> if c = 46 \<and> takeWhile is_digit r \<noteq> [] then (46 # takeWhile is_digit r, dropWhile is_digit r)
                 else ([], s))"

definition lex_sign :: "pystr \<Rightarrow> pystr \<times> pystr" where
  "lex_sign s = (case s of [] \<Rightarrow> ([], []) | d # r \<Rightarrow> if d = 43 \<or> d = 45 then ([d], r) else ([], s))"

definition lex_exp :: "pystr \<Rightarrow> pystr \<times> pystr" where
  "lex_exp s =
     (case s of
        [] \<Rightarrow> ([], [])
      | c # r \<Rightarrow>
          if c = 69 \<or> c = 101 then
            (case lex_sign r of (sg, r1) \<Rightarrow>
               if takeWhile is_digit r1 \<noteq> [] then (c # sg @ takeWhile is_digit r1, dropWhile is_digit r1)
               else ([], s))
          else ([], s))"

definition lex_unsigned :: "pystr \<Rightarrow> (pystr \<times> pystr \<times> pystr) option" where
  "lex_unsigned s =
     (case lex_int s of
        None \<Rightarrow> None
      | Some (i, s1) \<Rightarrow> (case lex_frac s1 of (f, s2) \<Rightarrow> case lex_exp s2 of (e, s3) \<Rightarrow> Some (i, f @ e, s3)))"

definition lex_num :: "pystr \<Rightarrow> (json \<times> pystr) option" where
  "lex_num s =
     (case s of
        [] \<Rightarrow> None
      | c # r \<Rightarrow>
          if c = 45 then
            (case lex_unsigned r of
               None \<Rightarrow> None
             | Some (i, fe, s') \<Rightarrow>
                 Some (if fe = [] then JInt (- int (dec_value i)) else JFloat (45 # i @ fe), s'))
          else
            (case lex_unsigned s of
               None \<Rightarrow> None
             | Some (i, fe, s') \<Rightarrow> Some (if fe = [] then JInt (int (dec_value i)) else JFloat (i @ fe), s')))"

definition word_after :: "pystr \<Rightarrow> pystr \<Rightarrow> pystr option" where
  "word_after w s = (if starts w s then Some (drop (length w) s) else None)"

definition scan_atom :: "pystr \<Rightarrow> (json \<times> pystr) option" where
  "scan_atom s =
     (case word_after (lit ''null'') s of Some r \<Rightarrow> Some (JNull, r) | None \<Rightarrow>
      case word_after (lit ''true'') s of Some r \<Rightarrow> Some (JBool True, r) | None \<Rightarrow>
      case word_after (lit ''false'') s of Some r \<Rightarrow> Some (JBool False, r) | None \<Rightarrow>
      case lex_num s of Some x \<Rightarrow> Some x | None \<Rightarrow>
      case word_after (lit ''NaN'') s of Some r \<Rightarrow> Some (JFloat (lit ''NaN''), r) | None \<Rightarrow>
      case word_after (lit ''Infinity'') s of Some r \<Rightarrow> Some (JFloat (lit ''Infinity''), r) | None \<Rightarrow>
      case word_after (lit ''-Infinity'') s of Some r \<Rightarrow> Some (JFloat (lit ''-Infinity''), r) | None \<Rightarrow> None)"

fun scan_value :: "nat \<Rightarrow> pystr \<Rightarrow> (json \<times> pystr) option"
  and scan_items :: "nat \<Rightarrow> json list \<Rightarrow> pystr \<Rightarrow> (json \<times> pystr) option"
  and scan_members :: "nat \<Rightarrow> (pystr \<times> json) list \<Rightarrow> pystr \<Rightarrow> (json \<times> pystr) option" where
  "scan_value 0 s = None"
| "scan_value (Suc n) s =
     (case s of
        [] \<Rightarrow> None
      | c # t \<Rightarrow>
          if c = 34 then map_option (\<lambda>(x, r). (JStr x, r)) (scan_string t)
          else if c = 123 then
            (case skip t of
               [] \<Rightarrow> None
             | d # r \<Rightarrow> if d = 125 then Some (JObj [], r) else scan_members n [] (d # r))
          else if c = 91 then
            (case skip t of
               [] \<Rightarrow> None
             | d # r \<Rightarrow> if d = 93 then Some (JArr [], r) else scan_items n [] (d # r))
          else scan_atom s)"
| "scan_items 0 acc s = None"
| "scan_items (Suc n) acc s =
     (case scan_value n s of
        None \<Rightarrow> None
      | Some (v, r) \<Rightarrow>
          (case skip r of
             [] \<Rightarrow> None
           | d # r1 \<Rightarrow>
               if d = 93 then Some (JArr (acc @ [v]), r1)
               else if d = 44 then scan_items n (acc @ [v]) (skip r1)
               else None))"
| "scan_members 0 acc s = None"
| "scan_members (Suc n) acc s =
     (case s of
        [] \<Rightarrow> None
      | q # t \<Rightarrow>
          if q \<noteq> 34 then None
          else (case scan_string t of
             None \<Rightarrow> None
           | Some (k, r) \<Rightarrow>
               (case skip r of
                  [] \<Rightarrow> None
                | d # r1 \<Rightarrow>
                    if d \<noteq> 58 then None
                    else (case scan_value n (skip r1) of
                       None \<Rightarrow> None
                     | Some (v, r2) \<Rightarrow>
                         (case skip r2 of
                            [] \<Rightarrow> None
                          | e # r3 \<Rightarrow>
                              if e = 125 then Some (JObj (upd k v acc), r3)
                              else if e = 44 then scan_members n (upd k v acc) (skip r3)
                              else None)))))"

definition loads :: "pystr \<Rightarrow> json option" where
  "loads s =
     (case scan_value (2 * length s + 1) (skip s) of
        None \<Rightarrow> None
      | Some (v, r) \<Rightarrow> if skip r = [] then Some v else None)"


section \<open>The fuel is enough\<close>

lemma length_skip: "length (skip s) \<le> length s"
  by (simp add: skip_def length_dropWhile_le)

lemma skip_Cons_length: "skip s = c # r \<Longrightarrow> length r < length s"
  using length_skip [of s] by simp

lemma units_shrink: "units s = Some (us, r) \<Longrightarrow> length r < length s"
  by (induction s arbitrary: us r rule: units.induct)
     (fastforce split: if_splits option.splits list.splits)+

lemma scan_string_shrink: "scan_string s = Some (x, r) \<Longrightarrow> length r < length s"
  by (auto simp: scan_string_def dest: units_shrink)

lemma word_after_shrink: "word_after w s = Some r \<Longrightarrow> w \<noteq> [] \<Longrightarrow> length r < length s"
  unfolding word_after_def starts_iff by (auto split: if_splits)

lemma lex_int_shrink: "lex_int s = Some (i, r) \<Longrightarrow> length r < length s"
  by (auto simp: lex_int_def le_imp_less_Suc length_dropWhile_le split: list.splits if_splits)

lemma lex_frac_shrink: "lex_frac s = (f, r) \<Longrightarrow> length r \<le> length s"
  by (auto simp: lex_frac_def le_SucI length_dropWhile_le split: list.splits if_splits)

lemma lex_exp_shrink: "lex_exp s = (e, r) \<Longrightarrow> length r \<le> length s"
  by (auto simp: lex_exp_def lex_sign_def le_SucI length_dropWhile_le split: list.splits if_splits)

lemma lex_unsigned_shrink: "lex_unsigned s = Some (i, fe, r) \<Longrightarrow> length r < length s"
  by (auto simp: lex_unsigned_def split: option.splits prod.splits
      dest!: lex_int_shrink lex_frac_shrink lex_exp_shrink)

lemma lex_num_shrink: "lex_num s = Some (v, r) \<Longrightarrow> length r < length s"
  by (fastforce simp: lex_num_def split: list.splits option.splits if_splits
      dest!: lex_unsigned_shrink)

lemma scan_atom_shrink: "scan_atom s = Some (v, r) \<Longrightarrow> length r < length s"
  by (auto simp: scan_atom_def split: option.splits dest!: lex_num_shrink word_after_shrink)

lemma scan_items_SucE:
  assumes "scan_items (Suc n) acc s = Some (w, r)"
  obtains v r0 d r1 where "scan_value n s = Some (v, r0)" and "skip r0 = d # r1"
    and "d = 93 \<and> r = r1 \<or> d = 44 \<and> scan_items n (acc @ [v]) (skip r1) = Some (w, r)"
  using assms by (auto split: list.splits if_splits option.splits)

lemma scan_members_SucE:
  assumes "scan_members (Suc n) acc s = Some (w, r)"
  obtains t k r0 r1 v r2 e r3 where "s = 34 # t" and "scan_string t = Some (k, r0)"
    and "skip r0 = 58 # r1" and "scan_value n (skip r1) = Some (v, r2)" and "skip r2 = e # r3"
    and "e = 125 \<and> r = r3 \<or> e = 44 \<and> scan_members n (upd k v acc) (skip r3) = Some (w, r)"
  using assms by (auto split: list.splits if_splits option.splits)

lemma scan_shrink:
  "(\<forall>s v r. scan_value n s = Some (v, r) \<longrightarrow> length r < length s) \<and>
   (\<forall>acc s v r. scan_items n acc s = Some (v, r) \<longrightarrow> length r < length s) \<and>
   (\<forall>acc s v r. scan_members n acc s = Some (v, r) \<longrightarrow> length r < length s)"
proof (induction n)
  case 0
  then show ?case by simp
next
  case (Suc n)
  have v: "length r < length s" if "scan_value (Suc n) s = Some (v, r)" for s v r
    using that Suc.IH
    by (fastforce split: list.splits if_splits dest: scan_string_shrink scan_atom_shrink skip_Cons_length)
  have i: "length r < length s" if it: "scan_items (Suc n) acc s = Some (w, r)" for acc s w r
    using it
  proof (rule scan_items_SucE)
    fix v r0 d r1
    assume a: "scan_value n s = Some (v, r0)" "skip r0 = d # r1"
      and "d = 93 \<and> r = r1 \<or> d = 44 \<and> scan_items n (acc @ [v]) (skip r1) = Some (w, r)"
    then have "length r \<le> length r1" using Suc.IH length_skip [of r1] by fastforce
    with a Suc.IH skip_Cons_length [of r0] show ?thesis by fastforce
  qed
  have m: "length r < length s" if it: "scan_members (Suc n) acc s = Some (w, r)" for acc s w r
    using it
  proof (rule scan_members_SucE)
    fix t k r0 r1 v r2 e r3
    assume a: "s = 34 # t" "scan_string t = Some (k, r0)" "skip r0 = 58 # r1"
      "scan_value n (skip r1) = Some (v, r2)" "skip r2 = e # r3"
      and "e = 125 \<and> r = r3 \<or> e = 44 \<and> scan_members n (upd k v acc) (skip r3) = Some (w, r)"
    then have "length r \<le> length r3" using Suc.IH length_skip [of r3] by fastforce
    moreover have "length r3 < length r2" using a(5) by (rule skip_Cons_length)
    moreover have "length r2 < length (skip r1)" using a(4) Suc.IH by blast
    moreover have "length (skip r1) \<le> length r1" by (rule length_skip)
    moreover have "length r1 < length r0" using a(3) by (rule skip_Cons_length)
    moreover have "length r0 < length t" using a(2) by (rule scan_string_shrink)
    ultimately show ?thesis using a(1) by simp
  qed
  from v i m show ?case by blast
qed

lemmas scan_value_shrink = scan_shrink [THEN conjunct1, rule_format]


lemma fuel_step:
  "(\<forall>s. 2 * length s + 1 \<le> n \<longrightarrow> scan_value (Suc n) s = scan_value n s) \<and>
   (\<forall>acc s. 2 * length s + 2 \<le> n \<longrightarrow> scan_items (Suc n) acc s = scan_items n acc s) \<and>
   (\<forall>acc s. 2 * length s + 2 \<le> n \<longrightarrow> scan_members (Suc n) acc s = scan_members n acc s)"
proof (induction n)
  case 0
  then show ?case by simp
next
  case (Suc n)
  from Suc.IH have ih: "2 * length s + 1 \<le> n \<Longrightarrow> scan_value (Suc n) s = scan_value n s"
    "2 * length s + 2 \<le> n \<Longrightarrow> scan_items (Suc n) acc s = scan_items n acc s"
    "2 * length s + 2 \<le> n \<Longrightarrow> scan_members (Suc n) acc' s = scan_members n acc' s" for s acc acc'
    by blast+
  have v: "scan_value (Suc (Suc n)) s = scan_value (Suc n) s" if "2 * length s + 1 \<le> Suc n" for s
  proof (cases s)
    case (Cons c t)
    have "2 * length (d # r) + 2 \<le> n" if "skip t = d # r" for d r
      using \<open>2 * length s + 1 \<le> Suc n\<close> Cons length_skip [of t] that by simp
    with ih(2,3) Cons show ?thesis
      unfolding scan_value.simps(2) [of "Suc n"] scan_value.simps(2) [of n]
      by (auto simp del: scan_value.simps scan_items.simps scan_members.simps split: list.split)
  qed simp
  have i: "scan_items (Suc (Suc n)) acc s = scan_items (Suc n) acc s" if len: "2 * length s + 2 \<le> Suc n" for acc s
  proof -
    have "2 * length (skip r1) + 2 \<le> n" if "scan_value n s = Some (w, r)" "skip r = d # r1" for w r d r1
      using len scan_value_shrink [OF that(1)] skip_Cons_length [OF that(2)] length_skip [of r1] by simp
    with ih(1) [of s] ih(2) len show ?thesis
      unfolding scan_items.simps(2) [of "Suc n"] scan_items.simps(2) [of n]
      by (auto simp del: scan_value.simps scan_items.simps scan_members.simps split: option.split list.split)
  qed
  have m: "scan_members (Suc (Suc n)) acc s = scan_members (Suc n) acc s" if len: "2 * length s + 2 \<le> Suc n" for acc s
  proof (cases s)
    case (Cons q t)
    have 1: "2 * length (skip r1) + 1 \<le> n" if "scan_string t = Some (k, r)" "skip r = d # r1" for k r d r1
      using len Cons scan_string_shrink [OF that(1)] skip_Cons_length [OF that(2)] length_skip [of r1] by simp
    have 2: "2 * length (skip r3) + 2 \<le> n"
      if "scan_string t = Some (k, r)" "skip r = d # r1" "scan_value n (skip r1) = Some (w, r2)" "skip r2 = e # r3"
      for k r d r1 w r2 e r3
      using 1 [OF that(1,2)] scan_value_shrink [OF that(3)] skip_Cons_length [OF that(4)] length_skip [of r3]
      by simp
    from 1 2 ih(1,3) Cons show ?thesis
      unfolding scan_members.simps(2) [of "Suc n"] scan_members.simps(2) [of n]
      by (auto simp del: scan_value.simps scan_items.simps scan_members.simps split: option.split list.split)
  qed simp
  from v i m show ?case by blast
qed

lemma fuel_enough: "2 * length s + 1 \<le> n \<Longrightarrow> scan_value n s = scan_value (2 * length s + 1) s"
proof (induction n rule: dec_induct)
  case base
  then show ?case by simp
next
  case (step n)
  then show ?case using fuel_step [of n] by simp
qed


section \<open>Round trip\<close>

subsection \<open>Strings\<close>

fun no_pair :: "pystr \<Rightarrow> bool" where
  "no_pair (c # d # s) = (\<not> (is_high c \<and> is_low d) \<and> no_pair (d # s))"
| "no_pair _ = True"

text \<open>Strings that JSON can carry: code points, without a high surrogate before a low one (which
  the decoder would join; no such string comes from decoding UTF-8).\<close>

definition wf_str :: "pystr \<Rightarrow> bool" where
  "wf_str s \<longleftrightarrow> (\<forall>c \<in> set s. c < 0x110000) \<and> no_pair s"

definition unit_of :: "nat \<Rightarrow> (bool \<times> nat) list" where
  "unit_of c =
     (if c = 34 \<or> c = 92 \<or> c \<in> {8, 9, 10, 12, 13} \<or> 32 \<le> c \<and> c \<le> 126 then [(False, c)]
      else if c < 0x10000 then [(True, c)] else [(True, high_part c), (True, low_part c)])"

lemma hex_value_nibble: "d < 16 \<Longrightarrow> hex_value (hex_nibble d) = Some d"
  by (auto simp: hex_value_def hex_nibble_def)

lemma digits16:
  "(n :: nat) = b * 16 + r0 \<Longrightarrow> b = c * 16 + r1 \<Longrightarrow> c = d * 16 + r2 \<Longrightarrow>
     d * 4096 + r2 * 256 + r1 * 16 + r0 = n"
  by simp

lemma hex4_value_hex4:
  assumes "n < 65536"
  shows "hex4_value (hex_nibble (n div 4096 mod 16)) (hex_nibble (n div 256 mod 16))
      (hex_nibble (n div 16 mod 16)) (hex_nibble (n mod 16)) = Some n"
proof -
  have nib: "hex_value (hex_nibble (m mod 16)) = Some (m mod 16)" for m
    by (rule hex_value_nibble) simp
  have top: "n div 4096 mod 16 = n div 4096" using assms by simp
  have d: "n div 256 = n div 16 div 16" "n div 4096 = n div 16 div 16 div 16"
    by (simp_all flip: div_mult2_eq)
  have "n div 4096 * 4096 + n div 256 mod 16 * 256 + n div 16 mod 16 * 16 + n mod 16 = n"
    unfolding d by (rule digits16 [where b = "n div 16" and c = "n div 16 div 16"]) (rule div_mult_mod_eq [symmetric])+
  then have sum: "n div 4096 mod 16 * 4096 + n div 256 mod 16 * 256 + n div 16 mod 16 * 16 + n mod 16 = n"
    by (simp only: top)
  show ?thesis by (simp only: hex4_value_def nib sum prod.case option.case)
qed

lemma units_u_escape:
  "n < 65536 \<Longrightarrow> units (u_escape n @ t) = map_option (\<lambda>(us, r). ((True, n) # us, r)) (units t)"
  using hex4_value_hex4 [of n] by (simp add: u_escape_def hex4_def split: option.split)

lemma units_escape:
  "c < 0x110000 \<Longrightarrow> units (escape_char c @ t) = map_option (\<lambda>(us, r). (unit_of c @ us, r)) (units t)"
proof (cases "c < 0x10000")
  case True
  then show ?thesis
    by (auto simp: escape_char_def unit_of_def simple_escape_def units_u_escape split: option.split)
next
  case False
  moreover assume "c < 0x110000"
  ultimately have "high_part c < 65536" "low_part c < 65536"
    by (auto simp: high_part_def low_part_def less_diff_conv2 div_less_iff_less_mult)
  with False show ?thesis
    by (simp add: escape_char_def unit_of_def units_u_escape option.map_comp comp_def split_def)
qed

lemma units_quoted:
  "\<forall>c \<in> set s. c < 0x110000 \<Longrightarrow>
     units (concat (map escape_char s) @ 34 # r) = Some (concat (map unit_of s), r)"
  by (induction s) (simp_all add: units_escape)

lemma surrogate_parts:
  assumes "0x10000 \<le> c" and "c < 0x110000"
  shows "is_high (high_part c)" and "is_low (low_part c)"
    and "0x10000 + (high_part c - 0xD800) * 1024 + (low_part c - 0xDC00) = c"
  using assms by (auto simp: high_part_def low_part_def is_high_def is_low_def)

lemma merge_units_of:
  "wf_str s \<Longrightarrow> merge_units (concat (map unit_of s)) = s"
proof (induction s)
  case Nil
  then show ?case by simp
next
  case (Cons c s)
  from Cons.prems have c: "c < 0x110000" and "wf_str s" by (cases s; auto simp: wf_str_def)+
  with Cons.IH have ih: "merge_units (concat (map unit_of s)) = s" by blast
  show ?case
  proof (cases "c < 0x10000")
    case False
    with c have "merge_units (concat (map unit_of (c # s))) = c # merge_units (concat (map unit_of s))"
      using surrogate_parts [of c] by (simp add: unit_of_def)
    with ih show ?thesis by simp
  next
    case True
    then have "\<exists>e. unit_of c = [(e, c)]" by (auto simp: unit_of_def)
    then obtain e where e: "unit_of c = [(e, c)]" by blast
    show ?thesis
    proof (cases s)
      case Nil
      with e show ?thesis by simp
    next
      case (Cons d s')
      have "\<exists>f v us. unit_of d = (f, v) # us" by (auto simp: unit_of_def)
      then obtain f v us where d: "unit_of d = (f, v) # us" by blast
      have "\<not> (is_high c \<and> is_low v)"
        using Cons Cons.prems d surrogate_parts [of d]
        by (auto simp: wf_str_def unit_of_def is_high_def is_low_def split: if_splits)
      with e d Cons have "merge_units (concat (map unit_of (c # s))) = c # merge_units (concat (map unit_of s))"
        by auto
      with ih show ?thesis by simp
    qed
  qed
qed

lemma scan_quote:
  "wf_str s \<Longrightarrow> scan_string (concat (map escape_char s) @ 34 # r) = Some (s, r)"
  by (simp add: scan_string_def units_quoted wf_str_def merge_units_of)


subsection \<open>Numbers\<close>

definition stops :: "pystr \<Rightarrow> bool" where
  "stops r \<longleftrightarrow> (case r of [] \<Rightarrow> True | c # _ \<Rightarrow> \<not> is_digit c \<and> c \<notin> {43, 45, 46, 69, 101})"

lemma takeWhile_stops: "stops r \<Longrightarrow> takeWhile is_digit (s @ r) = takeWhile is_digit s"
  by (induction s) (auto simp: stops_def split: list.splits)

lemma dropWhile_stops: "stops r \<Longrightarrow> dropWhile is_digit (s @ r) = dropWhile is_digit s @ r"
  by (induction s) (auto simp: stops_def split: list.splits)

lemma lex_int_stops: "lex_int s = Some (i, s1) \<Longrightarrow> stops r \<Longrightarrow> lex_int (s @ r) = Some (i, s1 @ r)"
  using takeWhile_stops [of r s] dropWhile_stops [of r s]
  by (auto simp: lex_int_def split: list.splits if_splits)

lemma lex_frac_stops: "lex_frac s = (f, s1) \<Longrightarrow> stops r \<Longrightarrow> lex_frac (s @ r) = (f, s1 @ r)"
proof (cases s)
  case Nil
  assume "lex_frac s = (f, s1)" "stops r"
  with Nil show ?thesis by (cases r) (auto simp: lex_frac_def stops_def)
next
  case (Cons c s')
  assume "lex_frac s = (f, s1)" "stops r"
  with Cons takeWhile_stops [of r s'] dropWhile_stops [of r s'] show ?thesis
    by (auto simp: lex_frac_def split: if_splits)
qed

lemma lex_sign_stops: "lex_sign s = (f, s1) \<Longrightarrow> stops r \<Longrightarrow> lex_sign (s @ r) = (f, s1 @ r)"
  by (cases s; cases r) (auto simp: lex_sign_def stops_def split: if_splits)

lemma lex_exp_stops: "lex_exp s = (f, s1) \<Longrightarrow> stops r \<Longrightarrow> lex_exp (s @ r) = (f, s1 @ r)"
proof (cases s)
  case Nil
  assume "lex_exp s = (f, s1)" "stops r"
  with Nil show ?thesis by (cases r) (auto simp: lex_exp_def stops_def)
next
  case (Cons c s')
  assume a: "lex_exp s = (f, s1)" "stops r"
  obtain sg s2 where sg: "lex_sign s' = (sg, s2)" by force
  from Cons a lex_sign_stops [OF sg a(2)] sg takeWhile_stops [of r s2] dropWhile_stops [of r s2]
  show ?thesis by (auto simp: lex_exp_def split: if_splits)
qed

lemma lex_unsigned_stops:
  "lex_unsigned s = Some (i, fe, s1) \<Longrightarrow> stops r \<Longrightarrow> lex_unsigned (s @ r) = Some (i, fe, s1 @ r)"
  by (auto simp: lex_unsigned_def lex_int_stops lex_frac_stops lex_exp_stops split: option.splits prod.splits
      dest: lex_int_stops lex_frac_stops lex_exp_stops)

lemma lex_num_stops: "lex_num s = Some (v, s1) \<Longrightarrow> stops r \<Longrightarrow> lex_num (s @ r) = Some (v, s1 @ r)"
  using lex_unsigned_stops [where r = r]
  by (fastforce simp: lex_num_def split: list.splits if_splits option.splits)

lemma takeWhile_dec: "takeWhile is_digit (dec n) = dec n" "dropWhile is_digit (dec n) = []"
  using dec_digits by (auto simp: takeWhile_eq_all_conv dropWhile_eq_Nil_conv)

lemma hd_dec_zero: "hd (dec n) = 48 \<longleftrightarrow> n = 0"
proof (induction n rule: dec.induct)
  case (1 n)
  then show ?case by (cases "n < 10") (auto simp: dec.simps [of n])
qed

lemma lex_unsigned_dec: "lex_unsigned (dec n) = Some (dec n, [], [])"
proof -
  obtain c t where d: "dec n = c # t" by (cases "dec n") auto
  have "lex_int (dec n) = Some (dec n, [])"
  proof (cases "n = 0")
    case True
    then show ?thesis by (simp add: lex_int_def dec.simps [of 0])
  next
    case False
    with hd_dec_zero [of n] d have "c \<noteq> 48" by simp
    moreover have "is_digit c" using dec_digits [of c n] d by simp
    ultimately show ?thesis
      using takeWhile_dec [of n] d by (simp add: lex_int_def)
  qed
  then show ?thesis by (simp add: lex_unsigned_def lex_frac_def lex_exp_def)
qed

lemma lex_num_dec_int: "lex_num (dec_int i) = Some (JInt i, [])"
proof (cases "i < 0")
  case True
  then show ?thesis by (simp add: dec_int_def lex_num_def lit_def lex_unsigned_dec)
next
  case False
  obtain c t where d: "dec (nat i) = c # t" by (cases "dec (nat i)") auto
  then have "is_digit c" using dec_digits [of c "nat i"] by simp
  then have "c \<noteq> 45" by (auto simp: is_digit_def)
  moreover have "dec_value (c # t) = nat i" using dec_value_dec [of "nat i"] d by simp
  ultimately show ?thesis
    using False d lex_unsigned_dec [of "nat i"] by (simp add: dec_int_def lex_num_def)
qed

lemma lex_num_first: "lex_num (c # s) = Some x \<Longrightarrow> c = 45 \<or> is_digit c"
  by (auto simp: lex_num_def lex_unsigned_def lex_int_def is_digit_def split: if_splits option.splits)

lemma scan_atom_num:
  assumes "lex_num s = Some (v, r)"
  shows "scan_atom s = Some (v, r)"
proof -
  from assms obtain c t where s: "s = c # t" by (cases s) (auto simp: lex_num_def)
  from lex_num_first [of c t] assms s have "c = 45 \<or> is_digit c" by simp
  then have "word_after (lit ''null'') s = None" "word_after (lit ''true'') s = None"
    "word_after (lit ''false'') s = None"
    by (auto simp: s word_after_def starts_def lit_def is_digit_def)
  with assms show ?thesis by (simp add: scan_atom_def)
qed


subsection \<open>Values\<close>

fun wf_json :: "json \<Rightarrow> bool" where
  "wf_json (JFloat r) = (lex_num r = Some (JFloat r, []))"
| "wf_json (JStr s) = wf_str s"
| "wf_json (JArr js) = (\<forall>j \<in> set js. wf_json j)"
| "wf_json (JObj kvs) = (distinct (map fst kvs) \<and> (\<forall>(k, v) \<in> set kvs. wf_str k \<and> wf_json v))"
| "wf_json _ = True"

definition wf_seps :: "seps \<Rightarrow> bool" where
  "wf_seps st \<longleftrightarrow>
     (case item_sep st of [] \<Rightarrow> False | c # w \<Rightarrow> c = 44 \<and> (\<forall>d \<in> set w. is_ws d)) \<and>
     (case key_sep st of [] \<Rightarrow> False | c # w \<Rightarrow> c = 58 \<and> (\<forall>d \<in> set w. is_ws d))"

lemma wf_seps_code [simp]: "wf_seps compact" "wf_seps spaced"
  by (simp_all add: wf_seps_def compact_def spaced_def is_ws_def)

lemma wf_sepsE:
  assumes "wf_seps st"
  obtains w1 w2 where "item_sep st = 44 # w1" and "\<forall>d \<in> set w1. is_ws d"
    and "key_sep st = 58 # w2" and "\<forall>d \<in> set w2. is_ws d"
  using assms by (auto simp: wf_seps_def split: list.splits)

lemma skip_ws: "\<forall>d \<in> set w. is_ws d \<Longrightarrow> skip (w @ s) = skip s"
  by (induction w) (auto simp: skip_def)

lemma skip_first: "\<not> is_ws c \<Longrightarrow> skip (c # s) = c # s"
  by (simp add: skip_def)

lemma num_first:
  assumes "lex_num s = Some x"
  shows "\<exists>c t. s = c # t \<and> \<not> is_ws c \<and> c \<noteq> 93 \<and> c \<noteq> 125"
proof -
  from assms obtain c t where s: "s = c # t" by (cases s) (auto simp: lex_num_def)
  with lex_num_first [of c t] assms have "c = 45 \<or> is_digit c" by simp
  with s show ?thesis by (auto simp: is_ws_def is_digit_def)
qed

lemma dumps_first:
  "wf_json j \<Longrightarrow> \<exists>c t. dumps st j = c # t \<and> \<not> is_ws c \<and> c \<noteq> 93 \<and> c \<noteq> 125"
proof (cases j)
  case (JInt i)
  then show ?thesis using num_first [OF lex_num_dec_int [of i]] by simp
next
  case (JFloat r)
  moreover assume "wf_json j"
  ultimately show ?thesis using num_first [of r] by simp
qed (auto simp: lit_def quote_def is_ws_def)

lemma stops_more [simp]: "stops (93 # r)" "stops (125 # r)" "stops (44 # r)" "stops []"
  by (simp_all add: stops_def is_digit_def)

text \<open>A text that is read back as one value in front of anything that cannot continue it.\<close>

definition reads_as :: "pystr \<Rightarrow> json \<Rightarrow> bool" where
  "reads_as t j \<longleftrightarrow>
     (\<exists>c u. t = c # u \<and> \<not> is_ws c \<and> c \<noteq> 93 \<and> c \<noteq> 125) \<and>
     (\<forall>n r. stops r \<longrightarrow> 2 * length (t @ r) + 1 \<le> n \<longrightarrow> scan_value n (t @ r) = Some (j, r))"

definition white :: "pystr \<Rightarrow> bool" where
  "white w \<longleftrightarrow> (\<forall>d \<in> set w. is_ws d)"

lemma white_simps [simp]: "white []" "white (c # w) \<longleftrightarrow> is_ws c \<and> white w"
  by (auto simp: white_def)

lemma skip_white: "white w \<Longrightarrow> skip (w @ s) = skip s"
  by (simp add: white_def skip_ws)

lemma stops_white: "white z \<Longrightarrow> stops (z @ 93 # r)" "white z \<Longrightarrow> stops (z @ 125 # r)"
  by (cases z; auto simp: stops_def is_ws_def is_digit_def)+

lemma reads_first: "reads_as t j \<Longrightarrow> skip (t @ r) = t @ r"
  by (auto simp: reads_as_def skip_first)

lemma reads_value:
  "reads_as t j \<Longrightarrow> stops r \<Longrightarrow> 2 * length (t @ r) + 1 \<le> n \<Longrightarrow> scan_value n (t @ r) = Some (j, r)"
  by (simp add: reads_as_def)

lemma reads_asI:
  assumes "t = c # u" and "\<not> is_ws c" and "c \<noteq> 93" and "c \<noteq> 125"
    and "\<And>m r. stops r \<Longrightarrow> 2 * length (t @ r) \<le> m \<Longrightarrow> scan_value (Suc m) (t @ r) = Some (j, r)"
  shows "reads_as t j"
  unfolding reads_as_def
proof (intro conjI allI impI)
  fix n r
  assume "stops r" and "2 * length (t @ r) + 1 \<le> n"
  moreover from this obtain m where "n = Suc m" by (cases n) auto
  ultimately show "scan_value n (t @ r) = Some (j, r)" using assms(5) by simp
qed (use assms(1-4) in blast)

lemma scan_items_texts:
  assumes w: "white w" and z: "white z" and "ts \<noteq> []" and "list_all2 reads_as ts js"
    and "2 * length (join_with (44 # w) ts @ z @ 93 # r) + 2 \<le> n"
  shows "scan_items n acc (join_with (44 # w) ts @ z @ 93 # r) = Some (JArr (acc @ js), r)"
  using assms(3-5)
proof (induction ts arbitrary: js n acc)
  case Nil
  then show ?case by simp
next
  case (Cons t ts)
  from Cons.prems(2) obtain j js' where js: "js = j # js'" "reads_as t j" "list_all2 reads_as ts js'"
    by (auto simp: list_all2_Cons1)
  from Cons.prems(3) obtain m where n: "n = Suc m" by (cases n) auto
  show ?case
  proof (cases ts)
    case Nil
    have "scan_value m (t @ z @ 93 # r) = Some (j, z @ 93 # r)"
      using Cons.prems(3) Nil n by (intro reads_value [OF js(2) stops_white(1) [OF z]]) simp
    with Nil n js show ?thesis by (simp add: skip_white [OF z] skip_first is_ws_def)
  next
    case (Cons t' ts')
    let ?rest = "join_with (44 # w) ts @ z @ 93 # r"
    have body: "join_with (44 # w) (t # ts) @ z @ 93 # r = t @ 44 # w @ ?rest"
      using Cons by simp
    have v: "scan_value m (t @ 44 # w @ ?rest) = Some (j, 44 # w @ ?rest)"
      using Cons.prems(3) n unfolding body by (intro reads_value [OF js(2)]) simp_all
    have "skip ?rest = ?rest"
    proof -
      from js(3) Cons obtain j' where "reads_as t' j'" by (auto simp: list_all2_Cons1)
      from reads_first [OF this] Cons show ?thesis by (cases ts') simp_all
    qed
    moreover have "scan_items m (acc @ [j]) ?rest = Some (JArr ((acc @ [j]) @ js'), r)"
      using Cons.prems(3) n Cons by (intro Cons.IH [OF _ js(3)]) simp_all
    ultimately show ?thesis
      unfolding body n by (simp add: v js(1) skip_first is_ws_def skip_white [OF w])
  qed
qed

definition member_text :: "pystr \<Rightarrow> pystr \<times> pystr \<Rightarrow> pystr" where
  "member_text w m = (case m of (k, t) \<Rightarrow> quote k @ 58 # w @ t)"

lemma scan_one_member:
  assumes "white w" and "wf_str k" and "reads_as t v" and "stops r"
    and "2 * length (member_text w (k, t) @ r) + 2 \<le> Suc n" and "skip r = e # r'"
  shows "scan_members (Suc n) acc (member_text w (k, t) @ r) =
     (if e = 125 then Some (JObj (upd k v acc), r')
      else if e = 44 then scan_members n (upd k v acc) (skip r') else None)"
proof -
  have body: "member_text w (k, t) @ r = 34 # concat (map escape_char k) @ 34 # 58 # w @ t @ r"
    by (simp add: member_text_def quote_def)
  have "scan_value n (t @ r) = Some (v, r)"
    using assms(5) unfolding body by (intro reads_value [OF assms(3,4)]) simp
  then show ?thesis
    unfolding body using assms(2,6)
    by (simp add: scan_quote skip_first is_ws_def skip_white [OF assms(1)] reads_first [OF assms(3)])
qed

lemma scan_members_texts:
  assumes w: "white w" "white w2" and z: "white z" and "kts \<noteq> []"
    and "list_all2 (\<lambda>(k, t) (k', v). k = k' \<and> wf_str k \<and> reads_as t v) kts kvs"
    and "distinct (map fst acc @ map fst kvs)"
    and "2 * length (join_with (44 # w) (map (member_text w2) kts) @ z @ 125 # r) + 2 \<le> n"
  shows "scan_members n acc (join_with (44 # w) (map (member_text w2) kts) @ z @ 125 # r) = Some (JObj (acc @ kvs), r)"
  using assms(4-7)
proof (induction kts arbitrary: kvs n acc)
  case Nil
  then show ?case by simp
next
  case (Cons kt kts)
  from Cons.prems(2) obtain k t v kvs' where kt: "kt = (k, t)" and kvs: "kvs = (k, v) # kvs'" "wf_str k" "reads_as t v"
    and rest: "list_all2 (\<lambda>(k, t) (k', v). k = k' \<and> wf_str k \<and> reads_as t v) kts kvs'"
    by (auto simp: list_all2_Cons1)
  from Cons.prems(4) obtain m where n: "n = Suc m" by (cases n) auto
  from Cons.prems(3) kvs(1) have "k \<notin> fst ` set acc" by auto
  then have upd: "upd k v acc = acc @ [(k, v)]" by (simp add: upd_new)
  show ?case
  proof (cases kts)
    case Nil
    then have "scan_members (Suc m) acc (member_text w2 (k, t) @ z @ 125 # r) = Some (JObj (upd k v acc), r)"
      using Cons.prems(4) n kt
      by (subst scan_one_member [OF w(2) kvs(2,3) stops_white(2) [OF z], where e = 125 and r' = r])
        (simp_all add: skip_white [OF z] skip_first is_ws_def)
    moreover have "kvs' = []" using rest Nil by simp
    ultimately show ?thesis using Nil n upd kt kvs(1) by simp
  next
    case (Cons kt' kts')
    let ?rest = "join_with (44 # w) (map (member_text w2) kts) @ z @ 125 # r"
    have body: "join_with (44 # w) (map (member_text w2) (kt # kts)) @ z @ 125 # r
        = member_text w2 (k, t) @ 44 # w @ ?rest"
      using Cons kt by simp
    have "\<exists>t. ?rest = 34 # t"
      using Cons by (cases kts') (auto simp: member_text_def quote_def split: prod.split)
    then have "skip ?rest = ?rest" by (auto simp: skip_first is_ws_def)
    moreover have "scan_members (Suc m) acc (member_text w2 (k, t) @ 44 # w @ ?rest)
        = scan_members m (upd k v acc) (skip (w @ ?rest))"
      using Cons.prems(4) n unfolding body
      by (subst scan_one_member [OF w(2) kvs(2,3), where e = 44 and r' = "w @ ?rest"])
        (simp_all add: skip_first is_ws_def)
    moreover have "scan_members m (acc @ [(k, v)]) ?rest = Some (JObj ((acc @ [(k, v)]) @ kvs'), r)"
      using Cons.prems(3,4) n Cons kvs(1) by (intro Cons.IH [OF _ rest]) (auto simp: kt)
    ultimately show ?thesis
      unfolding body n by (simp add: upd kvs(1) skip_white [OF w(1)])
  qed
qed

text \<open>Arrays and objects, with any white space between the tokens.\<close>

lemma reads_as_empty: "reads_as [91, 93] (JArr [])" "reads_as [123, 125] (JObj [])"
  by (rule reads_asI [OF refl]; simp add: is_ws_def skip_first)+

lemma reads_as_arr:
  assumes "white x" and "white w" and "white z" and "ts \<noteq> []" and all: "list_all2 reads_as ts js"
  shows "reads_as (91 # x @ join_with (44 # w) ts @ z @ [93]) (JArr js)"
proof (rule reads_asI [OF refl])
  fix m r
  let ?body = "join_with (44 # w) ts @ z @ 93 # r"
  assume "2 * length ((91 # x @ join_with (44 # w) ts @ z @ [93]) @ r) \<le> m"
  then have items: "scan_items m [] ?body = Some (JArr js, r)"
    using scan_items_texts [OF assms(2-5), of r m "[]"] by simp
  from assms(4) obtain t ts' where ts: "ts = t # ts'" by (cases ts) auto
  with all obtain j where t: "reads_as t j" by (auto simp: list_all2_Cons1)
  then obtain c u where c: "t = c # u" "c \<noteq> 93" by (auto simp: reads_as_def)
  have "skip ?body = ?body" using reads_first [OF t] ts by (cases ts') simp_all
  moreover obtain b where "?body = c # b" using ts c by (cases ts') auto
  ultimately show "scan_value (Suc m) ((91 # x @ join_with (44 # w) ts @ z @ [93]) @ r) = Some (JArr js, r)"
    using items c(2) by (simp add: skip_white [OF assms(1)])
qed (simp_all add: is_ws_def)

lemma reads_as_obj:
  assumes "white x" and "white w" and "white w2" and "white z" and "kts \<noteq> []" and "distinct (map fst kvs)"
    and all: "list_all2 (\<lambda>(k, t) (k', v). k = k' \<and> wf_str k \<and> reads_as t v) kts kvs"
  shows "reads_as (123 # x @ join_with (44 # w) (map (member_text w2) kts) @ z @ [125]) (JObj kvs)"
proof (rule reads_asI [OF refl])
  fix m r
  let ?body = "join_with (44 # w) (map (member_text w2) kts) @ z @ 125 # r"
  assume "2 * length ((123 # x @ join_with (44 # w) (map (member_text w2) kts) @ z @ [125]) @ r) \<le> m"
  then have members: "scan_members m [] ?body = Some (JObj kvs, r)"
    using scan_members_texts [OF assms(2-5) all, of "[]" r m] assms(6) by simp
  from assms(5) obtain kt kts' where kts: "kts = kt # kts'" by (cases kts) auto
  then have "\<exists>b. ?body = 34 # b" by (cases kts') (auto simp: member_text_def quote_def split: prod.split)
  then obtain b where b: "?body = 34 # b" by blast
  then have "skip ?body = ?body" by (simp add: skip_first is_ws_def)
  with members b show "scan_value (Suc m) ((123 # x @ join_with (44 # w) (map (member_text w2) kts) @ z @ [125]) @ r)
      = Some (JObj kvs, r)"
    by (simp add: skip_white [OF assms(1)])
qed (simp_all add: is_ws_def)

text \<open>A value that starts with none of the three opening characters is an atom.\<close>

lemma scan_value_atom:
  "s = c # t \<Longrightarrow> c \<noteq> 34 \<Longrightarrow> c \<noteq> 123 \<Longrightarrow> c \<noteq> 91 \<Longrightarrow> scan_value (Suc m) s = scan_atom s"
  by simp

lemma scan_value_num:
  assumes "lex_num s = Some (v, [])" and "stops r"
  shows "scan_value (Suc m) (s @ r) = Some (v, r)"
proof -
  from assms(1) obtain c t where s: "s = c # t" by (cases s) (auto simp: lex_num_def)
  from lex_num_first [of c t] assms s have c: "c = 45 \<or> is_digit c" by simp
  have "scan_value (Suc m) (s @ r) = scan_atom (s @ r)"
    using c s by (intro scan_value_atom [of _ c "t @ r"]) (auto simp: is_digit_def)
  also have "\<dots> = Some (v, r)"
    using scan_atom_num [OF lex_num_stops [OF assms]] by simp
  finally show ?thesis .
qed

lemma scan_words: "scan_atom (lit ''null'' @ r) = Some (JNull, r)"
  "scan_atom (lit ''true'' @ r) = Some (JBool True, r)"
  "scan_atom (lit ''false'' @ r) = Some (JBool False, r)"
  by (simp_all add: scan_atom_def word_after_def) (simp_all add: starts_def lit_def)

lemma scan_value_words: "scan_value (Suc m) (lit ''null'' @ r) = Some (JNull, r)"
  "scan_value (Suc m) (lit ''true'' @ r) = Some (JBool True, r)"
  "scan_value (Suc m) (lit ''false'' @ r) = Some (JBool False, r)"
  unfolding scan_words [symmetric] by (simp_all add: lit_def)

lemma reads_as_atomI:
  assumes "wf_json j" and "\<And>m r. stops r \<Longrightarrow> scan_value (Suc m) (dumps compact j @ r) = Some (j, r)"
  shows "reads_as (dumps compact j) j"
proof -
  obtain c u where "dumps compact j = c # u" "\<not> is_ws c" "c \<noteq> 93" "c \<noteq> 125"
    using dumps_first [OF assms(1), of compact] by blast
  then show ?thesis using assms(2) by (rule reads_asI)
qed

lemma reads_as_atoms:
  "reads_as (lit ''null'') JNull" "reads_as (if b then lit ''true'' else lit ''false'') (JBool b)"
  "reads_as (dec_int i) (JInt i)" "lex_num f = Some (JFloat f, []) \<Longrightarrow> reads_as f (JFloat f)"
  "wf_str s \<Longrightarrow> reads_as (quote s) (JStr s)"
proof -
  show "reads_as (lit ''null'') JNull"
    using reads_as_atomI [of JNull] by (simp only: dumps.simps wf_json.simps scan_value_words)
  show "reads_as (if b then lit ''true'' else lit ''false'') (JBool b)"
    using reads_as_atomI [of "JBool b"]
    by (cases b) (simp_all only: dumps.simps wf_json.simps scan_value_words if_True if_False)
  show "reads_as (dec_int i) (JInt i)"
    using reads_as_atomI [of "JInt i"] by (simp only: dumps.simps wf_json.simps scan_value_num [OF lex_num_dec_int])
  show "reads_as f (JFloat f)" if "lex_num f = Some (JFloat f, [])"
    using reads_as_atomI [of "JFloat f"] that by (simp only: dumps.simps wf_json.simps scan_value_num)
  show "reads_as (quote s) (JStr s)" if "wf_str s"
    using that by (intro reads_asI) (auto simp: quote_def scan_quote is_ws_def)
qed

lemma reads_as_dumps:
  assumes st: "wf_seps st"
  shows "wf_json j \<Longrightarrow> reads_as (dumps st j) j"
proof (induction j)
  case (JArr js)
  from st obtain w where w: "item_sep st = 44 # w" "white w" by (rule wf_sepsE) (simp add: white_def)
  show ?case
  proof (cases js)
    case (Cons j js')
    have "list_all2 reads_as (map (dumps st) js) js"
      using JArr by (auto simp: list_all2_conv_all_nth)
    then show ?thesis using reads_as_arr [of "[]" w "[]" "map (dumps st) js" js] w Cons by simp
  qed (simp add: reads_as_empty)
next
  case (JObj kvs)
  from st obtain w w2 where w: "item_sep st = 44 # w" "white w" "key_sep st = 58 # w2" "white w2"
    by (rule wf_sepsE) (simp add: white_def)
  show ?case
  proof (cases kvs)
    case (Cons kv kvs')
    let ?kts = "map (\<lambda>(k, v). (k, dumps st v)) kvs"
    have "list_all2 (\<lambda>(k, t) (k', v). k = k' \<and> wf_str k \<and> reads_as t v) ?kts kvs"
      unfolding list.rel_map by (rule list.rel_refl_strong) (use JObj in fastforce)
    moreover have mt: "map (member_text w2) ?kts = map (\<lambda>(k, v). quote k @ key_sep st @ dumps st v) kvs"
      by (auto simp: member_text_def w)
    moreover have "kvs \<noteq> []" "distinct (map fst kvs)" using Cons JObj.prems by auto
    ultimately have "reads_as (123 # [] @ join_with (44 # w) (map (member_text w2) ?kts) @ [] @ [125]) (JObj kvs)"
      by (intro reads_as_obj w) simp_all
    then show ?thesis unfolding mt by (simp add: w)
  qed (simp add: reads_as_empty)
qed (simp_all add: reads_as_atoms)

lemma loads_reads: "reads_as t j \<Longrightarrow> loads t = Some j"
  using reads_value [of t j "[]" "2 * length t + 1"] reads_first [of t j "[]"] by (simp add: loads_def skip_def)

lemma loads_dumps: "wf_seps st \<Longrightarrow> wf_json j \<Longrightarrow> loads (dumps st j) = Some j"
  by (intro loads_reads reads_as_dumps)

section \<open>Indented text\<close>

text \<open>\<open>json.dumps(j, indent=2)\<close>, at a depth.\<close>

definition line_at :: "nat \<Rightarrow> pystr" where
  "line_at d = 10 # replicate (2 * d) 32"

fun pretty :: "nat \<Rightarrow> json \<Rightarrow> pystr" where
  "pretty d (JArr js) =
     (if js = [] then [91, 93]
      else 91 # line_at (Suc d) @ join_with (44 # line_at (Suc d)) (map (pretty (Suc d)) js) @ line_at d @ [93])"
| "pretty d (JObj kvs) =
     (if kvs = [] then [123, 125]
      else 123 # line_at (Suc d) @
        join_with (44 # line_at (Suc d)) (map (\<lambda>(k, v). quote k @ [58, 32] @ pretty (Suc d) v) kvs) @ line_at d @ [125])"
| "pretty d j = dumps spaced j"

lemma white_line [simp]: "white (line_at d)"
  by (auto simp: line_at_def white_def is_ws_def)

lemma reads_as_pretty: "wf_json j \<Longrightarrow> reads_as (pretty d j) j"
proof (induction j arbitrary: d)
  case (JArr js)
  show ?case
  proof (cases js)
    case (Cons j js')
    have "list_all2 reads_as (map (pretty (Suc d)) js) js"
      using JArr by (auto simp: list_all2_conv_all_nth)
    then show ?thesis
      using reads_as_arr [of "line_at (Suc d)" "line_at (Suc d)" "line_at d" "map (pretty (Suc d)) js" js] Cons by simp
  qed (simp add: reads_as_empty)
next
  case (JObj kvs)
  show ?case
  proof (cases kvs)
    case (Cons kv kvs')
    let ?kts = "map (\<lambda>(k, v). (k, pretty (Suc d) v)) kvs"
    have "list_all2 (\<lambda>(k, t) (k', v). k = k' \<and> wf_str k \<and> reads_as t v) ?kts kvs"
      unfolding list.rel_map by (rule list.rel_refl_strong) (use JObj in fastforce)
    moreover have mt: "map (member_text [32]) ?kts = map (\<lambda>(k, v). quote k @ [58, 32] @ pretty (Suc d) v) kvs"
      by (auto simp: member_text_def)
    moreover have ne: "kvs \<noteq> []" "distinct (map fst kvs)" using Cons JObj.prems by auto
    ultimately have "reads_as (123 # line_at (Suc d) @ join_with (44 # line_at (Suc d)) (map (member_text [32]) ?kts)
        @ line_at d @ [125]) (JObj kvs)"
      by (intro reads_as_obj) (simp_all add: is_ws_def)
    then show ?thesis using ne(1) unfolding mt by simp
  qed (simp add: reads_as_empty)
qed (simp_all add: reads_as_atoms)

lemma loads_pretty: "wf_json j \<Longrightarrow> loads (pretty d j) = Some j"
  by (intro loads_reads reads_as_pretty)

end
