(* ===== verification/Codecs.thy ===== *)
theory Codecs
  imports Json
begin

text \<open>
  The byte codecs the SDK applies to JSON text and message bodies: UTF-8 (strict and with
  \<open>errors="replace"\<close>) and Base64 with the non-strict reader of \<open>base64.b64decode\<close>.
\<close>

section \<open>UTF-8\<close>

definition utf8_char :: "nat \<Rightarrow> nat list" where
  "utf8_char c =
     (if c < 0x80 then [c]
      else if c < 0x800 then [0xC0 + c div 64, 0x80 + c mod 64]
      else if c < 0x10000 then [0xE0 + c div 4096, 0x80 + c div 64 mod 64, 0x80 + c mod 64]
      else [0xF0 + c div 262144, 0x80 + c div 4096 mod 64, 0x80 + c div 64 mod 64, 0x80 + c mod 64])"

definition is_surrogate :: "nat \<Rightarrow> bool" where
  "is_surrogate c \<longleftrightarrow> 0xD800 \<le> c \<and> c < 0xE000"

text \<open>\<open>s.encode("utf-8")\<close>; a lone surrogate cannot be encoded.\<close>

definition utf8_encode :: "pystr \<Rightarrow> bytes option" where
  "utf8_encode s =
     (if \<exists>c \<in> set s. is_surrogate c then None else Some (map of_nat (concat (map utf8_char s))))"

definition cont :: "nat \<Rightarrow> bool" where "cont b \<longleftrightarrow> 0x80 \<le> b \<and> b < 0xC0"

text \<open>The ranges of the second byte that well-formed UTF-8 allows.\<close>

definition second3 :: "nat \<Rightarrow> nat \<Rightarrow> bool" where
  "second3 b0 b1 \<longleftrightarrow> cont b1 \<and> (b0 = 0xE0 \<longrightarrow> 0xA0 \<le> b1) \<and> (b0 = 0xED \<longrightarrow> b1 < 0xA0)"

definition second4 :: "nat \<Rightarrow> nat \<Rightarrow> bool" where
  "second4 b0 b1 \<longleftrightarrow> cont b1 \<and> (b0 = 0xF0 \<longrightarrow> 0x90 \<le> b1) \<and> (b0 = 0xF4 \<longrightarrow> b1 < 0x90)"

text \<open>The first code point of a byte string and the bytes it takes, or the length of the ill-formed
  prefix the decoder reports as one error.\<close>

datatype step = Good nat nat | Bad nat

fun utf8_step :: "nat list \<Rightarrow> step" where
  "utf8_step [] = Bad 0"
| "utf8_step (b0 # bs) =
     (if b0 < 0x80 then Good b0 1
      else if 0xC2 \<le> b0 \<and> b0 < 0xE0 then
        (case bs of
           b1 # _ \<Rightarrow> if cont b1 then Good ((b0 - 0xC0) * 64 + (b1 - 0x80)) 2 else Bad 1
         | [] \<Rightarrow> Bad 1)
      else if 0xE0 \<le> b0 \<and> b0 < 0xF0 then
        (case bs of
           [] \<Rightarrow> Bad 1
         | b1 # bs1 \<Rightarrow>
             if \<not> second3 b0 b1 then Bad 1
             else (case bs1 of
                     [] \<Rightarrow> Bad 2
                   | b2 # _ \<Rightarrow> if cont b2
                       then Good ((b0 - 0xE0) * 4096 + (b1 - 0x80) * 64 + (b2 - 0x80)) 3 else Bad 2))
      else if 0xF0 \<le> b0 \<and> b0 < 0xF5 then
        (case bs of
           [] \<Rightarrow> Bad 1
         | b1 # bs1 \<Rightarrow>
             if \<not> second4 b0 b1 then Bad 1
             else (case bs1 of
                     [] \<Rightarrow> Bad 2
                   | b2 # bs2 \<Rightarrow>
                       if \<not> cont b2 then Bad 2
                       else (case bs2 of
                               [] \<Rightarrow> Bad 3
                             | b3 # _ \<Rightarrow> if cont b3
                                 then Good ((b0 - 0xF0) * 262144 + (b1 - 0x80) * 4096 + (b2 - 0x80) * 64 + (b3 - 0x80)) 4
                                 else Bad 3)))
      else Bad 1)"

text \<open>Every step of a non-empty input consumes a byte.\<close>

definition step_len :: "step \<Rightarrow> nat" where
  "step_len st = (case st of Good c k \<Rightarrow> k | Bad k \<Rightarrow> k)"

lemma step_len_pos: "0 < step_len (utf8_step (b # bs))"
  by (simp add: step_len_def split: list.split)

function utf8_steps :: "nat list \<Rightarrow> step list" where
  "utf8_steps [] = []"
| "utf8_steps (b # bs) =
     (let st = utf8_step (b # bs) in st # utf8_steps (drop (step_len st) (b # bs)))"
  by pat_completeness auto
termination
  by (relation "measure length") (use step_len_pos in \<open>auto simp del: utf8_step.simps drop_Cons'\<close>)

declare utf8_steps.simps(2) [simp del]

fun step_char :: "step \<Rightarrow> nat" where
  "step_char (Good c k) = c"
| "step_char (Bad k) = 0xFFFD"

fun is_good :: "step \<Rightarrow> bool" where
  "is_good (Good c k) = True"
| "is_good (Bad k) = False"

definition utf8_decode :: "bytes \<Rightarrow> pystr option" where
  "utf8_decode bs =
     (let sts = utf8_steps (map unat bs)
      in if \<forall>st \<in> set sts. is_good st then Some (map step_char sts) else None)"

text \<open>\<open>bs.decode("utf-8", errors="replace")\<close>.\<close>

definition utf8_replace :: "bytes \<Rightarrow> pystr" where
  "utf8_replace bs = map step_char (utf8_steps (map unat bs))"

lemma join64:
  "c div 4096 * 4096 + c div 64 mod 64 * 64 + c mod 64 = c"
  "c div 262144 * 262144 + c div 4096 mod 64 * 4096 + c div 64 mod 64 * 64 + c mod 64 = c"
  for c :: nat
proof -
  have 1: "c div 4096 = c div 64 div 64" "c div 262144 = c div 64 div 64 div 64"
    by (simp_all flip: div_mult2_eq)
  have a: "c div 64 * 64 + c mod 64 = c" "c div 64 div 64 * 64 + c div 64 mod 64 = c div 64"
    "c div 64 div 64 div 64 * 64 + c div 64 div 64 mod 64 = c div 64 div 64"
    by (rule div_mult_mod_eq)+
  show "c div 4096 * 4096 + c div 64 mod 64 * 64 + c mod 64 = c"
    unfolding 1 using a(1,2) by linarith
  show "c div 262144 * 262144 + c div 4096 mod 64 * 4096 + c div 64 mod 64 * 64 + c mod 64 = c"
    unfolding 1 using a by linarith
qed

lemma utf8_step_char:
  assumes "c < 0x110000" and "\<not> is_surrogate c"
  shows "utf8_step (utf8_char c @ bs) = Good c (length (utf8_char c))"
proof -
  consider "c < 0x80" | "0x80 \<le> c" "c < 0x800" | "0x800 \<le> c" "c < 0x10000" | "0x10000 \<le> c" by linarith
  then show ?thesis
  proof cases
    case 1
    then show ?thesis by (simp add: utf8_char_def)
  next
    case 2
    then have "2 \<le> c div 64" "c div 64 < 32" by auto
    with 2 show ?thesis by (simp add: utf8_char_def cont_def)
  next
    case 3
    then have r: "c div 4096 < 16" by auto
    have e0: "c div 4096 = 0 \<longrightarrow> 32 \<le> c div 64 mod 64" using 3 by auto
    have ed: "c div 4096 = 13 \<longrightarrow> c div 64 mod 64 < 32"
    proof
      assume 13: "c div 4096 = 13"
      then have "c < 0xD800" using assms(2) by (auto simp: is_surrogate_def)
      then have x: "c div 64 < 864" by auto
      have "c div 64 div 64 = 13" using 13 by (simp flip: div_mult2_eq)
      with x div_mult_mod_eq [of "c div 64" 64] show "c div 64 mod 64 < 32" by linarith
    qed
    have "c div 4096 * 4096 + c div 64 mod 64 * 64 + c mod 64 = c" by (rule join64)
    with 3 r e0 ed show ?thesis by (simp add: utf8_char_def cont_def second3_def)
  next
    case 4
    with assms(1) have r: "c div 262144 < 5" by auto
    have f0: "c div 262144 = 0 \<longrightarrow> 16 \<le> c div 4096 mod 64" using 4 by auto
    have f4: "c div 262144 = 4 \<longrightarrow> c div 4096 mod 64 < 16"
    proof
      assume "c div 262144 = 4"
      then have "c div 4096 div 64 = 4" by (simp flip: div_mult2_eq)
      moreover have "c div 4096 < 272" using assms(1) by auto
      ultimately show "c div 4096 mod 64 < 16" using div_mult_mod_eq [of "c div 4096" 64] by linarith
    qed
    have "c div 262144 * 262144 + c div 4096 mod 64 * 4096 + c div 64 mod 64 * 64 + c mod 64 = c"
      by (rule join64)
    with 4 r f0 f4 show ?thesis by (simp add: utf8_char_def cont_def second4_def)
  qed
qed


lemma utf8_char_ne [simp]: "utf8_char c \<noteq> []"
  by (simp add: utf8_char_def)

lemma utf8_steps_char:
  assumes "c < 0x110000" and "\<not> is_surrogate c"
  shows "utf8_steps (utf8_char c @ bs) = Good c (length (utf8_char c)) # utf8_steps bs"
proof -
  obtain b t where b: "utf8_char c = b # t" by (cases "utf8_char c") auto
  have "utf8_step (b # t @ bs) = Good c (length (utf8_char c))"
    using utf8_step_char [OF assms, of bs] b by simp
  then show ?thesis
    unfolding b append_Cons utf8_steps.simps(2) by (simp add: Let_def step_len_def b del: utf8_step.simps)
qed

lemma utf8_bytes: "c < 0x110000 \<Longrightarrow> x \<in> set (utf8_char c) \<Longrightarrow> x < 256"
  by (auto simp: utf8_char_def split: if_splits)

lemma map_unat_of_nat: "\<forall>x \<in> set xs. x < 256 \<Longrightarrow> map unat (map (of_nat :: nat \<Rightarrow> byte) xs) = xs"
  by (induction xs) simp_all

definition scalars :: "pystr \<Rightarrow> bool" where
  "scalars s \<longleftrightarrow> (\<forall>c \<in> set s. c < 0x110000 \<and> \<not> is_surrogate c)"

lemma utf8_roundtrip:
  assumes "scalars s"
  shows "\<exists>bs. utf8_encode s = Some bs \<and> utf8_decode bs = Some s \<and> utf8_replace bs = s"
proof -
  let ?ns = "concat (map utf8_char s)"
  have "map unat (map (of_nat :: nat \<Rightarrow> byte) ?ns) = ?ns"
    using assms by (intro map_unat_of_nat) (auto simp: scalars_def intro: utf8_bytes)
  moreover have "utf8_steps ?ns = map (\<lambda>c. Good c (length (utf8_char c))) s"
    using assms by (induction s) (simp_all add: scalars_def utf8_steps_char)
  moreover have "utf8_encode s = Some (map of_nat ?ns)"
    using assms by (simp add: utf8_encode_def scalars_def)
  ultimately show ?thesis by (auto simp: utf8_decode_def utf8_replace_def comp_def)
qed

text \<open>What decodes is Unicode text.\<close>

lemma three_bytes:
  assumes "224 \<le> b0" and "128 \<le> b1" and "b1 < 160" and "128 \<le> b2" and "b2 < 192"
    and "55296 \<le> (b0 - 224) * 4096 + (b1 - 128) * 64 + b2 - 128"
    and "(b0 - 224) * 4096 + (b1 - 128) * 64 + b2 - 128 < (57344 :: nat)"
  shows False
proof -
  from assms(1,2,4) obtain x y z where "b0 = 224 + x" "b1 = 128 + y" "b2 = 128 + z"
    by (metis le_Suc_ex)
  with assms show False by (cases "x \<le> 13") simp_all
qed

lemma good_step_scalar: "utf8_step bs = Good c k \<Longrightarrow> c < 0x110000 \<and> \<not> is_surrogate c"
  by (cases bs rule: utf8_step.cases)
    (auto simp: cont_def second3_def second4_def is_surrogate_def split: if_splits list.splits intro: three_bytes)

lemma utf8_steps_from: "st \<in> set (utf8_steps bs) \<Longrightarrow> \<exists>bs'. st = utf8_step bs'"
proof (induction bs rule: utf8_steps.induct)
  case (2 b bs)
  define s0 where "s0 = utf8_step (b # bs)"
  from 2 consider "st = s0" | "st \<in> set (utf8_steps (drop (step_len s0) (b # bs)))"
    by (auto simp: utf8_steps.simps(2) [of b bs] Let_def s0_def simp del: utf8_step.simps drop_Cons')
  then show ?case using "2.IH" [of s0] s0_def by cases blast+
qed simp

lemma utf8_decode_scalars: "utf8_decode bs = Some s \<Longrightarrow> scalars s"
proof -
  assume "utf8_decode bs = Some s"
  then have g: "\<forall>st \<in> set (utf8_steps (map unat bs)). is_good st" and s: "s = map step_char (utf8_steps (map unat bs))"
    by (auto simp: utf8_decode_def Let_def split: if_splits)
  have "c < 0x110000 \<and> \<not> is_surrogate c" if "Good c k \<in> set (utf8_steps (map unat bs))" for c k
    using utf8_steps_from [OF that] good_step_scalar by metis
  moreover have "\<exists>k. Good (step_char st) k \<in> set (utf8_steps (map unat bs))" if "st \<in> set (utf8_steps (map unat bs))" for st
    using g that by (cases st) auto
  ultimately have "step_char st < 0x110000 \<and> \<not> is_surrogate (step_char st)"
    if "st \<in> set (utf8_steps (map unat bs))" for st using that by blast
  then show "scalars s" by (simp add: scalars_def s)
qed

lemma utf8_replace_scalars: "scalars (utf8_replace bs)"
proof -
  have "step_char st < 0x110000 \<and> \<not> is_surrogate (step_char st)"
    if st: "st \<in> set (utf8_steps (map unat bs))" for st
  proof (cases st)
    case (Good c k)
    obtain bs' where "st = utf8_step bs'" using utf8_steps_from [OF st] by blast
    then have "utf8_step bs' = Good c k" using Good by simp
    then show ?thesis using Good good_step_scalar by (metis step_char.simps(1))
  qed (simp add: is_surrogate_def)
  then show ?thesis by (simp add: scalars_def utf8_replace_def)
qed

lemma no_high: "\<forall>c \<in> set s. c < 0x110000 \<and> \<not> is_high c \<Longrightarrow> wf_str s"
proof -
  have "no_pair s" if "\<forall>c \<in> set s. \<not> is_high c" using that by (induction s rule: no_pair.induct) auto
  then show "\<forall>c \<in> set s. c < 0x110000 \<and> \<not> is_high c \<Longrightarrow> wf_str s" by (simp add: wf_str_def)
qed

lemma scalars_wf: "scalars s \<Longrightarrow> wf_str s"
  by (rule no_high) (auto simp: scalars_def is_surrogate_def is_high_def)

lemma utf8_ascii: "isascii s \<Longrightarrow> utf8_encode s = Some (ascii_bytes s)"
proof -
  assume a: "isascii s"
  then have "concat (map utf8_char s) = s"
    by (induction s) (simp_all add: utf8_char_def)
  with a show ?thesis
    by (auto simp: utf8_encode_def ascii_bytes_def isascii_def is_surrogate_def)
qed

lemma isascii_scalars: "isascii s \<Longrightarrow> scalars s"
  by (auto simp: isascii_def scalars_def is_surrogate_def)

lemma utf8_decode_ascii: "isascii s \<Longrightarrow> utf8_decode (ascii_bytes s) = Some s"
  using utf8_roundtrip [OF isascii_scalars] utf8_ascii by fastforce

section \<open>Base64\<close>

definition b64_char :: "nat \<Rightarrow> nat" where
  "b64_char n = (if n < 26 then 65 + n else if n < 52 then 71 + n else if n < 62 then n - 4
                 else if n = 62 then 43 else 47)"

definition b64_value :: "nat \<Rightarrow> nat option" where
  "b64_value c = (if is_upper c then Some (c - 65) else if is_lower c then Some (c - 71)
                  else if is_digit c then Some (c + 4) else if c = 43 then Some 62
                  else if c = 47 then Some 63 else None)"

fun b64_nats :: "nat list \<Rightarrow> pystr" where
  "b64_nats [] = []"
| "b64_nats [a] = [b64_char (a div 4), b64_char (a mod 4 * 16), 61, 61]"
| "b64_nats [a, b] = [b64_char (a div 4), b64_char (a mod 4 * 16 + b div 16), b64_char (b mod 16 * 4), 61]"
| "b64_nats (a # b # c # bs) =
     [b64_char (a div 4), b64_char (a mod 4 * 16 + b div 16), b64_char (b mod 16 * 4 + c div 64),
      b64_char (c mod 64)] @ b64_nats bs"

definition b64encode :: "bytes \<Rightarrow> pystr" where
  "b64encode bs = b64_nats (map unat bs)"

text \<open>
  \<open>binascii.a2b_base64\<close>, not strict: characters outside the alphabet are skipped, the second
  padding character of a started quad ends the input, and a quad left open is an error. The
  state is the position in the quad, the pads seen since the last character, and the bits kept.
\<close>

fun b64_run :: "nat \<Rightarrow> nat \<Rightarrow> nat \<Rightarrow> pystr \<Rightarrow> nat list option" where
  "b64_run pos pads left [] = (if pos = 0 then Some [] else None)"
| "b64_run pos pads left (c # s) =
     (if c = 61 then
        (if 2 \<le> pos then (if 4 \<le> pos + (pads + 1) then Some [] else b64_run pos (pads + 1) left s)
         else b64_run pos pads left s)
      else case b64_value c of
          None \<Rightarrow> b64_run pos pads left s
        | Some v \<Rightarrow>
            (if pos = 0 then b64_run 1 0 v s
             else if pos = 1 then map_option ((#) (left * 4 + v div 16)) (b64_run 2 0 (v mod 16) s)
             else if pos = 2 then map_option ((#) (left * 16 + v div 4)) (b64_run 3 0 (v mod 4) s)
             else map_option ((#) (left * 64 + v)) (b64_run 0 0 0 s)))"

text \<open>\<open>base64.b64decode\<close> of a \<open>str\<close>: non-ASCII text and bad padding are both \<open>ValueError\<close>s.\<close>

definition b64decode :: "pystr \<Rightarrow> bytes option" where
  "b64decode s = (if isascii s then map_option (map of_nat) (b64_run 0 0 0 s) else None)"

lemma b64_value_char: "n < 64 \<Longrightarrow> b64_value (b64_char n) = Some n"
  by (auto simp: b64_char_def b64_value_def ascii_classes)

lemma b64_char_not_pad: "n < 64 \<Longrightarrow> b64_char n \<noteq> 61" "n < 64 \<Longrightarrow> b64_char n < 128"
  by (auto simp: b64_char_def)

lemma b64_run_nats: "\<forall>x \<in> set ns. x < 256 \<Longrightarrow> b64_run 0 0 0 (b64_nats ns) = Some ns"
proof (induction ns rule: b64_nats.induct)
  case 1
  then show ?case by simp
next
  case (2 a)
  then have "a div 4 < 64" "a mod 4 * 16 < 64" by auto
  with 2 show ?case by (simp add: b64_value_char b64_char_not_pad)
next
  case (3 a b)
  then have "a div 4 < 64" "a mod 4 * 16 + b div 16 < 64" "b mod 16 * 4 < 64" "b div 16 < 16" by auto
  with 3 show ?case by (simp add: b64_value_char b64_char_not_pad)
next
  case (4 a b c ns)
  then have "a div 4 < 64" "a mod 4 * 16 + b div 16 < 64" "b mod 16 * 4 + c div 64 < 64" "b div 16 < 16" "c div 64 < 4" by auto
  with 4 show ?case by (simp add: b64_value_char b64_char_not_pad)
qed

lemma isascii_b64_nats: "\<forall>x \<in> set ns. x < 256 \<Longrightarrow> isascii (b64_nats ns)"
  by (induction ns rule: b64_nats.induct) (auto intro!: b64_char_not_pad)

lemma b64_roundtrip: "b64decode (b64encode bs) = Some bs"
proof -
  have "\<forall>x \<in> set (map unat bs). x < 256" using unat_byte_less by auto
  from b64_run_nats [OF this] isascii_b64_nats [OF this]
  show ?thesis by (simp add: b64decode_def b64encode_def comp_def)
qed


section \<open>JSON documents as bytes\<close>

text \<open>\<open>json.dumps(j, ...).encode("utf-8")\<close>; \<open>ensure_ascii\<close> is on everywhere, so the bytes are ASCII.\<close>

definition dumps_bytes :: "seps \<Rightarrow> json \<Rightarrow> bytes" where
  "dumps_bytes st j = ascii_bytes (dumps st j)"

datatype text_fault = NotUtf8 | NotJson

text \<open>\<open>json.loads(body.decode("utf-8"))\<close>.\<close>

definition loads_bytes :: "bytes \<Rightarrow> text_fault + json" where
  "loads_bytes bs =
     (case utf8_decode bs of
        None \<Rightarrow> Inl NotUtf8
      | Some t \<Rightarrow> (case loads t of None \<Rightarrow> Inl NotJson | Some j \<Rightarrow> Inr j))"

lemma isascii_lit [simp]: "isascii (lit s) \<longleftrightarrow> (\<forall>c \<in> set s. of_char c < (128 :: nat))"
  by (simp add: isascii_def lit_def)

text \<open>Printable ASCII text, which is all that \<open>json.dumps\<close> writes.\<close>

definition plain :: "pystr \<Rightarrow> bool" where
  "plain s \<longleftrightarrow> (\<forall>c \<in> set s. 32 \<le> c \<and> c < 127)"

lemma plain_Nil [simp]: "plain []"
  by (simp add: plain_def)

lemma plain_Cons [simp]: "plain (c # s) \<longleftrightarrow> 32 \<le> c \<and> c < 127 \<and> plain s"
  by (simp add: plain_def)

lemma plain_append [simp]: "plain (s @ t) \<longleftrightarrow> plain s \<and> plain t"
  by (auto simp: plain_def)

lemma plain_lit [simp]: "plain (lit s) \<longleftrightarrow> (\<forall>c \<in> set s. 32 \<le> (of_char c :: nat) \<and> of_char c < (127 :: nat))"
  by (simp add: plain_def lit_def)

lemma plain_dec [simp]: "plain (dec n)"
  using dec_digits by (fastforce simp: plain_def is_digit_def)

lemma plain_isascii: "plain s \<Longrightarrow> isascii s"
  by (fastforce simp: plain_def isascii_def)

lemma plain_hex4: "plain (hex4 n)"
proof -
  have "d < 16 \<Longrightarrow> 32 \<le> hex_nibble d \<and> hex_nibble d < 127" for d
    by (simp add: hex_nibble_def)
  then have "32 \<le> hex_nibble (m mod 16) \<and> hex_nibble (m mod 16) < 127" for m by simp
  then show ?thesis by (simp add: hex4_def)
qed

lemma plain_escape: "plain (escape_char c)"
  by (auto simp: escape_char_def u_escape_def plain_hex4)

lemma plain_concat: "plain (concat xs) \<longleftrightarrow> (\<forall>x \<in> set xs. plain x)"
  by (induction xs) auto

lemma plain_quote: "plain (quote s)"
  by (simp add: quote_def plain_concat plain_escape)

lemma plain_join: "plain sep \<Longrightarrow> \<forall>x \<in> set xs. plain x \<Longrightarrow> plain (join_with sep xs)"
  by (induction sep xs rule: join_with.induct) auto

lemma plain_digits: "plain (takeWhile is_digit s)"
  by (induction s) (auto simp: is_digit_def)

lemma plain_lex_int: "lex_int s = Some (i, r) \<Longrightarrow> plain i"
  using plain_digits [of s] by (auto simp: lex_int_def split: list.splits if_splits)

lemma plain_lex_frac: "lex_frac s = (f, r) \<Longrightarrow> plain f"
  by (auto simp: lex_frac_def plain_digits split: list.splits if_splits)

lemma plain_lex_exp: "lex_exp s = (e, r) \<Longrightarrow> plain e"
  by (auto simp: lex_exp_def lex_sign_def plain_digits is_digit_def split: list.splits if_splits)

lemma plain_lex_unsigned: "lex_unsigned s = Some (i, fe, r) \<Longrightarrow> plain i \<and> plain fe"
  by (auto simp: lex_unsigned_def split: option.splits prod.splits
      dest: plain_lex_int plain_lex_frac plain_lex_exp)

lemma plain_lex_num: "lex_num s = Some (JFloat t, r) \<Longrightarrow> plain t"
  by (auto simp: lex_num_def split: list.splits if_splits option.splits dest!: plain_lex_unsigned)

lemma plain_dec_int: "plain (dec_int i)"
  by (simp add: dec_int_def)

lemma plain_seps: "plain (item_sep compact)" "plain (key_sep compact)"
  "plain (item_sep spaced)" "plain (key_sep spaced)"
  by (simp_all add: compact_def spaced_def)

lemma plain_dumps:
  assumes "plain (item_sep st)" and "plain (key_sep st)"
  shows "wf_json j \<Longrightarrow> plain (dumps st j)"
proof (induction j)
  case (JArr js)
  then show ?case using assms by (auto intro!: plain_join)
next
  case (JObj kvs)
  then have "plain (dumps st v)" if "(k, v) \<in> set kvs" for k v using that by fastforce
  then show ?case using assms by (auto intro!: plain_join simp: plain_quote)
qed (auto simp: plain_quote plain_dec_int intro: plain_lex_num)

lemma isascii_dumps:
  assumes "st = compact \<or> st = spaced" and "wf_json j"
  shows "isascii (dumps st j)"
  using assms by (intro plain_isascii plain_dumps) (auto simp: plain_seps)

lemma loads_dumps_bytes:
  assumes "st = compact \<or> st = spaced" and "wf_json j"
  shows "loads_bytes (dumps_bytes st j) = Inr j"
proof -
  from assms have "isascii (dumps st j)" and "wf_seps st"
    by (auto intro: isascii_dumps)
  with assms(2) show ?thesis
    by (simp add: loads_bytes_def dumps_bytes_def utf8_decode_ascii loads_dumps)
qed

section \<open>Codecs\<close>

text \<open>
  The interface of an encoding: what is well-formed decodes to itself, so no two such values share
  an encoding. Two encodings one over the other are an encoding again, which is how a JSON
  document travels inside a Base64 field.
\<close>

locale text_codec =
  fixes encode :: "'a \<Rightarrow> 'b" and decode :: "'b \<Rightarrow> 'a option" and ok :: "'a \<Rightarrow> bool"
  assumes decode_encode: "ok x \<Longrightarrow> decode (encode x) = Some x"
begin

lemma encode_inject: "ok x \<Longrightarrow> ok y \<Longrightarrow> encode x = encode y \<longleftrightarrow> x = y"
  by (metis decode_encode option.inject)

lemma encode_of: "ok x \<Longrightarrow> decode (encode x) = Some y \<Longrightarrow> y = x"
  using decode_encode [of x] by simp

end

locale layered_codec = inner: text_codec encode decode ok + outer: text_codec encode' decode' ok'
  for encode :: "'a \<Rightarrow> 'b" and decode :: "'b \<Rightarrow> 'a option" and ok :: "'a \<Rightarrow> bool"
    and encode' :: "'b \<Rightarrow> 'c" and decode' :: "'c \<Rightarrow> 'b option" and ok' :: "'b \<Rightarrow> bool" +
  assumes carried: "ok x \<Longrightarrow> ok' (encode x)"

sublocale layered_codec \<subseteq> both: text_codec "\<lambda>x. encode' (encode x)" "\<lambda>y. Option.bind (decode' y) decode" ok
  by unfold_locales (simp add: outer.decode_encode carried inner.decode_encode)

definition read_document :: "bytes \<Rightarrow> json option" where
  "read_document bs = (case loads_bytes bs of Inl f \<Rightarrow> None | Inr j \<Rightarrow> Some j)"

interpretation base64: text_codec b64encode b64decode "\<lambda>bs. True"
  by unfold_locales (simp add: b64_roundtrip)

interpretation utf8: text_codec "\<lambda>s. the (utf8_encode s)" utf8_decode scalars
proof unfold_locales
  fix s :: pystr
  assume "scalars s"
  then obtain bs where "utf8_encode s = Some bs" "utf8_decode bs = Some s" using utf8_roundtrip by blast
  then show "utf8_decode (the (utf8_encode s)) = Some s" by simp
qed

interpretation document: text_codec "dumps_bytes compact" read_document wf_json
  by unfold_locales (simp add: read_document_def loads_dumps_bytes)

interpretation boxed: layered_codec "dumps_bytes compact" read_document wf_json b64encode b64decode "\<lambda>bs. True"
  by unfold_locales simp

end
