(* ===== verification/Errors.thy ===== *)
theory Errors
  imports Codecs
begin

text \<open>
  The exceptions of the SDK (\<open>python/src/hawcx_haap/errors.py\<close>) and the standard-library ones its
  code catches or lets through, as one datatype \<open>exn\<close>. The subclass relation of the source is
  the family of \<open>is_...\<close> predicates; an \<open>except C\<close> clause is a test of the predicate of \<open>C\<close>.

  A class that is raised from many places with different messages carries a \<^emph>\<open>fault\<close>: one
  constructor per raise site, with the values its message interpolates. The text of a message
  is modelled (\<open>ipc_str\<close>) for the one class whose text the code inspects, \<open>IpcError\<close>.
\<close>

section \<open>Operating-system errors\<close>

text \<open>\<open>OSError\<close> and the subclasses that the code distinguishes.\<close>

datatype os_kind =
    Timeout          \<comment> \<open>\<open>TimeoutError\<close>, also spelled \<open>socket.timeout\<close>\<close>
  | ConnReset        \<comment> \<open>\<open>ConnectionResetError\<close>\<close>
  | BrokenPipe       \<comment> \<open>\<open>BrokenPipeError\<close>\<close>
  | ConnError        \<comment> \<open>\<open>ConnectionError(str(exc))\<close>, raised by the pipe stream\<close>
  | NotFound         \<comment> \<open>\<open>FileNotFoundError\<close>\<close>
  | Refused          \<comment> \<open>\<open>ConnectionRefusedError\<close>\<close>
  | Errno nat        \<comment> \<open>any other \<open>OSError\<close>, with its number\<close>

text \<open>A deadline in milliseconds; \<open>None\<close> waits for ever.\<close>

type_synonym timeout = "nat option"

section \<open>Faults\<close>

datatype ipc_fault =
    FrameTooLarge nat
  | PeerClosedMidMessage
  | FrameLengthZero
  | HandshakeShort nat
  | ExpectedHandshake nat
  | DiagnosedOs pystr pystr timeout os_kind
  | DiagnosedIpc pystr pystr timeout ipc_fault
  | StatFailed pystr os_kind
  | NotUnixSocket pystr
  | BadExpectedUid pystr
  | ParentStatFailed pystr os_kind
  | ParentOwner pystr nat nat
  | ParentMode pystr nat
  | PeerUid pystr int int
  | RestatFailed pystr os_kind
  | SocketSwapped pystr
  | WrongPeerRole nat
  | NoEndpoint
  | UnexpectedResponse nat
  | RegisterTooLarge nat
  | UnexpectedRegister nat
  | MalformedRegister
  | UnknownVariant
  | WindowsOnly
  | PipeWriteError nat
  | PipeShortWrite nat nat
  | PipeReadError nat
  | PipeOpenError pystr nat
  | PipeOpenTimeout pystr

datatype retire_reason =
    TimedOutAwaitingReply
  | TransportFailed os_kind
  | BrokerClosedChannel
  | MalformedReply
  | VendedHandleNotPipe

datatype proto_fault =
    EmptyHost
  | HostNotEncodable pystr
  | NulInHost
  | HostLength nat
  | PortOutOfRange
  | BadMethodVersion nat
  | MethodRefused
  | UnsupportedMethod nat
  | CommandNotSupported
  | AddressTypeNotSupported
  | ReplyCode nat
  | UnsupportedAtyp nat
  | TruncatedReply
  | TimedOutWriting
  | TimedOutReading
  | BadConnectVersion nat
  | MuxReplyLength nat
  | MuxOkCarriesRep nat
  | MuxNullHandle
  | MuxRefusalCarriesHandle nat
  | MuxDeniedWithSuccess
  | MuxVendFailed
  | MuxUnknownStatus nat
  | ChannelRetired retire_reason
  | ControlTimedOut
  | ControlTransport os_kind
  | ControlClosed nat
  | VendedNotPipe nat nat
  | UnsupportedScheme pystr
  | NoUrlHost pystr
  | BothBodies
  | RequestFailed pystr

datatype config_fault =
    NoBrokerSocket
  | BrokerSocketNotFound pystr os_kind
  | BrokerPathNotSocket pystr
  | NoAfUnix
  | CannotConnect pystr os_kind
  | NoBrokerHandle
  | HandleNotDecimal pystr
  | HandleZero
  | HandleTooLarge pystr
  | HandleNotPipe nat nat
  | HandleArgType
  | SocketPathOnWindows
  | UnknownFlavor pystr
  | NoFlavorInstalled
  | SeamMissing pystr
  | Http2NeedsHttpx
  | NoAsyncStdlib
  | Urllib3Missing
  | RequestsMissing
  | RequestsOnWindows
  | ProxyRefused pystr

datatype hawcx_fault =
    AgentClosed
  | NoIpcBaseDir
  | PrincipalEmpty
  | PrincipalNotAllowed pystr      \<comment> \<open>the fingerprint, never the principal\<close>
  | EnrollNeedsName
  | EnrollNeedsOrgToken
  | AuthClientClosed

datatype type_fault = AllowlistNotACollection | AllowlistEntryNotStr | AllowlistEntryEmpty
  | MissingArgument pystr | UnexpectedArgument pystr | Unhashable | NotOrderable | BadToolArgument

datatype template_fault = NoTemplateFile | TemplateNotUtf8 | InvalidJson | YamlMissing | InvalidYaml | InvalidTemplate

datatype extract_fault =
    NamespaceEmpty pystr
  | NoToolsArray
  | ToolsArrayEmpty
  | NothingExtractable
  | FrameworkNotAccepted pystr
  | ExtractedInvalid "(pystr \<times> pystr) list"

datatype generation_fault =
    ClassCollision pystr pystr pystr         \<comment> \<open>the two ids and the class name\<close>
  | NonAsciiSource "nat list"

datatype submit_fault =
    MissingCredentials pystr "pystr list"
  | NotHawcxKey
  | CleartextUrl pystr
  | ConsoleNotJson int pystr
  | ConsoleRefused json
  | ConsoleUnreachable pystr

datatype bundle_fault =
    NotADirectory | NoMainFile | BadMainSpec | MainNotIdentifier pystr | MainExists
  | NoRequirementsFile | PipFailed | NativeExtension "(pystr \<times> pystr) list" | ZipappRefused
  | MemberPath | MemberType | MemberCoding | MemberShadowsTrusted
  | BareBytecode | ZipSymlink | ZipNotRegular | ZipTooLarge | ZipEndRecord | ZipLayout | ZipTooManyEntries
  | NameCollision | DirectoryWithData | NativeMember | UnsupportedResource | ExpandedTooLarge
  | MemberSizeMismatch | NulInText | MemberNotUtf8 | FileAndDirectory
  | NoEntryPoint | TwoEntryPoints | MainModuleMissing | MainSyntax | MainNotCallable
  | SourceSyntax pystr | SdkModuleOutside pystr pystr | NotVendored pystr pystr
  | BuildRefused

section \<open>The exception classes\<close>

datatype exn =
    HawcxError hawcx_fault
  | IpcError ipc_fault
  | HandshakeError nat nat                    \<comment> \<open>local and remote major version\<close>
  | RequestRejected json json                 \<comment> \<open>request id and reason, as decoded\<close>
  | EgressConfigError config_fault
  | EgressProtocolError proto_fault
  | EgressPolicyDenied pystr int
  | EgressHostUnreachable pystr int
  | EgressHTTPStatusError int pystr pystr     \<comment> \<open>status, URL, leading body text\<close>
  | EgressPeerCredError
  | EgressBrokerBusy pystr int
  | EgressBrokerRequesterRefused pystr int
  | EnrollmentRejected pystr "pystr option"   \<comment> \<open>reason and agent instance id\<close>
  | OSError os_kind
  | TypeError type_fault
  | ValueError pystr
  | RuntimeError
  | KeyError pystr
  | JSONDecodeError
  | UnicodeError
  | AttributeError
  | OverflowError
  | ImportError
  | AssertionError
  | CalledProcessError int                    \<comment> \<open>of \<open>subprocess.run(check=True)\<close>, the exit status\<close>
  | BadZipFile                                \<comment> \<open>of \<open>zipfile\<close>\<close>
  | ZlibError                                 \<comment> \<open>\<open>zlib.error\<close>, an \<open>Exception\<close> of its own\<close>
  | HTTPException                             \<comment> \<open>of \<open>http.client\<close>\<close>
  | TemplateError template_fault "(pystr \<times> pystr) list"
  | ExtractError extract_fault
  | GenerationError generation_fault
  | SubmitError submit_fault json "int option"  \<comment> \<open>the console's error list and the HTTP status\<close>
  | BundleError bundle_fault

fun is_egress_error :: "exn \<Rightarrow> bool" where
  "is_egress_error (EgressConfigError _) = True"
| "is_egress_error (EgressProtocolError _) = True"
| "is_egress_error (EgressPolicyDenied _ _) = True"
| "is_egress_error (EgressHostUnreachable _ _) = True"
| "is_egress_error (EgressHTTPStatusError _ _ _) = True"
| "is_egress_error EgressPeerCredError = True"
| "is_egress_error (EgressBrokerBusy _ _) = True"
| "is_egress_error (EgressBrokerRequesterRefused _ _) = True"
| "is_egress_error _ = False"

text \<open>\<open>HandshakeError\<close> is an \<open>IpcError\<close>; every SDK class is a \<open>HawcxError\<close>.\<close>

fun is_ipc_error :: "exn \<Rightarrow> bool" where
  "is_ipc_error (IpcError _) = True"
| "is_ipc_error (HandshakeError _ _) = True"
| "is_ipc_error _ = False"

fun is_hawcx_error :: "exn \<Rightarrow> bool" where
  "is_hawcx_error (HawcxError _) = True"
| "is_hawcx_error (RequestRejected _ _) = True"
| "is_hawcx_error (EnrollmentRejected _ _) = True"
| "is_hawcx_error e = (is_ipc_error e \<or> is_egress_error e)"

fun is_os_error :: "exn \<Rightarrow> bool" where
  "is_os_error (OSError _) = True"
| "is_os_error _ = False"

text \<open>Sequencing of calls that return or raise, and \<open>[f(x) for x in xs]\<close> where \<open>f\<close> may raise.\<close>

definition chain :: "'e + 'a \<Rightarrow> ('a \<Rightarrow> 'e + 'b) \<Rightarrow> 'e + 'b" where
  "chain r f = (case r of Inl e \<Rightarrow> Inl e | Inr x \<Rightarrow> f x)"

lemma chain_simps [simp]: "chain (Inl e) f = Inl e" "chain (Inr x) f = f x"
  by (simp_all add: chain_def)

lemma chain_Inr: "chain r f = Inr y \<longleftrightarrow> (\<exists>x. r = Inr x \<and> f x = Inr y)"
  by (cases r) auto

lemma chain_Inl: "chain r f = Inl e \<longleftrightarrow> r = Inl e \<or> (\<exists>x. r = Inr x \<and> f x = Inl e)"
  by (cases r) auto

fun collect :: "('a \<Rightarrow> 'e + 'b) \<Rightarrow> 'a list \<Rightarrow> 'e + 'b list" where
  "collect f [] = Inr []"
| "collect f (x # xs) = chain (f x) (\<lambda>y. chain (collect f xs) (\<lambda>ys. Inr (y # ys)))"

lemma collect_Inr: "collect f xs = Inr ys \<longleftrightarrow> list_all2 (\<lambda>x y. f x = Inr y) xs ys"
  by (induction xs arbitrary: ys) (auto simp: chain_Inr list_all2_Cons1)

lemma collect_map: "\<forall>x \<in> set xs. f x = Inr (g x) \<Longrightarrow> collect f xs = Inr (map g xs)"
  by (induction xs) auto

text \<open>What \<open>bytes.decode\<close> and \<open>json.loads\<close> raise.\<close>

definition text_error :: "text_fault \<Rightarrow> exn" where
  "text_error f = (case f of NotUtf8 \<Rightarrow> UnicodeError | NotJson \<Rightarrow> JSONDecodeError)"

definition json_of_bytes :: "bytes \<Rightarrow> exn + json" where
  "json_of_bytes bs = (case loads_bytes bs of Inl f \<Rightarrow> Inl (text_error f) | Inr j \<Rightarrow> Inr j)"

section \<open>The text of an IpcError\<close>

text \<open>
  \<open>repr\<close> of a string, for code points below 256 (any other code point is kept as it is): single
  quotes unless the text holds one and no double quote, with the usual escapes.
\<close>

definition hex_digit :: "nat \<Rightarrow> nat" where
  "hex_digit d = (if d < 10 then 48 + d else 87 + d)"

definition hex2 :: "nat \<Rightarrow> pystr" where
  "hex2 n = [hex_digit (n div 16 mod 16), hex_digit (n mod 16)]"

definition repr_char :: "nat \<Rightarrow> nat \<Rightarrow> pystr" where
  "repr_char q c =
     (if c = q \<or> c = 92 then [92, c]
      else if c = 10 then [92, 110] else if c = 13 then [92, 114] else if c = 9 then [92, 116]
      else if c < 32 \<or> 127 \<le> c \<and> c < 161 \<or> c = 173 then [92, 120] @ hex2 c
      else [c])"

definition py_repr :: "pystr \<Rightarrow> pystr" where
  "py_repr s = (let q = (if 39 \<in> set s \<and> 34 \<notin> set s then 34 else 39)
                in [q] @ concat (map (repr_char q) s) @ [q])"

text \<open>\<open>repr\<close> and \<open>str\<close> of a decoded value.\<close>

fun py_repr_json :: "json \<Rightarrow> pystr" where
  "py_repr_json JNull = lit ''None''"
| "py_repr_json (JBool b) = (if b then lit ''True'' else lit ''False'')"
| "py_repr_json (JInt i) = dec_int i"
| "py_repr_json (JFloat r) = r"
| "py_repr_json (JStr s) = py_repr s"
| "py_repr_json (JArr js) = [91] @ join_with (lit '', '') (map py_repr_json js) @ [93]"
| "py_repr_json (JObj kvs) =
     [123] @ join_with (lit '', '') (map (\<lambda>(k, v). py_repr k @ lit '': '' @ py_repr_json v) kvs) @ [125]"

definition py_str :: "json \<Rightarrow> pystr" where
  "py_str j = (case j of JStr s \<Rightarrow> s | _ \<Rightarrow> py_repr_json j)"

definition os_name :: "os_kind \<Rightarrow> pystr" where
  "os_name k = (case k of Timeout \<Rightarrow> lit ''TimeoutError'' | ConnReset \<Rightarrow> lit ''ConnectionResetError''
     | BrokenPipe \<Rightarrow> lit ''BrokenPipeError'' | ConnError \<Rightarrow> lit ''ConnectionError''
     | NotFound \<Rightarrow> lit ''FileNotFoundError'' | Refused \<Rightarrow> lit ''ConnectionRefusedError''
     | Errno n \<Rightarrow> lit ''OSError'')"

definition deadline_text :: "timeout \<Rightarrow> pystr" where
  "deadline_text t = (case t of None \<Rightarrow> lit ''no deadline'' | Some ms \<Rightarrow> dec ms @ lit ''ms'')"

text \<open>
  \<open>str(e)\<close> for the faults that the framing layer and the connect wrapper raise. The text of a
  nested operating-system error is represented by its class name, and a deadline is printed in
  milliseconds; the remaining faults are never inspected and print as the empty text.
\<close>

fun ipc_str :: "ipc_fault \<Rightarrow> pystr" where
  "ipc_str (FrameTooLarge n) = lit ''frame too large: '' @ dec n @ lit '' bytes (max 65536)''"
| "ipc_str PeerClosedMidMessage = lit ''IPC peer closed connection mid-message''"
| "ipc_str FrameLengthZero = lit ''frame length 0 (illegal)''"
| "ipc_str (HandshakeShort n) = lit ''handshake payload too short: '' @ dec n @ lit '' (want >=9)''"
| "ipc_str (ExpectedHandshake t) = lit ''expected handshake (0x00), got 0x'' @ hex2 t"
| "ipc_str (UnexpectedResponse t) = lit ''unexpected response msg_type 0x'' @ hex2 t
     @ lit ''; expected 0x53 (ToolCallResponse) or 0x54 (RequestRejected)''"
| "ipc_str (DiagnosedOs ep op t k) = op @ lit '' to Assembler endpoint '' @ py_repr ep
     @ lit '' failed (deadline: '' @ deadline_text t @ lit ''): '' @ os_name k"
| "ipc_str (DiagnosedIpc ep op t f) = op @ lit '' to Assembler endpoint '' @ py_repr ep
     @ lit '' failed (deadline: '' @ deadline_text t @ lit ''): IpcError: '' @ ipc_str f"
| "ipc_str (PipeWriteError n) = lit ''WriteFile failed (error '' @ dec n @ lit '')''"
| "ipc_str (PipeShortWrite w n) = lit ''WriteFile failed (wrote '' @ dec w @ lit ''/'' @ dec n @ lit '')''"
| "ipc_str (PipeReadError n) = lit ''ReadFile failed (error '' @ dec n @ lit '')''"
| "ipc_str _ = []"

end
