(* ===== verification/Egress_Wire.thy ===== *)
theory Egress_Wire
  imports Errors
begin

text \<open>
  The pure wire helpers of \<open>python/src/hawcx_haap/egress.py\<close>: the SOCKS5 frames of the UNIX
  broker and the request and reply of the Windows control channel. Nothing here performs
  input or output; the drivers are in \<open>Egress_Socks\<close> and \<open>Egress_Control\<close>.

  The IDNA codec, which turns a non-ASCII name into DNS labels or fails, is the argument \<open>idna\<close>;
  every statement holds for any such function.
\<close>

type_synonym idna = "pystr \<Rightarrow> bytes option"

text \<open>A port argument: the checks of the source distinguish \<open>int\<close>, \<open>bool\<close> and anything else.\<close>

datatype port_arg = PortInt int | PortBool bool | PortOther

definition greeting :: bytes where "greeting = [5, 1, 0]"

section \<open>SOCKS5\<close>

definition encode_host :: "idna \<Rightarrow> pystr \<Rightarrow> exn + bytes" where
  "encode_host idna host =
     (if host = [] then Inl (EgressProtocolError EmptyHost)
      else case (if isascii host then Some (ascii_bytes host) else idna host) of
          None \<Rightarrow> Inl (EgressProtocolError (HostNotEncodable host))
        | Some raw \<Rightarrow>
            if 0 \<in> set raw then Inl (EgressProtocolError NulInHost)
            else if \<not> (1 \<le> length raw \<and> length raw \<le> 255)
            then Inl (EgressProtocolError (HostLength (length raw)))
            else Inr raw)"

text \<open>In \<open>isinstance(port, int)\<close> a \<open>bool\<close> passes, and converts to 0 or 1.\<close>

fun int_of_port :: "port_arg \<Rightarrow> int option" where
  "int_of_port (PortInt p) = Some p"
| "int_of_port (PortBool b) = Some (of_bool b)"
| "int_of_port PortOther = None"

definition port_value :: "port_arg \<Rightarrow> int" where
  "port_value port = (case int_of_port port of None \<Rightarrow> 0 | Some p \<Rightarrow> p)"

definition connect_request :: "idna \<Rightarrow> pystr \<Rightarrow> port_arg \<Rightarrow> exn + bytes" where
  "connect_request idna host port =
     (case int_of_port port of
        None \<Rightarrow> Inl (EgressProtocolError PortOutOfRange)
      | Some p \<Rightarrow>
          if \<not> (0 \<le> p \<and> p \<le> 0xFFFF) then Inl (EgressProtocolError PortOutOfRange)
          else case encode_host idna host of
              Inl e \<Rightarrow> Inl e
            | Inr raw \<Rightarrow> Inr ([5, 1, 0, 3] @ [of_nat (length raw)] @ raw @ to_be 2 (nat p)))"

text \<open>The caller has read exactly two bytes; a shorter reply cannot reach this check.\<close>

definition check_method_reply :: "bytes \<Rightarrow> exn + unit" where
  "check_method_reply reply =
     (if reply ! 0 \<noteq> 5 then Inl (EgressProtocolError (BadMethodVersion (unat (reply ! 0))))
      else if reply ! 1 = 0xFF then Inl (EgressProtocolError MethodRefused)
      else if reply ! 1 \<noteq> 0 then Inl (EgressProtocolError (UnsupportedMethod (unat (reply ! 1))))
      else Inr ())"

definition reply_exception :: "byte \<Rightarrow> pystr \<Rightarrow> int \<Rightarrow> exn" where
  "reply_exception rep host port =
     (if rep = 2 then EgressPolicyDenied host port
      else if rep = 4 then EgressHostUnreachable host port
      else if rep = 7 then EgressProtocolError CommandNotSupported
      else if rep = 8 then EgressProtocolError AddressTypeNotSupported
      else EgressProtocolError (ReplyCode (unat rep)))"

definition bound_trailer_len :: "byte \<Rightarrow> exn + nat option" where
  "bound_trailer_len atyp =
     (if atyp = 1 then Inr (Some (4 + 2))
      else if atyp = 4 then Inr (Some (16 + 2))
      else if atyp = 3 then Inr None
      else Inl (EgressProtocolError (UnsupportedAtyp (unat atyp))))"

text \<open>
  What the broker makes of the request: the CONNECT request of RFC 1928 with a domain name,
  read off the front of its input. It is the abstract reader the encoder is proved against.
\<close>

definition parse_connect :: "bytes \<Rightarrow> (bytes \<times> nat \<times> bytes) option" where
  "parse_connect bs =
     (case bs of
        v # c # r # a # l # rest \<Rightarrow>
          if v = 5 \<and> c = 1 \<and> r = 0 \<and> a = 3 \<and> unat l + 2 \<le> length rest
          then Some (take (unat l) rest, from_be (take 2 (drop (unat l) rest)), drop (unat l + 2) rest)
          else None
      | _ \<Rightarrow> None)"

lemma encode_host_Inr:
  assumes "encode_host idna host = Inr raw"
  shows "raw \<noteq> []" and "length raw \<le> 255" and "0 \<notin> set raw"
  using assms by (auto simp: encode_host_def split: if_splits option.splits)

lemma encode_host_Inl:
  "encode_host idna host = Inl e \<Longrightarrow> \<exists>f. e = EgressProtocolError f"
  by (auto simp: encode_host_def split: if_splits option.splits)

lemma connect_request_Inl:
  "connect_request idna host port = Inl e \<Longrightarrow> \<exists>f. e = EgressProtocolError f"
  by (auto simp: connect_request_def dest: encode_host_Inl split: if_splits option.splits sum.splits)

lemma connect_request_InrE:
  assumes "connect_request idna host port = Inr req"
  obtains p raw where "int_of_port port = Some p" and "0 \<le> p" and "p \<le> 65535"
    and "encode_host idna host = Inr raw"
    and "req = [5, 1, 0, 3, of_nat (length raw)] @ raw @ to_be 2 (nat p)"
  using assms by (auto simp: connect_request_def split: if_splits option.splits sum.splits)

lemma unat_length_byte: "n \<le> 255 \<Longrightarrow> unat (of_nat n :: byte) = n"
  by simp

lemma parse_connect_request:
  assumes "length raw \<le> 255" and "p < 65536"
  shows "parse_connect ([5, 1, 0, 3, of_nat (length raw)] @ raw @ to_be 2 p @ rest) = Some (raw, p, rest)"
  using assms by (simp add: parse_connect_def from_be_to_be)

section \<open>The Windows control channel\<close>

definition mux_req_connect_for :: byte where "mux_req_connect_for = 2"
definition mux_ok :: byte where "mux_ok = 0"
definition mux_denied :: byte where "mux_denied = 1"
definition mux_busy :: byte where "mux_busy = 2"
definition mux_vend_failed :: byte where "mux_vend_failed = 3"
definition mux_requester_refused :: byte where "mux_requester_refused = 4"
definition mux_reply_len :: nat where "mux_reply_len = 6"

lemmas mux_defs = mux_req_connect_for_def mux_ok_def mux_denied_def mux_busy_def
  mux_vend_failed_def mux_requester_refused_def mux_reply_len_def

text \<open>Here a \<open>bool\<close> port is refused; \<open>pid\<close> is \<open>os.getpid()\<close>.\<close>

definition mux_request :: "idna \<Rightarrow> nat \<Rightarrow> pystr \<Rightarrow> port_arg \<Rightarrow> exn + bytes" where
  "mux_request idna pid host port =
     (case port of
        PortInt p \<Rightarrow>
          if \<not> (0 \<le> p \<and> p \<le> 0xFFFF) then Inl (EgressProtocolError PortOutOfRange)
          else (case encode_host idna host of
              Inl e \<Rightarrow> Inl e
            | Inr raw \<Rightarrow> Inr ([mux_req_connect_for] @ to_be 4 pid @ to_be 2 (nat p)
                              @ [of_nat (length raw)] @ raw))
      | _ \<Rightarrow> Inl (EgressProtocolError PortOutOfRange))"

definition parse_mux_reply :: "bytes \<Rightarrow> pystr \<Rightarrow> int \<Rightarrow> exn + nat" where
  "parse_mux_reply reply host port =
     (if length reply \<noteq> mux_reply_len then Inl (EgressProtocolError (MuxReplyLength (length reply)))
      else let status = reply ! 0; rep = reply ! 1; handle = from_be (drop 2 reply) in
        if status = mux_ok then
          (if rep \<noteq> 0 then Inl (EgressProtocolError (MuxOkCarriesRep (unat rep)))
           else if handle = 0 then Inl (EgressProtocolError MuxNullHandle)
           else Inr handle)
        else if handle \<noteq> 0 then Inl (EgressProtocolError (MuxRefusalCarriesHandle (unat status)))
        else if status = mux_denied then
          (if rep = 0 then Inl (EgressProtocolError MuxDeniedWithSuccess)
           else Inl (reply_exception rep host port))
        else if status = mux_busy then Inl (EgressBrokerBusy host port)
        else if status = mux_vend_failed then Inl (EgressProtocolError MuxVendFailed)
        else if status = mux_requester_refused then Inl (EgressBrokerRequesterRefused host port)
        else Inl (EgressProtocolError (MuxUnknownStatus (unat status))))"

definition is_refusal :: "bytes \<Rightarrow> bool" where
  "is_refusal reply \<longleftrightarrow>
     length reply = mux_reply_len \<and>
     reply ! 0 \<in> {mux_denied, mux_busy, mux_vend_failed, mux_requester_refused} \<and>
     take 4 (drop 2 reply) = [0, 0, 0, 0] \<and>
     \<not> (reply ! 0 = mux_denied \<and> reply ! 1 = 0)"

text \<open>The broker's reader of a control request and writer of a reply (the protocol comment of
  \<open>egress.py\<close>).\<close>

definition parse_mux_request :: "bytes \<Rightarrow> (nat \<times> nat \<times> bytes \<times> bytes) option" where
  "parse_mux_request bs =
     (if 8 \<le> length bs \<and> bs ! 0 = mux_req_connect_for \<and> unat (bs ! 7) + 8 \<le> length bs
      then Some (from_be (take 4 (drop 1 bs)), from_be (take 2 (drop 5 bs)),
                 take (unat (bs ! 7)) (drop 8 bs), drop (unat (bs ! 7)) (drop 8 bs))
      else None)"

definition mux_reply :: "byte \<Rightarrow> byte \<Rightarrow> nat \<Rightarrow> bytes" where
  "mux_reply status rep handle = [status, rep] @ to_be 4 handle"

lemma length_mux_reply [simp]: "length (mux_reply s r h) = 6"
  by (simp add: mux_reply_def)

lemma mux_request_Inl: "mux_request idna pid host port = Inl e \<Longrightarrow> \<exists>f. e = EgressProtocolError f"
  by (auto simp: mux_request_def dest: encode_host_Inl split: if_splits port_arg.splits sum.splits)

lemma mux_request_InrE:
  assumes "mux_request idna pid host port = Inr req"
  obtains p raw where "port = PortInt p" and "0 \<le> p" and "p \<le> 65535"
    and "encode_host idna host = Inr raw"
    and "req = [2] @ to_be 4 pid @ to_be 2 (nat p) @ [of_nat (length raw)] @ raw"
  using assms by (auto simp: mux_request_def mux_defs split: if_splits port_arg.splits sum.splits)

lemmas length2E = length2_obtain

lemma length4E:
  assumes "length xs = 4"
  obtains a b c d where "xs = [a, b, c, d]"
  using assms by (auto simp: numeral_eq_Suc length_Suc_conv)

lemma parse_mux_request_wire:
  assumes "length raw \<le> 255" and "p < 65536" and "pid < 256 ^ 4"
  shows "parse_mux_request ([2] @ to_be 4 pid @ to_be 2 p @ [of_nat (length raw)] @ raw @ rest)
           = Some (pid, p, raw, rest)"
proof -
  obtain a b c d where pid: "to_be 4 pid = [a, b, c, d]" by (rule length4E [of "to_be 4 pid"]) auto
  obtain x y where p: "to_be 2 p = [x, y]" by (rule length2E [of "to_be 2 p"]) auto
  have "from_be [a, b, c, d] = pid" "from_be [x, y] = p"
    using assms from_be_to_be [of pid 4] from_be_to_be [of p 2] pid p by auto
  then show ?thesis
    using assms by (simp add: parse_mux_request_def mux_defs pid p)
qed

text \<open>A refusal, as the channel sees it, is exactly a reply that maps to a refusal error.\<close>

lemma from_be_zero_iff: "from_be bs = 0 \<longleftrightarrow> (\<forall>b \<in> set bs. b = 0)"
  by (induction bs rule: rev_induct) (auto simp: unat_eq_zero)

lemma is_refusal_parse:
  assumes "is_refusal reply"
  shows "\<exists>e. parse_mux_reply reply host port = Inl e"
  using assms by (auto simp: is_refusal_def parse_mux_reply_def mux_defs Let_def)

lemma parse_mux_reply_Inl_egress:
  "parse_mux_reply reply host port = Inl e \<Longrightarrow> is_egress_error e"
  by (auto simp: parse_mux_reply_def reply_exception_def Let_def split: if_splits)

lemma parse_mux_reply_Inr:
  "parse_mux_reply reply host port = Inr h \<longleftrightarrow>
     length reply = 6 \<and> reply ! 0 = 0 \<and> reply ! 1 = 0 \<and> h = from_be (drop 2 reply) \<and> h \<noteq> 0"
  by (auto simp: parse_mux_reply_def mux_defs Let_def)


section \<open>Properties\<close>

text \<open>
  The CONNECT request says what the caller asked for and nothing else. The reader of
  RFC 1928, run on the request followed by any bytes, finds one request with a domain name: the
  encoded host, the port, and exactly the bytes that followed. In particular the length byte
  never wraps and the name is never empty.
\<close>

theorem connect_request_roundtrip:
  assumes "connect_request idna host port = Inr req"
  shows "\<exists>raw p. encode_host idna host = Inr raw \<and> int_of_port port = Some p \<and> raw \<noteq> [] \<and>
           parse_connect (req @ rest) = Some (raw, nat p, rest)"
  using assms
proof (rule connect_request_InrE)
  fix p raw
  assume p: "int_of_port port = Some p" "0 \<le> p" "p \<le> 65535"
    and raw: "encode_host idna host = Inr raw"
    and req: "req = [5, 1, 0, 3, of_nat (length raw)] @ raw @ to_be 2 (nat p)"
  from encode_host_Inr [OF raw] p(2,3) have "parse_connect (req @ rest) = Some (raw, nat p, rest)"
    unfolding req using parse_connect_request [of raw "nat p" rest] by simp
  with p raw encode_host_Inr(1) [OF raw] show ?thesis by blast
qed

theorem connect_request_roundtrip_witness:
  "\<exists>raw p. parse_connect ([5, 1, 0, 3, 1, 97, 1, 187] @ [22]) = Some (raw, nat p, [22])"
proof -
  have "connect_request (\<lambda>_. None) (lit ''a'') (PortInt 443) = Inr [5, 1, 0, 3, 1, 97, 1, 187]"
    by (simp add: connect_request_def encode_host_def lit_def ascii_bytes_def to_be_2)
  from connect_request_roundtrip [OF this, of "[22]"] show ?thesis by blast
qed

text \<open>
  The control request of the Windows channel carries the requester's own process id, the
  port and the name, always under the opcode 2 that vends into the verified requester; the
  broker's reader recovers all three and stops at the end of the name.
\<close>

theorem mux_request_roundtrip:
  assumes "mux_request idna pid host port = Inr req" and "pid < 256 ^ 4"
  shows "\<exists>raw p. encode_host idna host = Inr raw \<and> port = PortInt p \<and>
           parse_mux_request (req @ rest) = Some (pid, nat p, raw, rest)"
  using assms(1)
proof (rule mux_request_InrE)
  fix p raw
  assume p: "port = PortInt p" "0 \<le> p" "p \<le> 65535" and raw: "encode_host idna host = Inr raw"
    and req: "req = [2] @ to_be 4 pid @ to_be 2 (nat p) @ [of_nat (length raw)] @ raw"
  from encode_host_Inr [OF raw] p(2,3) assms(2)
  have "parse_mux_request (req @ rest) = Some (pid, nat p, raw, rest)"
    unfolding req using parse_mux_request_wire [of raw "nat p" pid rest] by simp
  with p raw show ?thesis by blast
qed

theorem mux_request_roundtrip_witness:
  "\<exists>raw p. parse_mux_request ([2, 0, 0, 4, 210, 1, 187, 1, 97] @ [9]) = Some (1234, nat p, raw, [9])"
proof -
  have "mux_request (\<lambda>_. None) 1234 (lit ''a'') (PortInt 443) = Inr [2, 0, 0, 4, 210, 1, 187, 1, 97]"
    by (simp add: mux_request_def encode_host_def lit_def ascii_bytes_def to_be_2 to_be_4 mux_defs)
  from mux_request_roundtrip [OF this, of "[9]"] show ?thesis by fastforce
qed

text \<open>The errors that say the broker answered, with a no.\<close>

definition broker_said_no :: "pystr \<Rightarrow> int \<Rightarrow> exn \<Rightarrow> bool" where
  "broker_said_no host port e \<longleftrightarrow>
     (\<exists>rep. rep \<noteq> 0 \<and> e = reply_exception rep host port) \<or>
     e \<in> {EgressBrokerBusy host port, EgressProtocolError MuxVendFailed, EgressBrokerRequesterRefused host port}"

lemma broker_said_no_reply [simp]: "rep \<noteq> 0 \<Longrightarrow> broker_said_no host port (reply_exception rep host port)"
  by (auto simp: broker_said_no_def)

lemma not_said_no [simp]:
  "\<not> broker_said_no host port (EgressProtocolError (MuxReplyLength n))"
  "\<not> broker_said_no host port (EgressProtocolError (MuxOkCarriesRep n))"
  "\<not> broker_said_no host port (EgressProtocolError MuxNullHandle)"
  "\<not> broker_said_no host port (EgressProtocolError (MuxRefusalCarriesHandle n))"
  "\<not> broker_said_no host port (EgressProtocolError MuxDeniedWithSuccess)"
  "\<not> broker_said_no host port (EgressProtocolError (MuxUnknownStatus n))"
  by (simp_all add: broker_said_no_def reply_exception_def)

lemma said_no [simp]:
  "broker_said_no host port (EgressBrokerBusy host port)"
  "broker_said_no host port (EgressProtocolError MuxVendFailed)"
  "broker_said_no host port (EgressBrokerRequesterRefused host port)"
  by (simp_all add: broker_said_no_def)

lemma is_refusal_said_no:
  "is_refusal reply \<longleftrightarrow> (\<exists>e. parse_mux_reply reply host port = Inl e \<and> broker_said_no host port e)"
proof (cases "length reply = 6")
  case False
  then show ?thesis by (auto simp: is_refusal_def parse_mux_reply_def mux_defs)
next
  case True
  then have l4: "length (drop 2 reply) = 4" by simp
  then obtain a b c d where t: "drop 2 reply = [a, b, c, d]" by (rule length4E)
  have "take 4 (drop 2 reply) = [0, 0, 0, 0] \<longleftrightarrow> from_be (drop 2 reply) = 0"
    unfolding t by (simp add: from_be_zero_iff)
  with True show ?thesis
    by (auto simp: is_refusal_def parse_mux_reply_def mux_defs Let_def split: if_splits)
qed

text \<open>
  The two readings of a control reply agree. \<open>_is_refusal\<close>, which decides whether the
  channel stays in use, holds of exactly the replies for which \<open>_parse_mux_reply\<close> raises an
  error that stands for a refusal; and a handle is returned for exactly the six-byte replies
  with status and code zero and a handle field that is not zero. Everything else is a protocol
  error, on which the channel is retired.
\<close>

theorem mux_reply_classified:
  "(is_refusal reply \<longleftrightarrow> (\<exists>e. parse_mux_reply reply host port = Inl e \<and> broker_said_no host port e)) \<and>
   (parse_mux_reply reply host port = Inr h \<longleftrightarrow>
      (\<exists>hb. reply = [0, 0] @ hb \<and> length hb = 4 \<and> h = from_be hb \<and> 0 < h))"
proof (intro conjI)
  show "is_refusal reply \<longleftrightarrow> (\<exists>e. parse_mux_reply reply host port = Inl e \<and> broker_said_no host port e)"
    by (rule is_refusal_said_no)
  show "parse_mux_reply reply host port = Inr h \<longleftrightarrow>
      (\<exists>hb. reply = [0, 0] @ hb \<and> length hb = 4 \<and> h = from_be hb \<and> 0 < h)"
  proof -
    have "reply = [0, 0] @ drop 2 reply" if "length reply = 6" "reply ! 0 = 0" "reply ! 1 = 0"
    proof -
      from that(1) have "length (take 2 reply) = 2" by simp
      then obtain a b where ab: "take 2 reply = [a, b]" by (rule length2E)
      have "take 2 reply ! 0 = reply ! 0" "take 2 reply ! 1 = reply ! 1" by simp_all
      with ab that have "take 2 reply = [0, 0]" by simp
      then show ?thesis by (metis append_take_drop_id)
    qed
    then show ?thesis
      by (auto simp: parse_mux_reply_Inr)
  qed
qed

end
