(* ===== verification/Sockets.thy ===== *)
theory Sockets
  imports Errors
begin

text \<open>
  The byte streams the SDK talks over. A connected socket is a script of what its peer will do
  (\<open>rx\<close>), the bytes written so far (\<open>tx\<close>), the fate of the coming writes, and whether it is
  open. The script is the environment: every theorem quantifies over it, so it ranges over all
  fragmentations, early closes, resets and time-outs.

  The interface the clients rely on is the locale \<open>byte_source\<close>: a read returns a non-empty
  prefix of what is pending. The loop that reads exactly \<open>n\<close> bytes is written and proved once
  against it.
\<close>

section \<open>A scripted socket\<close>

datatype rx_event =
    Data bytes        \<comment> \<open>a segment arrives\<close>
  | Eof               \<comment> \<open>the peer has closed; every further read says so too\<close>
  | Fail os_kind      \<comment> \<open>one read fails\<close>

record sock =
  rx :: "rx_event list"
  tx :: bytes
  tx_plan :: "(nat \<times> os_kind) option list"   \<comment> \<open>next writes: \<open>Some (n, k)\<close> fails after \<open>n\<close> bytes\<close>
  is_open :: bool
  deadline :: timeout

text \<open>A read of at most \<open>n\<close> bytes; an exhausted script is an orderly close.\<close>

fun pull :: "nat \<Rightarrow> rx_event list \<Rightarrow> (os_kind + bytes) \<times> rx_event list" where
  "pull n [] = (Inr [], [])"
| "pull n (Eof # es) = (Inr [], Eof # es)"
| "pull n (Fail k # es) = (Inl k, es)"
| "pull n (Data bs # es) =
     (if bs = [] then pull n es
      else if n < length bs then (Inr (take n bs), Data (drop n bs) # es)
      else (Inr bs, es))"

definition ebadf :: os_kind where "ebadf = Errno 9"

definition sock_recv :: "nat \<Rightarrow> sock \<Rightarrow> (os_kind + bytes) \<times> sock" where
  "sock_recv n s =
     (if \<not> is_open s then (Inl ebadf, s)
      else case pull n (rx s) of (r, es) \<Rightarrow> (r, s\<lparr>rx := es\<rparr>))"

definition sock_sendall :: "bytes \<Rightarrow> sock \<Rightarrow> (os_kind + unit) \<times> sock" where
  "sock_sendall bs s =
     (if \<not> is_open s then (Inl ebadf, s)
      else case tx_plan s of
        [] \<Rightarrow> (Inr (), s\<lparr>tx := tx s @ bs\<rparr>)
      | None # p \<Rightarrow> (Inr (), s\<lparr>tx := tx s @ bs, tx_plan := p\<rparr>)
      | Some (n, k) # p \<Rightarrow> (Inl k, s\<lparr>tx := tx s @ take n bs, tx_plan := p\<rparr>))"

definition sock_close :: "sock \<Rightarrow> sock" where
  "sock_close s = s\<lparr>is_open := False\<rparr>"

definition set_deadline :: "timeout \<Rightarrow> sock \<Rightarrow> sock" where
  "set_deadline t s = s\<lparr>deadline := t\<rparr>"

text \<open>What the script delivers before it stops, and how it stops.\<close>

fun stream :: "rx_event list \<Rightarrow> bytes" where
  "stream (Data bs # es) = bs @ stream es"
| "stream _ = []"

fun ending :: "rx_event list \<Rightarrow> rx_event" where
  "ending [] = Eof"
| "ending (Data bs # es) = ending es"
| "ending (e # es) = e"

lemma pull_stream:
  assumes "stream es \<noteq> []" and "0 < n"
  shows "\<exists>c es'. pull n es = (Inr c, es') \<and> c \<noteq> [] \<and> length c \<le> n \<and>
                  stream es = c @ stream es' \<and> ending es' = ending es"
  using assms by (induction n es rule: pull.induct) auto

lemma pull_end:
  assumes "stream es = []"
  shows "fst (pull n es) = (case ending es of Fail k \<Rightarrow> Inl k | _ \<Rightarrow> Inr [])"
  using assms by (induction n es rule: pull.induct) auto

lemma ending_not_Data: "ending es \<noteq> Data bs"
  by (induction es rule: ending.induct) auto

section \<open>Reading exactly n bytes\<close>

text \<open>
  The loop \<open>while len(buf) < n\<close> that \<open>egress.py\<close> and \<open>ipc.py\<close> each write around a \<open>recv\<close>.
  It stops with the failure of the read, or with \<open>None\<close> for a close, and in both cases with
  the bytes read until then. A read is never empty where the loop goes on, so it terminates
  over any \<open>recv\<close>.
\<close>

function read_loop ::
  "(nat \<Rightarrow> 's \<Rightarrow> (os_kind + bytes) \<times> 's) \<Rightarrow> nat \<Rightarrow> bytes \<Rightarrow> 's
   \<Rightarrow> ((os_kind option \<times> bytes) + bytes) \<times> 's" where
  "read_loop recv n buf s =
     (if length buf < n then
        (case recv (n - length buf) s of
           (Inl k, s') \<Rightarrow> (Inl (Some k, buf), s')
         | (Inr c, s') \<Rightarrow> if c = [] then (Inl (None, buf), s') else read_loop recv n (buf @ c) s')
      else (Inr buf, s))"
  by pat_completeness auto
termination
  by (relation "measure (\<lambda>(recv, n, buf, s). n - length buf)") (auto intro!: diff_less_mono2)

declare read_loop.simps [simp del]

lemma read_loop_done: "n \<le> length buf \<Longrightarrow> read_loop recv n buf s = (Inr buf, s)"
  by (simp add: read_loop.simps)

lemma read_loop_0 [simp]: "read_loop recv 0 [] s = (Inr [], s)"
  by (simp add: read_loop.simps)

text \<open>
  The interface: \<open>pending s\<close> are the bytes the peer has on the way and \<open>stop s\<close> what happens
  after them (\<open>None\<close> for a close).
\<close>

locale byte_source =
  fixes recv :: "nat \<Rightarrow> 's \<Rightarrow> (os_kind + bytes) \<times> 's"
    and pending :: "'s \<Rightarrow> bytes"
    and stop :: "'s \<Rightarrow> os_kind option"
    and frame :: "'s \<Rightarrow> 'f"
  assumes recv_some: "pending s \<noteq> [] \<Longrightarrow> 0 < n \<Longrightarrow>
      \<exists>c s'. recv n s = (Inr c, s') \<and> c \<noteq> [] \<and> length c \<le> n \<and>
             pending s = c @ pending s' \<and> stop s' = stop s"
    and recv_none: "pending s = [] \<Longrightarrow> 0 < n \<Longrightarrow>
      fst (recv n s) = (case stop s of None \<Rightarrow> Inr [] | Some k \<Rightarrow> Inl k)"
    and recv_frame: "frame (snd (recv n s)) = frame s"
begin

lemma read_loop_enough:
  assumes "n \<le> length buf + length (pending s)" and "length buf \<le> n"
  shows "\<exists>s'. read_loop recv n buf s = (Inr (buf @ take (n - length buf) (pending s)), s') \<and>
              pending s' = drop (n - length buf) (pending s) \<and> stop s' = stop s"
  using assms
proof (induction "n - length buf" arbitrary: buf s rule: less_induct)
  case (less buf s)
  show ?case
  proof (cases "length buf < n")
    case False
    with less.prems show ?thesis by (auto simp: read_loop_done)
  next
    case True
    with less.prems have "pending s \<noteq> []" by auto
    from recv_some [OF this, of "n - length buf"] True
    obtain c s' where r: "recv (n - length buf) s = (Inr c, s')" and c: "c \<noteq> []"
        "length c \<le> n - length buf" and p: "pending s = c @ pending s'" and st: "stop s' = stop s"
      by auto
    have "n - length (buf @ c) < n - length buf" using c True by (auto intro!: diff_less_mono2)
    moreover have "length (buf @ c) \<le> n" "n \<le> length (buf @ c) + length (pending s')"
      using c p less.prems True by auto
    ultimately
    obtain s'' where "read_loop recv n (buf @ c) s'
          = (Inr ((buf @ c) @ take (n - length (buf @ c)) (pending s')), s'')"
      and "pending s'' = drop (n - length (buf @ c)) (pending s')" and "stop s'' = stop s'"
      using less.hyps by blast
    with r c p st True show ?thesis
      by (auto simp: read_loop.simps [of recv n buf s])
  qed
qed

lemma read_loop_short:
  assumes "length buf + length (pending s) < n"
  shows "fst (read_loop recv n buf s) = Inl (stop s, buf @ pending s)"
  using assms
proof (induction "n - length buf" arbitrary: buf s rule: less_induct)
  case (less buf s)
  then have lt: "length buf < n" by simp
  show ?case
  proof (cases "pending s = []")
    case True
    with recv_none [OF True, of "n - length buf"] lt show ?thesis
      by (auto simp: read_loop.simps [of recv n buf s] split: prod.splits option.splits sum.splits)
  next
    case False
    from recv_some [OF this, of "n - length buf"] lt
    obtain c s' where r: "recv (n - length buf) s = (Inr c, s')" and c: "c \<noteq> []"
        and p: "pending s = c @ pending s'" and st: "stop s' = stop s"
      by auto
    have "n - length (buf @ c) < n - length buf" using c lt by (auto intro!: diff_less_mono2)
    from less.hyps [OF this, of s'] r c p less.prems st
    show ?thesis by (simp add: read_loop.simps [of recv n buf s] lt)
  qed
qed

lemma read_loop_frame: "frame (snd (read_loop recv n buf s)) = frame s"
proof (induction "n - length buf" arbitrary: buf s rule: less_induct)
  case (less buf s)
  obtain r s' where r: "recv (n - length buf) s = (r, s')" by force
  have f: "frame s' = frame s" using recv_frame [of "n - length buf" s] r by simp
  have "frame (snd (read_loop recv n (buf @ c) s')) = frame s'" if "c \<noteq> []" "length buf < n" for c
    using that by (intro less.hyps) (auto intro!: diff_less_mono2)
  with r f show ?case
    by (auto simp: read_loop.simps [of recv n buf s] split: sum.splits)
qed

end

text \<open>The scripted socket provides the interface.\<close>

definition sock_pending :: "sock \<Rightarrow> bytes" where
  "sock_pending s = (if is_open s then stream (rx s) else [])"

definition sock_stop :: "sock \<Rightarrow> os_kind option" where
  "sock_stop s = (if is_open s then (case ending (rx s) of Fail k \<Rightarrow> Some k | _ \<Rightarrow> None) else Some ebadf)"

interpretation sock: byte_source sock_recv sock_pending sock_stop "\<lambda>s. s\<lparr>rx := []\<rparr>"
proof
  fix s :: sock and n :: nat
  assume "sock_pending s \<noteq> []" and "0 < n"
  with pull_stream [of "rx s" n]
  show "\<exists>c s'. sock_recv n s = (Inr c, s') \<and> c \<noteq> [] \<and> length c \<le> n \<and>
             sock_pending s = c @ sock_pending s' \<and> sock_stop s' = sock_stop s"
    by (fastforce simp: sock_recv_def sock_pending_def sock_stop_def split: if_splits)
next
  fix s :: sock and n :: nat
  assume "sock_pending s = []" and "0 < n"
  with pull_end [of "rx s" n]
  show "fst (sock_recv n s) = (case sock_stop s of None \<Rightarrow> Inr [] | Some k \<Rightarrow> Inl k)"
    by (auto simp: sock_recv_def sock_pending_def sock_stop_def
        split: if_splits prod.splits rx_event.splits)
next
  fix s :: sock and n :: nat
  show "(snd (sock_recv n s))\<lparr>rx := []\<rparr> = s\<lparr>rx := []\<rparr>"
    by (auto simp: sock_recv_def split: prod.splits)
qed


lemma sock_frame_fields:
  assumes "s'\<lparr>rx := []\<rparr> = s\<lparr>rx := []\<rparr>"
  shows "tx s' = tx s \<and> tx_plan s' = tx_plan s \<and> is_open s' = is_open s \<and> deadline s' = deadline s"
  using assms by (metis (mono_tags, lifting) sock.select_convs(2-5) sock.update_convs(1) sock.surjective)

end
