(* ===== verification/Egress_Socks.thy ===== *)
theory Egress_Socks
  imports Egress_Wire Sockets
begin

text \<open>
  The two SOCKS5 drivers of \<open>egress.py\<close>: \<open>_socks5_connect_sync\<close> over a blocking socket and
  \<open>_socks5_connect_async\<close> over an anyio stream, each with its own handshake and its own read and
  write helpers. \<open>protocol\<close> is the common shape that both handshakes are shown to have.

  The environment of a connection is the outcome of the dial (\<open>None\<close>: connected) and the fresh
  socket the operating system hands out. A result carries the socket that was created, or
  \<open>None\<close> when the code raised before creating one. For the async driver a \<open>Timeout\<close> in the
  script is the \<open>anyio.fail_after\<close> deadline passing; every other failure of an anyio stream is a
  \<open>BrokenResourceError\<close>.

  The specification \<open>socks_verdict\<close> is a reader over the concatenated bytes; \<open>refines\<close> lemmas
  show that how the bytes are fragmented is irrelevant and that nothing after the reply is read.
\<close>

section \<open>The helpers\<close>

definition closed_mid_handshake :: "bool \<Rightarrow> bool \<Rightarrow> exn" where
  "closed_mid_handshake peer_cred got_bytes =
     (if peer_cred \<and> \<not> got_bytes then EgressPeerCredError else EgressProtocolError TruncatedReply)"

definition sendall_sync :: "bool \<Rightarrow> bytes \<Rightarrow> (exn, sock, unit) act" where
  "sendall_sync peer_cred data s =
     (case sock_sendall data s of
        (Inr u, s') \<Rightarrow> (Inr (), s')
      | (Inl Timeout, s') \<Rightarrow> (Inl (EgressProtocolError TimedOutWriting), s')
      | (Inl k, s') \<Rightarrow> (Inl (closed_mid_handshake peer_cred False), s'))"

text \<open>Only a time-out and a reset are caught around \<open>recv\<close>; any other \<open>OSError\<close> passes through.\<close>

definition recv_exact_sync :: "bool \<Rightarrow> nat \<Rightarrow> (exn, sock, bytes) act" where
  "recv_exact_sync peer_cred n s =
     (case read_loop sock_recv n [] s of
        (Inr buf, s') \<Rightarrow> (Inr buf, s')
      | (Inl (None, buf), s') \<Rightarrow> (Inl (closed_mid_handshake peer_cred (buf \<noteq> [])), s')
      | (Inl (Some k, buf), s') \<Rightarrow>
          (Inl (if k = Timeout then EgressProtocolError TimedOutReading
                else if k = ConnReset then closed_mid_handshake peer_cred (buf \<noteq> [])
                else OSError k), s'))"

definition send_all_async :: "bool \<Rightarrow> bytes \<Rightarrow> (exn, sock, unit) act" where
  "send_all_async peer_cred data s =
     (case sock_sendall data s of
        (Inr u, s') \<Rightarrow> (Inr (), s')
      | (Inl k, s') \<Rightarrow>
          (Inl (if k = Timeout then OSError Timeout else closed_mid_handshake peer_cred False), s'))"

definition recv_exact_async :: "bool \<Rightarrow> nat \<Rightarrow> (exn, sock, bytes) act" where
  "recv_exact_async peer_cred n s =
     (case read_loop sock_recv n [] s of
        (Inr buf, s') \<Rightarrow> (Inr buf, s')
      | (Inl (k, buf), s') \<Rightarrow>
          (Inl (if k = Some Timeout then OSError Timeout
                else closed_mid_handshake peer_cred (buf \<noteq> [])), s'))"

section \<open>The handshakes and the drivers\<close>

text \<open>The bodies of the two \<open>try\<close> blocks, from the greeting on. The source has them twice, and so
  has the model.\<close>

definition handshake_sync :: "pystr \<Rightarrow> int \<Rightarrow> bytes \<Rightarrow> (exn, sock, unit) act" where
  "handshake_sync host port request =
     andthen (sendall_sync True greeting) (\<lambda>_.
     andthen (recv_exact_sync True 2) (\<lambda>reply.
     andthen (lift (check_method_reply reply)) (\<lambda>_.
     andthen (sendall_sync False request) (\<lambda>_.
     andthen (recv_exact_sync False 4) (\<lambda>header.
       if header ! 0 \<noteq> 5 then throw (EgressProtocolError (BadConnectVersion (unat (header ! 0))))
       else if header ! 1 \<noteq> 0 then throw (reply_exception (header ! 1) host port)
       else andthen (lift (bound_trailer_len (header ! 3))) (\<lambda>trailer.
         case trailer of
           None \<Rightarrow> andthen (recv_exact_sync False 1) (\<lambda>ln.
                   andthen (recv_exact_sync False (unat (ln ! 0) + 2)) (\<lambda>_. ret ()))
         | Some k \<Rightarrow> andthen (recv_exact_sync False k) (\<lambda>_. ret ())))))))"

definition handshake_async :: "pystr \<Rightarrow> int \<Rightarrow> bytes \<Rightarrow> (exn, sock, unit) act" where
  "handshake_async host port request =
     andthen (send_all_async True greeting) (\<lambda>_.
     andthen (recv_exact_async True 2) (\<lambda>reply.
     andthen (lift (check_method_reply reply)) (\<lambda>_.
     andthen (send_all_async False request) (\<lambda>_.
     andthen (recv_exact_async False 4) (\<lambda>header.
       if header ! 0 \<noteq> 5 then throw (EgressProtocolError (BadConnectVersion (unat (header ! 0))))
       else if header ! 1 \<noteq> 0 then throw (reply_exception (header ! 1) host port)
       else andthen (lift (bound_trailer_len (header ! 3))) (\<lambda>trailer.
         case trailer of
           None \<Rightarrow> andthen (recv_exact_async False 1) (\<lambda>ln.
                   andthen (recv_exact_async False (unat (ln ! 0) + 2)) (\<lambda>_. ret ()))
         | Some k \<Rightarrow> andthen (recv_exact_async False k) (\<lambda>_. ret ())))))))"

text \<open>The creation of the socket itself is taken to succeed; a socket that cannot be created is an
  \<open>OSError\<close> of the blocking driver before anything is sent.\<close>

definition socks5_connect_sync ::
  "idna \<Rightarrow> bool \<Rightarrow> pystr \<Rightarrow> pystr \<Rightarrow> port_arg \<Rightarrow> timeout \<Rightarrow> os_kind option \<Rightarrow> sock
   \<Rightarrow> (exn + unit) \<times> sock option" where
  "socks5_connect_sync idna af_unix socket_path host port timeout dial fresh =
     (if \<not> af_unix then (Inl (EgressConfigError NoAfUnix), None)
      else case connect_request idna host port of
        Inl e \<Rightarrow> (Inl e, None)
      | Inr request \<Rightarrow>
          (let s = set_deadline timeout fresh in
           case dial of
             Some k \<Rightarrow> (Inl (EgressConfigError (CannotConnect socket_path k)), Some (sock_close s))
           | None \<Rightarrow>
              (case handshake_sync host (port_value port) request s of
                 (Inl e, s') \<Rightarrow> (Inl e, Some (sock_close s'))
               | (Inr u, s') \<Rightarrow> (Inr (), Some s'))))"

definition socks5_connect_async ::
  "idna \<Rightarrow> pystr \<Rightarrow> pystr \<Rightarrow> port_arg \<Rightarrow> os_kind option \<Rightarrow> sock
   \<Rightarrow> (exn + unit) \<times> sock option" where
  "socks5_connect_async idna socket_path host port dial fresh =
     (case connect_request idna host port of
        Inl e \<Rightarrow> (Inl e, None)
      | Inr request \<Rightarrow>
          (case dial of
             Some k \<Rightarrow>
               (Inl (if k = Timeout then EgressProtocolError TimedOutReading
                     else EgressConfigError (CannotConnect socket_path k)), None)
           | None \<Rightarrow>
              (case handshake_async host (port_value port) request fresh of
                 (Inl e, s') \<Rightarrow>
                    (Inl (if e = OSError Timeout then EgressProtocolError TimedOutReading else e),
                     Some (sock_close s'))
               | (Inr u, s') \<Rightarrow> (Inr (), Some s'))))"

section \<open>The protocol the two handshakes share\<close>

text \<open>
  A handshake over any pair of helpers. It is no part of the code: both bodies are shown to follow
  it, each with its own helpers, and what is proved of it then holds of both.
\<close>

definition protocol_reply ::
  "(bool \<Rightarrow> nat \<Rightarrow> (exn, 's, bytes) act) \<Rightarrow> pystr \<Rightarrow> int \<Rightarrow> (exn, 's, unit) act" where
  "protocol_reply recv host port =
     andthen (recv False 4) (\<lambda>header.
       if header ! 0 \<noteq> 5 then throw (EgressProtocolError (BadConnectVersion (unat (header ! 0))))
       else if header ! 1 \<noteq> 0 then throw (reply_exception (header ! 1) host port)
       else andthen (lift (bound_trailer_len (header ! 3))) (\<lambda>trailer.
         case trailer of
           None \<Rightarrow> andthen (recv False 1) (\<lambda>ln.
                   andthen (recv False (unat (ln ! 0) + 2)) (\<lambda>_. ret ()))
         | Some k \<Rightarrow> andthen (recv False k) (\<lambda>_. ret ())))"

definition protocol ::
  "(bool \<Rightarrow> bytes \<Rightarrow> (exn, 's, unit) act) \<Rightarrow> (bool \<Rightarrow> nat \<Rightarrow> (exn, 's, bytes) act)
   \<Rightarrow> pystr \<Rightarrow> int \<Rightarrow> bytes \<Rightarrow> (exn, 's, unit) act" where
  "protocol send recv host port request =
     andthen (send True greeting) (\<lambda>_.
     andthen (recv True 2) (\<lambda>reply.
     andthen (lift (check_method_reply reply)) (\<lambda>_.
     andthen (send False request) (\<lambda>_.
     protocol_reply recv host port))))"

lemma handshake_sync_protocol: "handshake_sync = protocol sendall_sync recv_exact_sync"
  by (intro ext) (simp add: handshake_sync_def protocol_def protocol_reply_def)

lemma handshake_async_protocol: "handshake_async = protocol send_all_async recv_exact_async"
  by (intro ext) (simp add: handshake_async_def protocol_def protocol_reply_def)

lemmas sync_driver = socks5_connect_sync_def [unfolded handshake_sync_protocol]
lemmas async_driver = socks5_connect_async_def [unfolded handshake_async_protocol]

section \<open>The specification over the byte stream\<close>

definition short_read :: "bool \<Rightarrow> bytes \<Rightarrow> os_kind option \<Rightarrow> exn" where
  "short_read peer_cred got st =
     (case st of
        None \<Rightarrow> closed_mid_handshake peer_cred (got \<noteq> [])
      | Some k \<Rightarrow> if k = Timeout then EgressProtocolError TimedOutReading
                 else if k = ConnReset then closed_mid_handshake peer_cred (got \<noteq> [])
                 else OSError k)"

text \<open>The verdict on a connection from the broker's bytes \<open>bs\<close> and what follows them: an error,
  or the bytes of the tunnel that come after the reply.\<close>

definition reply_verdict :: "pystr \<Rightarrow> int \<Rightarrow> bytes \<Rightarrow> os_kind option \<Rightarrow> exn + bytes" where
  "reply_verdict host port h st =
     (if length h < 4 then Inl (short_read False h st)
      else if h ! 0 \<noteq> 5 then Inl (EgressProtocolError (BadConnectVersion (unat (h ! 0))))
      else if h ! 1 \<noteq> 0 then Inl (reply_exception (h ! 1) host port)
      else case bound_trailer_len (h ! 3) of
        Inl e \<Rightarrow> Inl e
      | Inr (Some k) \<Rightarrow>
          (let a = drop 4 h in if length a < k then Inl (short_read False a st) else Inr (drop k a))
      | Inr None \<Rightarrow>
          (let a = drop 4 h in
           if length a < 1 then Inl (short_read False a st)
           else let k = unat (a ! 0) + 2; d = drop 1 a in
             if length d < k then Inl (short_read False d st) else Inr (drop k d)))"

definition socks_verdict :: "pystr \<Rightarrow> int \<Rightarrow> bytes \<Rightarrow> os_kind option \<Rightarrow> exn + bytes" where
  "socks_verdict host port bs st =
     (if length bs < 2 then Inl (short_read True bs st)
      else case check_method_reply (take 2 bs) of
        Inl e \<Rightarrow> Inl e
      | Inr u \<Rightarrow> reply_verdict host port (drop 2 bs) st)"

lemma recv_exact_sync_enough:
  assumes "n \<le> length (sock_pending s)"
  obtains s' where "recv_exact_sync pc n s = (Inr (take n (sock_pending s)), s')"
    and "sock_pending s' = drop n (sock_pending s)" and "sock_stop s' = sock_stop s"
    and "s'\<lparr>rx := []\<rparr> = s\<lparr>rx := []\<rparr>"
proof -
  from sock.read_loop_enough [of n "[]" s] assms
  obtain s' where r: "read_loop sock_recv n [] s = (Inr (take n (sock_pending s)), s')"
    and p: "sock_pending s' = drop n (sock_pending s)" "sock_stop s' = sock_stop s"
    by auto
  moreover from sock.read_loop_frame [of n "[]" s] r have "s'\<lparr>rx := []\<rparr> = s\<lparr>rx := []\<rparr>" by simp
  ultimately show thesis by (intro that [of s']) (simp_all add: recv_exact_sync_def)
qed

lemma recv_exact_sync_short:
  assumes "length (sock_pending s) < n"
  obtains s' where "recv_exact_sync pc n s = (Inl (short_read pc (sock_pending s) (sock_stop s)), s')"
    and "s'\<lparr>rx := []\<rparr> = s\<lparr>rx := []\<rparr>"
proof -
  obtain r s' where r: "read_loop sock_recv n [] s = (r, s')" by force
  with sock.read_loop_short [of "[]" s n] assms have "r = Inl (sock_stop s, sock_pending s)" by simp
  moreover from sock.read_loop_frame [of n "[]" s] r have "s'\<lparr>rx := []\<rparr> = s\<lparr>rx := []\<rparr>" by simp
  ultimately show thesis using r
    by (intro that [of s']) (auto simp: recv_exact_sync_def short_read_def split: option.splits)
qed

lemmas frame_tx = sock_frame_fields

text \<open>What a run of an action over a socket must deliver, given a verdict on the bytes.\<close>

definition meets :: "(exn + unit) \<times> sock \<Rightarrow> sock \<Rightarrow> exn + bytes \<Rightarrow> bool" where
  "meets run s v \<longleftrightarrow>
     (case v of
        Inl e \<Rightarrow> fst run = Inl e
      | Inr rest \<Rightarrow> fst run = Inr () \<and> sock_pending (snd run) = rest \<and>
          sock_stop (snd run) = sock_stop s \<and> (snd run)\<lparr>rx := []\<rparr> = s\<lparr>rx := []\<rparr>)"

lemma meets_Inl [simp]: "meets (Inl e, s') s (Inl e') \<longleftrightarrow> e = e'"
  by (simp add: meets_def)

lemma meets_ret [simp]: "meets (ret () s) s (Inr rest) \<longleftrightarrow> sock_pending s = rest"
  by (simp add: meets_def ret_def)

lemma meets_recv:
  assumes "\<And>s'. n \<le> length (sock_pending s) \<Longrightarrow> sock_pending s' = drop n (sock_pending s) \<Longrightarrow>
      sock_stop s' = sock_stop s \<Longrightarrow> s'\<lparr>rx := []\<rparr> = s\<lparr>rx := []\<rparr> \<Longrightarrow>
      meets (f (take n (sock_pending s)) s') s' v"
  shows "meets (andthen (recv_exact_sync pc n) f s) s
     (if length (sock_pending s) < n then Inl (short_read pc (sock_pending s) (sock_stop s)) else v)"
proof (cases "length (sock_pending s) < n")
  case True
  then obtain s' where "recv_exact_sync pc n s = (Inl (short_read pc (sock_pending s) (sock_stop s)), s')"
    by (rule recv_exact_sync_short)
  with True show ?thesis by (simp add: andthen_def)
next
  case False
  then obtain s' where r: "recv_exact_sync pc n s = (Inr (take n (sock_pending s)), s')"
    and p: "sock_pending s' = drop n (sock_pending s)" "sock_stop s' = sock_stop s"
      "s'\<lparr>rx := []\<rparr> = s\<lparr>rx := []\<rparr>"
    using recv_exact_sync_enough [of n s pc] by (metis not_le)
  with assms [OF _ p] False have "meets (f (take n (sock_pending s)) s') s' v" by simp
  with False r p show ?thesis by (simp add: meets_def andthen_def split: sum.splits)
qed

lemma protocol_reply_meets:
  "meets (protocol_reply recv_exact_sync host port s) s
         (reply_verdict host port (sock_pending s) (sock_stop s))"
  unfolding protocol_reply_def reply_verdict_def
proof (rule meets_recv, goal_cases)
  case (1 s1)
  show ?case
  proof (cases "bound_trailer_len (sock_pending s ! 3)")
    case (Inl e)
    with 1 show ?thesis by (simp add: throw_def lift_def andthen_def)
  next
    case (Inr trailer)
    have fixed: "meets (andthen (recv_exact_sync False k) (\<lambda>_. ret ()) s') s'
        (if length (sock_pending s') < k then Inl (short_read False (sock_pending s') (sock_stop s'))
         else Inr (drop k (sock_pending s')))" for k s'
      by (rule meets_recv) simp
    have name: "meets (andthen (recv_exact_sync False 1) (\<lambda>ln.
          andthen (recv_exact_sync False (unat (ln ! 0) + 2)) (\<lambda>_. ret ())) s1) s1
        (if length (sock_pending s1) < 1 then Inl (short_read False (sock_pending s1) (sock_stop s1))
         else if length (drop 1 (sock_pending s1)) < unat (sock_pending s1 ! 0) + 2
         then Inl (short_read False (drop 1 (sock_pending s1)) (sock_stop s1))
         else Inr (drop (unat (sock_pending s1 ! 0) + 2) (drop 1 (sock_pending s1))))"
    proof (rule meets_recv, goal_cases)
      case (1 s2)
      have "take 1 (sock_pending s1) ! 0 = sock_pending s1 ! 0" by simp
      with 1 fixed [of "unat (sock_pending s1 ! 0) + 2" s2] show ?case by (simp only:)
    qed
    have hd: "take 4 (sock_pending s) ! 0 = sock_pending s ! 0"
        "take 4 (sock_pending s) ! 1 = sock_pending s ! 1"
        "take 4 (sock_pending s) ! 3 = sock_pending s ! 3" by simp_all
    have run: "andthen (lift (Inr t)) f s1 = f t s1" for t and f :: "nat option \<Rightarrow> (exn, sock, unit) act"
      by (simp add: act_simps)
    show ?thesis
    proof (cases "sock_pending s ! 0 \<noteq> 5 \<or> sock_pending s ! 1 \<noteq> 0")
      case True
      with 1 show ?thesis by (auto simp: throw_def)
    next
      case False
      then have eqs: "sock_pending s ! 0 = 5" "sock_pending s ! 1 = 0" by simp_all
      from Inr name fixed [of _ s1] 1 show ?thesis
        by (cases trailer) (simp_all only: eqs hd run Let_def if_False sum.case option.case simp_thms)
    qed
  qed
qed

lemma sendall_sync_ok:
  "is_open s \<Longrightarrow> tx_plan s = [] \<Longrightarrow> sendall_sync pc bs s = (Inr (), s\<lparr>tx := tx s @ bs\<rparr>)"
  by (simp add: sendall_sync_def sock_sendall_def)

lemma sock_view_tx [simp]:
  "sock_pending (s\<lparr>tx := t\<rparr>) = sock_pending s" "sock_stop (s\<lparr>tx := t\<rparr>) = sock_stop s"
  "sock_pending (set_deadline d s) = sock_pending s" "sock_stop (set_deadline d s) = sock_stop s"
  by (simp_all add: sock_pending_def sock_stop_def set_deadline_def)

text \<open>The handshake over a socket whose writes succeed does what the verdict says.\<close>

lemma handshake_meets:
  assumes "is_open s" and "tx_plan s = []"
  shows "case socks_verdict host port (sock_pending s) (sock_stop s) of
      Inl e \<Rightarrow> fst (protocol sendall_sync recv_exact_sync host port request s) = Inl e
    | Inr rest \<Rightarrow> (\<exists>s'. protocol sendall_sync recv_exact_sync host port request s = (Inr (), s') \<and>
        sock_pending s' = rest \<and> sock_stop s' = sock_stop s \<and> is_open s' \<and>
        tx s' = tx s @ greeting @ request)"
proof -
  let ?s1 = "s\<lparr>tx := tx s @ greeting\<rparr>"
  let ?p = "sock_pending s"
  have run: "protocol sendall_sync recv_exact_sync host port request s
      = andthen (recv_exact_sync True 2) (\<lambda>reply. andthen (lift (check_method_reply reply))
          (\<lambda>_. andthen (sendall_sync False request) (\<lambda>_. protocol_reply recv_exact_sync host port))) ?s1"
    using assms by (simp add: protocol_def andthen_Inr [OF sendall_sync_ok])
  show ?thesis
  proof (cases "length ?p < 2")
    case True
    then have "length (sock_pending ?s1) < 2" by simp
    then obtain s2 where "recv_exact_sync True 2 ?s1 = (Inl (short_read True ?p (sock_stop s)), s2)"
      by (rule recv_exact_sync_short [of ?s1 2 True]) simp
    with True show ?thesis by (simp add: run socks_verdict_def andthen_Inl)
  next
    case False
    then have "2 \<le> length (sock_pending ?s1)" by simp
    then obtain s2 where r2: "recv_exact_sync True 2 ?s1 = (Inr (take 2 ?p), s2)"
      and p2: "sock_pending s2 = drop 2 ?p" "sock_stop s2 = sock_stop s" and f2: "s2\<lparr>rx := []\<rparr> = ?s1\<lparr>rx := []\<rparr>"
      by (rule recv_exact_sync_enough [of 2 ?s1 True]) simp
    from frame_tx [OF f2] assms have o2: "is_open s2" "tx_plan s2 = []" "tx s2 = tx s @ greeting" by auto
    let ?s3 = "s2\<lparr>tx := tx s2 @ request\<rparr>"
    have r3: "sendall_sync False request s2 = (Inr (), ?s3)" using o2 by (simp add: sendall_sync_ok)
    have m: "meets (protocol_reply recv_exact_sync host port ?s3) ?s3
        (reply_verdict host port (drop 2 ?p) (sock_stop s))"
      using protocol_reply_meets [of host port ?s3] p2 by simp
    obtain r s4 where r4: "protocol_reply recv_exact_sync host port ?s3 = (r, s4)" by force
    show ?thesis
    proof (cases "check_method_reply (take 2 ?p)")
      case (Inl e)
      with False r2 show ?thesis by (simp add: run socks_verdict_def act_simps)
    next
      case (Inr v)
      with r2 r3 r4 have "protocol sendall_sync recv_exact_sync host port request s = (r, s4)"
        by (simp add: run act_simps)
      with m r4 False Inr o2 p2 show ?thesis
        by (auto simp: socks_verdict_def meets_def dest: frame_tx split: sum.splits)
    qed
  qed
qed


section \<open>What the drivers guarantee\<close>

text \<open>A fresh socket: connected, nothing written yet.\<close>

definition fresh_sock :: "sock \<Rightarrow> bool" where
  "fresh_sock s \<longleftrightarrow> is_open s \<and> tx s = []"

lemma socks5_connect_sync_run:
  assumes "connect_request idna host port = Inr request"
  shows "socks5_connect_sync idna True path host port timeout None fresh =
     (case protocol sendall_sync recv_exact_sync host (port_value port) request (set_deadline timeout fresh) of
        (Inl e, s') \<Rightarrow> (Inl e, Some (sock_close s'))
      | (Inr u, s') \<Rightarrow> (Inr (), Some s'))"
  using assms by (simp add: sync_driver Let_def)

lemma sync_meets_verdict:
  assumes "connect_request idna host port = Inr request" and "fresh_sock fresh" and "tx_plan fresh = []"
  shows "case socks_verdict host (port_value port) (sock_pending fresh) (sock_stop fresh) of
      Inl e \<Rightarrow> fst (socks5_connect_sync idna True path host port timeout None fresh) = Inl e
    | Inr rest \<Rightarrow> (\<exists>s'. socks5_connect_sync idna True path host port timeout None fresh = (Inr (), Some s') \<and>
        sock_pending s' = rest \<and> is_open s' \<and> tx s' = greeting @ request)"
  using handshake_meets [of "set_deadline timeout fresh" host "port_value port" request] assms
  by (auto simp: socks5_connect_sync_run fresh_sock_def set_deadline_def sock_pending_def sock_stop_def
      split: sum.splits prod.splits)

lemma sendall_sync_is_open [simp]: "is_open (snd (sendall_sync pc bs s)) = is_open s"
  by (auto simp: sendall_sync_def sock_sendall_def split: list.splits option.splits os_kind.splits)

lemma send_all_async_is_open [simp]: "is_open (snd (send_all_async pc bs s)) = is_open s"
  by (auto simp: send_all_async_def sock_sendall_def split: list.splits option.splits)

lemma recv_exact_frame [simp]:
  "(snd (recv_exact_sync pc n s))\<lparr>rx := []\<rparr> = s\<lparr>rx := []\<rparr>"
  "(snd (recv_exact_async pc n s))\<lparr>rx := []\<rparr> = s\<lparr>rx := []\<rparr>"
  using sock.read_loop_frame [of n "[]" s]
  by (auto simp: recv_exact_sync_def recv_exact_async_def split: prod.splits sum.splits option.splits)

lemma recv_exact_fields [simp]:
  "tx (snd (recv_exact_sync pc n s)) = tx s" "is_open (snd (recv_exact_sync pc n s)) = is_open s"
  "tx (snd (recv_exact_async pc n s)) = tx s" "is_open (snd (recv_exact_async pc n s)) = is_open s"
  using frame_tx [OF recv_exact_frame(1) [of pc n s]] frame_tx [OF recv_exact_frame(2) [of pc n s]]
  by auto

text \<open>
  Both handshakes follow one protocol, so a fact about any action with these two helpers follows
  from a fact about each helper: \<open>keeps f\<close> says that every step of an action keeps a field.
\<close>

definition keeps :: "('s \<Rightarrow> 'f) \<Rightarrow> ('e, 's, 'a) act \<Rightarrow> bool" where
  "keeps f m \<longleftrightarrow> (\<forall>s. f (snd (m s)) = f s)"

lemma keeps_andthen: "keeps f m \<Longrightarrow> (\<And>x. keeps f (k x)) \<Longrightarrow> keeps f (andthen m k)"
  unfolding keeps_def andthen_def
  by (auto split: prod.splits sum.splits) (metis snd_conv)+

lemma keeps_basic [simp]: "keeps f (ret x)" "keeps f (throw e)" "keeps f (lift r)"
  by (simp_all add: keeps_def act_simps)

lemma protocol_reply_keeps:
  assumes "\<And>pc n. keeps f (recv pc n)"
  shows "keeps f (protocol_reply recv host port)"
  unfolding protocol_reply_def
  by (intro keeps_andthen assms) (auto intro!: keeps_andthen assms split: option.split)

lemma handshake_keeps:
  assumes "\<And>pc n. keeps f (recv pc n)" and "\<And>pc bs. keeps f (send pc bs)"
  shows "keeps f (protocol send recv host port request)"
  unfolding protocol_def
  by (intro keeps_andthen protocol_reply_keeps assms) simp

lemma handshake_sync_open:
  "protocol sendall_sync recv_exact_sync host port request s = (r, s') \<Longrightarrow> is_open s' = is_open s"
  using handshake_keeps [of is_open recv_exact_sync sendall_sync host port request]
  by (simp add: keeps_def) (metis snd_conv)

lemma handshake_async_open:
  "protocol send_all_async recv_exact_async host port request s = (r, s') \<Longrightarrow> is_open s' = is_open s"
  using handshake_keeps [of is_open recv_exact_async send_all_async host port request]
  by (simp add: keeps_def) (metis snd_conv)


subsection \<open>What has been written, and when\<close>

lemma sock_sendall_tx:
  "\<exists>n. tx (snd (sock_sendall bs s)) = tx s @ take n bs"
  by (auto simp: sock_sendall_def split: list.splits option.splits
      intro: exI [of _ 0] exI [of _ "length bs"])

lemma send_tx:
  "\<exists>n. tx (snd (sendall_sync pc bs s)) = tx s @ take n bs"
  "\<exists>n. tx (snd (send_all_async pc bs s)) = tx s @ take n bs"
  using sock_sendall_tx [of bs s]
  by (auto simp: sendall_sync_def send_all_async_def split: prod.splits sum.splits os_kind.splits)

lemma sock_sendall_Inr:
  "sock_sendall bs s = (Inr u, s') \<Longrightarrow>
     tx s' = tx s @ bs \<and> sock_pending s' = sock_pending s \<and> sock_stop s' = sock_stop s \<and> is_open s'"
  by (auto simp: sock_sendall_def sock_pending_def sock_stop_def split: if_splits list.splits option.splits)

lemma send_Inr:
  "sendall_sync pc bs s = (Inr u, s') \<Longrightarrow> tx s' = tx s @ bs \<and> sock_pending s' = sock_pending s"
  "send_all_async pc bs s = (Inr u, s') \<Longrightarrow> tx s' = tx s @ bs \<and> sock_pending s' = sock_pending s"
  by (auto simp: sendall_sync_def send_all_async_def dest: sock_sendall_Inr
      split: prod.splits sum.splits os_kind.splits)

lemma read_loop_sock_Inr:
  assumes "read_loop sock_recv n [] s = (Inr buf, s')"
  shows "buf = take n (sock_pending s) \<and> n \<le> length (sock_pending s)"
proof (cases "n \<le> length (sock_pending s)")
  case True
  with sock.read_loop_enough [of n "[]" s] assms show ?thesis by auto
next
  case False
  with sock.read_loop_short [of "[]" s n] assms show ?thesis by simp
qed

lemma recv_Inr:
  "recv_exact_sync pc n s = (Inr buf, s') \<Longrightarrow> buf = take n (sock_pending s) \<and> n \<le> length (sock_pending s)"
  "recv_exact_async pc n s = (Inr buf, s') \<Longrightarrow> buf = take n (sock_pending s) \<and> n \<le> length (sock_pending s)"
  by (auto simp: recv_exact_sync_def recv_exact_async_def dest: read_loop_sock_Inr
      split: prod.splits sum.splits option.splits)

lemma check_method_reply_Inr:
  assumes "check_method_reply reply = Inr u" and "length reply = 2"
  shows "reply = [5, 0]"
proof -
  from assms(2) obtain a b where "reply = [a, b]" by (rule length2E)
  with assms(1) show ?thesis by (auto simp: check_method_reply_def split: if_splits)
qed

text \<open>
  \<open>disciplined\<close>: what was written is a prefix of greeting and request, and none of the request
  goes out unless the broker has answered \<open>05 00\<close>.
\<close>

definition disciplined :: "bytes \<Rightarrow> bytes \<Rightarrow> bytes \<Rightarrow> bool" where
  "disciplined peer request written \<longleftrightarrow>
     (\<exists>n. written = take n greeting) \<or> (take 2 peer = [5, 0] \<and> (\<exists>n. written = greeting @ take n request))"

lemma handshake_disciplined:
  assumes tx: "tx s = []"
    and send: "\<And>pc bs s. \<exists>n. tx (snd (send pc bs s)) = tx s @ take n bs"
      "\<And>pc bs s u s'. send pc bs s = (Inr u, s') \<Longrightarrow> tx s' = tx s @ bs \<and> sock_pending s' = sock_pending s"
    and recv: "\<And>pc n s. tx (snd (recv pc n s)) = tx s"
      "\<And>pc n s buf s'. recv pc n s = (Inr buf, s') \<Longrightarrow> buf = take n (sock_pending s) \<and> n \<le> length (sock_pending s)"
  shows "disciplined (sock_pending s) request (tx (snd (protocol send recv host port request s)))"
proof -
  have reply: "tx (snd (protocol_reply recv host port s')) = tx s'" for s'
    using protocol_reply_keeps [of tx recv] recv(1) by (simp add: keeps_def)
  obtain r1 s1 where 1: "send True greeting s = (r1, s1)" by force
  show ?thesis
  proof (cases r1)
    case (Inl e)
    with 1 send(1) [of True greeting s] tx show ?thesis
      by (auto simp: protocol_def andthen_def disciplined_def)
  next
    case (Inr u1)
    with 1 send(2) tx have s1: "tx s1 = greeting" "sock_pending s1 = sock_pending s" by auto
    obtain r2 s2 where 2: "recv True 2 s1 = (r2, s2)" by force
    with recv(1) [of True 2 s1] s1 have s2: "tx s2 = greeting" by simp
    have early: "\<exists>n. greeting = take n greeting" by (intro exI [of _ 3]) (simp add: greeting_def)
    show ?thesis
    proof (cases "\<exists>buf u. r2 = Inr buf \<and> check_method_reply buf = Inr u")
      case False
      with 1 2 Inr s2 early show ?thesis
        by (cases r2) (auto simp: protocol_def andthen_def lift_def disciplined_def split: sum.splits)
    next
      case True
      then obtain buf u where buf: "r2 = Inr buf" "check_method_reply buf = Inr u" by blast
      with recv(2) 2 s1 have "take 2 (sock_pending s) = [5, 0]"
        using check_method_reply_Inr [OF buf(2)] by fastforce
      moreover obtain r3 s3 where 3: "send False request s2 = (r3, s3)" by force
      moreover obtain n where "tx s3 = greeting @ take n request"
        using send(1) [of False request s2] 3 s2 by auto
      ultimately show ?thesis
        using 1 2 Inr buf reply [of s3]
        by (auto simp: protocol_def andthen_def lift_def disciplined_def split: sum.splits)
    qed
  qed
qed


subsection \<open>Which exceptions escape\<close>

definition raises :: "('e \<Rightarrow> bool) \<Rightarrow> ('e, 's, 'a) act \<Rightarrow> bool" where
  "raises P m \<longleftrightarrow> (\<forall>s e s'. m s = (Inl e, s') \<longrightarrow> P e)"

lemma raises_andthen: "raises P m \<Longrightarrow> (\<And>x. raises P (k x)) \<Longrightarrow> raises P (andthen m k)"
  unfolding raises_def andthen_def by (auto split: prod.splits sum.splits)

lemma raises_basic [simp]:
  "raises P (ret x)" "raises P (throw e) \<longleftrightarrow> P e" "raises P (lift r) \<longleftrightarrow> (\<forall>e. r = Inl e \<longrightarrow> P e)"
  by (auto simp: raises_def act_simps)

lemma raisesD: "raises P m \<Longrightarrow> m s = (Inl e, s') \<Longrightarrow> P e"
  by (auto simp: raises_def)

lemma reply_exception_egress [simp]: "is_egress_error (reply_exception rep host port)"
  by (simp add: reply_exception_def)

lemma handshake_raises:
  assumes egress: "\<And>e. is_egress_error e \<Longrightarrow> P e"
    and "\<And>pc n. raises P (recv pc n)" and "\<And>pc bs. raises P (send pc bs)"
  shows "raises P (protocol send recv host port request)"
proof -
  have "raises P (lift (bound_trailer_len atyp))" for atyp
    by (auto simp: bound_trailer_len_def intro: egress)
  then have "raises P (protocol_reply recv host port)"
    unfolding protocol_reply_def
    by (intro raises_andthen assms(2)) (auto intro!: raises_andthen assms(2) egress split: option.split)
  moreover have "raises P (lift (check_method_reply reply))" for reply
    by (auto simp: check_method_reply_def intro: egress)
  ultimately show ?thesis
    unfolding protocol_def by (intro raises_andthen assms(2,3))
qed

lemma closed_mid_handshake_egress [simp]: "is_egress_error (closed_mid_handshake pc got)"
  by (simp add: closed_mid_handshake_def)

definition raw_os_error :: "exn \<Rightarrow> bool" where
  "raw_os_error e \<longleftrightarrow> (\<exists>k. e = OSError k \<and> k \<noteq> Timeout \<and> k \<noteq> ConnReset)"

lemma sync_helpers_raise:
  "raises (\<lambda>e. is_egress_error e \<or> raw_os_error e) (recv_exact_sync pc n)"
  "raises (\<lambda>e. is_egress_error e \<or> raw_os_error e) (sendall_sync pc bs)"
  by (auto simp: raises_def recv_exact_sync_def sendall_sync_def raw_os_error_def
      split: prod.splits sum.splits option.splits os_kind.splits if_splits)

lemma async_helpers_raise:
  "raises (\<lambda>e. is_egress_error e \<or> e = OSError Timeout) (recv_exact_async pc n)"
  "raises (\<lambda>e. is_egress_error e \<or> e = OSError Timeout) (send_all_async pc bs)"
  by (auto simp: raises_def recv_exact_async_def send_all_async_def
      split: prod.splits sum.splits option.splits if_splits)

lemma handshake_sync_raises:
  "protocol sendall_sync recv_exact_sync host port request s = (Inl e, s') \<Longrightarrow>
     is_egress_error e \<or> raw_os_error e"
  by (rule raisesD [OF handshake_raises [OF disjI1 sync_helpers_raise]])

lemma handshake_async_raises:
  "protocol send_all_async recv_exact_async host port request s = (Inl e, s') \<Longrightarrow>
     is_egress_error e \<or> e = OSError Timeout"
  by (rule raisesD [OF handshake_raises [OF disjI1 async_helpers_raise]])

subsection \<open>The two drivers agree\<close>

text \<open>
  On a connection that fails in no other way than by a close or a reset (and whose writes fail
  in any way but a time-out) the helpers of both drivers are the same function.
\<close>

definition plain_sock :: "sock \<Rightarrow> bool" where
  "plain_sock s \<longleftrightarrow> is_open s \<and> (\<forall>k. Fail k \<in> set (rx s) \<longrightarrow> k = ConnReset) \<and>
     (\<forall>n. Some (n, Timeout) \<notin> set (tx_plan s))"

lemma pull_Fail:
  "pull n es = (r, es') \<Longrightarrow> (Fail k \<in> set es' \<longrightarrow> Fail k \<in> set es) \<and> (r = Inl k \<longrightarrow> Fail k \<in> set es)"
  by (induction n es rule: pull.induct) (auto split: if_splits)

lemma sock_recv_plain:
  "plain_sock s \<Longrightarrow> sock_recv n s = (r, s') \<Longrightarrow> plain_sock s' \<and> (\<forall>k. r = Inl k \<longrightarrow> k = ConnReset)"
  by (auto simp: plain_sock_def sock_recv_def split: prod.splits dest: pull_Fail)

lemma read_loop_plain:
  "plain_sock s \<Longrightarrow> read_loop sock_recv n buf s = (r, s') \<Longrightarrow>
     plain_sock s' \<and> (\<forall>k b. r = Inl (Some k, b) \<longrightarrow> k = ConnReset)"
proof (induction "n - length buf" arbitrary: buf s rule: less_induct)
  case (less buf s)
  obtain x s1 where x: "sock_recv (n - length buf) s = (x, s1)" by force
  from sock_recv_plain [OF less.prems(1) x] have s1: "plain_sock s1" "\<And>k. x = Inl k \<Longrightarrow> k = ConnReset"
    by auto
  have "plain_sock s' \<and> (\<forall>k b. r = Inl (Some k, b) \<longrightarrow> k = ConnReset)"
    if "c \<noteq> []" "length buf < n" "read_loop sock_recv n (buf @ c) s1 = (r, s')" for c
    using that s1(1) by (intro less.hyps) (auto intro!: diff_less_mono2)
  with less.prems x s1 show ?case
    by (auto simp: read_loop.simps [of sock_recv n buf s] split: if_splits sum.splits)
qed

lemma recv_agree: "plain_sock s \<Longrightarrow> recv_exact_sync pc n s = recv_exact_async pc n s"
  and recv_plain: "plain_sock s \<Longrightarrow> plain_sock (snd (recv_exact_async pc n s))"
  using read_loop_plain [of s n "[]"]
  by (auto simp: recv_exact_sync_def recv_exact_async_def split: prod.splits sum.splits option.splits)

lemma send_agree: "plain_sock s \<Longrightarrow> sendall_sync pc bs s = send_all_async pc bs s"
  by (auto simp: sendall_sync_def send_all_async_def sock_sendall_def plain_sock_def
      split: list.splits option.splits os_kind.splits)

lemma send_plain: "plain_sock s \<Longrightarrow> plain_sock (snd (send_all_async pc bs s))"
  by (auto simp: send_all_async_def sock_sendall_def plain_sock_def split: list.splits option.splits)

lemmas helpers_agree = recv_agree recv_plain send_agree send_plain

text \<open>\<open>agree I m m'\<close>: equal runs from states of \<open>I\<close>, which the runs keep.\<close>

definition agree :: "('s \<Rightarrow> bool) \<Rightarrow> ('e, 's, 'a) act \<Rightarrow> ('e, 's, 'a) act \<Rightarrow> bool" where
  "agree I m m' \<longleftrightarrow> (\<forall>s. I s \<longrightarrow> m s = m' s \<and> I (snd (m' s)))"

lemma agree_andthen:
  "agree I m m' \<Longrightarrow> (\<And>x. agree I (k x) (k' x)) \<Longrightarrow> agree I (andthen m k) (andthen m' k')"
  unfolding agree_def andthen_def by (auto split: prod.splits sum.splits)

lemma agree_basic [simp]: "agree I (ret x) (ret x)" "agree I (throw e) (throw e)" "agree I (lift r) (lift r)"
  by (simp_all add: agree_def act_simps)

lemma handshake_agree:
  assumes "\<And>pc n. agree I (recv pc n) (recv' pc n)" and "\<And>pc bs. agree I (send pc bs) (send' pc bs)"
  shows "agree I (protocol send recv host port request) (protocol send' recv' host port request)"
proof -
  have "agree I (protocol_reply recv host port) (protocol_reply recv' host port)"
    unfolding protocol_reply_def
    by (intro agree_andthen assms) (auto intro!: agree_andthen assms split: option.split)
  then show ?thesis
    unfolding protocol_def by (intro agree_andthen assms agree_basic)
qed

lemma handshake_sync_async:
  "plain_sock s \<Longrightarrow> protocol sendall_sync recv_exact_sync host port request s
                    = protocol send_all_async recv_exact_async host port request s"
proof -
  assume "plain_sock s"
  moreover have "agree plain_sock (protocol sendall_sync recv_exact_sync host port request)
      (protocol send_all_async recv_exact_async host port request)"
    by (rule handshake_agree) (simp_all add: agree_def helpers_agree)
  ultimately show ?thesis by (simp add: agree_def)
qed


section \<open>Properties\<close>

text \<open>
  A broker that accepts \<open>example.com:443\<close> and whose first tunnel bytes arrive in the same
  segment as the end of its reply, the reply being split over three segments.
\<close>

definition demo_sock :: sock where
  "demo_sock = \<lparr>rx = [Data [5], Data [0, 5, 0, 0, 3, 2], Data [97, 98, 0, 80, 22, 3]], tx = [],
     tx_plan = [], is_open = True, deadline = None\<rparr>"

definition demo_request :: bytes where
  "demo_request = [5, 1, 0, 3, 1, 97, 1, 187]"

lemma demo_connect: "connect_request (\<lambda>_. None) (lit ''a'') (PortInt 443) = Inr demo_request"
  by (simp add: connect_request_def encode_host_def demo_request_def lit_def ascii_bytes_def to_be_2)

text \<open>
  C1: the blocking driver implements the byte-level contract of the broker. Whatever way the
  broker's bytes are cut into segments, a connection whose writes succeed returns exactly when
  the concatenated bytes are an accepting method reply followed by a complete success reply;
  it has then written the greeting and the request and nothing else, and it has consumed the
  reply and not one byte of the tunnel behind it. Every other byte sequence gives the one
  exception that the contract names.
\<close>

theorem socks5_sync_refines_verdict:
  assumes "connect_request idna host port = Inr request" and "fresh_sock fresh" and "tx_plan fresh = []"
  shows "case socks_verdict host (port_value port) (sock_pending fresh) (sock_stop fresh) of
      Inl e \<Rightarrow> fst (socks5_connect_sync idna True path host port timeout None fresh) = Inl e
    | Inr rest \<Rightarrow> (\<exists>s'. socks5_connect_sync idna True path host port timeout None fresh = (Inr (), Some s') \<and>
        sock_pending s' = rest \<and> is_open s' \<and> tx s' = greeting @ request)"
  using assms by (rule sync_meets_verdict)

theorem socks5_sync_refines_verdict_witness:
  "\<exists>s'. socks5_connect_sync (\<lambda>_. None) True (lit ''/b'') (lit ''a'') (PortInt 443) (Some 30000) None demo_sock
      = (Inr (), Some s') \<and> sock_pending s' = [22, 3] \<and> is_open s' \<and> tx s' = greeting @ demo_request"
proof -
  have "socks_verdict (lit ''a'') (port_value (PortInt 443)) (sock_pending demo_sock) (sock_stop demo_sock)
          = Inr [22, 3]"
    by (simp add: socks_verdict_def reply_verdict_def check_method_reply_def bound_trailer_len_def
        demo_sock_def sock_pending_def Let_def)
  moreover have "fresh_sock demo_sock" "tx_plan demo_sock = []"
    by (simp_all add: fresh_sock_def demo_sock_def)
  ultimately show ?thesis
    using socks5_sync_refines_verdict [OF demo_connect, of demo_sock "lit ''/b''" "Some 30000"] by simp
qed

text \<open>
  Neither driver speaks out of turn. In every run, whatever the broker sends and whenever a
  read or write fails, the bytes written to a fresh connection are a prefix of greeting and
  request, and no byte of the request (which carries the destination) is written unless the
  broker has first answered the greeting with \<open>05 00\<close>.
\<close>

theorem socks5_drivers_disciplined:
  assumes "connect_request idna host port = Inr request" and "fresh_sock fresh"
  shows "(\<forall>r s'. socks5_connect_sync idna af_unix path host port timeout dial fresh = (r, Some s') \<longrightarrow>
           disciplined (sock_pending fresh) request (tx s')) \<and>
         (\<forall>r s'. socks5_connect_async idna path host port dial fresh = (r, Some s') \<longrightarrow>
           disciplined (sock_pending fresh) request (tx s'))"
proof (intro conjI)
  let ?s = "set_deadline timeout fresh"
  have t: "tx ?s = []" "tx fresh = []" "sock_pending ?s = sock_pending fresh"
    using assms(2) by (simp_all add: fresh_sock_def set_deadline_def sock_pending_def)
  have 0: "disciplined peer request []" for peer
    by (auto simp: disciplined_def intro: exI [of _ 0])
  have "disciplined (sock_pending fresh) request
      (tx (snd (protocol sendall_sync recv_exact_sync host p request ?s)))" for p
    using handshake_disciplined [OF t(1), where send = sendall_sync and recv = recv_exact_sync]
      send_tx(1) send_Inr(1) recv_Inr(1) t(3) by simp
  with assms(1) 0 t show "\<forall>r s'. socks5_connect_sync idna af_unix path host port timeout dial fresh = (r, Some s') \<longrightarrow>
           disciplined (sock_pending fresh) request (tx s')"
    by (auto simp: sync_driver Let_def sock_close_def
        split: if_splits option.splits prod.splits sum.splits) (metis snd_conv)+
  have "disciplined (sock_pending fresh) request
      (tx (snd (protocol send_all_async recv_exact_async host p request fresh)))" for p
    using handshake_disciplined [OF t(2), where send = send_all_async and recv = recv_exact_async]
      send_tx(2) send_Inr(2) recv_Inr(2) by simp
  then show "\<forall>r s'. socks5_connect_async idna path host port dial fresh = (r, Some s') \<longrightarrow>
           disciplined (sock_pending fresh) request (tx s')"
    using assms(1) by (auto simp: async_driver sock_close_def
        split: if_splits option.splits prod.splits sum.splits) (metis snd_conv)+
qed


theorem socks5_drivers_disciplined_witness:
  "\<exists>r s'. socks5_connect_sync (\<lambda>_. None) True (lit ''/b'') (lit ''a'') (PortInt 443) None None demo_sock = (r, Some s')
       \<and> disciplined (sock_pending demo_sock) demo_request (tx s')"
proof -
  have f: "fresh_sock demo_sock" by (simp add: fresh_sock_def demo_sock_def)
  have "\<exists>r s'. socks5_connect_sync (\<lambda>_. None) True (lit ''/b'') (lit ''a'') (PortInt 443) None None demo_sock
      = (r, Some s')"
    unfolding socks5_connect_sync_run [OF demo_connect] by (auto split: prod.split sum.split)
  then obtain r s' where
    run: "socks5_connect_sync (\<lambda>_. None) True (lit ''/b'') (lit ''a'') (PortInt 443) None None demo_sock = (r, Some s')"
    by blast
  with socks5_drivers_disciplined [OF demo_connect f, where timeout = None] show ?thesis by blast
qed

text \<open>
  C3: no path leaks the connection, and what escapes is known. A driver that raises leaves no
  open socket behind and a driver that returns hands over an open one. The async driver raises
  only egress errors; the blocking driver raises egress errors, and besides them exactly the
  operating-system errors of \<open>recv\<close> that are neither a time-out nor a reset.
\<close>

theorem socks5_drivers_fail_closed:
  assumes "is_open fresh"
  shows "(case socks5_connect_sync idna af_unix path host port timeout dial fresh of
            (Inl e, s') \<Rightarrow> (\<forall>s. s' = Some s \<longrightarrow> \<not> is_open s) \<and> (is_egress_error e \<or> raw_os_error e)
          | (Inr u, s') \<Rightarrow> (\<exists>s. s' = Some s \<and> is_open s)) \<and>
         (case socks5_connect_async idna path host port dial fresh of
            (Inl e, s') \<Rightarrow> (\<forall>s. s' = Some s \<longrightarrow> \<not> is_open s) \<and> is_egress_error e
          | (Inr u, s') \<Rightarrow> (\<exists>s. s' = Some s \<and> is_open s))"
proof (intro conjI)
  show "case socks5_connect_sync idna af_unix path host port timeout dial fresh of
            (Inl e, s') \<Rightarrow> (\<forall>s. s' = Some s \<longrightarrow> \<not> is_open s) \<and> (is_egress_error e \<or> raw_os_error e)
          | (Inr u, s') \<Rightarrow> (\<exists>s. s' = Some s \<and> is_open s)"
  proof (cases "connect_request idna host port")
    case (Inl e)
    then show ?thesis
      by (auto simp: sync_driver dest: connect_request_Inl)
  next
    case (Inr request)
    have "is_open (set_deadline timeout fresh)" using assms by (simp add: set_deadline_def)
    then show ?thesis
      using Inr
      by (auto simp: sync_driver Let_def sock_close_def
          dest: handshake_sync_raises handshake_sync_open
          split: option.splits prod.splits sum.splits)
  qed
  show "case socks5_connect_async idna path host port dial fresh of
            (Inl e, s') \<Rightarrow> (\<forall>s. s' = Some s \<longrightarrow> \<not> is_open s) \<and> is_egress_error e
          | (Inr u, s') \<Rightarrow> (\<exists>s. s' = Some s \<and> is_open s)"
  proof (cases "connect_request idna host port")
    case (Inl e)
    then show ?thesis by (auto simp: async_driver dest: connect_request_Inl)
  next
    case (Inr request)
    then show ?thesis
      using assms
      by (auto simp: async_driver sock_close_def
          dest: handshake_async_raises handshake_async_open
          split: option.splits prod.splits sum.splits)
  qed
qed

text \<open>At the witness the broker's kernel reports \<open>EIO\<close>: the raw error escapes the blocking driver.\<close>

definition eio_sock :: sock where
  "eio_sock = demo_sock\<lparr>rx := [Data [5, 0], Fail (Errno 5)]\<rparr>"

lemma eio_sync_raises:
  "\<exists>s'. socks5_connect_sync (\<lambda>_. None) True (lit ''/b'') (lit ''a'') (PortInt 443) None None eio_sock
     = (Inl (OSError (Errno 5)), s')"
proof -
  have "socks_verdict (lit ''a'') (port_value (PortInt 443)) (sock_pending eio_sock) (sock_stop eio_sock)
          = Inl (OSError (Errno 5))"
    by (simp add: socks_verdict_def reply_verdict_def check_method_reply_def short_read_def
        eio_sock_def demo_sock_def sock_pending_def sock_stop_def)
  moreover have "fresh_sock eio_sock" "tx_plan eio_sock = []"
    by (simp_all add: fresh_sock_def eio_sock_def demo_sock_def)
  ultimately have "fst (socks5_connect_sync (\<lambda>_. None) True (lit ''/b'') (lit ''a'') (PortInt 443) None None eio_sock)
     = Inl (OSError (Errno 5))"
    using sync_meets_verdict [OF demo_connect, of eio_sock "lit ''/b''" None] by simp
  then show ?thesis by (metis prod.collapse)
qed

theorem socks5_drivers_fail_closed_witness:
  "is_open eio_sock \<and> (\<exists>s'. socks5_connect_sync (\<lambda>_. None) True (lit ''/b'') (lit ''a'') (PortInt 443) None None
      eio_sock = (Inl (OSError (Errno 5)), s') \<and> (\<forall>s. s' = Some s \<longrightarrow> \<not> is_open s))"
proof -
  have o: "is_open eio_sock" by (simp add: eio_sock_def demo_sock_def)
  obtain s' where run: "socks5_connect_sync (\<lambda>_. None) True (lit ''/b'') (lit ''a'') (PortInt 443) None None
      eio_sock = (Inl (OSError (Errno 5)), s')"
    using eio_sync_raises by blast
  from socks5_drivers_fail_closed [OF o, of "\<lambda>_. None" True "lit ''/b''" "lit ''a''" "PortInt 443" None None] run o
  show ?thesis by auto
qed

text \<open>
  C4: the two drivers are one protocol, although the source has the handshake twice. On a connection
  that is not broken in any other way than a close or a reset, the blocking and the async driver
  return the same result or raise the same exception, and leave a connection with the same bytes
  written, the same bytes unread and in the same state, on success and on failure. When the dial
  fails (but for a time-out of the async one) they raise the same exception, up to the wording of
  the system's reason, and neither has written a byte.
\<close>

theorem socks5_sync_async_agree:
  assumes "plain_sock fresh"
  shows "socks5_connect_sync idna True path host port (deadline fresh) None fresh
           = socks5_connect_async idna path host port None fresh \<and>
         (\<forall>k. k \<noteq> Timeout \<longrightarrow>
            fst (socks5_connect_sync idna True path host port (deadline fresh) (Some k) fresh)
              = fst (socks5_connect_async idna path host port (Some k) fresh) \<and>
            snd (socks5_connect_async idna path host port (Some k) fresh) = None \<and>
            (\<forall>s. snd (socks5_connect_sync idna True path host port (deadline fresh) (Some k) fresh) = Some s \<longrightarrow>
               s = sock_close fresh))"
proof -
  have same: "set_deadline (deadline fresh) fresh = fresh" by (simp add: set_deadline_def)
  have "e \<noteq> OSError Timeout" if "protocol send_all_async recv_exact_async h p q fresh = (Inl e, s')" for e s' h p q
    using handshake_sync_raises [of h p q fresh e s'] that handshake_sync_async [OF assms]
    by (auto simp: raw_os_error_def)
  then show ?thesis
    by (auto simp: sync_driver async_driver same Let_def
        handshake_sync_async [OF assms] split: sum.splits option.splits prod.splits)
qed

theorem socks5_sync_async_agree_witness:
  "socks5_connect_sync (\<lambda>_. None) True (lit ''/b'') (lit ''a'') (PortInt 443) (deadline demo_sock) None demo_sock
     = socks5_connect_async (\<lambda>_. None) (lit ''/b'') (lit ''a'') (PortInt 443) None demo_sock"
proof -
  have "plain_sock demo_sock" by (simp add: plain_sock_def demo_sock_def)
  from socks5_sync_async_agree [OF this] show ?thesis by blast
qed

end
