(* ===== verification/Pipe_Win.thy ===== *)
theory Pipe_Win
  imports Sockets
begin

text \<open>
  \<open>python/src/hawcx_haap/pipe_win.py\<close>: a Windows named pipe with the interface of a socket.

  The kernel calls are the environment. One overlapped operation is an \<open>overlapped\<close> value: the
  error code of issuing it (or the \<open>OSError\<close> that issuing raises), the result of waiting for its
  event, and its completion. Reads also carry the bytes the kernel placed in the buffer; what
  does not fit in the buffer stays for the next read. A script that is used up behaves as a pipe
  whose other end is gone (error 109).
\<close>

section \<open>One overlapped operation\<close>

definition error_broken_pipe :: nat where "error_broken_pipe = 109"
definition error_no_data :: nat where "error_no_data = 232"
definition error_pipe_busy :: nat where "error_pipe_busy = 231"
definition error_operation_aborted :: nat where "error_operation_aborted = 995"
definition error_io_pending :: nat where "error_io_pending = 997"
definition wait_object_0 :: nat where "wait_object_0 = 0"
definition infinite_wait :: nat where "infinite_wait = 0xFFFFFFFF"
definition invalid_handle :: nat where "invalid_handle = 2 ^ 64 - 1"

lemmas win_codes = error_broken_pipe_def error_no_data_def error_pipe_busy_def
  error_operation_aborted_def error_io_pending_def wait_object_0_def invalid_handle_def

datatype completion =
    Completed nat nat        \<comment> \<open>bytes moved and the error code that came with them\<close>
  | CompletionRaised nat     \<comment> \<open>\<open>GetOverlappedResult\<close> raises \<open>OSError\<close> with this winerror\<close>

datatype overlapped =
    IssueRaised nat
  | Issued nat nat completion   \<comment> \<open>issue error, wait result, completion\<close>

text \<open>What \<open>_finish\<close> and the calls around it raise: a time-out, or an \<open>OSError\<close> with a winerror.\<close>

datatype pipe_fault = PipeTimeout | WinError nat

text \<open>The milliseconds handed to \<open>WaitForSingleObject\<close>.\<close>

definition wait_ms :: "timeout \<Rightarrow> nat" where
  "wait_ms t = (case t of None \<Rightarrow> infinite_wait | Some ms \<Rightarrow> min ms (infinite_wait - 1))"

text \<open>Whether \<open>_finish\<close> cancels the operation: it is pending and the wait did not signal.\<close>

fun cancels :: "overlapped \<Rightarrow> bool" where
  "cancels (Issued err w c) = (err = error_io_pending \<and> w \<noteq> wait_object_0)"
| "cancels _ = False"

fun finish :: "overlapped \<Rightarrow> pipe_fault + nat" where
  "finish (IssueRaised e) = Inl (WinError e)"
| "finish (Issued err w (CompletionRaised e)) = Inl (WinError e)"
| "finish (Issued err w (Completed n e)) =
     (if e = error_operation_aborted then Inl PipeTimeout else Inr n)"

section \<open>The pipe\<close>

record pipe =
  handle :: nat
  pipe_timeout :: timeout
  reads :: "(overlapped \<times> bytes) list"
  writes :: "overlapped list"
  sent :: bytes
  closed_handles :: "nat list"        \<comment> \<open>the arguments of \<open>CloseHandle\<close> so far\<close>

definition pipe_settimeout :: "timeout \<Rightarrow> pipe \<Rightarrow> pipe" where
  "pipe_settimeout t p = p\<lparr>pipe_timeout := t\<rparr>"

text \<open>Bytes that reach the peer: all on success, the reported number on a short write.\<close>

definition moved :: "overlapped \<Rightarrow> nat" where
  "moved ov = (case finish ov of Inr n \<Rightarrow> n | Inl _ \<Rightarrow> 0)"

definition pipe_sendall :: "bytes \<Rightarrow> (exn, pipe, unit) act" where
  "pipe_sendall data p =
     (let ov = (case writes p of [] \<Rightarrow> IssueRaised error_broken_pipe | w # ws \<Rightarrow> w);
          p' = p\<lparr>writes := tl (writes p), sent := sent p @ take (moved ov) data\<rparr>
      in case finish ov of
           Inl PipeTimeout \<Rightarrow> (Inl (OSError Timeout), p')
         | Inl (WinError e) \<Rightarrow> (Inl (IpcError (PipeWriteError e)), p')
         | Inr written \<Rightarrow>
             if written \<noteq> length data
             then (Inl (IpcError (PipeShortWrite written (length data))), p')
             else (Inr (), p'))"

text \<open>A read takes the next operation of the script; a full buffer leaves the rest ready.\<close>

definition leftover :: "nat \<Rightarrow> bytes \<Rightarrow> (overlapped \<times> bytes) list \<Rightarrow> (overlapped \<times> bytes) list" where
  "leftover n buf rest =
     (if n < length buf then (Issued 0 0 (Completed (length buf - n) 0), drop n buf) # rest else rest)"

definition pipe_recv :: "nat \<Rightarrow> (exn, pipe, bytes) act" where
  "pipe_recv n p =
     (if n = 0 then (Inr [], p)
      else case reads p of
        [] \<Rightarrow> (Inr [], p)
      | (ov, buf) # rest \<Rightarrow>
          (case finish ov of
             Inl PipeTimeout \<Rightarrow> (Inl (OSError Timeout), p\<lparr>reads := rest\<rparr>)
           | Inl (WinError e) \<Rightarrow>
               (if e = error_broken_pipe \<or> e = error_no_data then Inr []
                else Inl (IpcError (PipeReadError e)), p\<lparr>reads := rest\<rparr>)
           | Inr k \<Rightarrow> (Inr (take n buf), p\<lparr>reads := leftover n buf rest\<rparr>)))"

definition pipe_close :: "pipe \<Rightarrow> pipe" where
  "pipe_close p =
     (if handle p \<noteq> 0 \<and> handle p \<noteq> invalid_handle
      then p\<lparr>closed_handles := closed_handles p @ [handle p], handle := invalid_handle\<rparr>
      else p)"

section \<open>Opening a pipe\<close>

text \<open>
  One turn of the loop: the handle \<open>CreateFileW\<close> returned, the last error and the clock at the
  deadline test. The deadline \<open>due\<close> is \<open>start + timeout\<close>. \<open>None\<close> is a loop that is still waiting
  when the script ends. \<open>WaitNamedPipeW\<close> only delays.
\<close>

definition new_pipe :: "nat \<Rightarrow> pipe" where
  "new_pipe h = \<lparr>handle = h, pipe_timeout = None, reads = [], writes = [], sent = [], closed_handles = []\<rparr>"

fun pipe_connect ::
  "pystr \<Rightarrow> timeout \<Rightarrow> nat option \<Rightarrow> (nat \<times> nat \<times> nat) list \<Rightarrow> (exn + pipe) option" where
  "pipe_connect path timeout due [] = None"
| "pipe_connect path timeout due ((h, err, now) # turns) =
     (if h \<noteq> invalid_handle then Some (Inr (pipe_settimeout timeout (new_pipe h)))
      else if err \<noteq> error_pipe_busy then Some (Inl (IpcError (PipeOpenError path err)))
      else if (case due of None \<Rightarrow> False | Some d \<Rightarrow> d \<le> now)
      then Some (Inl (IpcError (PipeOpenTimeout path)))
      else pipe_connect path timeout due turns)"

section \<open>The stream interface of \<open>egress.py\<close>\<close>

text \<open>\<open>_PipeStream\<close>: transport failures become \<open>OSError\<close> kinds, as a socket's do.\<close>

record pipe_stream =
  ps_raw :: pipe
  ps_closed :: bool

fun as_os :: "exn \<Rightarrow> os_kind" where
  "as_os (OSError k) = k"
| "as_os _ = ConnError"

definition stream_recv :: "nat \<Rightarrow> pipe_stream \<Rightarrow> (os_kind + bytes) \<times> pipe_stream" where
  "stream_recv n s =
     (case pipe_recv n (ps_raw s) of
        (Inl e, p) \<Rightarrow> (Inl (as_os e), s\<lparr>ps_raw := p\<rparr>)
      | (Inr b, p) \<Rightarrow> (Inr b, s\<lparr>ps_raw := p\<rparr>))"

definition stream_sendall :: "bytes \<Rightarrow> pipe_stream \<Rightarrow> (os_kind + unit) \<times> pipe_stream" where
  "stream_sendall data s =
     (case pipe_sendall data (ps_raw s) of
        (Inl e, p) \<Rightarrow> (Inl (as_os e), s\<lparr>ps_raw := p\<rparr>)
      | (Inr u, p) \<Rightarrow> (Inr (), s\<lparr>ps_raw := p\<rparr>))"

definition stream_settimeout :: "timeout \<Rightarrow> pipe_stream \<Rightarrow> pipe_stream" where
  "stream_settimeout t s = s\<lparr>ps_raw := pipe_settimeout t (ps_raw s)\<rparr>"

definition stream_close :: "pipe_stream \<Rightarrow> pipe_stream" where
  "stream_close s =
     (if ps_closed s then s else \<lparr>ps_raw = pipe_close (ps_raw s), ps_closed = True\<rparr>)"


section \<open>A pipe stream is a byte source\<close>

fun script_bytes :: "(overlapped \<times> bytes) list \<Rightarrow> bytes" where
  "script_bytes [] = []"
| "script_bytes ((ov, buf) # rest) =
     (case finish ov of Inl f \<Rightarrow> [] | Inr k \<Rightarrow> if buf = [] then [] else buf @ script_bytes rest)"

fun script_stop :: "(overlapped \<times> bytes) list \<Rightarrow> os_kind option" where
  "script_stop [] = None"
| "script_stop ((ov, buf) # rest) =
     (case finish ov of
        Inl PipeTimeout \<Rightarrow> Some Timeout
      | Inl (WinError e) \<Rightarrow> if e = error_broken_pipe \<or> e = error_no_data then None else Some ConnError
      | Inr k \<Rightarrow> if buf = [] then None else script_stop rest)"

definition stream_pending :: "pipe_stream \<Rightarrow> bytes" where
  "stream_pending s = script_bytes (reads (ps_raw s))"

definition stream_stop :: "pipe_stream \<Rightarrow> os_kind option" where
  "stream_stop s = script_stop (reads (ps_raw s))"

definition without_reads :: "pipe_stream \<Rightarrow> pipe_stream" where
  "without_reads s = s\<lparr>ps_raw := (ps_raw s)\<lparr>reads := []\<rparr>\<rparr>"

lemmas stream_view = stream_pending_def stream_stop_def

lemma leftover_bytes:
  "take n buf \<noteq> [] \<Longrightarrow> take n buf @ script_bytes (leftover n buf rest) = buf @ script_bytes rest"
  "take n buf \<noteq> [] \<Longrightarrow> script_stop (leftover n buf rest) = script_stop rest"
  by (auto simp: leftover_def win_codes)

interpretation pipe: byte_source stream_recv stream_pending stream_stop without_reads
proof
  fix s :: pipe_stream and n :: nat
  assume p: "stream_pending s \<noteq> []" and n: "0 < n"
  then obtain ov buf rest k where r: "reads (ps_raw s) = (ov, buf) # rest" and f: "finish ov = Inr k" "buf \<noteq> []"
    by (cases "reads (ps_raw s)") (auto simp: stream_view split: sum.splits if_splits)
  from f n have t: "take n buf \<noteq> []" by simp
  from r f n have "stream_recv n s = (Inr (take n buf), s\<lparr>ps_raw := (ps_raw s)\<lparr>reads := leftover n buf rest\<rparr>\<rparr>)"
    by (simp add: stream_recv_def pipe_recv_def)
  with r f t leftover_bytes [OF t, of rest]
  show "\<exists>c s'. stream_recv n s = (Inr c, s') \<and> c \<noteq> [] \<and> length c \<le> n \<and>
             stream_pending s = c @ stream_pending s' \<and> stream_stop s' = stream_stop s"
    by (auto simp: stream_view)
next
  fix s :: pipe_stream and n :: nat
  assume "stream_pending s = []" and "0 < n"
  then show "fst (stream_recv n s) = (case stream_stop s of None \<Rightarrow> Inr [] | Some k \<Rightarrow> Inl k)"
    by (auto simp: stream_recv_def pipe_recv_def stream_view win_codes
        split: list.splits sum.splits pipe_fault.splits if_splits)
next
  fix s :: pipe_stream and n :: nat
  show "without_reads (snd (stream_recv n s)) = without_reads s"
    by (auto simp: stream_recv_def pipe_recv_def without_reads_def
        split: list.splits sum.splits pipe_fault.splits if_splits prod.splits)
qed


section \<open>Properties\<close>

lemma pipe_close_idem [simp]: "pipe_close (pipe_close p) = pipe_close p"
  by (simp add: pipe_close_def invalid_handle_def)

lemma pipe_recv_length: "pipe_recv n p = (Inr bs, p') \<Longrightarrow> length bs \<le> n"
  by (auto simp: pipe_recv_def split: if_splits list.splits prod.splits sum.splits pipe_fault.splits)

text \<open>
  Dialling a pipe with a deadline ends. If the clock passes the deadline at some turn of the
  script, \<open>connect\<close> has returned by then: with a pipe whose handle is a real one and which
  carries the caller's time-out, or with an \<open>IpcError\<close>. It never returns the all-ones value that
  \<open>CreateFileW\<close> reports failure with.
\<close>

theorem pipe_connect_settles:
  assumes "(h, err, now) \<in> set turns" and "d \<le> now"
  shows "\<exists>r. pipe_connect path timeout (Some d) turns = Some r \<and>
           (case r of Inl e \<Rightarrow> is_ipc_error e
            | Inr p \<Rightarrow> handle p \<noteq> invalid_handle \<and> pipe_timeout p = timeout)"
  using assms(1)
proof (induction turns)
  case Nil
  then show ?case by simp
next
  case (Cons turn turns)
  obtain h' err' now' where turn: "turn = (h', err', now')" by (cases turn) auto
  from Cons assms(2) show ?case
    unfolding turn by (auto simp: pipe_settimeout_def new_pipe_def)
qed

theorem pipe_connect_settles_witness:
  "\<exists>r. pipe_connect (lit ''p'') (Some 50) (Some 60) [(invalid_handle, 231, 10), (invalid_handle, 231, 70)] = Some r \<and>
     (case r of Inl e \<Rightarrow> is_ipc_error e
      | Inr p \<Rightarrow> handle p \<noteq> invalid_handle \<and> pipe_timeout p = Some 50)"
  by (rule pipe_connect_settles [of invalid_handle 231 70]) simp_all

end
