(* ===== verification/Egress_Control.thy ===== *)
theory Egress_Control
  imports Egress_Wire Pipe_Win
begin

text \<open>
  The Windows broker of \<open>egress.py\<close>: parsing \<open>$HAAP_EGRESS_BROKER_HANDLE\<close>, the placed control
  channel (\<open>_ControlChannel\<close>), its registry (\<open>_CONTROLS\<close>) and \<open>_PlacedBroker\<close>.

  The kernel is the record \<open>win\<close>: the type of a handle (\<open>GetFileType\<close>) and the pipe behind it,
  with the script of what it will do. The lock of the source makes a request atomic, so a
  request is one step here and the threads of the agent are any sequence of steps.
\<close>

section \<open>The handle variable\<close>

text \<open>
  \<open>str.isdigit\<close> on an ASCII string is the test for the digits 0 to 9. (CPython refuses to convert
  more than 4300 digits with a \<open>ValueError\<close> before the range check; such a value is out of range
  either way and is reported here as too large.)
\<close>

definition parse_broker_handle :: "pystr option \<Rightarrow> exn + nat" where
  "parse_broker_handle val =
     (case val of
        None \<Rightarrow> Inl (EgressConfigError NoBrokerHandle)
      | Some r \<Rightarrow>
          (let s = strip r in
           if s = [] then Inl (EgressConfigError NoBrokerHandle)
           else if \<not> isascii s \<or> \<not> (\<forall>c \<in> set s. is_digit c) then Inl (EgressConfigError (HandleNotDecimal s))
           else let value = dec_value s in
             if value = 0 then Inl (EgressConfigError HandleZero)
             else if 2 ^ 64 - 1 < value then Inl (EgressConfigError (HandleTooLarge s))
             else Inr value))"

text \<open>The argument of \<open>resolve_broker_handle\<close>: absent, a string, an integer, or anything else.\<close>

datatype handle_arg = NoHandle | HandleStr pystr | HandleInt int | HandleBool bool | HandleOther

definition resolve_broker_handle :: "(pystr \<Rightarrow> pystr option) \<Rightarrow> handle_arg \<Rightarrow> exn + nat" where
  "resolve_broker_handle env h =
     (case h of
        NoHandle \<Rightarrow> parse_broker_handle (env (lit ''HAAP_EGRESS_BROKER_HANDLE''))
      | HandleStr s \<Rightarrow> parse_broker_handle (Some s)
      | HandleInt i \<Rightarrow> parse_broker_handle (Some (dec_int i))
      | _ \<Rightarrow> Inl (EgressConfigError HandleArgType))"

lemma digit_not_space: "is_digit c \<Longrightarrow> \<not> is_space c"
  by (auto simp: is_digit_def is_space_def)

lemma parse_broker_handle_dec:
  assumes "0 < n" and "n < 2 ^ 64"
  shows "parse_broker_handle (Some (dec n)) = Inr n"
proof -
  have "\<not> is_space c" if "c \<in> set (dec n)" for c
    using digit_not_space [OF dec_digits [OF that]] .
  then have "strip (dec n) = dec n" by (intro strip_id) simp_all
  with assms dec_digits [of _ n] show ?thesis
    by (auto simp: parse_broker_handle_def Let_def)
qed

lemma parse_broker_handle_Inl:
  "parse_broker_handle raw = Inl e \<Longrightarrow> \<exists>f. e = EgressConfigError f"
  by (auto simp: parse_broker_handle_def Let_def split: option.splits if_splits)

section \<open>Adopting a handle\<close>

record win =
  file_type :: "nat \<Rightarrow> nat"
  pipe_at :: "nat \<Rightarrow> pipe"

definition file_type_pipe :: nat where "file_type_pipe = 3"

text \<open>\<open>_win_adopt\<close>, wrapped in a \<open>_PipeStream\<close> as each of its callers does.\<close>

definition win_adopt :: "win \<Rightarrow> nat \<Rightarrow> exn + pipe_stream" where
  "win_adopt w h =
     (if file_type w h \<noteq> file_type_pipe then Inl (EgressConfigError (HandleNotPipe h (file_type w h)))
      else Inr \<lparr>ps_raw = (pipe_at w h)\<lparr>handle := h\<rparr>, ps_closed = False\<rparr>)"

section \<open>The control channel\<close>

record control =
  ctl_handle :: nat
  ctl_raw :: "pipe_stream option"
  broken :: "retire_reason option"

definition retire :: "retire_reason \<Rightarrow> control \<Rightarrow> control" where
  "retire why c = c\<lparr>broken := Some why\<rparr>"

definition adopt :: "win \<Rightarrow> (exn, control, unit) act" where
  "adopt w c =
     (case ctl_raw c of
        Some s \<Rightarrow> (Inr (), c)
      | None \<Rightarrow> (case win_adopt w (ctl_handle c) of
                   Inl e \<Rightarrow> (Inl e, c)
                 | Inr s \<Rightarrow> (Inr (), c\<lparr>ctl_raw := Some s\<rparr>)))"

text \<open>The exchange on an adopted stream: write the request, then read up to six bytes.\<close>

definition exchange :: "timeout \<Rightarrow> bytes \<Rightarrow> pipe_stream
    \<Rightarrow> ((os_kind option \<times> bytes) + bytes) \<times> pipe_stream" where
  "exchange timeout req s =
     (case stream_sendall req (stream_settimeout timeout s) of
        (Inl k, s') \<Rightarrow> (Inl (Some k, []), s')
      | (Inr u, s') \<Rightarrow> read_loop stream_recv mux_reply_len [] s')"

definition control_request ::
  "idna \<Rightarrow> nat \<Rightarrow> win \<Rightarrow> pystr \<Rightarrow> port_arg \<Rightarrow> timeout \<Rightarrow> (exn, control, nat) act" where
  "control_request idna pid w host port timeout c =
     (case mux_request idna pid host port of
        Inl e \<Rightarrow> (Inl e, c)
      | Inr req \<Rightarrow>
          (case broken c of
             Some why \<Rightarrow> (Inl (EgressProtocolError (ChannelRetired why)), c)
           | None \<Rightarrow>
               (case adopt w c of
                  (Inl e, c') \<Rightarrow> (Inl e, c')
                | (Inr u, c') \<Rightarrow>
                    (let (r, s) = exchange timeout req (the (ctl_raw c'));
                         c'' = c'\<lparr>ctl_raw := Some s\<rparr>
                     in case r of
                          Inl (Some k, buf) \<Rightarrow>
                            if k = Timeout
                            then (Inl (EgressProtocolError ControlTimedOut), retire TimedOutAwaitingReply c'')
                            else (Inl (EgressProtocolError (ControlTransport k)), retire (TransportFailed k) c'')
                        | Inl (None, buf) \<Rightarrow>
                            (Inl (EgressProtocolError (ControlClosed (length buf))), retire BrokerClosedChannel c'')
                        | Inr reply \<Rightarrow>
                            (case parse_mux_reply reply host (port_value port) of
                               Inl e \<Rightarrow> (Inl e, if is_refusal reply then c'' else retire MalformedReply c'')
                             | Inr h \<Rightarrow> (Inr h, c''))))))"


section \<open>The registry and the placed broker\<close>

text \<open>
  \<open>_CONTROLS\<close> maps a handle value to the process's one channel for it. A \<open>_PlacedBroker\<close> is its
  handle value; constructing it looks the channel up or creates it, and adopts it.
\<close>

type_synonym controls = "nat \<Rightarrow> control option"

definition new_control :: "nat \<Rightarrow> control" where
  "new_control h = \<lparr>ctl_handle = h, ctl_raw = None, broken = None\<rparr>"

definition placed_broker :: "win \<Rightarrow> nat \<Rightarrow> (exn, controls, nat) act" where
  "placed_broker w h cs =
     (let c = (case cs h of Some c \<Rightarrow> c | None \<Rightarrow> new_control h)
      in case adopt w c of
           (Inl e, c') \<Rightarrow> (Inl e, cs(h \<mapsto> c'))
         | (Inr u, c') \<Rightarrow> (Inr h, cs(h \<mapsto> c')))"

text \<open>\<open>_PlacedBroker.connect\<close>: a vended value that is no pipe retires the channel it came over.\<close>

definition placed_connect ::
  "idna \<Rightarrow> nat \<Rightarrow> win \<Rightarrow> nat \<Rightarrow> pystr \<Rightarrow> port_arg \<Rightarrow> timeout \<Rightarrow> (exn, controls, pipe_stream) act" where
  "placed_connect idna pid w h host port timeout cs =
     (case cs h of
        None \<Rightarrow> (Inl (KeyError []), cs)
      | Some c \<Rightarrow>
          (case control_request idna pid w host port timeout c of
             (Inl e, c') \<Rightarrow> (Inl e, cs(h \<mapsto> c'))
           | (Inr vended, c') \<Rightarrow>
               (case win_adopt w vended of
                  Inl e \<Rightarrow> (Inl (EgressProtocolError (VendedNotPipe vended (file_type w vended))),
                            cs(h \<mapsto> retire VendedHandleNotPipe c'))
                | Inr s \<Rightarrow> (Inr (stream_settimeout timeout s), cs(h \<mapsto> c')))))"

section \<open>Exchanges stay in step\<close>

lemma stream_sendall_Inr:
  assumes "stream_sendall data s = (Inr u, s')"
  shows "sent (ps_raw s') = sent (ps_raw s) @ data" and "stream_pending s' = stream_pending s"
    and "stream_stop s' = stream_stop s"
  using assms
  by (auto simp: stream_sendall_def pipe_sendall_def moved_def stream_view Let_def
      split: prod.splits sum.splits pipe_fault.splits if_splits)

lemma stream_settimeout_view [simp]:
  "stream_pending (stream_settimeout t s) = stream_pending s"
  "stream_stop (stream_settimeout t s) = stream_stop s"
  "sent (ps_raw (stream_settimeout t s)) = sent (ps_raw s)"
  by (simp_all add: stream_settimeout_def pipe_settimeout_def stream_view)

lemma sent_without_reads [simp]: "sent (ps_raw (without_reads s)) = sent (ps_raw s)"
  by (simp add: without_reads_def)

lemma without_reads_sent: "without_reads s' = without_reads s \<Longrightarrow> sent (ps_raw s') = sent (ps_raw s)"
  by (drule arg_cong [where f = "\<lambda>s. sent (ps_raw s)"]) simp

lemma exchange_Inr:
  assumes "exchange timeout req s = (Inr reply, s')"
  shows "6 \<le> length (stream_pending s)" and "reply = take 6 (stream_pending s)"
    and "stream_pending s' = drop 6 (stream_pending s)"
    and "sent (ps_raw s') = sent (ps_raw s) @ req"
proof -
  from assms obtain u s1 where s1: "stream_sendall req (stream_settimeout timeout s) = (Inr u, s1)"
    and r: "read_loop stream_recv 6 [] s1 = (Inr reply, s')"
    by (auto simp: exchange_def mux_reply_len_def split: prod.splits sum.splits)
  from stream_sendall_Inr [OF s1] have v: "stream_pending s1 = stream_pending s"
    "sent (ps_raw s1) = sent (ps_raw s) @ req" by simp_all
  show len: "6 \<le> length (stream_pending s)"
    using pipe.read_loop_short [of "[]" s1 6] r v by (cases "6 \<le> length (stream_pending s)") auto
  with pipe.read_loop_enough [of 6 "[]" s1] r v
  show "reply = take 6 (stream_pending s)" and "stream_pending s' = drop 6 (stream_pending s)" by auto
  from pipe.read_loop_frame [of 6 "[]" s1] r have "without_reads s' = without_reads s1" by simp
  from without_reads_sent [OF this] v show "sent (ps_raw s') = sent (ps_raw s) @ req" by simp
qed

text \<open>The ways a request on a live, adopted channel ends.\<close>

lemma control_request_live:
  assumes "mux_request idna pid host port = Inr req" and "broken c = None" and "ctl_raw c = Some s"
    and "control_request idna pid w host port timeout c = (r, c')"
  obtains (answered) s' reply where "exchange timeout req s = (Inr reply, s')"
      and "r = parse_mux_reply reply host (port_value port)"
      and "c' = (if (\<exists>h. r = Inr h) \<or> is_refusal reply then c\<lparr>ctl_raw := Some s'\<rparr>
                 else retire MalformedReply (c\<lparr>ctl_raw := Some s'\<rparr>))"
    | (failed) s' why where "c' = retire why (c\<lparr>ctl_raw := Some s'\<rparr>)"
      and "r = Inl (EgressProtocolError ControlTimedOut) \<or> (\<exists>k. r = Inl (EgressProtocolError (ControlTransport k))) \<or>
           (\<exists>n. r = Inl (EgressProtocolError (ControlClosed n)))"
proof -
  obtain x s' where x: "exchange timeout req s = (x, s')" by force
  have ad: "adopt w c = (Inr (), c)" using assms(3) by (simp add: adopt_def)
  show thesis
  proof (cases x)
    case (Inr reply)
    note run = assms(4) [unfolded control_request_def assms(1,2) ad]
    show thesis
    proof (cases "parse_mux_reply reply host (port_value port)")
      case (Inl e)
      with run \<open>x = Inr reply\<close> assms x show thesis by (intro answered [of reply s']) (auto simp: Let_def)
    next
      case (Inr h)
      with run \<open>x = Inr reply\<close> assms(3) x have "r = Inr h" "c' = c\<lparr>ctl_raw := Some s'\<rparr>"
        by (auto simp: Let_def)
      with Inr x \<open>x = Inr reply\<close> show thesis by (intro answered [of reply s']) simp_all
    qed
  next
    case (Inl z)
    with assms x ad show thesis
      by (cases z) (auto simp: control_request_def Let_def split: option.splits if_splits intro: failed)
  qed
qed


section \<open>The channel over time\<close>

text \<open>
  A log entry is an exchange that reached the channel: the request bytes, the destination, and
  what the caller got. \<open>channel P log c\<close>: the channel, adopted with reply bytes \<open>P\<close> on the way,
  can be in state \<open>c\<close> after the exchanges of \<open>log\<close>. Requests that fail validation or find the
  channel retired reach nothing.
\<close>

type_synonym entry = "bytes \<times> pystr \<times> int \<times> (exn + nat)"

definition entry_of :: "idna \<Rightarrow> nat \<Rightarrow> pystr \<Rightarrow> port_arg \<Rightarrow> control \<Rightarrow> exn + nat \<Rightarrow> entry list" where
  "entry_of idna pid host port c r =
     (case mux_request idna pid host port of
        Inl e \<Rightarrow> []
      | Inr req \<Rightarrow> if broken c = None then [(req, host, port_value port, r)] else [])"

inductive channel :: "idna \<Rightarrow> nat \<Rightarrow> win \<Rightarrow> bytes \<Rightarrow> entry list \<Rightarrow> control \<Rightarrow> bool"
  for idna pid w P where
  start: "stream_pending s = P \<Longrightarrow> sent (ps_raw s) = [] \<Longrightarrow>
    channel idna pid w P [] \<lparr>ctl_handle = h, ctl_raw = Some s, broken = None\<rparr>"
| call: "channel idna pid w P log c \<Longrightarrow> control_request idna pid w host port timeout c = (r, c') \<Longrightarrow>
    channel idna pid w P (log @ entry_of idna pid host port c r) c'"
| not_pipe: "channel idna pid w P log c \<Longrightarrow> channel idna pid w P log (retire VendedHandleNotPipe c)"

inductive_cases channel_emptyE: "channel idna pid w P [] c"

lemmas channel_intros = channel.start channel.call channel.not_pipe

text \<open>The invariant: entry \<open>i\<close> was answered from reply \<open>i\<close>, and a live channel is in step.\<close>

definition reply_at :: "bytes \<Rightarrow> nat \<Rightarrow> bytes" where
  "reply_at P i = take 6 (drop (6 * i) P)"

definition answered_by :: "bytes \<Rightarrow> entry list \<Rightarrow> nat \<Rightarrow> bool" where
  "answered_by P log i \<longleftrightarrow>
     (case log ! i of (req, host, port, r) \<Rightarrow>
        (\<exists>h. r = Inr h) \<or> (\<exists>e. r = Inl e \<and> broker_said_no host port e) \<longrightarrow>
        parse_mux_reply (reply_at P i) host port = r)"

definition in_step :: "bytes \<Rightarrow> entry list \<Rightarrow> control \<Rightarrow> bool" where
  "in_step P log c \<longleftrightarrow>
     (\<exists>s. ctl_raw c = Some s \<and>
        (broken c = None \<longrightarrow> stream_pending s = drop (6 * length log) P \<and> 6 * length log \<le> length P \<and>
           sent (ps_raw s) = concat (map fst log)))"

lemma in_step_retire [simp]: "in_step P log c \<Longrightarrow> in_step P log (retire why c)"
  by (auto simp: in_step_def retire_def)

lemma retire_None [simp]: "broken (retire why c) = Some why" "ctl_raw (retire why c) = ctl_raw c"
  by (simp_all add: retire_def)

lemma not_said_no_transport [simp]:
  "\<not> broker_said_no host port (EgressProtocolError ControlTimedOut)"
  "\<not> broker_said_no host port (EgressProtocolError (ControlTransport k))"
  "\<not> broker_said_no host port (EgressProtocolError (ControlClosed n))"
  by (simp_all add: broker_said_no_def reply_exception_def)

lemma answered_by_prefix:
  "i < length log \<Longrightarrow> answered_by P (log @ ext) i = answered_by P log i"
  by (simp add: answered_by_def nth_append)

lemma control_request_dead:
  "broken c = Some why \<Longrightarrow> mux_request idna pid host port = Inr req \<Longrightarrow>
     control_request idna pid w host port timeout c = (Inl (EgressProtocolError (ChannelRetired why)), c)"
  by (simp add: control_request_def)

lemma call_step:
  assumes "in_step P log c" and "control_request idna pid w host port timeout c = (r, c')"
    and new: "entry_of idna pid host port c r = new"
  shows "in_step P (log @ new) c' \<and> (new \<noteq> [] \<longrightarrow> answered_by P (log @ new) (length log))"
proof (cases "mux_request idna pid host port")
  case (Inl e)
  with assms show ?thesis by (auto simp: control_request_def entry_of_def)
next
  case (Inr req)
  show ?thesis
  proof (cases "broken c")
    case (Some why)
    with Inr assms show ?thesis by (auto simp: control_request_dead entry_of_def)
  next
    case None
    from assms(1) None obtain s where s: "ctl_raw c = Some s" "stream_pending s = drop (6 * length log) P"
      "6 * length log \<le> length P" "sent (ps_raw s) = concat (map fst log)" by (auto simp: in_step_def)
    have nw: "new = [(req, host, port_value port, r)]" using new Inr None by (simp add: entry_of_def)
    from Inr None s(1) assms(2) show ?thesis
    proof (cases rule: control_request_live)
      case (answered s' reply)
      from exchange_Inr [OF answered(1)] s
      have reply: "reply = reply_at P (length log)" and len: "6 * length log + 6 \<le> length P"
        and p: "stream_pending s' = drop (6 * length log + 6) P"
        and t: "sent (ps_raw s') = concat (map fst log) @ req"
        by (auto simp: reply_at_def add.commute)
      have "answered_by P (log @ new) (length log)"
        using answered(2) reply by (simp add: answered_by_def nw)
      moreover have "in_step P (log @ new) c'"
        unfolding answered(3) using len p t by (auto simp: in_step_def nw add.commute)
      ultimately show ?thesis by blast
    next
      case (failed s' why)
      then show ?thesis by (auto simp: in_step_def answered_by_def nw)
    qed
  qed
qed

lemma channel_invariant:
  assumes "channel idna pid w P log c"
  shows "in_step P log c \<and> (\<forall>i < length log. answered_by P log i)"
  using assms
proof (induction rule: channel.induct)
  case (start s h)
  then show ?case by (simp add: in_step_def)
next
  case (call log c host port timeout r c')
  let ?new = "entry_of idna pid host port c r"
  have "length ?new \<le> 1" by (simp add: entry_of_def split: sum.split)
  then have "i < length log \<or> i = length log \<and> ?new \<noteq> []" if "i < length (log @ ?new)" for i
    using that by (cases ?new) auto
  with call call_step [of P log c idna pid w host port timeout r c' ?new] show ?case
    by (metis answered_by_prefix)
next
  case (not_pipe log c)
  then show ?case by simp
qed


section \<open>Properties\<close>

text \<open>A channel whose broker denies the first request and vends handle 9 for the second.\<close>

definition demo_replies :: bytes where
  "demo_replies = [1, 2, 0, 0, 0, 0, 0, 0, 0, 0, 0, 9]"

definition demo_stream :: pipe_stream where
  "demo_stream = \<lparr>ps_raw = (new_pipe 7)\<lparr>reads := [(Issued 997 0 (Completed 4 0), [1, 2, 0, 0]),
       (Issued 0 0 (Completed 8 0), [0, 0, 0, 0, 0, 0, 0, 9])],
     writes := [Issued 0 0 (Completed 9 0), Issued 0 0 (Completed 9 0)]\<rparr>, ps_closed = False\<rparr>"

definition demo_control :: control where
  "demo_control = \<lparr>ctl_handle = 7, ctl_raw = Some demo_stream, broken = None\<rparr>"

definition demo_win :: win where
  "demo_win = \<lparr>file_type = (\<lambda>h. 3), pipe_at = (\<lambda>h. new_pipe h)\<rparr>"

definition demo_mux :: bytes where
  "demo_mux = [2, 0, 0, 4, 210, 1, 187, 1, 97]"

lemma demo_mux_request:
  "mux_request (\<lambda>_. None) 1234 (lit ''a'') (PortInt 443) = Inr demo_mux"
  by (simp add: mux_request_def encode_host_def lit_def ascii_bytes_def to_be_2 to_be_4 mux_defs demo_mux_def)

definition demo_call :: "control \<Rightarrow> (exn + nat) \<times> control" where
  "demo_call = control_request (\<lambda>_. None) 1234 demo_win (lit ''a'') (PortInt 443) None"

lemmas run_defs = exchange_def stream_sendall_def pipe_sendall_def stream_settimeout_def
  pipe_settimeout_def moved_def win_codes stream_recv_def pipe_recv_def leftover_def mux_reply_len_def
  new_pipe_def adopt_def

lemma port_value_Int [simp]: "port_value (PortInt p) = p"
  by (simp add: port_value_def)

lemma demo_runs:
  obtains c1 c2 where "demo_call demo_control = (Inl (EgressPolicyDenied (lit ''a'') 443), c1)"
    and "broken c1 = None" and "demo_call c1 = (Inr 9, c2)" and "broken c2 = None"
proof -
  have "\<exists>c1. demo_call demo_control = (Inl (EgressPolicyDenied (lit ''a'') 443), c1) \<and> broken c1 = None \<and>
     (\<exists>c2. demo_call c1 = (Inr 9, c2) \<and> broken c2 = None)"
    unfolding demo_call_def control_request_def demo_mux_request
    by (simp add: demo_control_def demo_stream_def run_defs demo_mux_def read_loop.simps
        parse_mux_reply_def is_refusal_def mux_defs reply_exception_def Let_def from_be_def)
  then show thesis using that by blast
qed

lemma demo_channel:
  "\<exists>c e. channel (\<lambda>_. None) 1234 demo_win demo_replies
     [(demo_mux, lit ''a'', 443, Inl e), (demo_mux, lit ''a'', 443, Inr 9)] c \<and> broken c = None"
proof -
  obtain c1 c2 where 1: "demo_call demo_control = (Inl (EgressPolicyDenied (lit ''a'') 443), c1)" "broken c1 = None"
    and 2: "demo_call c1 = (Inr 9, c2)" "broken c2 = None" by (rule demo_runs)
  have "channel (\<lambda>_. None) 1234 demo_win demo_replies [] demo_control"
    unfolding demo_control_def
    by (rule channel.start) (simp_all add: demo_stream_def demo_replies_def stream_pending_def new_pipe_def win_codes)
  from channel.call [OF channel.call [OF this 1(1) [unfolded demo_call_def]] 2(1) [unfolded demo_call_def]] 1(2) 2(2)
  show ?thesis by (auto simp: entry_of_def demo_mux_request demo_control_def)
qed

text \<open>
  C2: no reply is ever attributed to the wrong request. Over any sequence of requests by any
  callers, with every possible failure of the pipe, a handle returned by the i-th exchange, and
  equally a refusal raised by it, is what the i-th six-byte reply of the broker says; and as
  long as the channel is not retired, exactly the requests of the log have been written, whole
  and in order, and exactly their replies have been read.
\<close>

theorem control_replies_in_step:
  assumes "channel idna pid w P log c"
  shows "(\<forall>i < length log. answered_by P log i) \<and>
         (broken c = None \<longrightarrow>
            (\<exists>s. ctl_raw c = Some s \<and> sent (ps_raw s) = concat (map fst log) \<and>
                 stream_pending s = drop (6 * length log) P))"
  using channel_invariant [OF assms] by (auto simp: in_step_def)

theorem control_replies_in_step_witness:
  "\<exists>c e. channel (\<lambda>_. None) 1234 demo_win demo_replies
      [(demo_mux, lit ''a'', 443, Inl e), (demo_mux, lit ''a'', 443, Inr 9)] c \<and>
     (\<exists>s. ctl_raw c = Some s \<and> sent (ps_raw s) = demo_mux @ demo_mux)"
proof -
  obtain c e where ch: "channel (\<lambda>_. None) 1234 demo_win demo_replies
      [(demo_mux, lit ''a'', 443, Inl e), (demo_mux, lit ''a'', 443, Inr 9)] c" and "broken c = None"
    using demo_channel by blast
  with control_replies_in_step [OF ch] show ?thesis by auto
qed

text \<open>
  The channel fails closed and for good. An exchange on a live channel keeps it in use
  exactly when the broker vended a handle or gave a well-formed refusal; after any other outcome
  (a time-out, a transport failure, a close, a malformed reply) every later request of whatever
  kind is refused without touching the pipe.
\<close>

theorem failed_exchange_retires:
  assumes "mux_request idna pid host port = Inr req" and "broken c = None" and "ctl_raw c = Some s"
    and "control_request idna pid w host port timeout c = (r, c')"
  shows "(broken c' = None \<longleftrightarrow>
            (\<exists>h. r = Inr h) \<or> (\<exists>e. r = Inl e \<and> broker_said_no host (port_value port) e)) \<and>
         (broken c' \<noteq> None \<longrightarrow>
            (\<forall>host' port' timeout'. \<exists>e. control_request idna pid w host' port' timeout' c' = (Inl e, c') \<and>
               is_egress_error e))"
proof
  show "broken c' = None \<longleftrightarrow>
            (\<exists>h. r = Inr h) \<or> (\<exists>e. r = Inl e \<and> broker_said_no host (port_value port) e)"
    using assms
  proof (cases rule: control_request_live)
    case (answered s' reply)
    have "is_refusal reply \<longleftrightarrow> (\<exists>e. r = Inl e \<and> broker_said_no host (port_value port) e)"
      using is_refusal_said_no [of reply host "port_value port"] answered(2) by simp
    then show ?thesis using answered(3) assms(2) by simp
  next
    case (failed s' why)
    then show ?thesis by auto
  qed
  show "broken c' \<noteq> None \<longrightarrow>
            (\<forall>host' port' timeout'. \<exists>e. control_request idna pid w host' port' timeout' c' = (Inl e, c') \<and>
               is_egress_error e)"
    by (auto simp: control_request_def dest: mux_request_Inl split: sum.splits)
qed

theorem failed_exchange_retires_witness:
  "\<exists>c. demo_call demo_control = (Inl (EgressPolicyDenied (lit ''a'') 443), c) \<and> broken c = None"
proof -
  obtain c where run: "demo_call demo_control = (Inl (EgressPolicyDenied (lit ''a'') 443), c)"
    using demo_runs by blast
  have "broken demo_control = None" "ctl_raw demo_control = Some demo_stream" by (simp_all add: demo_control_def)
  moreover have "broker_said_no (lit ''a'') 443 (EgressPolicyDenied (lit ''a'') 443)"
    using broker_said_no_reply [of 2 "lit ''a''" 443] by (simp add: reply_exception_def)
  ultimately have "broken c = None"
    using failed_exchange_retires [OF demo_mux_request _ _ run [unfolded demo_call_def]] by simp
  with run show ?thesis by blast
qed

lemma dec_int_negative: "i < 0 \<Longrightarrow> \<exists>f. parse_broker_handle (Some (dec_int i)) = Inl (EgressConfigError f)"
proof -
  assume "i < 0"
  then have s: "dec_int i = 45 # dec (nat (- i))" by (simp add: dec_int_def lit_def)
  have "\<not> is_space c" if "c \<in> set (dec (nat (- i)))" for c
    using digit_not_space [OF dec_digits [OF that]] .
  then have "strip (dec_int i) = dec_int i"
    unfolding s by (intro strip_id) (simp_all add: is_space_def)
  then show ?thesis unfolding s by (simp add: parse_broker_handle_def Let_def is_digit_def)
qed

text \<open>
  The handle variable is read exactly as the supervisor writes it. An integer names a
  broker channel just when it is between 1 and \<open>2 ^ 64 - 1\<close>, and then it names that one; zero,
  negative and oversized values are configuration errors.
\<close>

theorem broker_handle_exact:
  "resolve_broker_handle env (HandleInt i) = Inr n \<longleftrightarrow> i = int n \<and> 0 < n \<and> n < 2 ^ 64"
proof (cases "i < 0")
  case True
  with dec_int_negative [OF True] show ?thesis by (auto simp: resolve_broker_handle_def)
next
  case False
  then have s: "dec_int i = dec (nat i)" by (simp add: dec_int_def)
  have sp: "\<not> is_space c" if "c \<in> set (dec (nat i))" for c
    using digit_not_space [OF dec_digits [OF that]] .
  then have "strip (dec (nat i)) = dec (nat i)" by (intro strip_id) simp_all
  then have "parse_broker_handle (Some (dec (nat i))) = Inr n \<longleftrightarrow> nat i = n \<and> 0 < n \<and> n < 2 ^ 64"
    using dec_digits [of _ "nat i"] by (auto simp: parse_broker_handle_def Let_def)
  with False s show ?thesis by (auto simp: resolve_broker_handle_def)
qed

end
