(* ===== verification/Egress_Config.thy ===== *)
theory Egress_Config
  imports Egress_Socks Egress_Control
begin

text \<open>
  How \<open>egress.py\<close> finds its broker and builds clients on it: the broker socket or the placed
  handle, the trust roots, the choice of the HTTP library, \<open>client\<close>, \<open>async_client\<close> and
  \<open>requests_session\<close>.

  The machine is the record \<open>host\<close>: environment, file system, platform and what is installed.
  The third-party client classes appear by what the SDK gives them: a transport whose network
  backend the SDK has swapped, the keyword arguments of the caller, and for \<open>requests\<close> the adapters
  of a session. How httpx picks a transport for a URL is a parameter of the theorem; what the
  clients do with a connection is not modelled.
\<close>

text \<open>The keyword arguments of the caller that are passed on to the client: a time-out and headers,
  a proxy, mounted transports, and the names of any others. Each may be absent.\<close>

record client_kwargs =
  kw_timeout :: "timeout option"
  kw_headers :: "(pystr \<times> pystr) list option"
  kw_proxy :: "pystr option"
  kw_mounts :: "(pystr \<times> pystr option) list option"
  kw_other :: "pystr list"

record host =
  h_env :: "pystr \<Rightarrow> pystr option"
  stat_socket :: "pystr \<Rightarrow> os_kind + bool"       \<comment> \<open>\<open>S_ISSOCK(os.stat(p).st_mode)\<close>\<close>
  is_file :: "pystr \<Rightarrow> bool"
  ca_error :: "pystr \<Rightarrow> exn option"               \<comment> \<open>what loading a CA file raises\<close>
  certifi :: "pystr option"
  win32 :: bool
  h_win :: win
  found :: "pystr \<Rightarrow> bool"                        \<comment> \<open>\<open>importlib.util.find_spec\<close>\<close>
  import_error :: "pystr \<Rightarrow> bool"
  seam_missing :: "pystr \<Rightarrow> bool"                 \<comment> \<open>a module or class of the backend seam\<close>
  pool_changed :: "pystr \<Rightarrow> bool"
  client_error :: "pystr \<Rightarrow> client_kwargs \<Rightarrow> exn option"  \<comment> \<open>of the client class of a library\<close>

text \<open>\<open>a or b\<close> on strings that may be absent.\<close>

definition str_or :: "pystr option \<Rightarrow> pystr option \<Rightarrow> pystr option" where
  "str_or a b = (case a of Some (c # s) \<Rightarrow> Some (c # s) | _ \<Rightarrow> b)"

section \<open>The broker socket\<close>

text \<open>\<open>os.path.join\<close> on two parts.\<close>

definition os_path_join :: "pystr \<Rightarrow> pystr \<Rightarrow> pystr" where
  "os_path_join a b =
     (if starts [47] b then b else if a = [] \<or> ends [47] a then a @ b else a @ [47] @ b)"

definition socket_candidate :: "(pystr \<Rightarrow> pystr option) \<Rightarrow> pystr option \<Rightarrow> pystr option" where
  "socket_candidate env socket_path =
     (let path = str_or socket_path (env (lit ''HAAP_EGRESS_BROKER_SOCKET''));
          base = str_or (env (lit ''HAAP_AGENT_SOCKET_DIR'')) None;
          inst = str_or (env (lit ''HAAP_AGENT_INSTANCE_ID'')) None
      in str_or path (case (base, inst) of
           (Some b, Some i) \<Rightarrow> Some (os_path_join (os_path_join b i) (lit ''egress-broker.sock''))
         | _ \<Rightarrow> None))"

definition resolve_socket_path :: "host \<Rightarrow> pystr option \<Rightarrow> exn + pystr" where
  "resolve_socket_path h socket_path =
     (case socket_candidate (h_env h) socket_path of
        None \<Rightarrow> Inl (EgressConfigError NoBrokerSocket)
      | Some path \<Rightarrow>
          (case stat_socket h path of
             Inl k \<Rightarrow> Inl (EgressConfigError (BrokerSocketNotFound path k))
           | Inr is_sock \<Rightarrow>
               if \<not> is_sock then Inl (EgressConfigError (BrokerPathNotSocket path)) else Inr path))"

datatype broker = UnixBroker pystr | PlacedBroker nat

definition resolve_broker :: "host \<Rightarrow> pystr option \<Rightarrow> (exn, controls, broker) act" where
  "resolve_broker h socket_path cs =
     (if \<not> win32 h then (case resolve_socket_path h socket_path of
                            Inl e \<Rightarrow> (Inl e, cs) | Inr p \<Rightarrow> (Inr (UnixBroker p), cs))
      else if socket_path \<noteq> None then (Inl (EgressConfigError SocketPathOnWindows), cs)
      else case resolve_broker_handle (h_env h) NoHandle of
          Inl e \<Rightarrow> (Inl e, cs)
        | Inr n \<Rightarrow> (case placed_broker (h_win h) n cs of
                       (Inl e, cs') \<Rightarrow> (Inl e, cs') | (Inr n', cs') \<Rightarrow> (Inr (PlacedBroker n'), cs')))"

section \<open>Trust roots\<close>

record tls_ctx =
  ca_base :: "pystr option"        \<comment> \<open>the CA file, or OpenSSL's default store\<close>
  ca_extra :: "pystr list"         \<comment> \<open>files loaded in addition\<close>
  checks_peer :: bool              \<comment> \<open>certificate and host name are verified\<close>

datatype verify_arg = VerifyTrue | VerifyFalse | VerifyFile pystr | VerifyContext tls_ctx

definition os_trust_roots_path :: "host \<Rightarrow> pystr option" where
  "os_trust_roots_path h =
     (case str_or (h_env h (lit ''HAAP_AGENT_OS_TRUST_ROOTS'')) None of
        Some p \<Rightarrow> if is_file h p then Some p else None
      | None \<Rightarrow> None)"

definition add_os_trust_roots :: "host \<Rightarrow> tls_ctx \<Rightarrow> exn + tls_ctx" where
  "add_os_trust_roots h ctx =
     (case os_trust_roots_path h of
        None \<Rightarrow> Inr ctx
      | Some p \<Rightarrow> (case ca_error h p of Some e \<Rightarrow> Inl e | None \<Rightarrow> Inr (ctx\<lparr>ca_extra := ca_extra ctx @ [p]\<rparr>)))"

text \<open>\<open>ssl.create_default_context(cafile=...)\<close>.\<close>

definition create_default_context :: "host \<Rightarrow> pystr option \<Rightarrow> exn + tls_ctx" where
  "create_default_context h cafile =
     (case Option.bind cafile (ca_error h) of
        Some e \<Rightarrow> Inl e
      | None \<Rightarrow> Inr \<lparr>ca_base = cafile, ca_extra = [], checks_peer = True\<rparr>)"

definition tls_context :: "host \<Rightarrow> pystr option \<Rightarrow> exn + tls_ctx" where
  "tls_context h cafile =
     (case create_default_context h (case cafile of Some f \<Rightarrow> Some f | None \<Rightarrow> certifi h) of
        Inl e \<Rightarrow> Inl e | Inr ctx \<Rightarrow> add_os_trust_roots h ctx)"

definition effective_verify :: "host \<Rightarrow> verify_arg \<Rightarrow> exn + verify_arg" where
  "effective_verify h v =
     (if v = VerifyTrue \<and> os_trust_roots_path h \<noteq> None
      then (case tls_context h None of Inl e \<Rightarrow> Inl e | Inr ctx \<Rightarrow> Inr (VerifyContext ctx))
      else Inr v)"

section \<open>Connecting\<close>

text \<open>The network of one connection attempt, and what a connection is.\<close>

record net =
  n_idna :: idna
  n_pid :: nat
  n_win :: win
  n_af_unix :: bool
  n_dial :: "os_kind option"
  n_fresh :: sock

datatype conn = SockConn sock | PipeConn pipe_stream

definition sock_result :: "(exn + unit) \<times> sock option \<Rightarrow> exn + conn" where
  "sock_result r =
     (case r of (Inl e, _) \<Rightarrow> Inl e | (Inr u, Some s) \<Rightarrow> Inr (SockConn s) | (Inr u, None) \<Rightarrow> Inl AttributeError)"

definition placed_result :: "(exn + pipe_stream) \<times> controls \<Rightarrow> (exn + conn) \<times> controls" where
  "placed_result r = (case r of (Inl e, cs) \<Rightarrow> (Inl e, cs) | (Inr s, cs) \<Rightarrow> (Inr (PipeConn s), cs))"

definition broker_connect_sync :: "net \<Rightarrow> broker \<Rightarrow> pystr \<Rightarrow> port_arg \<Rightarrow> timeout \<Rightarrow> (exn, controls, conn) act" where
  "broker_connect_sync n br host port timeout cs =
     (case br of
        PlacedBroker h \<Rightarrow> placed_result (placed_connect (n_idna n) (n_pid n) (n_win n) h host port timeout cs)
      | UnixBroker p \<Rightarrow>
          (sock_result (socks5_connect_sync (n_idna n) (n_af_unix n) p host port timeout (n_dial n) (n_fresh n)), cs))"

text \<open>\<open>_SyncBackend.connect_tcp\<close> and \<open>_AsyncBackend.connect_tcp\<close>. The deadline of the async driver
  is in the script of the socket.\<close>

definition sync_connect_tcp :: "net \<Rightarrow> broker \<Rightarrow> pystr \<Rightarrow> port_arg \<Rightarrow> timeout \<Rightarrow> (exn, controls, conn) act" where
  "sync_connect_tcp n br host port timeout cs =
     (case br of
        PlacedBroker h \<Rightarrow> placed_result (placed_connect (n_idna n) (n_pid n) (n_win n) h host port timeout cs)
      | UnixBroker p \<Rightarrow>
          (sock_result (socks5_connect_sync (n_idna n) (n_af_unix n) p host port timeout (n_dial n) (n_fresh n)), cs))"

definition async_connect_tcp :: "net \<Rightarrow> broker \<Rightarrow> pystr \<Rightarrow> port_arg \<Rightarrow> timeout \<Rightarrow> (exn, controls, conn) act" where
  "async_connect_tcp n br host port timeout cs =
     (case br of
        PlacedBroker h \<Rightarrow> placed_result (placed_connect (n_idna n) (n_pid n) (n_win n) h host port timeout cs)
      | UnixBroker p \<Rightarrow>
          (sock_result (socks5_connect_async (n_idna n) p host port (n_dial n) (n_fresh n)), cs))"

text \<open>The \<open>_new_conn\<close> of the brokered urllib3 connections.\<close>

definition new_conn :: "net \<Rightarrow> pystr \<Rightarrow> pystr \<Rightarrow> port_arg \<Rightarrow> timeout \<Rightarrow> exn + conn" where
  "new_conn n path host port timeout =
     sock_result (socks5_connect_sync (n_idna n) (n_af_unix n) path host port timeout (n_dial n) (n_fresh n))"

text \<open>\<open>_PlacedStream\<close>: the stream's errors as the exceptions of httpcore.\<close>

datatype httpcore_fault = ReadTimeout | ReadError | WriteTimeout | WriteError

definition placed_read :: "nat \<Rightarrow> timeout \<Rightarrow> (httpcore_fault, pipe_stream, bytes) act" where
  "placed_read max_bytes timeout s =
     (case stream_recv max_bytes (stream_settimeout timeout s) of
        (Inl k, s') \<Rightarrow> (Inl (if k = Timeout then ReadTimeout else ReadError), s')
      | (Inr b, s') \<Rightarrow> (Inr b, s'))"

definition placed_write :: "bytes \<Rightarrow> timeout \<Rightarrow> (httpcore_fault, pipe_stream, unit) act" where
  "placed_write buffer timeout s =
     (if buffer = [] then (Inr (), s)
      else case stream_sendall buffer (stream_settimeout timeout s) of
        (Inl k, s') \<Rightarrow> (Inl (if k = Timeout then WriteTimeout else WriteError), s')
      | (Inr u, s') \<Rightarrow> (Inr (), s'))"

section \<open>Clients\<close>

definition stdlib_flavor :: pystr where "stdlib_flavor = lit ''stdlib''"

definition flavor_order :: "pystr list" where
  "flavor_order = [lit ''httpx2'', lit ''httpx'', stdlib_flavor]"

definition select_flavor :: "host \<Rightarrow> pystr option \<Rightarrow> exn + pystr" where
  "select_flavor h name =
     (if name \<noteq> None \<and> the name \<notin> set flavor_order then Inl (EgressConfigError (UnknownFlavor (the name)))
      else case find (\<lambda>c. c = stdlib_flavor \<or> found h c) (case name of Some c \<Rightarrow> [c] | None \<Rightarrow> flavor_order) of
          Some c \<Rightarrow> Inr c
        | None \<Rightarrow> Inl (EgressConfigError NoFlavorInstalled))"

text \<open>The state of the module: the control channels and the flavors whose classes are built.\<close>

record egress_mod =
  e_controls :: controls
  e_built :: "pystr list"

definition build_transports :: "host \<Rightarrow> pystr \<Rightarrow> (exn, egress_mod, unit) act" where
  "build_transports h fl m =
     (if fl \<in> set (e_built m) then (Inr (), m)
      else if fl = stdlib_flavor \<or> seam_missing h fl then (Inl (EgressConfigError (SeamMissing fl)), m)
      else (Inr (), m\<lparr>e_built := fl # e_built m\<rparr>))"

text \<open>\<open>EgressHTTPTransport\<close> and \<open>EgressAsyncHTTPTransport\<close>: the stock transport, and then the swap of the
  backend of its connection pool. The backends connect with \<open>sync_connect_tcp\<close> and
  \<open>async_connect_tcp\<close>.\<close>

datatype backend = StockBackend | SyncBackend broker | AsyncBackend broker

record transport =
  tr_backend :: backend
  tr_verify :: verify_arg
  tr_http2 :: bool

definition stock_transport :: "verify_arg \<Rightarrow> bool \<Rightarrow> transport" where
  "stock_transport v http2 = \<lparr>tr_backend = StockBackend, tr_verify = v, tr_http2 = http2\<rparr>"

definition egress_transport :: "host \<Rightarrow> pystr \<Rightarrow> broker \<Rightarrow> verify_arg \<Rightarrow> bool \<Rightarrow> exn + transport" where
  "egress_transport h fl br v http2 =
     (let t = stock_transport v http2
      in if pool_changed h fl then Inl AssertionError else Inr (t\<lparr>tr_backend := SyncBackend br\<rparr>))"

definition egress_async_transport :: "host \<Rightarrow> pystr \<Rightarrow> broker \<Rightarrow> verify_arg \<Rightarrow> bool \<Rightarrow> exn + transport" where
  "egress_async_transport h fl br v http2 =
     (let t = stock_transport v http2
      in if pool_changed h fl then Inl AssertionError else Inr (t\<lparr>tr_backend := AsyncBackend br\<rparr>))"

datatype http_client =
    StdlibClient broker verify_arg timeout "(pystr \<times> pystr) list"
  | HttpxClient pystr transport client_kwargs
  | AsyncHttpxClient pystr transport client_kwargs

definition default_timeout :: timeout where "default_timeout = Some 30000"

text \<open>\<open>client_kwargs.setdefault("timeout", ...)\<close>; an explicit \<open>None\<close> is \<open>Some None\<close>.\<close>

definition with_timeout :: "client_kwargs \<Rightarrow> client_kwargs" where
  "with_timeout kw = (case kw_timeout kw of None \<Rightarrow> kw\<lparr>kw_timeout := Some default_timeout\<rparr> | Some t \<Rightarrow> kw)"

text \<open>\<open>_StdlibClient.__init__\<close>, which knows the time-out and the headers and no other keyword.\<close>

definition stdlib_client :: "broker \<Rightarrow> verify_arg \<Rightarrow> client_kwargs \<Rightarrow> exn + http_client" where
  "stdlib_client br verify kw =
     (if kw_proxy kw \<noteq> None then Inl (TypeError (UnexpectedArgument (lit ''proxy'')))
      else if kw_mounts kw \<noteq> None then Inl (TypeError (UnexpectedArgument (lit ''mounts'')))
      else case kw_other kw of
          k # ks \<Rightarrow> Inl (TypeError (UnexpectedArgument k))
        | [] \<Rightarrow> Inr (StdlibClient br verify (case kw_timeout kw of None \<Rightarrow> default_timeout | Some t \<Rightarrow> t)
                     (case kw_headers kw of None \<Rightarrow> [] | Some hs \<Rightarrow> hs)))"

definition resolving :: "host \<Rightarrow> pystr option \<Rightarrow> (exn, egress_mod, broker) act" where
  "resolving h socket_path m =
     (case resolve_broker h socket_path (e_controls m) of (r, cs) \<Rightarrow> (r, m\<lparr>e_controls := cs\<rparr>))"

text \<open>The class of the library with its arguments.\<close>

definition library_client :: "host \<Rightarrow> pystr \<Rightarrow> client_kwargs \<Rightarrow> http_client \<Rightarrow> exn + http_client" where
  "library_client h fl kw c = (case client_error h fl kw of Some e \<Rightarrow> Inl e | None \<Rightarrow> Inr c)"

definition client ::
  "host \<Rightarrow> pystr option \<Rightarrow> verify_arg \<Rightarrow> bool \<Rightarrow> pystr option \<Rightarrow> client_kwargs \<Rightarrow> (exn, egress_mod, http_client) act" where
  "client h socket_path verify http2 fl kw =
     andthen (lift (select_flavor h fl)) (\<lambda>name.
     andthen (resolving h socket_path) (\<lambda>br.
     if name = stdlib_flavor then
       (if http2 then throw (EgressConfigError Http2NeedsHttpx)
        else lift (stdlib_client br verify (with_timeout kw)))
     else if import_error h name then throw ImportError
     else
       andthen (build_transports h name) (\<lambda>_.
       andthen (lift (effective_verify h verify)) (\<lambda>v.
       andthen (lift (egress_transport h name br v http2)) (\<lambda>tr.
       lift (library_client h name (with_timeout kw) (HttpxClient name tr (with_timeout kw))))))))"

definition async_client ::
  "host \<Rightarrow> pystr option \<Rightarrow> verify_arg \<Rightarrow> bool \<Rightarrow> pystr option \<Rightarrow> client_kwargs \<Rightarrow> (exn, egress_mod, http_client) act" where
  "async_client h socket_path verify http2 fl kw =
     andthen (lift (select_flavor h fl)) (\<lambda>name.
     if name = stdlib_flavor then throw (EgressConfigError NoAsyncStdlib)
     else if import_error h name then throw ImportError
     else
       andthen (build_transports h name) (\<lambda>_.
       andthen (resolving h socket_path) (\<lambda>br.
       andthen (lift (effective_verify h verify)) (\<lambda>v.
       andthen (lift (egress_async_transport h name br v http2)) (\<lambda>tr.
       lift (library_client h name (with_timeout kw) (AsyncHttpxClient name tr (with_timeout kw))))))))"

text \<open>
  \<open>requests_session\<close>. A session is the adapters it is mounted with; \<open>fresh\<close> are those a new
  \<open>requests.Session()\<close> comes with. A brokered adapter has its pool classes by URL scheme.
\<close>

datatype pool_class = StockPool | BrokeredPool pystr

datatype adapter = StockAdapter | BrokeredAdapter "(pystr \<times> pool_class) list"

record session =
  adapters :: "(pystr \<times> adapter) list"   \<comment> \<open>by URL prefix\<close>
  pool_ctx :: "tls_ctx option"            \<comment> \<open>the context for the staged roots\<close>

text \<open>The classes for \<open>https\<close> and \<open>http\<close>; their connections are made by \<open>new_conn\<close>.\<close>

definition brokered_pool_classes :: "host \<Rightarrow> pystr \<Rightarrow> exn + pool_class \<times> pool_class" where
  "brokered_pool_classes h path =
     (if seam_missing h (lit ''urllib3'') then Inl (EgressConfigError Urllib3Missing)
      else Inr (BrokeredPool path, BrokeredPool path))"

text \<open>\<open>init_poolmanager\<close>: the context for the staged roots, and the swap of the pool classes.\<close>

definition init_poolmanager :: "host \<Rightarrow> pool_class \<Rightarrow> pool_class \<Rightarrow> exn + adapter \<times> tls_ctx option" where
  "init_poolmanager h https_pool http_pool =
     (case (if os_trust_roots_path h \<noteq> None
            then (case create_default_context h None of
                    Inl e \<Rightarrow> Inl e
                  | Inr c \<Rightarrow> map_sum id Some (add_os_trust_roots h c))
            else Inr None) of
        Inl e \<Rightarrow> Inl e
      | Inr ctx \<Rightarrow>
          if pool_changed h (lit ''urllib3'') then Inl AssertionError
          else Inr (BrokeredAdapter [(lit ''http'', http_pool), (lit ''https'', https_pool)], ctx))"

definition requests_session :: "host \<Rightarrow> (pystr \<times> adapter) list \<Rightarrow> pystr option \<Rightarrow> exn + session" where
  "requests_session h fresh socket_path =
     (if import_error h (lit ''requests'') then Inl (EgressConfigError RequestsMissing)
      else if win32 h then Inl (EgressConfigError RequestsOnWindows)
      else case resolve_socket_path h socket_path of
          Inl e \<Rightarrow> Inl e
        | Inr path \<Rightarrow>
            (case brokered_pool_classes h path of
               Inl e \<Rightarrow> Inl e
             | Inr (https_pool, http_pool) \<Rightarrow>
                 (case init_poolmanager h https_pool http_pool of
                    Inl e \<Rightarrow> Inl e
                  | Inr (a, ctx) \<Rightarrow>
                      Inr \<lparr>adapters = upd (lit ''http://'') a (upd (lit ''https://'') a fresh), pool_ctx = ctx\<rparr>)))"

definition proxy_manager_for :: "pystr \<Rightarrow> exn + unit" where
  "proxy_manager_for proxy = Inl (EgressConfigError (ProxyRefused proxy))"

section \<open>Properties\<close>

text \<open>A broker that the code may use: on UNIX the configured path, found to be a socket; on Windows the
  handle of the variable, adopted as a pipe.\<close>

definition located :: "host \<Rightarrow> pystr option \<Rightarrow> controls \<Rightarrow> broker \<Rightarrow> bool" where
  "located h socket_path cs br \<longleftrightarrow>
     (case br of
        UnixBroker p \<Rightarrow> \<not> win32 h \<and> socket_candidate (h_env h) socket_path = Some p \<and> stat_socket h p = Inr True
      | PlacedBroker n \<Rightarrow> win32 h \<and> resolve_broker_handle (h_env h) NoHandle = Inr n \<and>
          (\<exists>c. cs n = Some c \<and> ctl_raw c \<noteq> None))"

lemma resolve_socket_path_Inr:
  "resolve_socket_path h sp = Inr p \<longleftrightarrow> socket_candidate (h_env h) sp = Some p \<and> stat_socket h p = Inr True"
  by (auto simp: resolve_socket_path_def split: option.splits sum.splits)

lemma adopt_Inr: "adopt w c = (Inr u, c') \<Longrightarrow> ctl_raw c' \<noteq> None"
  by (auto simp: adopt_def split: option.splits sum.splits)

lemma placed_broker_Inr:
  "placed_broker w n cs = (Inr n', cs') \<Longrightarrow> n' = n \<and> (\<exists>c. cs' n = Some c \<and> ctl_raw c \<noteq> None)"
  by (auto simp: placed_broker_def Let_def split: prod.splits sum.splits dest: adopt_Inr)

lemma resolve_broker_located: "resolve_broker h sp cs = (Inr br, cs') \<Longrightarrow> located h sp cs' br"
  by (auto simp: resolve_broker_def located_def resolve_socket_path_Inr dest: placed_broker_Inr
      split: if_splits sum.splits prod.splits)

lemma resolving_located: "resolving h sp m = (Inr br, m') \<Longrightarrow> located h sp (e_controls m') br"
  by (auto simp: resolving_def dest: resolve_broker_located split: prod.splits)

lemma build_transports_controls: "build_transports h fl m = (r, m') \<Longrightarrow> e_controls m' = e_controls m"
  by (auto simp: build_transports_def split: if_splits)

lemma with_timeout_fields [simp]:
  "kw_proxy (with_timeout kw) = kw_proxy kw" "kw_mounts (with_timeout kw) = kw_mounts kw"
  by (simp_all add: with_timeout_def split: option.split)

text \<open>The broker that a client from \<open>client\<close> or \<open>async_client\<close> connects through when it is given the
  transport \<open>tr\<close> for a URL.\<close>

fun dials_through :: "(transport \<Rightarrow> client_kwargs \<Rightarrow> pystr \<Rightarrow> transport) \<Rightarrow> http_client \<Rightarrow> pystr \<Rightarrow> backend" where
  "dials_through route (StdlibClient b v t hs) url = SyncBackend b"
| "dials_through route (HttpxClient name tr kw) url = tr_backend (route tr kw url)"
| "dials_through route (AsyncHttpxClient name tr kw) url = tr_backend (route tr kw url)"

text \<open>\<open>HttpxClient\<close> and \<open>AsyncHttpxClient\<close> are built on the brokered transport, with the caller's
  keywords.\<close>

lemma client_built:
  assumes "client h sp v http2 fl kw m = (Inr c, m')"
  obtains br where "located h sp (e_controls m') br"
    "(\<exists>v t hs. c = StdlibClient br v t hs) \<or>
     (\<exists>name tr. c = HttpxClient name tr (with_timeout kw) \<and> tr_backend tr = SyncBackend br)"
proof -
  from assms obtain br where "located h sp (e_controls m') br \<and>
    ((\<exists>v t hs. c = StdlibClient br v t hs) \<or>
     (\<exists>name tr. c = HttpxClient name tr (with_timeout kw) \<and> tr_backend tr = SyncBackend br))"
    by (auto simp: client_def act_simps stdlib_client_def egress_transport_def library_client_def Let_def
        dest!: resolving_located dest: build_transports_controls
        split: if_splits sum.splits prod.splits option.splits list.splits)
  then show thesis using that by blast
qed

lemma async_client_built:
  assumes "async_client h sp v http2 fl kw m = (Inr c, m')"
  obtains br where "located h sp (e_controls m') br"
    "\<exists>name tr. c = AsyncHttpxClient name tr (with_timeout kw) \<and> tr_backend tr = AsyncBackend br"
proof -
  from assms obtain br where "located h sp (e_controls m') br \<and>
     (\<exists>name tr. c = AsyncHttpxClient name tr (with_timeout kw) \<and> tr_backend tr = AsyncBackend br)"
    by (auto simp: async_client_def act_simps egress_async_transport_def library_client_def Let_def
        dest!: resolving_located dest: build_transports_controls
        split: if_splits sum.splits prod.splits option.splits)
  then show thesis using that by blast
qed

text \<open>The adapter a session uses for a URL, as \<open>requests\<close> documents it: of the prefixes that the URL
  starts with, in any case, the longest.\<close>

definition adapter_for :: "session \<Rightarrow> pystr \<Rightarrow> adapter \<Rightarrow> bool" where
  "adapter_for s url a \<longleftrightarrow>
     (\<exists>p. map_of (adapters s) p = Some a \<and> starts p (lower url) \<and>
        (\<forall>p'. map_of (adapters s) p' \<noteq> None \<and> starts p' (lower url) \<longrightarrow> length p' \<le> length p))"

definition web_schemes :: "pystr set" where "web_schemes = {lit ''http'', lit ''https''}"

definition prefix_of :: "pystr \<Rightarrow> pystr" where "prefix_of scheme = scheme @ lit ''://''"

lemma prefixes_apart:
  assumes "s1 \<in> web_schemes" "s2 \<in> web_schemes" "starts (prefix_of s1) u" "starts (prefix_of s2) u"
  shows "s1 = s2"
proof -
  obtain r1 where "u = prefix_of s1 @ r1" using assms(3) by (auto simp: starts_iff)
  moreover obtain r2 where "u = prefix_of s2 @ r2" using assms(4) by (auto simp: starts_iff)
  ultimately have "prefix_of s1 @ r1 = prefix_of s2 @ r2" by simp
  with assms(1,2) show ?thesis by (auto simp: web_schemes_def prefix_of_def lit_def)
qed

text \<open>Every URL of a web scheme gets the brokered adapter, and in it the brokered pool of its scheme.\<close>

definition all_through :: "session \<Rightarrow> pystr \<Rightarrow> bool" where
  "all_through s path \<longleftrightarrow>
     (\<forall>scheme \<in> web_schemes. \<forall>url. starts (prefix_of scheme) (lower url) \<longrightarrow>
        (\<exists>a. adapter_for s url a) \<and>
        (\<forall>a. adapter_for s url a \<longrightarrow>
           (\<exists>pools. a = BrokeredAdapter pools \<and> map_of pools scheme = Some (BrokeredPool path))))"

lemma requests_session_Inr:
  assumes "requests_session h fresh sp = Inr s"
  obtains path where "\<not> win32 h" "resolve_socket_path h sp = Inr path"
    "adapters s = upd (lit ''http://'') (BrokeredAdapter [(lit ''http'', BrokeredPool path), (lit ''https'', BrokeredPool path)])
      (upd (lit ''https://'') (BrokeredAdapter [(lit ''http'', BrokeredPool path), (lit ''https'', BrokeredPool path)]) fresh)"
  using assms
  by (auto simp: requests_session_def brokered_pool_classes_def init_poolmanager_def split: if_splits sum.splits prod.splits)

lemma session_through:
  assumes "requests_session h fresh sp = Inr s" and "fst ` set fresh \<subseteq> prefix_of ` web_schemes"
  shows "\<exists>path. (\<forall>cs. located h sp cs (UnixBroker path)) \<and> all_through s path"
proof -
  obtain path where w: "\<not> win32 h" "resolve_socket_path h sp = Inr path"
    and a: "adapters s = upd (lit ''http://'') (BrokeredAdapter [(lit ''http'', BrokeredPool path), (lit ''https'', BrokeredPool path)])
      (upd (lit ''https://'') (BrokeredAdapter [(lit ''http'', BrokeredPool path), (lit ''https'', BrokeredPool path)]) fresh)"
    using assms(1) by (rule requests_session_Inr)
  let ?a = "BrokeredAdapter [(lit ''http'', BrokeredPool path), (lit ''https'', BrokeredPool path)]"
  have pre: "prefix_of ` web_schemes = {lit ''http://'', lit ''https://''}"
    by (auto simp: web_schemes_def prefix_of_def lit_append [symmetric])
  have m: "map_of (adapters s) p = (if p \<in> prefix_of ` web_schemes then Some ?a else None)" for p
    using assms(2) unfolding pre by (auto simp: a map_of_eq_None_iff)
  have "all_through s path"
    unfolding all_through_def
  proof (intro ballI allI impI)
    fix scheme url
    assume sch: "scheme \<in> web_schemes" and st: "starts (prefix_of scheme) (lower url)"
    have only: "p' = prefix_of scheme" if "map_of (adapters s) p' \<noteq> None" "starts p' (lower url)" for p'
      using that prefixes_apart [OF _ sch _ st] by (auto simp: m split: if_splits)
    have "map_of (adapters s) (prefix_of scheme) = Some ?a" using sch by (simp add: m)
    with only st have "adapter_for s url ?a" unfolding adapter_for_def by (metis order_refl)
    moreover have "a = ?a" if "adapter_for s url a" for a
      using that by (auto simp: adapter_for_def m split: if_splits)
    moreover have "map_of [(lit ''http'', BrokeredPool path), (lit ''https'', BrokeredPool path)] scheme = Some (BrokeredPool path)"
      using sch by (auto simp: web_schemes_def)
    ultimately show "(\<exists>a. adapter_for s url a) \<and>
        (\<forall>a. adapter_for s url a \<longrightarrow>
           (\<exists>pools. a = BrokeredAdapter pools \<and> map_of pools scheme = Some (BrokeredPool path)))"
      by blast
  qed
  with w show ?thesis by (auto simp: located_def resolve_socket_path_Inr)
qed

lemma no_broker_located: "\<not> win32 h \<Longrightarrow> socket_candidate (h_env h) sp = None \<Longrightarrow> \<not> located h sp cs br"
  by (simp add: located_def split: broker.split)

lemma no_broker_raises:
  assumes "\<not> win32 h" and "socket_candidate (h_env h) sp = None"
  shows "\<exists>e. fst (client h sp v http2 fl kw m) = Inl e"
    and "\<exists>e. fst (async_client h sp v http2 fl kw m) = Inl e"
    and "\<exists>e. requests_session h fresh sp = Inl e"
proof -
  note no = no_broker_located [OF assms]
  show "\<exists>e. fst (client h sp v http2 fl kw m) = Inl e"
  proof (cases "client h sp v http2 fl kw m")
    case (Pair r m')
    then show ?thesis using no by (cases r) (auto elim: client_built)
  qed
  show "\<exists>e. fst (async_client h sp v http2 fl kw m) = Inl e"
  proof (cases "async_client h sp v http2 fl kw m")
    case (Pair r m')
    then show ?thesis using no by (cases r) (auto elim: async_client_built)
  qed
  show "\<exists>e. requests_session h fresh sp = Inl e"
    using assms by (auto simp: requests_session_def resolve_socket_path_def)
qed

text \<open>A proxy of the caller is passed on to httpx as it is, where \<open>requests\<close> refuses one.\<close>

lemma proxy_passed_on:
  assumes "client h sp v http2 fl kw m = (Inr (HttpxClient name tr kw'), m')"
  shows "kw_proxy kw' = kw_proxy kw \<and> kw_mounts kw' = kw_mounts kw"
  by (rule client_built [OF assms]) auto

text \<open>
  C18: no client without the broker. httpx, as documented, sends a request through the transport it
  was given unless a proxy or mounted transports say otherwise, and a new \<open>requests.Session\<close> has
  adapters for \<open>http://\<close> and \<open>https://\<close> only. Then, as long as the caller passes neither a proxy nor
  mounts, whatever \<open>client\<close> and \<open>async_client\<close> return connects for every URL through the backend of
  one broker; every web URL of a session gets the pool class of one broker; and that broker is the
  one of the environment: an existing socket at the configured path, or on Windows the adopted
  pipe of the handle variable. A session's proxy manager only raises. Where there is no such
  broker, all three raise.
\<close>

theorem clients_only_broker:
  assumes "\<And>tr kw url. kw_proxy kw = None \<Longrightarrow> kw_mounts kw = None \<Longrightarrow> route tr kw url = tr"
    and "fst ` set fresh \<subseteq> prefix_of ` web_schemes"
  shows "(\<forall>c m'. client h sp v http2 fl kw m = (Inr c, m') \<longrightarrow> kw_proxy kw = None \<longrightarrow> kw_mounts kw = None \<longrightarrow>
      (\<exists>br. located h sp (e_controls m') br \<and> (\<forall>url. dials_through route c url = SyncBackend br))) \<and>
   (\<forall>c m'. async_client h sp v http2 fl kw m = (Inr c, m') \<longrightarrow> kw_proxy kw = None \<longrightarrow> kw_mounts kw = None \<longrightarrow>
      (\<exists>br. located h sp (e_controls m') br \<and> (\<forall>url. dials_through route c url = AsyncBackend br))) \<and>
   (\<forall>s. requests_session h fresh sp = Inr s \<longrightarrow>
      (\<exists>path. (\<forall>cs. located h sp cs (UnixBroker path)) \<and> all_through s path) \<and>
      (\<exists>e. proxy_manager_for p = Inl (EgressConfigError e))) \<and>
   (\<not> win32 h \<and> socket_candidate (h_env h) sp = None \<longrightarrow>
      (\<exists>e. fst (client h sp v http2 fl kw m) = Inl e) \<and> (\<exists>e. fst (async_client h sp v http2 fl kw m) = Inl e) \<and>
      (\<exists>e. requests_session h fresh sp = Inl e))"
proof (intro conjI allI impI)
  fix c m'
  assume none: "kw_proxy kw = None" "kw_mounts kw = None"
  have r: "route tr (with_timeout kw) url = tr" for tr url using none by (simp add: assms(1))
  show "\<exists>br. located h sp (e_controls m') br \<and> (\<forall>url. dials_through route c url = SyncBackend br)"
    if "client h sp v http2 fl kw m = (Inr c, m')"
    by (rule client_built [OF that]) (auto simp: r)
  show "\<exists>br. located h sp (e_controls m') br \<and> (\<forall>url. dials_through route c url = AsyncBackend br)"
    if "async_client h sp v http2 fl kw m = (Inr c, m')"
    by (rule async_client_built [OF that]) (auto simp: r)
next
  fix s
  assume "requests_session h fresh sp = Inr s"
  then show "\<exists>path. (\<forall>cs. located h sp cs (UnixBroker path)) \<and> all_through s path"
    using assms(2) by (rule session_through)
  show "\<exists>e. proxy_manager_for p = Inl (EgressConfigError e)" by (simp add: proxy_manager_for_def)
next
  assume no: "\<not> win32 h \<and> socket_candidate (h_env h) sp = None"
  then show "\<exists>e. fst (client h sp v http2 fl kw m) = Inl e" "\<exists>e. fst (async_client h sp v http2 fl kw m) = Inl e"
    "\<exists>e. requests_session h fresh sp = Inl e"
    using no_broker_raises by simp_all
qed

definition demo_host :: host where
  "demo_host = \<lparr>h_env = (\<lambda>v. if v = lit ''HAAP_EGRESS_BROKER_SOCKET'' then Some (lit ''/b'') else None),
     stat_socket = (\<lambda>p. if p = lit ''/b'' then Inr True else Inl NotFound), is_file = (\<lambda>p. False),
     ca_error = (\<lambda>p. None), certifi = None, win32 = False,
     h_win = \<lparr>file_type = (\<lambda>n. 0), pipe_at = undefined\<rparr>, found = (\<lambda>p. p = lit ''httpx''), import_error = (\<lambda>p. False),
     seam_missing = (\<lambda>p. False), pool_changed = (\<lambda>p. False), client_error = (\<lambda>p kw. None)\<rparr>"

definition no_kwargs :: client_kwargs where
  "no_kwargs = \<lparr>kw_timeout = None, kw_headers = None, kw_proxy = None, kw_mounts = None, kw_other = []\<rparr>"

definition demo_fresh :: "(pystr \<times> adapter) list" where
  "demo_fresh = [(prefix_of (lit ''https''), StockAdapter), (prefix_of (lit ''http''), StockAdapter)]"

lemma demo_located: "located demo_host None cs br \<longleftrightarrow> br = UnixBroker (lit ''/b'')"
  by (auto simp: located_def demo_host_def socket_candidate_def str_or_def lit_def split: broker.splits)

lemma demo_roots: "os_trust_roots_path demo_host = None"
  by (simp add: os_trust_roots_path_def str_or_def demo_host_def)

lemma demo_resolves: "resolve_socket_path demo_host None = Inr (lit ''/b'')"
  by (simp add: resolve_socket_path_def socket_candidate_def str_or_def demo_host_def lit_def)

lemma demo_client:
  "\<exists>tr m'. client demo_host None VerifyTrue False None no_kwargs \<lparr>e_controls = (\<lambda>n. None), e_built = []\<rparr> =
     (Inr (HttpxClient (lit ''httpx'') tr (with_timeout no_kwargs)), m')"
  using demo_roots demo_resolves
  by (simp add: client_def act_simps select_flavor_def flavor_order_def resolving_def resolve_broker_def stdlib_flavor_def
      build_transports_def effective_verify_def egress_transport_def library_client_def Let_def)
    (simp add: demo_host_def lit_def)

lemma demo_session: "\<exists>s. requests_session demo_host demo_fresh None = Inr s"
  using demo_roots demo_resolves
  by (simp add: requests_session_def brokered_pool_classes_def init_poolmanager_def) (simp add: demo_host_def)

theorem clients_only_broker_witness:
  "(\<exists>c m'. client demo_host None VerifyTrue False None no_kwargs \<lparr>e_controls = (\<lambda>n. None), e_built = []\<rparr> = (Inr c, m') \<and>
     dials_through (\<lambda>tr kw url. tr) c (lit ''https://h/'') = SyncBackend (UnixBroker (lit ''/b''))) \<and>
   (\<exists>s. requests_session demo_host demo_fresh None = Inr s \<and> all_through s (lit ''/b''))"
proof -
  have fresh: "fst ` set demo_fresh \<subseteq> prefix_of ` web_schemes" by (auto simp: demo_fresh_def web_schemes_def)
  note t = clients_only_broker [of "\<lambda>tr kw url. tr" demo_fresh demo_host None VerifyTrue False None no_kwargs
      "\<lparr>e_controls = (\<lambda>n. None), e_built = []\<rparr>" "[]", OF refl fresh]
  have none: "kw_proxy no_kwargs = None" "kw_mounts no_kwargs = None" by (simp_all add: no_kwargs_def)
  from demo_client obtain c m' where
    c: "client demo_host None VerifyTrue False None no_kwargs \<lparr>e_controls = (\<lambda>n. None), e_built = []\<rparr> = (Inr c, m')" by blast
  from demo_session obtain s where s: "requests_session demo_host demo_fresh None = Inr s" by blast
  from t c none have "dials_through (\<lambda>tr kw url. tr) c (lit ''https://h/'') = SyncBackend (UnixBroker (lit ''/b''))"
    by (auto simp: demo_located)
  moreover from t s have "all_through s (lit ''/b'')" by (auto simp: demo_located)
  ultimately show ?thesis using c s by blast
qed

end
