(* ===== verification/Egress_Http.thy ===== *)
theory Egress_Http
  imports Egress_Config
begin

text \<open>
  The stdlib HTTP client of \<open>egress.py\<close> (\<open>_StdlibClient\<close>, \<open>_StdlibResponse\<close>), with the parts of
  \<open>urllib.parse.urlsplit\<close> it uses.

  The TLS handshake and the HTTP exchange on the connected stream belong to \<open>ssl\<close> and
  \<open>http.client\<close>; their outcomes are given by the environment \<open>exchange_env\<close>. Two checks of
  \<open>urlsplit\<close> on the network location (the literal inside brackets, and Unicode normalisation) are
  its argument \<open>bad_netloc\<close>. A host name is lowered on ASCII letters; the IDNA codec, also an
  argument, sees to the others.
\<close>

section \<open>URLs\<close>

record split_url =
  u_scheme :: pystr
  u_netloc :: pystr
  u_path :: pystr
  u_query :: pystr

definition is_scheme_char :: "nat \<Rightarrow> bool" where
  "is_scheme_char c \<longleftrightarrow> is_upper c \<or> is_lower c \<or> is_digit c \<or> c \<in> {43, 45, 46}"

text \<open>The scheme and the rest: the text before the first colon, when it is a scheme.\<close>

definition split_scheme :: "pystr \<Rightarrow> pystr \<times> pystr" where
  "split_scheme url =
     (case partition_on 58 url of
        (s, colon, rest) \<Rightarrow>
          if colon \<and> s \<noteq> [] \<and> (is_upper (hd s) \<or> is_lower (hd s)) \<and> (\<forall>c \<in> set s. is_scheme_char c)
          then (lower s, rest) else ([], url))"

definition split_netloc :: "pystr \<Rightarrow> pystr \<times> pystr" where
  "split_netloc url =
     (if starts [47, 47] url
      then (takeWhile (\<lambda>c. c \<notin> {47, 63, 35}) (drop 2 url), dropWhile (\<lambda>c. c \<notin> {47, 63, 35}) (drop 2 url))
      else ([], url))"

definition urlsplit :: "(pystr \<Rightarrow> bool) \<Rightarrow> pystr \<Rightarrow> exn + split_url" where
  "urlsplit bad_netloc text0 =
     (let url = filter (\<lambda>c. c \<notin> {9, 10, 13}) (dropWhile (\<lambda>c. c \<le> 32) text0);
          (scheme, r1) = split_scheme url;
          (netloc, r2) = split_netloc r1
      in if (91 \<in> set netloc) \<noteq> (93 \<in> set netloc) \<or> bad_netloc netloc then Inl (ValueError text0)
         else (let r3 = takeWhile (\<lambda>c. c \<noteq> 35) r2; (path, _, query) = partition_on 63 r3
               in Inr \<lparr>u_scheme = scheme, u_netloc = netloc, u_path = path, u_query = query\<rparr>))"

text \<open>The part of the network location behind the last \<open>@\<close>, split into host and port.\<close>

definition host_info :: "pystr \<Rightarrow> pystr \<times> pystr" where
  "host_info netloc =
     (let info = last (split_on 64 netloc) in
      case partition_on 91 info of
        (_, True, bracketed) \<Rightarrow>
          (case partition_on 93 bracketed of (h, _, p) \<Rightarrow> (h, snd (snd (partition_on 58 p))))
      | _ \<Rightarrow> (case partition_on 58 info of (h, _, p) \<Rightarrow> (h, p)))"

definition url_hostname :: "split_url \<Rightarrow> pystr" where
  "url_hostname u =
     (case partition_on 37 (fst (host_info (u_netloc u))) of
        (h, percent, zone) \<Rightarrow> lower h @ (if percent then 37 # zone else []))"

definition url_port :: "split_url \<Rightarrow> exn + nat option" where
  "url_port u =
     (let p = snd (host_info (u_netloc u)) in
      if p = [] then Inr None
      else if isascii p \<and> (\<forall>c \<in> set p. is_digit c)
      then (if dec_value p \<le> 65535 then Inr (Some (dec_value p)) else Inl (ValueError p))
      else Inl (ValueError p))"

section \<open>Responses\<close>

record response =
  r_status :: int
  r_headers :: "(pystr \<times> pystr) list"
  r_content :: bytes
  r_url :: pystr

definition is_success :: "response \<Rightarrow> bool" where
  "is_success r \<longleftrightarrow> 200 \<le> r_status r \<and> r_status r < 300"

definition strip_quotes :: "pystr \<Rightarrow> pystr" where
  "strip_quotes s = rev (dropWhile (\<lambda>c. c = 34) (rev (dropWhile (\<lambda>c. c = 34) s)))"

definition charset_of :: "pystr \<Rightarrow> pystr" where
  "charset_of ctype =
     foldl (\<lambda>cs part. case partition_on 61 (strip part) of
              (k, _, v) \<Rightarrow> if lower k = lit ''charset'' \<and> v \<noteq> [] then strip_quotes v else cs)
       (lit ''utf-8'') (tl (split_on 59 ctype))"

text \<open>Decoders other than UTF-8 are an argument; an unknown charset raises there.\<close>

definition response_text :: "(pystr \<Rightarrow> bytes \<Rightarrow> exn + pystr) \<Rightarrow> response \<Rightarrow> exn + pystr" where
  "response_text codec r =
     (let ctype = (case map_of (r_headers r) (lit ''content-type'') of None \<Rightarrow> [] | Some v \<Rightarrow> v);
          cs = charset_of ctype
      in if cs = lit ''utf-8'' then Inr (utf8_replace (r_content r)) else codec cs (r_content r))"

definition response_json :: "(pystr \<Rightarrow> bytes \<Rightarrow> exn + pystr) \<Rightarrow> response \<Rightarrow> exn + json" where
  "response_json codec r =
     (case response_text codec r of
        Inl e \<Rightarrow> Inl e
      | Inr t \<Rightarrow> (case loads t of None \<Rightarrow> Inl JSONDecodeError | Some j \<Rightarrow> Inr j))"

definition raise_for_status :: "(pystr \<Rightarrow> bytes \<Rightarrow> exn + pystr) \<Rightarrow> response \<Rightarrow> exn + response" where
  "raise_for_status codec r =
     (if is_success r then Inr r
      else case response_text codec r of
          Inl e \<Rightarrow> Inl e
        | Inr t \<Rightarrow> Inl (EgressHTTPStatusError (r_status r) (r_url r) (take 500 t)))"

section \<open>Requests\<close>

datatype content_arg = NoContent | ContentBytes bytes | ContentStr pystr

record http_args =
  a_method :: pystr
  a_url :: pystr
  a_headers :: "(pystr \<times> pystr) list"
  a_content :: content_arg
  a_json :: json
  a_timeout :: timeout

record http_sent =
  s_host :: pystr
  s_port :: nat
  s_method :: pystr
  s_target :: pystr
  s_headers :: "(pystr \<times> pystr) list"
  s_body :: "bytes option"

record exchange_env =
  x_net :: net
  bad_netloc :: "pystr \<Rightarrow> bool"
  tls_failure :: "tls_ctx \<Rightarrow> pystr \<Rightarrow> exn option"   \<comment> \<open>of the handshake, for a server name\<close>
  http_result :: "http_sent \<Rightarrow> exn + int \<times> (pystr \<times> pystr) list \<times> bytes"

record outcome =
  o_result :: "exn + response"
  o_dialled :: "(pystr \<times> nat) option"  \<comment> \<open>what the broker was asked for\<close>
  o_tls :: "tls_ctx option"             \<comment> \<open>the context of the handshake\<close>
  o_sent :: "http_sent option"
  o_conn :: "conn option"              \<comment> \<open>the connection, as it was left\<close>

definition stdlib_tls_context :: "host \<Rightarrow> verify_arg \<Rightarrow> exn + tls_ctx" where
  "stdlib_tls_context h v =
     (case v of
        VerifyFalse \<Rightarrow> map_sum id (\<lambda>c. c\<lparr>checks_peer := False\<rparr>) (create_default_context h None)
      | VerifyFile f \<Rightarrow> create_default_context h (Some f)
      | VerifyTrue \<Rightarrow> (case create_default_context h None of Inl e \<Rightarrow> Inl e | Inr c \<Rightarrow> add_os_trust_roots h c)
      | VerifyContext c \<Rightarrow> Inr c)"

definition request_body ::
  "(pystr \<times> pystr) list \<Rightarrow> http_args \<Rightarrow> exn + bytes option \<times> (pystr \<times> pystr) list" where
  "request_body base a =
     (if a_json a \<noteq> JNull then
        (if a_content a \<noteq> NoContent then Inl (EgressProtocolError BothBodies)
         else Inr (Some (dumps_bytes spaced (a_json a)),
                   if has_key (lit ''Content-Type'') base then base
                   else upd (lit ''Content-Type'') (lit ''application/json'') base))
      else case a_content a of
          ContentStr s \<Rightarrow> (case utf8_encode s of None \<Rightarrow> Inl UnicodeError | Some bs \<Rightarrow> Inr (Some bs, base))
        | ContentBytes bs \<Rightarrow> Inr (Some bs, base)
        | NoContent \<Rightarrow> Inr (None, base))"

text \<open>Everything before the dial: what will be sent, and to whom.\<close>

definition prepare ::
  "(pystr \<Rightarrow> bool) \<Rightarrow> (pystr \<times> pystr) list \<Rightarrow> http_args \<Rightarrow> exn + bool \<times> http_sent" where
  "prepare bad base a =
     (case urlsplit bad (a_url a) of
        Inl e \<Rightarrow> Inl e
      | Inr u \<Rightarrow>
          if u_scheme u \<noteq> lit ''http'' \<and> u_scheme u \<noteq> lit ''https''
          then Inl (EgressProtocolError (UnsupportedScheme (u_scheme u)))
          else if fst (host_info (u_netloc u)) = [] then Inl (EgressProtocolError (NoUrlHost (a_url a)))
          else (case url_port u of
             Inl e \<Rightarrow> Inl e
           | Inr p \<Rightarrow>
               (let https = (u_scheme u = lit ''https'');
                    port = (case p of Some (Suc n) \<Rightarrow> Suc n | _ \<Rightarrow> if https then 443 else 80);
                    path = (if u_path u = [] then [47] else u_path u);
                    target = (if u_query u = [] then path else path @ [63] @ u_query u)
                in case request_body base a of
                     Inl e \<Rightarrow> Inl e
                   | Inr (body, hs) \<Rightarrow>
                       Inr (https, \<lparr>s_host = url_hostname u, s_port = port, s_method = upper (a_method a),
                              s_target = target, s_headers = update_all (a_headers a) hs, s_body = body\<rparr>))))"

definition conn_close :: "conn \<Rightarrow> conn" where
  "conn_close c = (case c of SockConn s \<Rightarrow> SockConn (sock_close s) | PipeConn p \<Rightarrow> PipeConn (stream_close p))"

text \<open>The \<open>except\<close> clause around the exchange.\<close>

definition request_failure :: "pystr \<Rightarrow> exn \<Rightarrow> exn" where
  "request_failure url e =
     (if is_os_error e \<or> e = HTTPException then EgressProtocolError (RequestFailed url) else e)"

text \<open>The TLS step of an \<open>https\<close> request: its failure, or the context in use.\<close>

definition tls_step :: "host \<Rightarrow> exchange_env \<Rightarrow> verify_arg \<Rightarrow> bool \<Rightarrow> pystr \<Rightarrow> (exn + unit) \<times> tls_ctx option" where
  "tls_step h x verify https server =
     (if \<not> https then (Inr (), None)
      else case stdlib_tls_context h verify of
          Inl e \<Rightarrow> (Inl e, None)
        | Inr ctx \<Rightarrow> ((case tls_failure x ctx server of Some e \<Rightarrow> Inl e | None \<Rightarrow> Inr ()), Some ctx))"

definition http_step :: "exchange_env \<Rightarrow> pystr \<Rightarrow> http_sent \<Rightarrow> exn + response" where
  "http_step x url s =
     (case http_result x s of
        Inl e \<Rightarrow> Inl e
      | Inr (st, hs, payload) \<Rightarrow>
          Inr \<lparr>r_status = st, r_headers = update_all (map (\<lambda>(k, v). (lower k, v)) hs) [],
               r_content = payload, r_url = url\<rparr>)"

definition stdlib_request ::
  "host \<Rightarrow> exchange_env \<Rightarrow> broker \<Rightarrow> verify_arg \<Rightarrow> timeout \<Rightarrow> (pystr \<times> pystr) list \<Rightarrow> http_args
     \<Rightarrow> controls \<Rightarrow> outcome \<times> controls" where
  "stdlib_request h x br verify timeout base a cs =
     (case prepare (bad_netloc x) base a of
        Inl e \<Rightarrow> (\<lparr>o_result = Inl e, o_dialled = None, o_tls = None, o_sent = None, o_conn = None\<rparr>, cs)
      | Inr (https, s) \<Rightarrow>
          (let t = (case a_timeout a of None \<Rightarrow> timeout | Some ms \<Rightarrow> Some ms);
               to = Some (s_host s, s_port s)
           in case broker_connect_sync (x_net x) br (s_host s) (PortInt (int (s_port s))) t cs of
                (Inl e, cs') \<Rightarrow>
                  (\<lparr>o_result = Inl e, o_dialled = to, o_tls = None, o_sent = None, o_conn = None\<rparr>, cs')
              | (Inr c, cs') \<Rightarrow>
                  (case tls_step h x verify https (s_host s) of
                     (Inl e, ctx) \<Rightarrow>
                       (\<lparr>o_result = Inl (request_failure (a_url a) e), o_dialled = to, o_tls = ctx, o_sent = None,
                         o_conn = Some (conn_close c)\<rparr>, cs')
                   | (Inr u, ctx) \<Rightarrow>
                       (\<lparr>o_result = map_sum (request_failure (a_url a)) id (http_step x (a_url a) s),
                         o_dialled = to, o_tls = ctx, o_sent = Some s, o_conn = Some (conn_close c)\<rparr>, cs'))))"

section \<open>Properties\<close>

fun conn_closed :: "conn \<Rightarrow> bool" where
  "conn_closed (SockConn s) = (\<not> is_open s)"
| "conn_closed (PipeConn p) = ps_closed p"

lemma conn_close_closed: "conn_closed (conn_close c)"
  by (cases c) (simp_all add: conn_close_def sock_close_def stream_close_def)

lemma url_port_bound: "url_port u = Inr (Some (Suc n)) \<Longrightarrow> n \<le> 65534"
  by (auto simp: url_port_def Let_def split: if_splits)

lemma partition_on_fst_ne: "lower h = [] \<longleftrightarrow> h = []"
  by (simp add: lower_def)

lemma url_hostname_ne: "fst (host_info (u_netloc u)) \<noteq> [] \<Longrightarrow> url_hostname u \<noteq> []"
  by (cases "fst (host_info (u_netloc u))")
    (auto simp: url_hostname_def partition_on_fst_ne split: prod.splits if_splits)

lemma prepare_Inr:
  assumes "prepare bad base a = Inr (https, s)"
  shows "0 < s_port s" and "s_port s \<le> 65535" and "s_host s \<noteq> []" and "s_method s = upper (a_method a)"
    and "\<exists>u. urlsplit bad (a_url a) = Inr u \<and> https = (u_scheme u = lit ''https'') \<and> s_host s = url_hostname u \<and>
           (url_port u = Inr (Some (s_port s)) \<or>
            url_port u \<in> {Inr None, Inr (Some 0)} \<and> s_port s = (if https then 443 else 80))"
  using assms url_hostname_ne url_port_bound
  by (auto simp: prepare_def Let_def split: sum.splits if_splits option.splits nat.splits)

text \<open>The port of a URL: the one it names, or the default of its scheme.\<close>

definition port_of_url :: "split_url \<Rightarrow> nat \<Rightarrow> bool" where
  "port_of_url u n \<longleftrightarrow> url_port u = Inr (Some n) \<or>
     url_port u \<in> {Inr None, Inr (Some 0)} \<and> n = (if u_scheme u = lit ''https'' then 443 else 80)"

text \<open>
  C19: the stdlib client speaks only through the broker, and leaves nothing open. Whatever a request
  sends goes over a connection that the broker made for the host and port of the URL (the port in
  1 to 65535: an absent port, and an explicit 0 as well, stands for the default of the scheme); for
  an \<open>https\<close> URL nothing is sent before the TLS step for that host; and the connection is closed
  when the request ends, however it ends.
\<close>

theorem stdlib_request_brokered:
  assumes "stdlib_request h x br verify timeout base a cs = (out, cs')"
  shows "(\<forall>c. o_conn out = Some c \<longrightarrow> conn_closed c) \<and>
         (\<forall>host port. o_dialled out = Some (host, port) \<longrightarrow> host \<noteq> [] \<and> 0 < port \<and> port \<le> 65535) \<and>
         (\<forall>s. o_sent out = Some s \<longrightarrow>
            o_dialled out = Some (s_host s, s_port s) \<and> s_method s = upper (a_method a) \<and>
            (\<exists>c. broker_connect_sync (x_net x) br (s_host s) (PortInt (int (s_port s)))
               (case a_timeout a of None \<Rightarrow> timeout | Some ms \<Rightarrow> Some ms) cs = (Inr c, cs')) \<and>
            (\<exists>u. urlsplit (bad_netloc x) (a_url a) = Inr u \<and> s_host s = url_hostname u \<and>
               port_of_url u (s_port s) \<and>
               (u_scheme u = lit ''https'' \<longrightarrow> (\<exists>ctx. o_tls out = Some ctx \<and> tls_failure x ctx (s_host s) = None))))"
proof (cases "prepare (bad_netloc x) base a")
  case (Inl e)
  with assms show ?thesis by (auto simp: stdlib_request_def)
next
  case (Inr p)
  then obtain https s where p: "prepare (bad_netloc x) base a = Inr (https, s)" by (cases p) auto
  note facts = prepare_Inr [OF p]
  show ?thesis
  proof (cases "broker_connect_sync (x_net x) br (s_host s) (PortInt (int (s_port s)))
      (case a_timeout a of None \<Rightarrow> timeout | Some ms \<Rightarrow> Some ms) cs")
    case (Pair r cs1)
    show ?thesis
    proof (cases r)
      case (Inl e)
      with assms p Pair facts show ?thesis by (auto simp: stdlib_request_def Let_def)
    next
      case (Inr c)
      obtain r2 ctx where t: "tls_step h x verify https (s_host s) = (r2, ctx)" by force
      then have tls: "https \<Longrightarrow> r2 = Inr () \<Longrightarrow> \<exists>k. ctx = Some k \<and> tls_failure x k (s_host s) = None"
        by (auto simp: tls_step_def split: sum.splits option.splits)
      from facts(5) obtain u where u: "urlsplit (bad_netloc x) (a_url a) = Inr u"
        "https = (u_scheme u = lit ''https'')" "s_host s = url_hostname u"
        "port_of_url u (s_port s)" unfolding port_of_url_def by blast
      show ?thesis
        using assms p Pair Inr t tls u facts(1-4) conn_close_closed
        by (cases r2) (auto simp: stdlib_request_def Let_def)
    qed
  qed
qed

definition demo_net :: net where
  "demo_net = \<lparr>n_idna = (\<lambda>_. None), n_pid = 1, n_win = h_win demo_host, n_af_unix = True, n_dial = None,
     n_fresh = demo_sock\<rparr>"

definition demo_exchange :: exchange_env where
  "demo_exchange = \<lparr>x_net = demo_net, bad_netloc = (\<lambda>n. False), tls_failure = (\<lambda>c n. None),
     http_result = (\<lambda>s. Inr (200, [], []))\<rparr>"

definition demo_args :: http_args where
  "demo_args = \<lparr>a_method = lit ''get'', a_url = lit ''https://a:443/'', a_headers = [], a_content = NoContent,
     a_json = JNull, a_timeout = None\<rparr>"

lemma demo_prepare:
  "prepare (\<lambda>n. False) [] demo_args = Inr (True, \<lparr>s_host = lit ''a'', s_port = 443, s_method = lit ''GET'',
     s_target = lit ''/'', s_headers = [], s_body = None\<rparr>)"
  by (simp add: prepare_def demo_args_def urlsplit_def split_scheme_def split_netloc_def host_info_def url_hostname_def
      url_port_def lit_def is_scheme_char_def ascii_classes starts_def lower_def lower_char_def upper_def
      upper_char_def dec_value_def request_body_def update_all_def Let_def)

lemma demo_dial:
  "\<exists>s. broker_connect_sync demo_net (UnixBroker (lit ''/b'')) (lit ''a'') (PortInt 443) (Some 30000) cs =
     (Inr (SockConn s), cs)"
proof -
  have v: "socks_verdict (lit ''a'') (port_value (PortInt 443)) (sock_pending demo_sock) (sock_stop demo_sock)
          = Inr [22, 3]"
    by (simp add: socks_verdict_def reply_verdict_def check_method_reply_def bound_trailer_len_def
        demo_sock_def sock_pending_def Let_def)
  have f: "fresh_sock demo_sock" "tx_plan demo_sock = []"
    by (simp_all add: fresh_sock_def demo_sock_def)
  from sync_meets_verdict [OF demo_connect f, of "lit ''/b''" "Some 30000"] v
  show ?thesis by (auto simp: broker_connect_sync_def demo_net_def sock_result_def)
qed

lemma demo_tls: "stdlib_tls_context demo_host VerifyTrue = Inr \<lparr>ca_base = None, ca_extra = [], checks_peer = True\<rparr>"
proof -
  have "os_trust_roots_path demo_host = None"
    by (simp add: os_trust_roots_path_def str_or_def demo_host_def)
  then show ?thesis by (simp add: stdlib_tls_context_def create_default_context_def add_os_trust_roots_def)
qed

lemma demo_run:
  assumes "stdlib_request demo_host demo_exchange (UnixBroker (lit ''/b'')) VerifyTrue (Some 30000) [] demo_args cs = (out, cs')"
    and "broker_connect_sync demo_net (UnixBroker (lit ''/b'')) (lit ''a'') (PortInt 443) (Some 30000) cs =
     (Inr (SockConn s), cs)"
  shows "o_dialled out = Some (lit ''a'', 443) \<and> (\<exists>ctx. o_tls out = Some ctx)"
proof -
  have "a_timeout demo_args = None" by (simp add: demo_args_def)
  with assms show ?thesis
    by (auto simp: stdlib_request_def demo_exchange_def demo_prepare tls_step_def demo_tls)
qed

theorem stdlib_request_brokered_witness:
  "\<exists>out cs' ctx. stdlib_request demo_host demo_exchange (UnixBroker (lit ''/b'')) VerifyTrue (Some 30000) [] demo_args
       (\<lambda>n. None) = (out, cs') \<and> o_dialled out = Some (lit ''a'', 443) \<and> o_tls out = Some ctx \<and>
     (\<forall>c. o_conn out = Some c \<longrightarrow> conn_closed c)"
proof -
  obtain out cs' where run: "stdlib_request demo_host demo_exchange (UnixBroker (lit ''/b'')) VerifyTrue (Some 30000) []
      demo_args (\<lambda>n. None) = (out, cs')" by force
  obtain s where "broker_connect_sync demo_net (UnixBroker (lit ''/b'')) (lit ''a'') (PortInt 443) (Some 30000) (\<lambda>n. None) =
     (Inr (SockConn s), \<lambda>n. None)" using demo_dial by blast
  with run have "o_dialled out = Some (lit ''a'', 443) \<and> (\<exists>ctx. o_tls out = Some ctx)" by (rule demo_run)
  with run stdlib_request_brokered [OF run] show ?thesis by blast
qed

text \<open>
  Verification is never weakened behind the caller's back. The context of every TLS step of the
  stdlib client checks the peer unless the caller passed \<open>verify=False\<close> or a context of their own;
  and for the default \<open>verify=True\<close> both client families use a checking context in which the staged
  trust roots, if any, are added to the usual ones and never replace them.
\<close>

theorem verification_never_weakened:
  assumes "stdlib_request h x br verify timeout base a cs = (out, cs')" and "o_tls out = Some ctx"
  shows "(checks_peer ctx \<or> verify = VerifyFalse \<or> verify = VerifyContext ctx) \<and>
         (verify = VerifyTrue \<longrightarrow> ca_base ctx = None \<and>
            ca_extra ctx = (case os_trust_roots_path h of None \<Rightarrow> [] | Some p \<Rightarrow> [p])) \<and>
         (\<forall>v v'. effective_verify h v = Inr v' \<longrightarrow>
            v' = v \<or> v = VerifyTrue \<and> (\<exists>c p. v' = VerifyContext c \<and> checks_peer c \<and> ca_base c = certifi h \<and>
              os_trust_roots_path h = Some p \<and> ca_extra c = [p]))"
proof (intro conjI)
  from assms obtain https server r where "tls_step h x verify https server = (r, Some ctx)"
    by (auto simp: stdlib_request_def Let_def split: sum.splits prod.splits)
  then have ctx: "stdlib_tls_context h verify = Inr ctx"
    by (auto simp: tls_step_def split: if_splits sum.splits)
  then show "checks_peer ctx \<or> verify = VerifyFalse \<or> verify = VerifyContext ctx"
    and "verify = VerifyTrue \<longrightarrow> ca_base ctx = None \<and>
            ca_extra ctx = (case os_trust_roots_path h of None \<Rightarrow> [] | Some p \<Rightarrow> [p])"
    by (auto simp: stdlib_tls_context_def create_default_context_def add_os_trust_roots_def
        split: verify_arg.splits sum.splits option.splits)
  show "\<forall>v v'. effective_verify h v = Inr v' \<longrightarrow>
            v' = v \<or> v = VerifyTrue \<and> (\<exists>c p. v' = VerifyContext c \<and> checks_peer c \<and> ca_base c = certifi h \<and>
              os_trust_roots_path h = Some p \<and> ca_extra c = [p])"
    by (auto simp: effective_verify_def tls_context_def create_default_context_def add_os_trust_roots_def
        split: if_splits sum.splits option.splits)
qed

theorem verification_never_weakened_witness:
  "\<exists>out cs' ctx. stdlib_request demo_host demo_exchange (UnixBroker (lit ''/b'')) VerifyTrue (Some 30000) [] demo_args
       (\<lambda>n. None) = (out, cs') \<and> o_tls out = Some ctx \<and> checks_peer ctx"
proof -
  obtain out cs' where run: "stdlib_request demo_host demo_exchange (UnixBroker (lit ''/b'')) VerifyTrue (Some 30000) []
      demo_args (\<lambda>n. None) = (out, cs')" by force
  obtain s where "broker_connect_sync demo_net (UnixBroker (lit ''/b'')) (lit ''a'') (PortInt 443) (Some 30000) (\<lambda>n. None) =
     (Inr (SockConn s), \<lambda>n. None)" using demo_dial by blast
  with run obtain ctx where "o_tls out = Some ctx" using demo_run by blast
  with run verification_never_weakened [OF run this] show ?thesis by blast
qed

end
