(* ===== verification/Egress_Tls.thy ===== *)
theory Egress_Tls
  imports Egress_Config Egress_Control "HOL-Library.Sublist"
begin

text \<open>
  TLS over a placed pipe (\<open>egress.py\<close>): \<open>_TlsOverStream\<close>, which moves bytes between an
  \<open>ssl.SSLObject\<close> with its two \<open>MemoryBIO\<close>s and a pipe, and the \<open>start_tls\<close> of the placed stream.

  The SSL object is an argument: a call takes its state and the incoming BIO and tells its outcome,
  its new state, how many bytes it took from the BIO and what it appended to the outgoing one. The
  carrier below is an argument as well; the pipe stream of \<open>Pipe_Win\<close> is the one the code uses. The
  loop of \<open>_io\<close> may run for ever, so its value is \<open>None\<close> when it does.
\<close>

section \<open>The SSL object and the carrier\<close>

record bio =
  bio_data :: bytes
  bio_eof :: bool

datatype 'a ssl_outcome = WantRead | WantWrite | ZeroReturn | SslFailed | Returned 'a

type_synonym ('e, 'a) ssl_call = "'e \<Rightarrow> bio \<Rightarrow> 'a ssl_outcome \<times> 'e \<times> nat \<times> bytes"

record 'e ssl_object =
  do_handshake :: "('e, unit) ssl_call"
  ssl_read :: "nat \<Rightarrow> ('e, bytes) ssl_call"
  ssl_write :: "bytes \<Rightarrow> ('e, nat) ssl_call"
  ssl_pending :: "'e \<Rightarrow> nat"

record 'r carrier =
  c_recv :: "nat \<Rightarrow> 'r \<Rightarrow> (os_kind + bytes) \<times> 'r"
  c_send :: "bytes \<Rightarrow> 'r \<Rightarrow> (os_kind + unit) \<times> 'r"
  c_settimeout :: "timeout \<Rightarrow> 'r \<Rightarrow> 'r"
  c_close :: "'r \<Rightarrow> 'r"

definition pipe_carrier :: "pipe_stream carrier" where
  "pipe_carrier = \<lparr>c_recv = stream_recv, c_send = stream_sendall, c_settimeout = stream_settimeout,
     c_close = stream_close\<rparr>"

text \<open>What these calls raise: all are \<open>OSError\<close>s. Of the SSL errors only the end by \<open>close_notify\<close> is told apart.\<close>

datatype tls_fault = SslError | SslZeroReturn | Carrier os_kind

section \<open>The stream\<close>

record ('e, 'r) tls =
  tls_obj :: 'e
  tls_in :: bio
  tls_out :: bytes
  tls_raw :: 'r

definition tls_read_chunk :: nat where "tls_read_chunk = 65536"

definition tls_flush :: "'r carrier \<Rightarrow> (tls_fault, ('e, 'r) tls, unit) act" where
  "tls_flush io t =
     (if tls_out t = [] then (Inr (), t)
      else case c_send io (tls_out t) (tls_raw t) of
        (Inl k, r) \<Rightarrow> (Inl (Carrier k), t\<lparr>tls_out := [], tls_raw := r\<rparr>)
      | (Inr u, r) \<Rightarrow> (Inr (), t\<lparr>tls_out := [], tls_raw := r\<rparr>))"

text \<open>\<open>write\<close> and \<open>write_eof\<close> of the incoming BIO; CPython refuses a write after the end.\<close>

definition bio_feed :: "bytes \<Rightarrow> bio \<Rightarrow> tls_fault + bio" where
  "bio_feed data b =
     (if data = [] then Inr (b\<lparr>bio_eof := True\<rparr>)
      else if bio_eof b then Inl SslError
      else Inr (b\<lparr>bio_data := bio_data b @ data\<rparr>))"

text \<open>What a turn of the loop does on \<open>SSLWantReadError\<close>.\<close>

definition tls_fill :: "'r carrier \<Rightarrow> (tls_fault, ('e, 'r) tls, unit) act" where
  "tls_fill io t =
     (case c_recv io tls_read_chunk (tls_raw t) of
        (Inl k, r) \<Rightarrow> (Inl (Carrier k), t\<lparr>tls_raw := r\<rparr>)
      | (Inr data, r) \<Rightarrow>
          (case bio_feed data (tls_in t) of
             Inl x \<Rightarrow> (Inl x, t\<lparr>tls_raw := r\<rparr>)
           | Inr b \<Rightarrow> (Inr (), t\<lparr>tls_raw := r, tls_in := b\<rparr>)))"

text \<open>One turn of the loop of \<open>_io\<close>: \<open>Inl\<close> goes round again.\<close>

definition ssl_apply :: "('e, 'a) ssl_call \<Rightarrow> ('e, 'r) tls \<Rightarrow> 'a ssl_outcome \<times> ('e, 'r) tls" where
  "ssl_apply fn t =
     (case fn (tls_obj t) (tls_in t) of
        (out, e, k, bs) \<Rightarrow>
          (out, t\<lparr>tls_obj := e, tls_in := (tls_in t)\<lparr>bio_data := drop k (bio_data (tls_in t))\<rparr>,
                  tls_out := tls_out t @ bs\<rparr>))"

definition tls_turn ::
  "'r carrier \<Rightarrow> ('e, 'a) ssl_call \<Rightarrow> ('e, 'r) tls \<Rightarrow> ('e, 'r) tls + (tls_fault + 'a) \<times> ('e, 'r) tls" where
  "tls_turn io fn t =
     (case ssl_apply fn t of
        (SslFailed, t1) \<Rightarrow> Inr (Inl SslError, t1)
      | (ZeroReturn, t1) \<Rightarrow> Inr (Inl SslZeroReturn, t1)
      | (Returned v, t1) \<Rightarrow> Inr (andthen (tls_flush io) (\<lambda>_. ret v) t1)
      | (WantWrite, t1) \<Rightarrow>
          (case tls_flush io t1 of (Inl x, t2) \<Rightarrow> Inr (Inl x, t2) | (Inr u, t2) \<Rightarrow> Inl t2)
      | (WantRead, t1) \<Rightarrow>
          (case andthen (tls_flush io) (\<lambda>_. tls_fill io) t1 of
             (Inl x, t2) \<Rightarrow> Inr (Inl x, t2) | (Inr u, t2) \<Rightarrow> Inl t2))"

partial_function (option) tls_io ::
  "'r carrier \<Rightarrow> ('e, 'a) ssl_call \<Rightarrow> ('e, 'r) tls \<Rightarrow> ((tls_fault + 'a) \<times> ('e, 'r) tls) option" where
  "tls_io io fn t = (case tls_turn io fn t of Inl t' \<Rightarrow> tls_io io fn t' | Inr res \<Rightarrow> Some res)"

declare tls_io.simps [code]

text \<open>\<open>__init__\<close> from the SSL object that \<open>wrap_bio\<close> made (\<open>start_tls\<close> has its failure),
  \<open>recv\<close> and \<open>sendall\<close>.\<close>

definition tls_open ::
  "'r carrier \<Rightarrow> 'e ssl_object \<Rightarrow> 'e \<Rightarrow> timeout \<Rightarrow> 'r \<Rightarrow> ((tls_fault + unit) \<times> ('e, 'r) tls) option" where
  "tls_open io ssl e timeout r =
     tls_io io (do_handshake ssl)
       \<lparr>tls_obj = e, tls_in = \<lparr>bio_data = [], bio_eof = False\<rparr>, tls_out = [], tls_raw = c_settimeout io timeout r\<rparr>"

definition tls_recv ::
  "'r carrier \<Rightarrow> 'e ssl_object \<Rightarrow> nat \<Rightarrow> ('e, 'r) tls \<Rightarrow> ((tls_fault + bytes) \<times> ('e, 'r) tls) option" where
  "tls_recv io ssl n t =
     (if n = 0 then Some (Inr [], t)
      else case tls_io io (ssl_read ssl n) t of
        None \<Rightarrow> None
      | Some (Inl SslZeroReturn, t') \<Rightarrow> Some (Inr [], t')
      | Some res \<Rightarrow> Some res)"

partial_function (option) tls_sendall ::
  "'r carrier \<Rightarrow> 'e ssl_object \<Rightarrow> bytes \<Rightarrow> ('e, 'r) tls \<Rightarrow> ((tls_fault + unit) \<times> ('e, 'r) tls) option" where
  "tls_sendall io ssl view t =
     (if view = [] then Some (Inr (), t)
      else case tls_io io (ssl_write ssl view) t of
        None \<Rightarrow> None
      | Some (r, t') \<Rightarrow> (case r of Inl x \<Rightarrow> Some (Inl x, t') | Inr written \<Rightarrow> tls_sendall io ssl (drop written view) t'))"

definition tls_settimeout :: "'r carrier \<Rightarrow> timeout \<Rightarrow> ('e, 'r) tls \<Rightarrow> ('e, 'r) tls" where
  "tls_settimeout io timeout t = t\<lparr>tls_raw := c_settimeout io timeout (tls_raw t)\<rparr>"

definition tls_close :: "'r carrier \<Rightarrow> ('e, 'r) tls \<Rightarrow> ('e, 'r) tls" where
  "tls_close io t = t\<lparr>tls_raw := c_close io (tls_raw t)\<rparr>"

text \<open>\<open>is_readable\<close>; \<open>PeekNamedPipe\<close> fails, or tells the bytes that wait.\<close>

definition stream_is_readable :: "(pipe \<Rightarrow> nat option) \<Rightarrow> pipe_stream \<Rightarrow> bool" where
  "stream_is_readable peek s \<longleftrightarrow> ps_closed s \<or> (case peek (ps_raw s) of None \<Rightarrow> True | Some avail \<Rightarrow> 0 < avail)"

definition tls_is_readable :: "('r \<Rightarrow> bool) \<Rightarrow> 'e ssl_object \<Rightarrow> ('e, 'r) tls \<Rightarrow> bool" where
  "tls_is_readable raw_readable ssl t \<longleftrightarrow>
     ssl_pending ssl (tls_obj t) \<noteq> 0 \<or> bio_data (tls_in t) \<noteq> [] \<or> raw_readable (tls_raw t)"

text \<open>\<open>_makefile\<close>, and \<open>readinto\<close> of its raw reader: the count, and the buffer with the data at its front.\<close>

definition makefile :: "pystr \<Rightarrow> 's \<Rightarrow> exn + 's" where
  "makefile mode raw =
     (if 119 \<in> set mode \<or> 98 \<notin> set mode
      then Inl (ValueError (lit ''egress channel makefile supports only binary read, not '' @ py_repr mode))
      else Inr raw)"

definition readinto :: "(nat \<Rightarrow> 's \<Rightarrow> (os_kind + bytes) \<times> 's) \<Rightarrow> bytes \<Rightarrow> 's \<Rightarrow> (os_kind + nat \<times> bytes) \<times> 's" where
  "readinto recv buf s =
     (case recv (length buf) s of
        (Inl k, s') \<Rightarrow> (Inl k, s')
      | (Inr data, s') \<Rightarrow> (Inr (length data, data @ drop (length data) buf), s'))"

lemma readinto_keeps_length:
  assumes "readinto stream_recv buf s = (Inr (n, buf'), s')"
  shows "length buf' = length buf \<and> n \<le> length buf"
  using assms pipe_recv_length [of "length buf" "ps_raw s"]
  by (auto simp: readinto_def stream_recv_def split: prod.splits sum.splits)

section \<open>The placed stream under TLS\<close>

text \<open>
  \<open>wrapped\<close> is the outcome of \<open>SSLContext.wrap_bio\<close>. It may fail in ways that are no \<open>OSError\<close>: a
  host name that starts with a dot is a \<open>ValueError\<close>, a label of more than 63 characters a
  \<open>UnicodeError\<close>. \<open>start_tls\<close> catches an \<open>OSError\<close> and closes the pipe; any other exception goes
  through and leaves the pipe as it is.
\<close>

datatype connect_fault = ConnectTimeout | ConnectError | Escapes exn

definition start_tls ::
  "'e ssl_object \<Rightarrow> exn + 'e \<Rightarrow> timeout \<Rightarrow> pipe_stream
     \<Rightarrow> ((connect_fault + ('e, pipe_stream) tls) \<times> pipe_stream) option" where
  "start_tls ssl wrapped timeout s =
     (case wrapped of
        Inl x \<Rightarrow>
          Some (if x = OSError Timeout then (Inl ConnectTimeout, stream_close s)
                else if is_os_error x then (Inl ConnectError, stream_close s)
                else (Inl (Escapes x), s))
      | Inr e \<Rightarrow>
          (case tls_open pipe_carrier ssl e timeout s of
             None \<Rightarrow> None
           | Some (Inl x, t) \<Rightarrow>
               Some (Inl (if x = Carrier Timeout then ConnectTimeout else ConnectError), stream_close (tls_raw t))
           | Some (Inr u, t) \<Rightarrow> Some (Inr t, tls_raw t)))"

definition secure_read ::
  "'e ssl_object \<Rightarrow> nat \<Rightarrow> timeout \<Rightarrow> ('e, pipe_stream) tls
     \<Rightarrow> ((httpcore_fault + bytes) \<times> ('e, pipe_stream) tls) option" where
  "secure_read ssl max_bytes timeout t =
     (case tls_recv pipe_carrier ssl max_bytes (tls_settimeout pipe_carrier timeout t) of
        None \<Rightarrow> None
      | Some (Inl x, t') \<Rightarrow> Some (Inl (if x = Carrier Timeout then ReadTimeout else ReadError), t')
      | Some (Inr b, t') \<Rightarrow> Some (Inr b, t'))"

definition secure_write ::
  "'e ssl_object \<Rightarrow> bytes \<Rightarrow> timeout \<Rightarrow> ('e, pipe_stream) tls
     \<Rightarrow> ((httpcore_fault + unit) \<times> ('e, pipe_stream) tls) option" where
  "secure_write ssl buffer timeout t =
     (if buffer = [] then Some (Inr (), t)
      else case tls_sendall pipe_carrier ssl buffer (tls_settimeout pipe_carrier timeout t) of
        None \<Rightarrow> None
      | Some (Inl x, t') \<Rightarrow> Some (Inl (if x = Carrier Timeout then WriteTimeout else WriteError), t')
      | Some (Inr u, t') \<Rightarrow> Some (Inr (), t'))"


section \<open>What the stream moves\<close>

text \<open>An SSL object that keeps a log of what it consumed, produced, accepted and revealed.\<close>

record tls_log =
  consumed :: bytes
  produced :: bytes
  accepted :: bytes
  revealed :: bytes

definition logged_call ::
  "('a \<Rightarrow> tls_log \<Rightarrow> tls_log) \<Rightarrow> ('e, 'a) ssl_call \<Rightarrow> ('e \<times> tls_log, 'a) ssl_call" where
  "logged_call note fn el b =
     (case fn (fst el) b of
        (out, e, k, bs) \<Rightarrow>
          (let l = (snd el)\<lparr>consumed := consumed (snd el) @ take k (bio_data b), produced := produced (snd el) @ bs\<rparr>
           in (out, (e, case out of Returned v \<Rightarrow> note v l | _ \<Rightarrow> l), k, bs)))"

definition logged :: "'e ssl_object \<Rightarrow> ('e \<times> tls_log) ssl_object" where
  "logged ssl = \<lparr>do_handshake = logged_call (\<lambda>u l. l) (do_handshake ssl),
     ssl_read = (\<lambda>n. logged_call (\<lambda>bs l. l\<lparr>revealed := revealed l @ bs\<rparr>) (ssl_read ssl n)),
     ssl_write = (\<lambda>d. logged_call (\<lambda>n l. l\<lparr>accepted := accepted l @ take n d\<rparr>) (ssl_write ssl d)),
     ssl_pending = (\<lambda>e. ssl_pending ssl (fst e))\<rparr>"

definition empty_log :: tls_log where
  "empty_log = \<lparr>consumed = [], produced = [], accepted = [], revealed = []\<rparr>"

abbreviation log_of :: "('e \<times> tls_log, 'r) tls \<Rightarrow> tls_log" where
  "log_of t \<equiv> snd (tls_obj t)"

text \<open>The log is a ghost: it changes neither the outcome nor the bytes.\<close>

lemma logged_transparent:
  "map_prod id (map_prod fst id) (logged_call note fn el b) = fn (fst el) b"
  by (auto simp: logged_call_def Let_def split: prod.split)

text \<open>The last turn of a loop that ends, with what every turn before it kept.\<close>

lemma io_last_turn:
  assumes "tls_io io fn t = Some res" and "P t" and "\<And>t t'. P t \<Longrightarrow> tls_turn io fn t = Inl t' \<Longrightarrow> P t'"
  shows "\<exists>t'. P t' \<and> tls_turn io fn t' = Inr res"
proof -
  have "P t \<longrightarrow> (\<forall>t t'. P t \<longrightarrow> tls_turn io fn t = Inl t' \<longrightarrow> P t') \<longrightarrow> (\<exists>t'. P t' \<and> tls_turn io fn t' = Inr res)"
    using assms(1)
  proof (induction rule: tls_io.raw_induct [rotated, consumes 1, case_names step])
    case (step rec io fn t res)
    show ?case
    proof (cases "tls_turn io fn t")
      case (Inl t1)
      with step(2) have "rec io fn t1 = Some res" by simp
      from step(1) [OF this] Inl show ?thesis by blast
    next
      case (Inr r)
      with step(2) show ?thesis by auto
    qed
  qed
  with assms(2,3) show ?thesis by blast
qed

text \<open>
  The contract of a carrier: it is a byte source whose writes arrive in order, whole when \<open>send\<close>
  returns and cut off when it fails, and whose reads leave the writes alone.
\<close>

locale byte_carrier = byte_source "c_recv io" pending stop frame
  for io :: "'r carrier" and pending stop and frame :: "'r \<Rightarrow> 'f" +
  fixes written :: "'r \<Rightarrow> bytes"
  assumes send_Inr: "c_send io bs s = (Inr u, s') \<Longrightarrow> written s' = written s @ bs \<and> pending s' = pending s"
    and send_Inl: "c_send io bs s = (Inl k, s') \<Longrightarrow> \<exists>n. written s' = written s @ take n bs"
    and recv_written: "written (snd (c_recv io n s)) = written s"
begin

text \<open>\<open>w0\<close> was written before and \<open>p0\<close> was on the way when the log was empty.\<close>

definition faithful :: "bytes \<Rightarrow> bytes \<Rightarrow> ('e \<times> tls_log, 'r) tls \<Rightarrow> bool" where
  "faithful w0 p0 t \<longleftrightarrow>
     written (tls_raw t) @ tls_out t = w0 @ produced (log_of t) \<and>
     p0 = consumed (log_of t) @ bio_data (tls_in t) @ (if bio_eof (tls_in t) then [] else pending (tls_raw t))"

lemma flush_faithful:
  assumes "faithful w0 p0 t" and "tls_flush io t = (Inr u, t')"
  shows "faithful w0 p0 t' \<and> tls_out t' = [] \<and> tls_obj t' = tls_obj t"
  using assms send_Inr by (auto simp: tls_flush_def faithful_def split: if_splits prod.splits sum.splits)

lemma fill_faithful:
  assumes "faithful w0 p0 t" and "tls_fill io t = (Inr u, t')"
  shows "faithful w0 p0 t' \<and> tls_obj t' = tls_obj t \<and> tls_out t' = tls_out t"
proof -
  obtain r s where r: "c_recv io tls_read_chunk (tls_raw t) = (r, s)" by force
  from recv_written [of tls_read_chunk "tls_raw t"] r have w: "written s = written (tls_raw t)" by simp
  have pos: "0 < tls_read_chunk" by (simp add: tls_read_chunk_def)
  from assms(2) r obtain data b where d: "r = Inr data" "bio_feed data (tls_in t) = Inr b"
    and t': "t' = t\<lparr>tls_raw := s, tls_in := b\<rparr>"
    by (auto simp: tls_fill_def split: sum.splits)
  show ?thesis
  proof (cases "pending (tls_raw t) = []")
    case True
    show ?thesis
    proof (cases "data = []")
      case True
      with d \<open>pending (tls_raw t) = []\<close> assms(1) w t' show ?thesis
        by (auto simp: faithful_def bio_feed_def split: if_splits)
    next
      case False
      with recv_none [OF \<open>pending (tls_raw t) = []\<close> pos] r d have False by (auto split: option.splits)
      then show ?thesis ..
    qed
  next
    case False
    from recv_some [OF False pos] r d have "pending (tls_raw t) = data @ pending s" "data \<noteq> []" by auto
    with d assms(1) w t' show ?thesis
      by (auto simp: faithful_def bio_feed_def split: if_splits)
  qed
qed

text \<open>One turn: it goes round with the log of the call, or ends in one of the ways below.\<close>

definition quiet_note :: "('a \<Rightarrow> tls_log \<Rightarrow> tls_log) \<Rightarrow> bool" where
  "quiet_note note \<longleftrightarrow> (\<forall>v l c p. note v (l\<lparr>consumed := c, produced := p\<rparr>) = (note v l)\<lparr>consumed := c, produced := p\<rparr>)"

lemma quiet_noteD:
  assumes "quiet_note note"
  shows "consumed (note v l) = consumed l" "produced (note v l) = produced l"
    "accepted (note v (l\<lparr>consumed := c, produced := p\<rparr>)) = accepted (note v l)"
    "revealed (note v (l\<lparr>consumed := c, produced := p\<rparr>)) = revealed (note v l)"
proof -
  from assms have n: "note v (l\<lparr>consumed := x, produced := y\<rparr>) = (note v l)\<lparr>consumed := x, produced := y\<rparr>" for x y
    by (simp add: quiet_note_def)
  have "note v l = (note v l)\<lparr>consumed := consumed l, produced := produced l\<rparr>"
    using n [of "produced l" "consumed l"] by simp
  then show "consumed (note v l) = consumed l" "produced (note v l) = produced l"
    using arg_cong [of _ _ consumed] arg_cong [of _ _ produced] by fastforce+
  from n show "accepted (note v (l\<lparr>consumed := c, produced := p\<rparr>)) = accepted (note v l)"
    "revealed (note v (l\<lparr>consumed := c, produced := p\<rparr>)) = revealed (note v l)" by simp_all
qed

lemma apply_faithful:
  assumes "quiet_note note" and "faithful w0 p0 t" and "ssl_apply (logged_call note fn) t = (out, t')"
  shows "faithful w0 p0 t'"
  using assms(2,3) quiet_noteD [OF assms(1)] by (auto simp: ssl_apply_def logged_call_def faithful_def Let_def
      split: prod.splits ssl_outcome.splits)

lemma apply_texts:
  assumes "ssl_apply (logged_call note fn) t = (out, t')" and "\<And>v. out \<noteq> Returned v"
  shows "accepted (log_of t') = accepted (log_of t) \<and> revealed (log_of t') = revealed (log_of t)"
  using assms by (auto simp: ssl_apply_def logged_call_def Let_def split: prod.splits ssl_outcome.splits)

text \<open>What holds when an operation has failed: what went out and what went in is still in order.\<close>

definition cut_off :: "bytes \<Rightarrow> bytes \<Rightarrow> ('e \<times> tls_log, 'r) tls \<Rightarrow> bool" where
  "cut_off w0 p0 t \<longleftrightarrow> prefix (written (tls_raw t)) (w0 @ produced (log_of t)) \<and> prefix (consumed (log_of t)) p0"

lemma faithful_cut_off: "faithful w0 p0 t \<Longrightarrow> cut_off w0 p0 t"
  unfolding faithful_def cut_off_def by (metis prefixI)

lemma flush_cut_off:
  assumes "faithful w0 p0 t"
  shows "cut_off w0 p0 (snd (tls_flush io t))"
proof (cases "tls_flush io t")
  case (Pair r t')
  show ?thesis
  proof (cases r)
    case (Inr u)
    with Pair flush_faithful [OF assms] faithful_cut_off show ?thesis by fastforce
  next
    case (Inl x)
    from Inl Pair obtain k s where s: "c_send io (tls_out t) (tls_raw t) = (Inl k, s)" "t' = t\<lparr>tls_out := [], tls_raw := s\<rparr>"
      by (auto simp: tls_flush_def split: if_splits prod.splits sum.splits)
    from send_Inl [OF s(1)] obtain n where "written s = written (tls_raw t) @ take n (tls_out t)" ..
    moreover have "w0 @ produced (log_of t) = written (tls_raw t) @ tls_out t" using assms by (simp add: faithful_def)
    ultimately show ?thesis using assms s(2) Pair by (simp add: faithful_def cut_off_def take_is_prefix)
  qed
qed

lemma fill_cut_off:
  assumes "faithful w0 p0 t"
  shows "cut_off w0 p0 (snd (tls_fill io t))"
proof (cases "tls_fill io t")
  case (Pair r t')
  have "tls_obj t' = tls_obj t \<and> written (tls_raw t') = written (tls_raw t)"
    using Pair recv_written [of tls_read_chunk "tls_raw t"] by (auto simp: tls_fill_def split: prod.splits sum.splits)
  with faithful_cut_off [OF assms] Pair show ?thesis by (simp add: cut_off_def)
qed

lemma fill_out: "tls_out (snd (tls_fill io t)) = tls_out t"
  by (auto simp: tls_fill_def split: prod.split sum.split)

lemma turn_again:
  assumes "quiet_note note" and "faithful w0 p0 t" and "tls_turn io (logged_call note fn) t = Inl t'"
  shows "faithful w0 p0 t' \<and> tls_out t' = [] \<and> accepted (log_of t') = accepted (log_of t) \<and>
    revealed (log_of t') = revealed (log_of t)"
proof -
  obtain out t1 where a: "ssl_apply (logged_call note fn) t = (out, t1)" by force
  from apply_faithful [OF assms(1,2) a] have f: "faithful w0 p0 t1" .
  have "out = WantRead \<or> out = WantWrite" using assms(3) a by (auto simp: tls_turn_def split: ssl_outcome.splits)
  then have l: "accepted (log_of t1) = accepted (log_of t)" "revealed (log_of t1) = revealed (log_of t)"
    using apply_texts [OF a] by auto
  obtain t2 u where t2: "tls_flush io t1 = (Inr u, t2)" "out = WantWrite \<and> t' = t2 \<or> out = WantRead \<and> tls_fill io t2 = (Inr (), t')"
    using assms(3) a by (auto simp: tls_turn_def andthen_def split: ssl_outcome.splits prod.splits sum.splits)
  note g = flush_faithful [OF f t2(1)]
  with t2(2) fill_faithful [of w0 p0 t2 "()" t'] l show ?thesis by auto
qed

lemma apply_returned:
  assumes "quiet_note note" and "ssl_apply (logged_call note fn) t = (Returned v, t')"
  shows "accepted (log_of t') = accepted (note v (log_of t)) \<and> revealed (log_of t') = revealed (note v (log_of t))"
  using assms(2) quiet_noteD(3,4) [OF assms(1)]
  by (auto simp: ssl_apply_def logged_call_def Let_def split: prod.splits)

lemma turn_ends:
  assumes "quiet_note note" and "faithful w0 p0 t" and "tls_turn io (logged_call note fn) t = Inr (r, t')"
  shows "case r of
      Inr v \<Rightarrow> faithful w0 p0 t' \<and> tls_out t' = [] \<and> accepted (log_of t') = accepted (note v (log_of t)) \<and>
        revealed (log_of t') = revealed (note v (log_of t))
    | Inl x \<Rightarrow> cut_off w0 p0 t' \<and> (x = SslZeroReturn \<longrightarrow> faithful w0 p0 t' \<and>
        accepted (log_of t') = accepted (log_of t) \<and> revealed (log_of t') = revealed (log_of t))"
proof -
  obtain out t1 where a: "ssl_apply (logged_call note fn) t = (out, t1)" by force
  from apply_faithful [OF assms(1,2) a] have f: "faithful w0 p0 t1" .
  have flush: "cut_off w0 p0 t2 \<and> x \<noteq> SslZeroReturn" if "tls_flush io t1 = (Inl x, t2)" for x t2
    using flush_cut_off [OF f] that by (auto simp: tls_flush_def split: if_splits prod.splits sum.splits)
  have fill: "cut_off w0 p0 t3 \<and> x \<noteq> SslZeroReturn" if "tls_flush io t1 = (Inr u, t2)" "tls_fill io t2 = (Inl x, t3)" for x u t2 t3
    using fill_cut_off [of w0 p0 t2] flush_faithful [OF f that(1)] that
    by (auto simp: tls_fill_def bio_feed_def split: if_splits prod.splits sum.splits)
  show ?thesis
  proof (cases out)
    case WantRead
    with assms(3) a flush fill show ?thesis
      by (auto simp: tls_turn_def andthen_def split: prod.splits sum.splits)
  next
    case WantWrite
    with assms(3) a flush show ?thesis by (auto simp: tls_turn_def split: prod.splits sum.splits)
  next
    case ZeroReturn
    with assms(3) a f faithful_cut_off [OF f] apply_texts [OF a] show ?thesis by (auto simp: tls_turn_def)
  next
    case SslFailed
    with assms(3) a faithful_cut_off [OF f] show ?thesis by (auto simp: tls_turn_def)
  next
    case (Returned v)
    with assms(3) a flush flush_faithful [OF f] apply_returned [OF assms(1)] show ?thesis
      by (auto simp: tls_turn_def andthen_def ret_def split: prod.splits sum.splits)
  qed
qed

lemma note_alike:
  assumes "quiet_note note" and "accepted l' = accepted l" and "revealed l' = revealed l"
  shows "accepted (note v l') = accepted (note v l)" and "revealed (note v l') = revealed (note v l)"
proof -
  have "l' = l\<lparr>consumed := consumed l', produced := produced l'\<rparr>" using assms(2,3) by simp
  then show "accepted (note v l') = accepted (note v l)" "revealed (note v l') = revealed (note v l)"
    using quiet_noteD(3,4) [OF assms(1)] by metis+
qed

text \<open>A call of the SSL object through the loop: how it ends, with the log.\<close>

definition ends_with :: "bytes \<Rightarrow> bytes \<Rightarrow> ('a \<Rightarrow> tls_log \<Rightarrow> tls_log) \<Rightarrow> tls_log
    \<Rightarrow> (tls_fault + 'a) \<times> ('e \<times> tls_log, 'r) tls \<Rightarrow> bool" where
  "ends_with w0 p0 note l res \<longleftrightarrow>
     (case res of (r, t') \<Rightarrow>
        (case r of
          Inr v \<Rightarrow> faithful w0 p0 t' \<and> accepted (log_of t') = accepted (note v l) \<and> revealed (log_of t') = revealed (note v l)
        | Inl x \<Rightarrow> cut_off w0 p0 t' \<and> (x = SslZeroReturn \<longrightarrow> faithful w0 p0 t' \<and>
            accepted (log_of t') = accepted l \<and> revealed (log_of t') = revealed l)))"

lemma io_ends:
  assumes q: "quiet_note note" and "faithful w0 p0 t" and "tls_io io (logged_call note fn) t = Some (r, t')"
  shows "ends_with w0 p0 note (log_of t) (r, t')"
proof -
  let ?P = "\<lambda>t1. faithful w0 p0 t1 \<and> accepted (log_of t1) = accepted (log_of t) \<and> revealed (log_of t1) = revealed (log_of t)"
  have again: "?P t2" if "?P t1" and "tls_turn io (logged_call note fn) t1 = Inl t2" for t1 t2
    using turn_again [OF q _ that(2), of w0 p0] that(1) by simp
  have "\<exists>t1. ?P t1 \<and> tls_turn io (logged_call note fn) t1 = Inr (r, t')"
  proof (rule io_last_turn [where P = ?P, OF assms(3)])
    show "?P t" using assms(2) by simp
  qed (rule again)
  then obtain t1 where t1: "?P t1" and last: "tls_turn io (logged_call note fn) t1 = Inr (r, t')" by blast
  have n: "accepted (note v (log_of t1)) = accepted (note v (log_of t))"
    "revealed (note v (log_of t1)) = revealed (note v (log_of t))" for v
    by (rule note_alike [OF q]; use t1 in simp)+
  from turn_ends [OF q _ last] t1 n show ?thesis by (cases r) (auto simp: ends_with_def)
qed

lemma quiet_notes [simp]:
  "quiet_note (\<lambda>u l. l)" "quiet_note (\<lambda>bs l. l\<lparr>revealed := revealed l @ bs\<rparr>)"
  "quiet_note (\<lambda>n l. l\<lparr>accepted := accepted l @ take n d\<rparr>)"
  by (simp_all add: quiet_note_def)

definition sent_all :: "bytes \<Rightarrow> bytes \<Rightarrow> bytes \<Rightarrow> tls_log \<Rightarrow> (tls_fault + unit) \<times> ('e \<times> tls_log, 'r) tls \<Rightarrow> bool" where
  "sent_all w0 p0 view l res \<longleftrightarrow>
     (case res of (r, t') \<Rightarrow>
        (case r of
          Inr u \<Rightarrow> faithful w0 p0 t' \<and> accepted (log_of t') = accepted l @ view \<and> revealed (log_of t') = revealed l
        | Inl x \<Rightarrow> cut_off w0 p0 t'))"

lemma sendall_ends:
  assumes "tls_sendall io (logged ssl) view t = Some res" and "faithful w0 p0 t"
  shows "sent_all w0 p0 view (log_of t) res"
proof -
  have "io' = io \<longrightarrow> ssl' = logged ssl \<longrightarrow> faithful w0 p0 t \<longrightarrow> sent_all w0 p0 view (log_of t) res"
    if "tls_sendall io' ssl' view t = Some res" for io' ssl' view t res
    using that
  proof (induction rule: tls_sendall.raw_induct [rotated, consumes 1, case_names step])
    case (step rec io' ssl' view t res)
    show ?case
    proof (intro impI)
      assume eqs: "io' = io" "ssl' = logged ssl" and f: "faithful w0 p0 t"
      show "sent_all w0 p0 view (log_of t) res"
      proof (cases "view = []")
        case True
        with step(2) f show ?thesis by (auto simp: sent_all_def)
      next
        case False
        with step(2) eqs obtain r t1 where t1: "tls_io io (ssl_write (logged ssl) view) t = Some (r, t1)"
          by (auto split: option.splits)
        then have e: "ends_with w0 p0 (\<lambda>n l. l\<lparr>accepted := accepted l @ take n view\<rparr>) (log_of t) (r, t1)"
          by (intro io_ends [OF _ f, of _ "ssl_write ssl view"]) (simp_all add: logged_def)
        show ?thesis
        proof (cases r)
          case (Inl x)
          with False step(2) eqs t1 e show ?thesis by (auto simp: sent_all_def ends_with_def)
        next
          case (Inr n)
          with False step(2) eqs t1 have "rec io (logged ssl) (drop n view) t1 = Some res" by simp
          from step(1) [OF this] e Inr eqs have "sent_all w0 p0 (drop n view) (log_of t1) res"
            by (simp add: ends_with_def)
          with e Inr show ?thesis by (auto simp: sent_all_def ends_with_def split: prod.splits sum.splits)
        qed
      qed
    qed
  qed
  with assms show ?thesis by blast
qed

lemma recv_ends:
  assumes "tls_recv io (logged ssl) n t = Some (r, t')" and "faithful w0 p0 t"
  shows "case r of
      Inr b \<Rightarrow> faithful w0 p0 t' \<and> accepted (log_of t') = accepted (log_of t) \<and> revealed (log_of t') = revealed (log_of t) @ b
    | Inl x \<Rightarrow> cut_off w0 p0 t'"
proof (cases "n = 0")
  case True
  with assms show ?thesis by (auto simp: tls_recv_def)
next
  case False
  with assms(1) obtain r1 t1 where t1: "tls_io io (ssl_read (logged ssl) n) t = Some (r1, t1)"
    by (auto simp: tls_recv_def split: option.splits)
  then have "ends_with w0 p0 (\<lambda>bs l. l\<lparr>revealed := revealed l @ bs\<rparr>) (log_of t) (r1, t1)"
    by (intro io_ends [OF _ assms(2), of _ "ssl_read ssl n"]) (simp_all add: logged_def)
  with t1 False assms(1) show ?thesis
    by (cases r1; cases "r1 = Inl SslZeroReturn")
      (auto simp: tls_recv_def ends_with_def split: tls_fault.splits)
qed

end

section \<open>Termination\<close>

text \<open>
  What the documentation of \<open>ssl\<close> says of an \<open>SSLObject\<close> on memory BIOs: its writes never block, it
  does not ask for more input when the end was signalled, and a write that returns took something.
\<close>

definition settled :: "'a ssl_outcome \<Rightarrow> bio \<Rightarrow> bool" where
  "settled out b \<longleftrightarrow> (case out of WantWrite \<Rightarrow> False | WantRead \<Rightarrow> \<not> bio_eof b | _ \<Rightarrow> True)"

definition documented :: "'e ssl_object \<Rightarrow> bool" where
  "documented ssl \<longleftrightarrow>
     (\<forall>e b. settled (fst (do_handshake ssl e b)) b) \<and> (\<forall>n e b. settled (fst (ssl_read ssl n e b)) b) \<and>
     (\<forall>d e b. settled (fst (ssl_write ssl d e b)) b \<and> fst (ssl_write ssl d e b) \<noteq> Returned 0)"

context byte_carrier begin

definition to_come :: "('e, 'r) tls \<Rightarrow> nat" where
  "to_come t = (if bio_eof (tls_in t) then 0 else Suc (length (pending (tls_raw t))))"

lemma turn_shrinks:
  assumes "\<And>e b. settled (fst (fn e b)) b" and "tls_turn io fn t = Inl t'"
  shows "to_come t' < to_come t"
proof -
  obtain out t1 where a: "ssl_apply fn t = (out, t1)" by force
  then have t1: "bio_eof (tls_in t1) = bio_eof (tls_in t)" "tls_raw t1 = tls_raw t" "settled out (tls_in t)"
    using assms(1) [of "tls_obj t" "tls_in t"] by (auto simp: ssl_apply_def split: prod.splits)
  from a assms(2) t1(3) obtain u t2 where "out = WantRead" and t2: "tls_flush io t1 = (Inr u, t2)"
    and fill: "tls_fill io t2 = (Inr (), t')"
    by (auto simp: tls_turn_def settled_def andthen_def split: ssl_outcome.splits prod.splits sum.splits)
  with t1 have more: "\<not> bio_eof (tls_in t)" by (simp add: settled_def)
  have p2: "pending (tls_raw t2) = pending (tls_raw t)" "bio_eof (tls_in t2) = bio_eof (tls_in t)"
    using t2 t1 send_Inr by (auto simp: tls_flush_def split: if_splits prod.splits sum.splits)
  obtain data s where r: "c_recv io tls_read_chunk (tls_raw t2) = (Inr data, s)"
    using fill by (auto simp: tls_fill_def split: prod.splits sum.splits)
  have pos: "0 < tls_read_chunk" by (simp add: tls_read_chunk_def)
  show ?thesis
  proof (cases "data = []")
    case True
    with fill r more show ?thesis by (auto simp: tls_fill_def bio_feed_def to_come_def)
  next
    case False
    then have "pending (tls_raw t2) \<noteq> []"
      using recv_none [OF _ pos, of "tls_raw t2"] r by (auto split: option.splits)
    from recv_some [OF this pos] r have "length (pending s) < length (pending (tls_raw t2))" using False by auto
    with fill r False more p2 show ?thesis
      by (auto simp: tls_fill_def bio_feed_def to_come_def split: if_splits)
  qed
qed

lemma io_returns:
  assumes "\<And>e b. settled (fst (fn e b)) b"
  shows "\<exists>res. tls_io io fn t = Some res"
proof (induction "to_come t" arbitrary: t rule: less_induct)
  case less
  show ?case
  proof (cases "tls_turn io fn t")
    case (Inl t')
    with less [OF turn_shrinks [OF assms Inl]] show ?thesis by (simp add: tls_io.simps [of io fn t])
  next
    case (Inr res)
    then show ?thesis by (simp add: tls_io.simps [of io fn t])
  qed
qed

lemma sendall_returns:
  assumes "documented ssl"
  shows "\<exists>res. tls_sendall io ssl view t = Some res"
proof (induction "length view" arbitrary: view t rule: less_induct)
  case less
  show ?case
  proof (cases "view = []")
    case True
    then show ?thesis by (simp add: tls_sendall.simps [of io ssl "[]" t])
  next
    case False
    obtain r t' where r: "tls_io io (ssl_write ssl view) t = Some (r, t')"
      using io_returns [of "ssl_write ssl view" t] assms by (auto simp: documented_def)
    show ?thesis
    proof (cases r)
      case (Inl x)
      with r False show ?thesis by (simp add: tls_sendall.simps [of io ssl view t])
    next
      case (Inr n)
      have "0 < n"
      proof -
        obtain t1 where "tls_turn io (ssl_write ssl view) t1 = Inr (Inr n, t')"
          using io_last_turn [where P = "\<lambda>_. True", OF r] Inr by auto
        then have "fst (ssl_write ssl view (tls_obj t1) (tls_in t1)) = Returned n"
          by (auto simp: tls_turn_def ssl_apply_def andthen_def ret_def
              split: prod.splits ssl_outcome.splits sum.splits)
        with assms show ?thesis by (metis documented_def gr0I)
      qed
      with less [of "drop n view" t'] r Inr False show ?thesis by (simp add: tls_sendall.simps [of io ssl view t])
    qed
  qed
qed

lemma recv_returns:
  assumes "documented ssl"
  shows "\<exists>res. tls_recv io ssl n t = Some res"
proof -
  obtain r t' where "tls_io io (ssl_read ssl n) t = Some (r, t')"
    using io_returns [of "ssl_read ssl n" t] assms by (auto simp: documented_def)
  then show ?thesis by (cases r) (auto simp: tls_recv_def split: tls_fault.split)
qed

end

section \<open>The pipe as a carrier\<close>

interpretation pipe_tls: byte_carrier pipe_carrier stream_pending stream_stop without_reads "\<lambda>s. sent (ps_raw s)"
proof (intro byte_carrier.intro byte_carrier_axioms.intro)
  show "byte_source (c_recv pipe_carrier) stream_pending stream_stop without_reads"
    using pipe.byte_source_axioms by (simp add: pipe_carrier_def)
next
  fix bs u s s'
  assume "c_send pipe_carrier bs s = (Inr u, s')"
  then show "sent (ps_raw s') = sent (ps_raw s) @ bs \<and> stream_pending s' = stream_pending s"
    using stream_sendall_Inr by (simp add: pipe_carrier_def)
next
  fix bs k s s'
  assume "c_send pipe_carrier bs s = (Inl k, s')"
  then have "stream_sendall bs s = (Inl k, s')" by (simp add: pipe_carrier_def)
  then have "\<exists>ov. sent (ps_raw s') = sent (ps_raw s) @ take (moved ov) bs"
    by (auto simp: stream_sendall_def pipe_sendall_def Let_def split: prod.splits sum.splits pipe_fault.splits if_splits)
  then show "\<exists>n. sent (ps_raw s') = sent (ps_raw s) @ take n bs" by blast
next
  fix n s
  show "sent (ps_raw (snd (c_recv pipe_carrier n s))) = sent (ps_raw s)"
    by (auto simp: pipe_carrier_def stream_recv_def pipe_recv_def
        split: list.split prod.split sum.split pipe_fault.split)
qed

section \<open>A session\<close>

datatype tls_use = Sends bytes | Receives nat

fun tls_session ::
  "'r carrier \<Rightarrow> 'e ssl_object \<Rightarrow> tls_use list \<Rightarrow> ('e, 'r) tls \<Rightarrow> ((tls_fault + bytes) \<times> ('e, 'r) tls) option" where
  "tls_session io ssl [] t = Some (Inr [], t)"
| "tls_session io ssl (Sends d # us) t =
     (case tls_sendall io ssl d t of
        None \<Rightarrow> None
      | Some (Inl x, t') \<Rightarrow> Some (Inl x, t')
      | Some (Inr u, t') \<Rightarrow> tls_session io ssl us t')"
| "tls_session io ssl (Receives n # us) t =
     (case tls_recv io ssl n t of
        None \<Rightarrow> None
      | Some (Inl x, t') \<Rightarrow> Some (Inl x, t')
      | Some (Inr b, t') \<Rightarrow> map_option (\<lambda>(r, t''). (map_sum id (\<lambda>bs. b @ bs) r, t'')) (tls_session io ssl us t'))"

fun plaintext :: "tls_use list \<Rightarrow> bytes" where
  "plaintext [] = []"
| "plaintext (Sends d # us) = d @ plaintext us"
| "plaintext (Receives n # us) = plaintext us"

text \<open>The log of a finished session, for a pipe \<open>s\<close> it began on.\<close>

definition session_ok ::
  "pipe_stream \<Rightarrow> tls_log \<Rightarrow> tls_use list \<Rightarrow> (tls_fault + bytes) \<times> ('e \<times> tls_log, pipe_stream) tls \<Rightarrow> bool" where
  "session_ok s l us res \<longleftrightarrow>
     (case res of (r, t) \<Rightarrow>
        (case r of
           Inr got \<Rightarrow> pipe_tls.faithful (sent (ps_raw s)) (stream_pending s) t \<and>
             accepted (log_of t) = accepted l @ plaintext us \<and> revealed (log_of t) = revealed l @ got
         | Inl x \<Rightarrow> pipe_tls.cut_off (sent (ps_raw s)) (stream_pending s) t))"

lemma session_runs:
  assumes "pipe_tls.faithful (sent (ps_raw s)) (stream_pending s) t"
    and "tls_session pipe_carrier (logged ssl) us t = Some res"
  shows "session_ok s (log_of t) us res"
  using assms
proof (induction us arbitrary: t res)
  case Nil
  then show ?case by (auto simp: session_ok_def)
next
  case (Cons u us)
  show ?case
  proof (cases u)
    case (Sends d)
    with Cons.prems(2) obtain r t' where r: "tls_sendall pipe_carrier (logged ssl) d t = Some (r, t')"
      by (auto split: option.splits)
    note e = pipe_tls.sendall_ends [OF r Cons.prems(1)]
    show ?thesis
    proof (cases r)
      case (Inl x)
      with Sends r e Cons.prems(2) show ?thesis by (auto simp: session_ok_def pipe_tls.sent_all_def)
    next
      case (Inr v)
      with Sends r Cons.prems(2) have "tls_session pipe_carrier (logged ssl) us t' = Some res" by simp
      with e Inr Cons.IH [of t' res] have "session_ok s (log_of t') us res" by (simp add: pipe_tls.sent_all_def)
      with e Inr Sends show ?thesis
        by (auto simp: session_ok_def pipe_tls.sent_all_def split: prod.splits sum.splits)
    qed
  next
    case (Receives n)
    with Cons.prems(2) obtain r t' where r: "tls_recv pipe_carrier (logged ssl) n t = Some (r, t')"
      by (auto split: option.splits)
    note e = pipe_tls.recv_ends [OF r Cons.prems(1)]
    show ?thesis
    proof (cases r)
      case (Inl x)
      with Receives r e Cons.prems(2) show ?thesis by (auto simp: session_ok_def)
    next
      case (Inr b)
      with Receives r Cons.prems(2) obtain res' where res': "tls_session pipe_carrier (logged ssl) us t' = Some res'"
        "res = (case res' of (r, t'') \<Rightarrow> (map_sum id (\<lambda>bs. b @ bs) r, t''))"
        by auto
      with e Inr Cons.IH [of t' res'] have "session_ok s (log_of t') us res'" by simp
      with e Inr Receives res'(2) show ?thesis by (auto simp: session_ok_def split: prod.splits sum.splits)
    qed
  qed
qed

section \<open>What waits in the outgoing BIO\<close>

lemma map_sum_Inr: "map_sum f g x = Inr y \<Longrightarrow> (\<And>z. x = Inr z \<Longrightarrow> y = g z \<Longrightarrow> P) \<Longrightarrow> P"
  by (cases x) auto

text \<open>Whatever returns has flushed; only the end by \<open>close_notify\<close> is reported without a flush.\<close>

lemma flush_out: "tls_flush io t = (Inr u, t') \<Longrightarrow> tls_out t' = []"
  by (auto simp: tls_flush_def split: if_splits prod.splits sum.splits)

lemma fill_keeps_out: "tls_fill io t = (r, t') \<Longrightarrow> tls_out t' = tls_out t"
  by (auto simp: tls_fill_def split: prod.splits sum.splits)

lemma turn_again_out: "tls_turn io fn t = Inl t' \<Longrightarrow> tls_out t' = []"
  by (auto simp: tls_turn_def andthen_def dest!: flush_out fill_keeps_out split: prod.splits ssl_outcome.splits sum.splits)

lemma turn_returned_out: "tls_turn io fn t = Inr (Inr v, t') \<Longrightarrow> tls_out t' = []"
  by (auto simp: tls_turn_def andthen_def ret_def dest: flush_out split: prod.splits ssl_outcome.splits sum.splits)

lemma io_out: "tls_io io fn t = Some (Inr v, t') \<Longrightarrow> tls_out t' = []"
  using io_last_turn [where P = "\<lambda>_. True"] turn_returned_out by fastforce

text \<open>An SSL object that writes nothing in the call that reports the end.\<close>

definition closes_quietly :: "'e ssl_object \<Rightarrow> bool" where
  "closes_quietly ssl \<longleftrightarrow> (\<forall>n e b e' k bs. ssl_read ssl n e b = (ZeroReturn, e', k, bs) \<longrightarrow> bs = [])"

lemma closes_quietly_logged: "closes_quietly ssl \<Longrightarrow> closes_quietly (logged ssl)"
  by (auto simp: closes_quietly_def logged_def logged_call_def Let_def split: prod.splits)

lemma not_zero: "tls_flush io t \<noteq> (Inl SslZeroReturn, t')" "tls_fill io t \<noteq> (Inl SslZeroReturn, t')"
  by (auto simp: tls_flush_def tls_fill_def bio_feed_def split: if_splits prod.splits sum.splits)

lemma turn_zero_out:
  assumes "tls_turn io fn t = Inr (Inl SslZeroReturn, t')" and "tls_out t = []"
    and "\<And>e b e' k bs. fn e b = (ZeroReturn, e', k, bs) \<Longrightarrow> bs = []"
  shows "tls_out t' = []"
  using assms
  by (auto simp: tls_turn_def ssl_apply_def andthen_def ret_def not_zero split: prod.splits ssl_outcome.splits sum.splits)

lemma io_zero_out:
  assumes "tls_io io fn t = Some (Inl SslZeroReturn, t')" and "tls_out t = []"
    and "\<And>e b e' k bs. fn e b = (ZeroReturn, e', k, bs) \<Longrightarrow> bs = []"
  shows "tls_out t' = []"
proof -
  obtain t1 where "tls_out t1 = []" "tls_turn io fn t1 = Inr (Inl SslZeroReturn, t')"
    using io_last_turn [where P = "\<lambda>t. tls_out t = []", OF assms(1,2)] turn_again_out by blast
  then show ?thesis using turn_zero_out assms(3) by blast
qed

lemma recv_out:
  assumes "tls_recv io ssl n t = Some (Inr b, t')" and "tls_out t = []" and "closes_quietly ssl"
  shows "tls_out t' = []"
  using assms io_out [of io "ssl_read ssl n" t] io_zero_out [of io "ssl_read ssl n" t t']
  by (auto simp: tls_recv_def closes_quietly_def split: if_splits option.splits sum.splits tls_fault.splits)

lemma sendall_out:
  assumes "tls_sendall io ssl view t = Some (Inr u, t')" and "view \<noteq> [] \<or> tls_out t = []"
  shows "tls_out t' = []"
proof -
  have "view \<noteq> [] \<or> tls_out t = [] \<longrightarrow> (case res of (Inr u, t') \<Rightarrow> tls_out t' = [] | _ \<Rightarrow> True)"
    if "tls_sendall io ssl view t = Some res" for io ssl view t res
    using that
  proof (induction rule: tls_sendall.raw_induct [rotated, consumes 1, case_names step])
    case (step rec io ssl view t res)
    show ?case
    proof (cases "view = []")
      case True
      with step(2) show ?thesis by auto
    next
      case False
      with step(2) obtain r t1 where t1: "tls_io io (ssl_write ssl view) t = Some (r, t1)"
        by (auto split: option.splits)
      show ?thesis
      proof (cases r)
        case (Inl x)
        with False step(2) t1 show ?thesis by auto
      next
        case (Inr n)
        with False step(2) t1 have "rec io ssl (drop n view) t1 = Some res" by simp
        from step(1) [OF this] io_out [of io "ssl_write ssl view" t n t1] t1 Inr show ?thesis by simp
      qed
    qed
  qed
  from this [OF assms(1)] assms(2) show ?thesis by simp
qed

lemma session_out:
  assumes "tls_session io ssl us t = Some (Inr got, t')" and "tls_out t = []" and "closes_quietly ssl"
  shows "tls_out t' = []"
  using assms(1,2)
proof (induction us arbitrary: t got)
  case (Cons u us)
  then show ?case
    using sendall_out [of io ssl _ t] recv_out [OF _ _ assms(3), of io _ t]
    by (cases u) (auto split: option.splits prod.splits sum.splits elim!: map_sum_Inr)
qed simp

lemma session_sent_out:
  assumes "tls_session io ssl (us @ [Sends d]) t = Some (Inr got, t')" and "d \<noteq> []"
  shows "tls_out t' = []"
  using assms(1)
proof (induction us arbitrary: t got)
  case Nil
  then show ?case
    using sendall_out [of io ssl d t] assms(2) by (auto split: option.splits prod.splits sum.splits)
next
  case (Cons u us)
  then show ?case
    by (cases u) (auto split: option.splits prod.splits sum.splits elim!: map_sum_Inr)
qed

section \<open>Properties\<close>

text \<open>
  C34: a TLS stream over a placed pipe moves the bytes of TLS and nothing else, in order and all of
  them. Take a stream that \<open>__init__\<close> opened on a pipe and any sequence of \<open>sendall\<close> and \<open>recv\<close> calls.
  While none fails, the pipe has carried what the SSL object produced, the SSL object has consumed
  a prefix of what the peer had on the way, it has accepted exactly the bytes given to \<open>sendall\<close>,
  and \<open>recv\<close> returned exactly what it revealed. Nothing of what was produced is left in the outgoing
  BIO when the last call was a \<open>sendall\<close> of some bytes (or there was none yet), nor after any
  sequence if the SSL object writes nothing in the very call that reports the peer's \<open>close_notify\<close>,
  the one case that is not flushed. After a failure what went out and came in are still prefixes:
  no byte is repeated, skipped or reordered before the point of failure.
\<close>

theorem tls_session_faithful:
  assumes "tls_open pipe_carrier (logged ssl) (e, empty_log) timeout s = Some (Inr u, t0)"
    and "tls_session pipe_carrier (logged ssl) us t0 = Some (r, t)"
  shows "case r of
      Inr got \<Rightarrow> sent (ps_raw (tls_raw t)) @ tls_out t = sent (ps_raw s) @ produced (log_of t) \<and>
        (us = [] \<or> (\<exists>us' d. us = us' @ [Sends d] \<and> d \<noteq> []) \<or> closes_quietly ssl \<longrightarrow>
           tls_out t = [] \<and> sent (ps_raw (tls_raw t)) = sent (ps_raw s) @ produced (log_of t)) \<and>
        prefix (consumed (log_of t)) (stream_pending s) \<and> accepted (log_of t) = plaintext us \<and> revealed (log_of t) = got
    | Inl x \<Rightarrow> prefix (sent (ps_raw (tls_raw t))) (sent (ps_raw s) @ produced (log_of t)) \<and>
        prefix (consumed (log_of t)) (stream_pending s)"
proof -
  let ?t = "\<lparr>tls_obj = (e, empty_log), tls_in = \<lparr>bio_data = [], bio_eof = False\<rparr>, tls_out = [],
      tls_raw = stream_settimeout timeout s\<rparr>"
  have "pipe_tls.faithful (sent (ps_raw s)) (stream_pending s) ?t"
    by (simp add: pipe_tls.faithful_def empty_log_def stream_settimeout_def pipe_settimeout_def stream_pending_def)
  moreover have "tls_io pipe_carrier (logged_call (\<lambda>u l. l) (do_handshake ssl)) ?t = Some (Inr u, t0)"
    using assms(1) by (simp add: tls_open_def logged_def pipe_carrier_def)
  ultimately have "pipe_tls.ends_with (sent (ps_raw s)) (stream_pending s) (\<lambda>u l. l) empty_log (Inr u, t0)"
    using pipe_tls.io_ends [of "\<lambda>u l. l" "sent (ps_raw s)" "stream_pending s" ?t] by fastforce
  then have f: "pipe_tls.faithful (sent (ps_raw s)) (stream_pending s) t0"
    and l: "accepted (log_of t0) = []" "revealed (log_of t0) = []"
    by (simp_all add: pipe_tls.ends_with_def empty_log_def)
  have t0: "tls_out t0 = []" using assms(1) io_out by (fastforce simp: tls_open_def)
  have "tls_out t = []" if "r = Inr got" "us = [] \<or> (\<exists>us' d. us = us' @ [Sends d] \<and> d \<noteq> []) \<or> closes_quietly ssl" for got
    using that assms(2) t0 session_sent_out session_out closes_quietly_logged by fastforce
  with session_runs [OF f assms(2)] l show ?thesis
    by (auto simp: session_ok_def pipe_tls.faithful_def pipe_tls.cut_off_def split: sum.splits)
qed

text \<open>
  C35: TLS over a placed pipe ends. For an SSL object that behaves as documented, opening a stream,
  every sequence of \<open>sendall\<close> and \<open>recv\<close> calls and \<open>start_tls\<close> return, whatever the peer sends.
  What a failed \<open>start_tls\<close> leaves is known: a failure that httpcore is told of has closed the pipe;
  an exception that escapes is the one of \<open>wrap_bio\<close> and no \<open>OSError\<close>, and then the pipe is left
  just as it was, open if it was open.
\<close>

theorem tls_returns:
  assumes "documented ssl"
  shows "(\<exists>res. tls_open pipe_carrier ssl e timeout s = Some res) \<and>
    (\<exists>res. tls_session pipe_carrier ssl us t = Some res) \<and>
    (\<exists>r s'. start_tls ssl wrapped timeout s = Some (r, s') \<and>
       (case r of
          Inl (Escapes x) \<Rightarrow> wrapped = Inl x \<and> \<not> is_os_error x \<and> s' = s
        | Inl _ \<Rightarrow> ps_closed s'
        | Inr t' \<Rightarrow> s' = tls_raw t' \<and> tls_out t' = [] \<and> (\<exists>e. wrapped = Inr e)))"
proof -
  have opened: "\<exists>res. tls_open pipe_carrier ssl e timeout s = Some res"
    using pipe_tls.io_returns [of "do_handshake ssl"] assms by (simp add: tls_open_def documented_def)
  moreover have "\<exists>res. tls_session pipe_carrier ssl us t = Some res"
  proof (induction us arbitrary: t)
    case (Cons u us)
    show ?case
    proof (cases u)
      case (Sends d)
      obtain r t' where "tls_sendall pipe_carrier ssl d t = Some (r, t')"
        using pipe_tls.sendall_returns [OF assms] by (metis surj_pair)
      with Sends Cons.IH [of t'] show ?thesis by (cases r) auto
    next
      case (Receives n)
      obtain r t' where "tls_recv pipe_carrier ssl n t = Some (r, t')"
        using pipe_tls.recv_returns [OF assms] by (metis surj_pair)
      with Receives Cons.IH [of t'] show ?thesis by (cases r) auto
    qed
  qed simp
  moreover have "\<exists>r s'. start_tls ssl wrapped timeout s = Some (r, s') \<and>
       (case r of
          Inl (Escapes x) \<Rightarrow> wrapped = Inl x \<and> \<not> is_os_error x \<and> s' = s
        | Inl _ \<Rightarrow> ps_closed s'
        | Inr t' \<Rightarrow> s' = tls_raw t' \<and> tls_out t' = [] \<and> (\<exists>e. wrapped = Inr e))"
  proof (cases wrapped)
    case (Inl x)
    then show ?thesis by (auto simp: start_tls_def stream_close_def)
  next
    case (Inr e')
    obtain r t' where o: "tls_open pipe_carrier ssl e' timeout s = Some (r, t')"
      using pipe_tls.io_returns [of "do_handshake ssl"] assms by (fastforce simp: tls_open_def documented_def)
    then have "r = Inr u \<Longrightarrow> tls_out t' = []" for u by (auto simp: tls_open_def dest: io_out)
    with o Inr show ?thesis by (cases r) (auto simp: start_tls_def stream_close_def)
  qed
  ultimately show ?thesis by blast
qed

section \<open>Witnesses\<close>

text \<open>A toy cipher that adds one to every byte, and writes one byte at a time.\<close>

definition demo_ssl :: "nat ssl_object" where
  "demo_ssl = \<lparr>
     do_handshake = (\<lambda>e b. if bio_data b \<noteq> [] then (Returned (), 2, 1, [])
        else if bio_eof b then (SslFailed, e, 0, []) else (WantRead, 1, 0, if e = 0 then [1] else [])),
     ssl_read = (\<lambda>n e b. if bio_data b \<noteq> [] then (Returned (map (\<lambda>c. c + 1) (take n (bio_data b))), e, n, [])
        else (if bio_eof b then ZeroReturn else WantRead, e, 0, [])),
     ssl_write = (\<lambda>d e b. (Returned 1, e, 0, map (\<lambda>c. c + 1) (take 1 d))),
     ssl_pending = (\<lambda>e. 0)\<rparr>"

definition demo_pipe :: pipe_stream where
  "demo_pipe = \<lparr>ps_raw = (new_pipe 5)\<lparr>reads := [(Issued 0 0 (Completed 1 0), [9]), (Issued 0 0 (Completed 2 0), [20, 21])],
     writes := replicate 3 (Issued 0 0 (Completed 1 0))\<rparr>, ps_closed = False\<rparr>"

lemma demo_documented: "documented demo_ssl"
  by (simp add: documented_def demo_ssl_def settled_def)

text \<open>The stream after the handshake, and after the session below.\<close>

definition demo_stream :: "tls_log \<Rightarrow> (overlapped \<times> bytes) list \<Rightarrow> nat \<Rightarrow> bytes \<Rightarrow> (nat \<times> tls_log, pipe_stream) tls" where
  "demo_stream l rs n out =
     \<lparr>tls_obj = (2, l), tls_in = \<lparr>bio_data = [], bio_eof = False\<rparr>, tls_out = [],
      tls_raw = \<lparr>ps_raw = (new_pipe 5)\<lparr>reads := rs, writes := replicate n (Issued 0 0 (Completed 1 0)), sent := out\<rparr>,
        ps_closed = False\<rparr>\<rparr>"

definition demo_open :: "(nat \<times> tls_log, pipe_stream) tls" where
  "demo_open = demo_stream (empty_log\<lparr>consumed := [9], produced := [1]\<rparr>) [(Issued 0 0 (Completed 2 0), [20, 21])] 2 [1]"

definition demo_sent :: "(nat \<times> tls_log, pipe_stream) tls" where
  "demo_sent = demo_stream (empty_log\<lparr>consumed := [9], produced := [1, 8, 9], accepted := [7, 8]\<rparr>)
     [(Issued 0 0 (Completed 2 0), [20, 21])] 0 [1, 8, 9]"

definition demo_end :: "(nat \<times> tls_log, pipe_stream) tls" where
  "demo_end = demo_stream \<lparr>consumed = [9, 20, 21], produced = [1, 8, 9], accepted = [7, 8], revealed = [21, 22]\<rparr> [] 0 [1, 8, 9]"

lemmas demo_run = tls_turn_def ssl_apply_def tls_flush_def tls_fill_def andthen_def ret_def pipe_carrier_def
  logged_def logged_call_def demo_ssl_def demo_pipe_def new_pipe_def stream_recv_def stream_sendall_def pipe_recv_def
  pipe_sendall_def win_codes tls_read_chunk_def bio_feed_def moved_def leftover_def empty_log_def Let_def
  demo_stream_def stream_settimeout_def pipe_settimeout_def numeral_2_eq_2 numeral_3_eq_3

lemma demo_opens: "tls_open pipe_carrier (logged demo_ssl) (0, empty_log) None demo_pipe = Some (Inr (), demo_open)"
  by (simp add: tls_open_def tls_io.simps demo_run demo_open_def)

lemma demo_sends: "tls_sendall pipe_carrier (logged demo_ssl) [7, 8] demo_open = Some (Inr (), demo_sent)"
  by (simp add: tls_sendall.simps tls_io.simps demo_run demo_open_def demo_sent_def)

lemma demo_receives: "tls_recv pipe_carrier (logged demo_ssl) 5 demo_sent = Some (Inr [21, 22], demo_end)"
  by (simp add: tls_recv_def tls_io.simps demo_run demo_sent_def demo_end_def)

theorem tls_session_faithful_witness:
  "tls_open pipe_carrier (logged demo_ssl) (0, empty_log) None demo_pipe = Some (Inr (), demo_open) \<and>
   tls_session pipe_carrier (logged demo_ssl) [Sends [7, 8], Receives 5] demo_open = Some (Inr [21, 22], demo_end) \<and>
   sent (ps_raw (tls_raw demo_end)) = [] @ produced (log_of demo_end) \<and> accepted (log_of demo_end) = [7, 8]"
proof -
  have run: "tls_session pipe_carrier (logged demo_ssl) [Sends [7, 8], Receives 5] demo_open = Some (Inr [21, 22], demo_end)"
    by (simp add: demo_sends demo_receives)
  have "tls_out demo_end = []" "sent (ps_raw demo_pipe) = []"
    by (simp_all add: demo_end_def demo_stream_def demo_pipe_def new_pipe_def)
  with tls_session_faithful [OF demo_opens run] demo_opens run show ?thesis by simp
qed

theorem tls_returns_witness:
  "(\<exists>res. tls_open pipe_carrier demo_ssl 0 None demo_pipe = Some res) \<and>
   start_tls demo_ssl (Inl (ValueError (lit ''server_hostname''))) None demo_pipe =
     Some (Inl (Escapes (ValueError (lit ''server_hostname''))), demo_pipe) \<and>
   (\<exists>r s'. start_tls demo_ssl (Inr 0) None demo_pipe = Some (r, s') \<and> (\<forall>x. r \<noteq> Inl (Escapes x)))"
proof -
  have "start_tls demo_ssl (Inl (ValueError v)) None demo_pipe = Some (Inl (Escapes (ValueError v)), demo_pipe)" for v
    by (simp add: start_tls_def)
  moreover have "\<exists>r s'. start_tls demo_ssl (Inr 0) None demo_pipe = Some (r, s') \<and> (\<forall>x. r \<noteq> Inl (Escapes x))"
    using tls_returns [OF demo_documented, of 0 None demo_pipe "[]" _ "Inr 0"] by (fastforce split: sum.splits)
  ultimately show ?thesis using tls_returns [OF demo_documented] by blast
qed

end
