(* ===== verification/Ipc_Frame.thy ===== *)
theory Ipc_Frame
  imports Sockets
begin

text \<open>
  The framing and the version handshake of \<open>python/src/hawcx_haap/ipc.py\<close>. The reader is proved
  against a parser of the byte stream, so a theorem about it holds for every fragmentation.
\<close>

section \<open>Frames\<close>

definition max_message_size :: nat where "max_message_size = 64 * 1024"

definition msg_type_handshake :: byte where "msg_type_handshake = 0"
definition msg_tool_call_request :: byte where "msg_tool_call_request = 0x52"
definition msg_tool_call_response :: byte where "msg_tool_call_response = 0x53"
definition msg_request_rejected :: byte where "msg_request_rejected = 0x54"
definition msg_clarification_answer :: byte where "msg_clarification_answer = 0x61"

lemmas msg_types = msg_type_handshake_def msg_tool_call_request_def msg_tool_call_response_def
  msg_request_rejected_def msg_clarification_answer_def

definition encode_frame :: "byte \<Rightarrow> bytes \<Rightarrow> exn + bytes" where
  "encode_frame msg_type payload =
     (let msg_len = 1 + length payload in
      if max_message_size < msg_len then Inl (IpcError (FrameTooLarge msg_len))
      else Inr (to_be 4 msg_len @ [msg_type] @ payload))"

text \<open>\<open>_recv_exact\<close>: an operating-system error passes through, a close is an \<open>IpcError\<close>.\<close>

definition recv_exact :: "nat \<Rightarrow> (exn, sock, bytes) act" where
  "recv_exact n s =
     (case read_loop sock_recv n [] s of
        (Inr buf, s') \<Rightarrow> (Inr buf, s')
      | (Inl (None, buf), s') \<Rightarrow> (Inl (IpcError PeerClosedMidMessage), s')
      | (Inl (Some k, buf), s') \<Rightarrow> (Inl (OSError k), s'))"

definition read_frame :: "(exn, sock, byte \<times> bytes) act" where
  "read_frame =
     andthen (recv_exact 4) (\<lambda>length_bytes.
       let msg_len = from_be length_bytes in
       if msg_len = 0 then throw (IpcError FrameLengthZero)
       else if max_message_size < msg_len then throw (IpcError (FrameTooLarge msg_len))
       else andthen (recv_exact msg_len) (\<lambda>body. ret (body ! 0, drop 1 body)))"

definition write_frame :: "byte \<Rightarrow> bytes \<Rightarrow> (exn, sock, unit) act" where
  "write_frame msg_type payload =
     andthen (lift (encode_frame msg_type payload)) (\<lambda>f s.
       case sock_sendall f s of (Inl k, s') \<Rightarrow> (Inl (OSError k), s') | (Inr u, s') \<Rightarrow> (Inr (), s'))"

section \<open>The handshake\<close>

definition protocol_version :: nat where "protocol_version = 1"
definition sdk_version_major :: nat where "sdk_version_major = 0"
definition sdk_version_minor :: nat where "sdk_version_minor = 5"
definition sdk_version_patch :: nat where "sdk_version_patch = 0"
definition role_agent :: byte where "role_agent = 4"
definition role_assembler :: byte where "role_assembler = 5"

lemmas version_defs = protocol_version_def sdk_version_major_def sdk_version_minor_def
  sdk_version_patch_def role_agent_def role_assembler_def

definition encode_handshake :: "byte \<Rightarrow> bytes" where
  "encode_handshake role =
     to_be 2 protocol_version @ to_be 2 sdk_version_major @ to_be 2 sdk_version_minor
       @ to_be 2 sdk_version_patch @ [role]"

definition decode_handshake :: "bytes \<Rightarrow> exn + nat \<times> nat \<times> nat \<times> nat \<times> byte" where
  "decode_handshake payload =
     (if length payload < 9 then Inl (IpcError (HandshakeShort (length payload)))
      else Inr (from_be (take 2 payload), from_be (take 2 (drop 2 payload)),
                from_be (take 2 (drop 4 payload)), from_be (take 2 (drop 6 payload)), payload ! 8))"

definition perform_handshake :: "byte \<Rightarrow> (exn, sock, byte) act" where
  "perform_handshake local_role =
     andthen (write_frame msg_type_handshake (encode_handshake local_role)) (\<lambda>_.
     andthen read_frame (\<lambda>(msg_type, payload).
       if msg_type \<noteq> msg_type_handshake then throw (IpcError (ExpectedHandshake (unat msg_type)))
       else andthen (lift (decode_handshake payload)) (\<lambda>(proto, major, minor, patch, role).
         if major \<noteq> sdk_version_major then throw (HandshakeError sdk_version_major major)
         else ret role)))"

section \<open>The parser the reader implements\<close>

definition end_of_input :: "os_kind option \<Rightarrow> exn" where
  "end_of_input st = (case st of None \<Rightarrow> IpcError PeerClosedMidMessage | Some k \<Rightarrow> OSError k)"

definition parse_frame :: "bytes \<Rightarrow> os_kind option \<Rightarrow> exn + (byte \<times> bytes) \<times> bytes" where
  "parse_frame bs st =
     (if length bs < 4 then Inl (end_of_input st)
      else let n = from_be (take 4 bs); r = drop 4 bs in
        if n = 0 then Inl (IpcError FrameLengthZero)
        else if max_message_size < n then Inl (IpcError (FrameTooLarge n))
        else if length r < n then Inl (end_of_input st)
        else Inr ((r ! 0, drop 1 (take n r)), drop n r))"

lemma recv_exact_enough:
  assumes "n \<le> length (sock_pending s)"
  obtains s' where "recv_exact n s = (Inr (take n (sock_pending s)), s')"
    and "sock_pending s' = drop n (sock_pending s)" and "sock_stop s' = sock_stop s"
    and "s'\<lparr>rx := []\<rparr> = s\<lparr>rx := []\<rparr>"
proof -
  from sock.read_loop_enough [of n "[]" s] assms
  obtain s' where r: "read_loop sock_recv n [] s = (Inr (take n (sock_pending s)), s')"
    and p: "sock_pending s' = drop n (sock_pending s)" "sock_stop s' = sock_stop s"
    by auto
  moreover from sock.read_loop_frame [of n "[]" s] r have "s'\<lparr>rx := []\<rparr> = s\<lparr>rx := []\<rparr>" by simp
  ultimately show thesis by (intro that [of s']) (simp_all add: recv_exact_def)
qed

lemma recv_exact_short:
  assumes "length (sock_pending s) < n"
  obtains s' where "recv_exact n s = (Inl (end_of_input (sock_stop s)), s')"
    and "s'\<lparr>rx := []\<rparr> = s\<lparr>rx := []\<rparr>"
proof -
  obtain r s' where r: "read_loop sock_recv n [] s = (r, s')" by force
  with sock.read_loop_short [of "[]" s n] assms have "r = Inl (sock_stop s, sock_pending s)" by simp
  moreover from sock.read_loop_frame [of n "[]" s] r have "s'\<lparr>rx := []\<rparr> = s\<lparr>rx := []\<rparr>" by simp
  ultimately show thesis using r
    by (intro that [of s']) (auto simp: recv_exact_def end_of_input_def split: option.splits)
qed

lemma read_frame_parses:
  obtains s' where "read_frame s =
      (case parse_frame (sock_pending s) (sock_stop s) of
         Inl e \<Rightarrow> (Inl e, s')
       | Inr (f, rest) \<Rightarrow> (Inr f, s'))"
    and "s'\<lparr>rx := []\<rparr> = s\<lparr>rx := []\<rparr>"
    and "\<forall>f rest. parse_frame (sock_pending s) (sock_stop s) = Inr (f, rest) \<longrightarrow>
           sock_pending s' = rest \<and> sock_stop s' = sock_stop s"
proof (cases "length (sock_pending s) < 4")
  case True
  then obtain s1 where "recv_exact 4 s = (Inl (end_of_input (sock_stop s)), s1)"
    and f: "s1\<lparr>rx := []\<rparr> = s\<lparr>rx := []\<rparr>" by (rule recv_exact_short)
  with True show thesis by (intro that [OF _ f]) (simp_all add: read_frame_def parse_frame_def andthen_def)
next
  case False
  let ?p = "sock_pending s"
  let ?n = "from_be (take 4 ?p)"
  from False obtain s1 where r1: "recv_exact 4 s = (Inr (take 4 ?p), s1)" and p1: "sock_pending s1 = drop 4 ?p"
    "sock_stop s1 = sock_stop s" and f1: "s1\<lparr>rx := []\<rparr> = s\<lparr>rx := []\<rparr>"
    using recv_exact_enough [of 4 s] by (metis not_le)
  show thesis
  proof (cases "?n = 0 \<or> max_message_size < ?n")
    case True
    with False r1 show thesis
      by (intro that [OF _ f1]) (auto simp: read_frame_def parse_frame_def andthen_def throw_def Let_def)
  next
    case ok: False
    show thesis
    proof (cases "length (drop 4 ?p) < ?n")
      case True
      then obtain s2 where "recv_exact ?n s1 = (Inl (end_of_input (sock_stop s1)), s2)"
        and f2: "s2\<lparr>rx := []\<rparr> = s1\<lparr>rx := []\<rparr>" using recv_exact_short [of s1 ?n] p1 by metis
      with False True ok r1 p1 f1 show thesis
        by (intro that [of s2]) (auto simp: read_frame_def parse_frame_def andthen_def Let_def)
    next
      case enough: False
      then obtain s2 where "recv_exact ?n s1 = (Inr (take ?n (drop 4 ?p)), s2)"
        and p2: "sock_pending s2 = drop ?n (drop 4 ?p)" "sock_stop s2 = sock_stop s1"
        and f2: "s2\<lparr>rx := []\<rparr> = s1\<lparr>rx := []\<rparr>"
        using recv_exact_enough [of ?n s1] p1 by (metis not_le)
      with False enough ok r1 p1 f1 show thesis
        by (intro that [of s2]) (auto simp: read_frame_def parse_frame_def andthen_def ret_def Let_def)
    qed
  qed
qed


lemma parse_encode:
  assumes "encode_frame t payload = Inr f"
  shows "parse_frame (f @ rest) st = Inr ((t, payload), rest)"
proof -
  let ?n = "1 + length payload"
  from assms have f: "f = to_be 4 ?n @ [t] @ payload" and n: "?n \<le> max_message_size"
    by (auto simp: encode_frame_def Let_def split: if_splits)
  have "from_be (to_be 4 ?n) = ?n" using n by (intro from_be_to_be) (simp add: max_message_size_def)
  with n show ?thesis unfolding f by (simp add: parse_frame_def Let_def)
qed

lemma encode_frame_ok: "length payload < max_message_size \<Longrightarrow> encode_frame t payload = Inr (to_be 4 (1 + length payload) @ [t] @ payload)"
  by (simp add: encode_frame_def Let_def)

lemma decode_handshake_fields:
  assumes "proto < 65536" and "major < 65536" and "minor < 65536" and "patch < 65536"
  shows "decode_handshake (to_be 2 proto @ to_be 2 major @ to_be 2 minor @ to_be 2 patch @ [role] @ extra)
           = Inr (proto, major, minor, patch, role)"
proof -
  obtain a b where 1: "to_be 2 proto = [a, b]" by (rule length2_obtain [of "to_be 2 proto"]) auto
  obtain c d where 2: "to_be 2 major = [c, d]" by (rule length2_obtain [of "to_be 2 major"]) auto
  obtain e f where 3: "to_be 2 minor = [e, f]" by (rule length2_obtain [of "to_be 2 minor"]) auto
  obtain g h where 4: "to_be 2 patch = [g, h]" by (rule length2_obtain [of "to_be 2 patch"]) auto
  have "from_be [a, b] = proto" "from_be [c, d] = major" "from_be [e, f] = minor" "from_be [g, h] = patch"
    using assms from_be_to_be [of proto 2] from_be_to_be [of major 2] from_be_to_be [of minor 2]
      from_be_to_be [of patch 2] 1 2 3 4 by auto
  then show ?thesis by (simp add: decode_handshake_def 1 2 3 4)
qed

text \<open>What the peer's first bytes make of a handshake.\<close>

definition handshake_verdict :: "bytes \<Rightarrow> os_kind option \<Rightarrow> exn + byte \<times> bytes" where
  "handshake_verdict bs st =
     (case parse_frame bs st of
        Inl e \<Rightarrow> Inl e
      | Inr ((t, payload), rest) \<Rightarrow>
          if t \<noteq> msg_type_handshake then Inl (IpcError (ExpectedHandshake (unat t)))
          else if length payload < 9 then Inl (IpcError (HandshakeShort (length payload)))
          else let major = from_be (take 2 (drop 2 payload)) in
            if major \<noteq> sdk_version_major then Inl (HandshakeError sdk_version_major major)
            else Inr (payload ! 8, rest))"

lemma length_encode_handshake [simp]: "length (encode_handshake r) = 9"
  by (simp add: encode_handshake_def)

definition hello :: "byte \<Rightarrow> bytes" where
  "hello role = to_be 4 10 @ [msg_type_handshake] @ encode_handshake role"

lemma perform_handshake_verdict:
  assumes "is_open s" and "tx_plan s = []"
  obtains s' where "perform_handshake role s =
      (case handshake_verdict (sock_pending s) (sock_stop s) of Inl e \<Rightarrow> (Inl e, s') | Inr (r, rest) \<Rightarrow> (Inr r, s'))"
    and "tx s' = tx s @ hello role" and "is_open s'" and "tx_plan s' = []" and "deadline s' = deadline s"
    and "\<forall>r rest. handshake_verdict (sock_pending s) (sock_stop s) = Inr (r, rest) \<longrightarrow>
           sock_pending s' = rest \<and> sock_stop s' = sock_stop s"
proof -
  let ?s1 = "s\<lparr>tx := tx s @ hello role\<rparr>"
  have w: "write_frame msg_type_handshake (encode_handshake role) s = (Inr (), ?s1)"
    using assms by (simp add: write_frame_def encode_frame_ok max_message_size_def andthen_def lift_def
        sock_sendall_def hello_def)
  have v: "sock_pending ?s1 = sock_pending s" "sock_stop ?s1 = sock_stop s"
    by (simp_all add: sock_pending_def sock_stop_def)
  obtain s' where r: "read_frame ?s1 =
      (case parse_frame (sock_pending s) (sock_stop s) of Inl e \<Rightarrow> (Inl e, s') | Inr (f, rest) \<Rightarrow> (Inr f, s'))"
    and f: "s'\<lparr>rx := []\<rparr> = ?s1\<lparr>rx := []\<rparr>"
    and p: "\<forall>f rest. parse_frame (sock_pending s) (sock_stop s) = Inr (f, rest) \<longrightarrow>
           sock_pending s' = rest \<and> sock_stop s' = sock_stop s"
    by (rule read_frame_parses [of ?s1, unfolded v]) (rule that)
  have fld: "tx s' = tx s @ hello role" "is_open s'" "tx_plan s' = []" "deadline s' = deadline s"
    using sock_frame_fields [OF f] assms by simp_all
  show thesis
  proof (rule that [OF _ fld])
    show "perform_handshake role s =
      (case handshake_verdict (sock_pending s) (sock_stop s) of Inl e \<Rightarrow> (Inl e, s') | Inr (r, rest) \<Rightarrow> (Inr r, s'))"
      using r by (auto simp: perform_handshake_def handshake_verdict_def w decode_handshake_def
          andthen_def throw_def lift_def ret_def Let_def split: sum.splits)
    have "\<exists>f. parse_frame (sock_pending s) (sock_stop s) = Inr (f, rest)"
      if "handshake_verdict (sock_pending s) (sock_stop s) = Inr (r, rest)" for r rest
      using that by (auto simp: handshake_verdict_def Let_def split: sum.splits if_splits)
    with p show "\<forall>r rest. handshake_verdict (sock_pending s) (sock_stop s) = Inr (r, rest) \<longrightarrow>
           sock_pending s' = rest \<and> sock_stop s' = sock_stop s" by blast
  qed
qed


lemma handshake_verdict_hello:
  "handshake_verdict (hello role @ rest) st = Inr (role, rest)"
proof -
  have "encode_frame msg_type_handshake (encode_handshake role) = Inr (hello role)"
    by (simp add: encode_frame_def max_message_size_def hello_def)
  from parse_encode [OF this, of rest st]
  have p: "parse_frame (hello role @ rest) st = Inr ((msg_type_handshake, encode_handshake role), rest)" .
  have "decode_handshake (encode_handshake role @ []) = Inr (1, 0, 5, 0, role)"
    unfolding encode_handshake_def append_assoc
    by (subst decode_handshake_fields) (simp_all add: version_defs)
  then have "from_be (take 2 (drop 2 (encode_handshake role))) = 0" "encode_handshake role ! 8 = role"
    by (simp_all add: decode_handshake_def)
  with p show ?thesis by (simp add: handshake_verdict_def version_defs)
qed

section \<open>Properties\<close>

text \<open>
  C5: what one side frames, the other reads back. If the encoder accepts a message, then a
  reader whose peer's bytes start with the frame, cut into segments in any way, returns that
  type and payload and leaves exactly the bytes behind the frame unread.
\<close>

theorem frame_roundtrip:
  assumes "encode_frame t payload = Inr f" and "sock_pending s = f @ rest"
  shows "\<exists>s'. read_frame s = (Inr (t, payload), s') \<and> sock_pending s' = rest \<and> tx s' = tx s"
proof -
  have v: "parse_frame (sock_pending s) (sock_stop s) = Inr ((t, payload), rest)"
    using parse_encode [OF assms(1)] assms(2) by simp
  obtain s' where r: "read_frame s = (case parse_frame (sock_pending s) (sock_stop s) of
         Inl e \<Rightarrow> (Inl e, s') | Inr (f, rest) \<Rightarrow> (Inr f, s'))"
    and f: "s'\<lparr>rx := []\<rparr> = s\<lparr>rx := []\<rparr>"
    and p: "\<forall>f rest. parse_frame (sock_pending s) (sock_stop s) = Inr (f, rest) \<longrightarrow>
           sock_pending s' = rest \<and> sock_stop s' = sock_stop s"
    by (rule read_frame_parses)
  from r v have "read_frame s = (Inr (t, payload), s')" by simp
  with p v sock_frame_fields [OF f] show ?thesis by auto
qed

theorem frame_roundtrip_witness:
  "\<exists>s'. read_frame \<lparr>rx = [Data [0, 0], Data [0, 3, 0x53], Data [7, 8, 9]], tx = [], tx_plan = [],
       is_open = True, deadline = None\<rparr> = (Inr (0x53, [7, 8]), s') \<and> sock_pending s' = [9] \<and> tx s' = []"
proof -
  let ?s = "\<lparr>rx = [Data [0, 0], Data [0, 3, 0x53], Data [7, 8, 9]], tx = [], tx_plan = [],
       is_open = True, deadline = None\<rparr>"
  have "encode_frame 0x53 [7, 8] = Inr [0, 0, 0, 3, 0x53, 7, 8]"
    by (simp add: encode_frame_def max_message_size_def to_be_4)
  moreover have "sock_pending ?s = [0, 0, 0, 3, 0x53, 7, 8] @ [9]" by (simp add: sock_pending_def)
  ultimately show ?thesis using frame_roundtrip [of "0x53" "[7, 8]" _ ?s "[9]"] by simp
qed

text \<open>
  C6: the reader is the length-prefixed parser. On every byte stream, with every way of ending,
  the result of \<open>read_frame\<close> is that of \<open>parse_frame\<close>: zero and oversized lengths are refused
  from the four length bytes alone, a stream that stops early gives the close or the
  operating-system error, and the writer's side of the socket is untouched.
\<close>

theorem read_frame_refines_parser:
  "fst (read_frame s) = (case parse_frame (sock_pending s) (sock_stop s) of
      Inl e \<Rightarrow> Inl e | Inr (f, rest) \<Rightarrow> Inr f) \<and>
   tx (snd (read_frame s)) = tx s \<and> is_open (snd (read_frame s)) = is_open s"
proof -
  obtain s' where r: "read_frame s = (case parse_frame (sock_pending s) (sock_stop s) of
         Inl e \<Rightarrow> (Inl e, s') | Inr (f, rest) \<Rightarrow> (Inr f, s'))"
    and f: "s'\<lparr>rx := []\<rparr> = s\<lparr>rx := []\<rparr>"
    and "\<forall>f rest. parse_frame (sock_pending s) (sock_stop s) = Inr (f, rest) \<longrightarrow>
           sock_pending s' = rest \<and> sock_stop s' = sock_stop s"
    by (rule read_frame_parses)
  with sock_frame_fields [OF f] show ?thesis by (auto split: sum.splits)
qed

end
