(* ===== verification/Ipc_Path.thy ===== *)
theory Ipc_Path
  imports Sockets
begin

text \<open>
  The checks \<open>ipc.py\<close> makes of a socket path before and after it connects, and the connect
  itself. POSIX paths are strings with the normalisation of \<open>pathlib\<close>; the file system, the
  kernel's peer credentials and the outcome of \<open>connect\<close> are the environment \<open>dial\<close>, which
  answers a \<open>stat\<close> before and after the connection separately (the window the code guards).
\<close>

unbundle bit_operations_syntax

section \<open>POSIX paths\<close>

text \<open>\<open>pathlib.PurePosixPath\<close>: the root (one slash, or exactly two) and the parts.\<close>

definition path_root :: "pystr \<Rightarrow> pystr" where
  "path_root p = (if starts [47, 47] p \<and> \<not> starts [47, 47, 47] p then [47, 47]
                  else if starts [47] p then [47] else [])"

definition path_parts :: "pystr \<Rightarrow> pystr list" where
  "path_parts p = filter (\<lambda>w. w \<noteq> [] \<and> w \<noteq> [46]) (split_on 47 p)"

definition path_str :: "pystr \<Rightarrow> pystr list \<Rightarrow> pystr" where
  "path_str root parts = (if root = [] \<and> parts = [] then [46] else root @ join_with [47] parts)"

definition path_norm :: "pystr \<Rightarrow> pystr" where
  "path_norm p = path_str (path_root p) (path_parts p)"

definition path_parent :: "pystr \<Rightarrow> pystr" where
  "path_parent p = path_str (path_root p) (butlast (path_parts p))"

text \<open>\<open>Path(p) / q\<close>: an absolute right operand replaces the left one.\<close>

definition path_join :: "pystr \<Rightarrow> pystr \<Rightarrow> pystr" where
  "path_join p q =
     (if path_root q \<noteq> [] then path_norm q else path_str (path_root p) (path_parts p @ path_parts q))"

section \<open>Integers in environment variables\<close>

text \<open>
  \<open>int(s, 10)\<close>: surrounding white space, one sign, digits, single underscores between digits.
  (Python also reads non-ASCII decimal digits, which are rejected here.)
\<close>

fun digit_groups :: "pystr \<Rightarrow> bool" where
  "digit_groups [] = False"
| "digit_groups [c] = is_digit c"
| "digit_groups (c # d # s) = (is_digit c \<and> (if d = 95 then digit_groups s else digit_groups (d # s)))"

definition py_int :: "pystr \<Rightarrow> int option" where
  "py_int text =
     (let s = strip text;
          neg = (case s of c # _ \<Rightarrow> c = 45 | [] \<Rightarrow> False);
          t = (case s of c # r \<Rightarrow> if c = 45 \<or> c = 43 then r else s | [] \<Rightarrow> [])
      in if digit_groups t
         then Some ((if neg then - 1 else 1) * int (dec_value (filter (\<lambda>c. c \<noteq> 95) t)))
         else None)"

section \<open>The environment of one connection attempt\<close>

record stat_result =
  st_is_sock :: bool
  st_dev :: nat
  st_ino :: nat
  st_uid :: nat
  st_perms :: nat      \<comment> \<open>\<open>st_mode & 0o777\<close>\<close>

record dial =
  stat_before :: "pystr \<Rightarrow> os_kind + stat_result"
  stat_after :: "pystr \<Rightarrow> os_kind + stat_result"
  getuid :: nat
  connect_result :: "os_kind option"
  peer_cred :: "(os_kind + int) option"    \<comment> \<open>\<open>None\<close>: no \<open>SO_PEERCRED\<close> on this platform\<close>
  fresh :: sock

type_synonym env = "pystr \<Rightarrow> pystr option"

definition expected_uid :: "env \<Rightarrow> stat_result \<Rightarrow> exn + int" where
  "expected_uid env pre =
     (case env (lit ''HAAP_SDK_EXPECTED_PEER_UID'') of
        None \<Rightarrow> Inr (int (st_uid pre))
      | Some t \<Rightarrow> (case py_int t of None \<Rightarrow> Inl (IpcError (BadExpectedUid t)) | Some u \<Rightarrow> Inr u))"

definition validate_ipc_socket_path :: "env \<Rightarrow> dial \<Rightarrow> pystr \<Rightarrow> exn + stat_result" where
  "validate_ipc_socket_path env d socket_path =
     (case stat_before d (path_norm socket_path) of
        Inl k \<Rightarrow> Inl (IpcError (StatFailed socket_path k))
      | Inr pre \<Rightarrow>
          if \<not> st_is_sock pre then Inl (IpcError (NotUnixSocket socket_path))
          else (case expected_uid env pre of
            Inl e \<Rightarrow> Inl e
          | Inr u \<Rightarrow>
              (case stat_before d (path_parent socket_path) of
                 Inl k \<Rightarrow> Inl (IpcError (ParentStatFailed (path_parent socket_path) k))
               | Inr parent \<Rightarrow>
                   if st_uid parent \<noteq> getuid d \<and> st_uid parent \<noteq> 0
                   then Inl (IpcError (ParentOwner (path_parent socket_path) (st_uid parent) (getuid d)))
                   else if st_perms parent AND 18 \<noteq> 0 \<and>
                           env (lit ''HAAP_SDK_ALLOW_TMP_IPC'') \<noteq> Some (lit ''1'')
                   then Inl (IpcError (ParentMode (path_parent socket_path) (st_perms parent)))
                   else Inr pre)))"

text \<open>\<open>_verify_peer_after_connect\<close>: the verdict, and the socket (closed on a mismatch).\<close>

definition verify_peer_after_connect ::
  "env \<Rightarrow> dial \<Rightarrow> stat_result \<Rightarrow> pystr \<Rightarrow> (exn, sock, unit) act" where
  "verify_peer_after_connect env d pre socket_path s =
     (case expected_uid env pre of
        Inl e \<Rightarrow> (Inl e, s)
      | Inr expected \<Rightarrow>
          (case peer_cred d of
             Some (Inl k) \<Rightarrow> (Inl (OSError k), s)
           | Some (Inr uid) \<Rightarrow>
               if uid \<noteq> expected
               then (Inl (IpcError (PeerUid socket_path uid expected)), sock_close s)
               else (Inr (), s)
           | None \<Rightarrow>
               (case stat_after d (path_norm socket_path) of
                  Inl k \<Rightarrow> (Inl (IpcError (RestatFailed socket_path k)), sock_close s)
                | Inr post \<Rightarrow>
                    if \<not> st_is_sock post \<or> st_dev post \<noteq> st_dev pre \<or> st_ino post \<noteq> st_ino pre \<or>
                       st_uid post \<noteq> st_uid pre
                    then (Inl (IpcError (SocketSwapped socket_path)), sock_close s)
                    else (Inr (), s))))"

text \<open>\<open>_connect_unix\<close>; the result carries the socket it created, if it got that far.\<close>

definition connect_unix ::
  "env \<Rightarrow> dial \<Rightarrow> pystr \<Rightarrow> timeout \<Rightarrow> (exn + unit) \<times> sock option" where
  "connect_unix env d path timeout =
     (case validate_ipc_socket_path env d path of
        Inl e \<Rightarrow> (Inl e, None)
      | Inr pre \<Rightarrow>
          (let s = (case timeout of None \<Rightarrow> fresh d | Some t \<Rightarrow> set_deadline (Some t) (fresh d)) in
           case connect_result d of
             Some k \<Rightarrow> (Inl (IpcError (DiagnosedOs path (lit ''connect'') timeout k)), Some (sock_close s))
           | None \<Rightarrow>
               (case verify_peer_after_connect env d pre path s of
                  (Inl e, s') \<Rightarrow> (Inl e, Some s')
                | (Inr u, s') \<Rightarrow> (Inr (), Some s'))))"

section \<open>What the checks establish\<close>

lemma validate_Inr:
  assumes "validate_ipc_socket_path env d path = Inr pre"
  obtains parent u where "stat_before d (path_norm path) = Inr pre" and "st_is_sock pre"
    and "stat_before d (path_parent path) = Inr parent" and "st_uid parent \<in> {getuid d, 0}"
    and "st_perms parent AND 18 = 0 \<or> env (lit ''HAAP_SDK_ALLOW_TMP_IPC'') = Some (lit ''1'')"
    and "expected_uid env pre = Inr u"
  using assms by (auto simp: validate_ipc_socket_path_def split: sum.splits if_splits)

text \<open>The identity of the process at the other end, as far as the platform can tell.\<close>

definition peer_trusted :: "env \<Rightarrow> dial \<Rightarrow> stat_result \<Rightarrow> pystr \<Rightarrow> bool" where
  "peer_trusted env d pre path \<longleftrightarrow>
     (case peer_cred d of
        Some (Inr uid) \<Rightarrow> expected_uid env pre = Inr uid
      | Some (Inl k) \<Rightarrow> False
      | None \<Rightarrow> (\<exists>post. stat_after d (path_norm path) = Inr post \<and> st_is_sock post \<and>
                   (st_dev post, st_ino post, st_uid post) = (st_dev pre, st_ino pre, st_uid pre)))"

lemma verify_peer_Inr:
  "verify_peer_after_connect env d pre path s = (Inr u, s') \<Longrightarrow> s' = s \<and> peer_trusted env d pre path"
  by (auto simp: verify_peer_after_connect_def peer_trusted_def
      split: sum.splits option.splits if_splits)

lemma verify_peer_Inl:
  assumes "verify_peer_after_connect env d pre path s = (Inl e, s')" and "expected_uid env pre = Inr u"
  shows "is_ipc_error e \<and> \<not> is_open s' \<or> (\<exists>k. peer_cred d = Some (Inl k) \<and> e = OSError k \<and> s' = s)"
  using assms by (auto simp: verify_peer_after_connect_def sock_close_def
      split: sum.splits option.splits if_splits)


lemma expected_uid_Inl: "expected_uid env pre = Inl e \<Longrightarrow> is_ipc_error e"
  by (auto simp: expected_uid_def split: option.splits)

lemma validate_Inl: "validate_ipc_socket_path env d path = Inl e \<Longrightarrow> is_ipc_error e"
  by (auto simp: validate_ipc_socket_path_def split: sum.splits if_splits dest: expected_uid_Inl)

lemma connect_unix_Inl:
  assumes "connect_unix env d path timeout = (Inl e, so)"
  shows "(\<forall>s. so = Some s \<longrightarrow> \<not> is_open s) \<and> is_ipc_error e \<or>
         (\<exists>k. peer_cred d = Some (Inl k) \<and> e = OSError k)"
proof (cases "validate_ipc_socket_path env d path")
  case (Inl e')
  with assms validate_Inl [OF Inl] show ?thesis by (simp add: connect_unix_def)
next
  case (Inr pre)
  then obtain u where u: "expected_uid env pre = Inr u" by (rule validate_Inr)
  from assms Inr show ?thesis
    by (auto simp: connect_unix_def Let_def sock_close_def dest!: verify_peer_Inl [OF _ u]
        split: option.splits prod.splits sum.splits)
qed

section \<open>Properties\<close>

text \<open>A supervisor layout: root owns the parent directory (mode 711), user 1000 the socket, and
  the Assembler runs as user 2000, which is what the environment names.\<close>

definition demo_stat :: "nat \<Rightarrow> stat_result" where
  "demo_stat uid = \<lparr>st_is_sock = True, st_dev = 1, st_ino = 5, st_uid = uid, st_perms = 457\<rparr>"

definition demo_dial :: dial where
  "demo_dial = \<lparr>stat_before = (\<lambda>p. Inr (demo_stat (if p = lit ''/run/a/x.sock'' then 1000 else 0))),
     stat_after = (\<lambda>p. Inr (demo_stat 1000)), getuid = 1000, connect_result = None,
     peer_cred = Some (Inr 2000),
     fresh = \<lparr>rx = [], tx = [], tx_plan = [], is_open = True, deadline = None\<rparr>\<rparr>"

definition demo_env :: env where
  "demo_env = (\<lambda>v. if v = lit ''HAAP_SDK_EXPECTED_PEER_UID'' then Some (lit ''2000'') else None)"

lemma demo_paths: "path_norm (lit ''/run/a/x.sock'') = lit ''/run/a/x.sock''"
  "path_parent (lit ''/run/a/x.sock'') = lit ''/run/a''"
  by (simp_all add: path_norm_def path_parent_def path_root_def path_parts_def path_str_def starts_def lit_def)

lemma demo_fields [simp]:
  "stat_before demo_dial p = Inr (demo_stat (if p = lit ''/run/a/x.sock'' then 1000 else 0))"
  "getuid demo_dial = 1000" "connect_result demo_dial = None" "peer_cred demo_dial = Some (Inr 2000)"
  "st_is_sock (demo_stat u)" "st_uid (demo_stat u) = u" "st_perms (demo_stat u) = 457"
  by (simp_all add: demo_dial_def demo_stat_def)

lemma demo_expected [simp]: "expected_uid demo_env pre = Inr 2000"
proof -
  have "py_int (lit ''2000'') = Some 2000"
    by (simp add: py_int_def lit_def strip_def rstrip_def lstrip_def is_space_def is_digit_def dec_value_def)
  then show ?thesis by (simp add: expected_uid_def demo_env_def)
qed

lemma demo_validates:
  "validate_ipc_socket_path demo_env (demo_dial\<lparr>connect_result := c\<rparr>) (lit ''/run/a/x.sock'') = Inr (demo_stat 1000)"
  by (simp add: validate_ipc_socket_path_def demo_paths)

lemma demo_connects:
  "connect_unix demo_env demo_dial (lit ''/run/a/x.sock'') None = (Inr (), Some (fresh demo_dial))"
proof -
  have "demo_dial\<lparr>connect_result := None\<rparr> = demo_dial" by (simp add: demo_dial_def)
  then have "validate_ipc_socket_path demo_env demo_dial (lit ''/run/a/x.sock'') = Inr (demo_stat 1000)"
    using demo_validates [of None] by (simp only:)
  then show ?thesis by (simp add: connect_unix_def verify_peer_after_connect_def)
qed

text \<open>
  C7: a connection is only ever returned to a checked peer. If \<open>_connect_unix\<close> returns, the path
  named a socket, its directory belonged to this user or to root and nobody else could write in
  it (unless the operator opted out), and the process at the other end has the expected user id
  by the kernel's word, or, where the kernel cannot say, the path still named the very inode that
  was validated. (The owner of the socket file is not among the checks: at the witness it is
  user 1000 while the expected peer is user 2000.)
\<close>

theorem connect_unix_trusted:
  assumes "connect_unix env d path timeout = (Inr u, so)"
  shows "\<exists>pre parent s. so = Some s \<and> stat_before d (path_norm path) = Inr pre \<and> st_is_sock pre \<and>
           stat_before d (path_parent path) = Inr parent \<and> st_uid parent \<in> {getuid d, 0} \<and>
           (st_perms parent AND 18 = 0 \<or> env (lit ''HAAP_SDK_ALLOW_TMP_IPC'') = Some (lit ''1'')) \<and>
           peer_trusted env d pre path"
proof -
  from assms obtain pre s where v: "validate_ipc_socket_path env d path = Inr pre"
    and p: "peer_trusted env d pre path" and s: "so = Some s"
    by (auto simp: connect_unix_def Let_def dest: verify_peer_Inr split: sum.splits option.splits prod.splits)
  from v show ?thesis by (rule validate_Inr) (use p s in blast)
qed

theorem connect_unix_trusted_witness:
  "st_uid (demo_stat 1000) \<noteq> 2000 \<and> peer_trusted demo_env demo_dial (demo_stat 1000) (lit ''/run/a/x.sock'')"
proof -
  obtain pre where "stat_before demo_dial (path_norm (lit ''/run/a/x.sock'')) = Inr pre"
    and p: "peer_trusted demo_env demo_dial pre (lit ''/run/a/x.sock'')"
    using connect_unix_trusted [OF demo_connects] by blast
  then have "pre = demo_stat 1000" by (simp add: demo_paths demo_dial_def)
  with p show ?thesis by (simp add: demo_stat_def)
qed

text \<open>
  A refused connection is closed, and the refusal is an \<open>IpcError\<close>. The one exception is a
  kernel that answers \<open>getsockopt(SO_PEERCRED)\<close> with an error: then that \<open>OSError\<close> escapes as it
  is and the socket is left open.
\<close>

theorem connect_unix_refusals:
  assumes "connect_unix env d path timeout = (Inl e, so)"
  shows "(\<forall>s. so = Some s \<longrightarrow> \<not> is_open s) \<and> is_ipc_error e \<or>
         (\<exists>k. peer_cred d = Some (Inl k) \<and> e = OSError k)"
  using assms by (rule connect_unix_Inl)

theorem connect_unix_refusals_witness:
  "\<exists>e so. connect_unix demo_env (demo_dial\<lparr>connect_result := Some Refused\<rparr>) (lit ''/run/a/x.sock'') None = (Inl e, so) \<and>
     (\<forall>s. so = Some s \<longrightarrow> \<not> is_open s) \<and> is_ipc_error e"
proof -
  let ?d = "demo_dial\<lparr>connect_result := Some Refused\<rparr>"
  have r: "connect_unix demo_env ?d (lit ''/run/a/x.sock'') None
      = (Inl (IpcError (DiagnosedOs (lit ''/run/a/x.sock'') (lit ''connect'') None Refused)),
         Some (sock_close (fresh demo_dial)))"
    by (simp add: connect_unix_def demo_validates)
  from connect_unix_refusals [OF r] r show ?thesis by auto
qed

end
