(* ===== verification/Ipc_Message.thy ===== *)
theory Ipc_Message
  imports Errors Ipc_Path
begin

text \<open>
  The messages of the Assembler channel (\<open>ToolCallRequest\<close>, \<open>ToolCallResponse\<close> of \<open>ipc.py\<close>) and
  their JSON form. An argument of type \<open>Any\<close> is a JSON value, with \<open>JNull\<close> for \<open>None\<close>.

  Three built-in operations are arguments of the readers, in the record \<open>builtins\<close>: \<open>dict(x)\<close> on
  a value that is not a \<open>dict\<close>, \<open>int(x)\<close> on a \<open>float\<close>, and \<open>x == n\<close> for a \<open>float\<close> \<open>x\<close> and an \<open>int\<close> \<open>n\<close>.
\<close>

datatype token_transport = HttpHeader | McpMeta | McpMetaV725

fun transport_value :: "token_transport \<Rightarrow> pystr" where
  "transport_value HttpHeader = lit ''http_header''"
| "transport_value McpMeta = lit ''mcp_meta''"
| "transport_value McpMetaV725 = lit ''mcp_meta_v7_2_5''"

record tool_call_request =
  request_id :: pystr
  target_rs_url :: pystr
  http_method :: pystr
  headers :: "(pystr \<times> pystr) list"
  tool :: pystr
  mcp_tool_name :: "pystr option"
  action :: "pystr list"
  resource :: pystr
  constraints :: "(pystr \<times> json) list"
  plaintext_request_body :: "bytes option"
  claimed_intent_hash :: "pystr option"
  tool_arguments :: json
  content_type :: "pystr option"
  transport :: "token_transport option"
  acting_for_user :: "pystr option"
  provider :: "pystr option"

definition str_field :: "string \<Rightarrow> pystr option \<Rightarrow> (pystr \<times> json) list" where
  "str_field k v = (case v of None \<Rightarrow> [] | Some s \<Rightarrow> [(lit k, JStr s)])"

definition to_wire :: "tool_call_request \<Rightarrow> (pystr \<times> json) list" where
  "to_wire r =
     [(lit ''request_id'', JStr (request_id r)),
      (lit ''target_rs_url'', JStr (target_rs_url r)),
      (lit ''http_method'', JStr (http_method r)),
      (lit ''headers'', JObj (map (\<lambda>(k, v). (k, JStr v)) (headers r))),
      (lit ''tool'', JStr (tool r)),
      (lit ''action'', JArr (map JStr (action r))),
      (lit ''resource'', JStr (resource r)),
      (lit ''constraints'', JObj (constraints r))]
     @ str_field ''mcp_tool_name'' (mcp_tool_name r)
     @ str_field ''plaintext_request_body'' (map_option b64encode (plaintext_request_body r))
     @ str_field ''claimed_intent_hash'' (claimed_intent_hash r)
     @ (if tool_arguments r \<noteq> JNull then [(lit ''tool_arguments'', tool_arguments r)] else [])
     @ str_field ''content_type'' (content_type r)
     @ str_field ''transport'' (map_option transport_value (transport r))
     @ str_field ''acting_for_user'' (acting_for_user r)
     @ str_field ''provider'' (provider r)"

section \<open>Responses\<close>

record tool_call_response =
  rsp_request_id :: json
  rsp_http_status :: int
  rsp_headers :: "(pystr \<times> json) list"
  rsp_body :: bytes

datatype conversion_error = ConvType | ConvValue | ConvOverflow

fun conversion_exn :: "conversion_error \<Rightarrow> exn" where
  "conversion_exn ConvType = TypeError BadToolArgument"
| "conversion_exn ConvValue = ValueError []"
| "conversion_exn ConvOverflow = OverflowError"

definition converted :: "conversion_error + 'a \<Rightarrow> exn + 'a" where
  "converted r = (case r of Inl e \<Rightarrow> Inl (conversion_exn e) | Inr x \<Rightarrow> Inr x)"

record builtins =
  dict_of :: "json \<Rightarrow> conversion_error + (pystr \<times> json) list"
  int_of_float :: "pystr \<Rightarrow> conversion_error + int"
  float_equals :: "pystr \<Rightarrow> int \<Rightarrow> bool"

text \<open>
  Python truth of a decoded value. A float literal is false when its mantissa is zero; one that
  is not zero but underflows to \<open>0.0\<close> counts as true here.
\<close>

fun truthy :: "json \<Rightarrow> bool" where
  "truthy JNull = False"
| "truthy (JBool b) = b"
| "truthy (JInt i) = (i \<noteq> 0)"
| "truthy (JFloat r) = (\<exists>c \<in> set (takeWhile (\<lambda>c. c \<noteq> 101 \<and> c \<noteq> 69) r). is_digit c \<and> c \<noteq> 48 \<or> is_upper c)"
| "truthy (JStr s) = (s \<noteq> [])"
| "truthy (JArr js) = (js \<noteq> [])"
| "truthy (JObj kvs) = (kvs \<noteq> [])"

definition int_of_json :: "builtins \<Rightarrow> json \<Rightarrow> exn + int" where
  "int_of_json b j =
     (case j of
        JInt i \<Rightarrow> Inr i
      | JBool t \<Rightarrow> Inr (of_bool t)
      | JFloat r \<Rightarrow> converted (int_of_float b r)
      | JStr s \<Rightarrow> (case py_int s of None \<Rightarrow> Inl (ValueError s) | Some i \<Rightarrow> Inr i)
      | _ \<Rightarrow> Inl (TypeError BadToolArgument))"

definition body_of_json :: "json \<Rightarrow> exn + bytes" where
  "body_of_json j =
     (if \<not> truthy j then Inr []
      else case j of
        JStr s \<Rightarrow> (case b64decode s of None \<Rightarrow> Inl (ValueError s) | Some bs \<Rightarrow> Inr bs)
      | _ \<Rightarrow> Inl (TypeError BadToolArgument))"

definition headers_of_json :: "builtins \<Rightarrow> json \<Rightarrow> exn + (pystr \<times> json) list" where
  "headers_of_json b j =
     (if \<not> truthy j then Inr [] else case j of JObj kvs \<Rightarrow> Inr kvs | _ \<Rightarrow> converted (dict_of b j))"

definition get :: "pystr \<Rightarrow> json \<Rightarrow> (pystr \<times> json) list \<Rightarrow> json" where
  "get k dflt kvs = (case map_of kvs k of None \<Rightarrow> dflt | Some v \<Rightarrow> v)"

text \<open>\<open>from_wire\<close>, in the order the source evaluates: body, request id, status, headers.\<close>

definition from_wire :: "builtins \<Rightarrow> json \<Rightarrow> exn + tool_call_response" where
  "from_wire b obj =
     (case obj of
        JObj kvs \<Rightarrow>
          (case body_of_json (get (lit ''body'') (JStr []) kvs) of
             Inl e \<Rightarrow> Inl e
           | Inr body \<Rightarrow>
               (case map_of kvs (lit ''request_id'') of
                  None \<Rightarrow> Inl (KeyError (lit ''request_id''))
                | Some rid \<Rightarrow>
                    (case map_of kvs (lit ''http_status'') of
                       None \<Rightarrow> Inl (KeyError (lit ''http_status''))
                     | Some st \<Rightarrow>
                         (case int_of_json b st of
                            Inl e \<Rightarrow> Inl e
                          | Inr status \<Rightarrow>
                              (case headers_of_json b (get (lit ''headers'') JNull kvs) of
                                 Inl e \<Rightarrow> Inl e
                               | Inr hs \<Rightarrow> Inr \<lparr>rsp_request_id = rid, rsp_http_status = status,
                                                rsp_headers = hs, rsp_body = body\<rparr>)))))
      | _ \<Rightarrow> Inl AttributeError)"

text \<open>What an Assembler writes for a response (the serde form the docstring mirrors).\<close>

definition response_wire :: "tool_call_response \<Rightarrow> json" where
  "response_wire r =
     JObj [(lit ''request_id'', rsp_request_id r), (lit ''http_status'', JInt (rsp_http_status r)),
           (lit ''headers'', JObj (rsp_headers r)), (lit ''body'', JStr (b64encode (rsp_body r)))]"

lemma b64encode_Nil: "b64encode bs = [] \<longleftrightarrow> bs = []"
  by (cases "map unat bs" rule: b64_nats.cases) (auto simp: b64encode_def)

lemma from_wire_response: "from_wire b (response_wire r) = Inr r"
proof -
  have "body_of_json (JStr (b64encode (rsp_body r))) = Inr (rsp_body r)"
    using b64_roundtrip [of "rsp_body r"] by (auto simp: body_of_json_def b64encode_Nil)
  moreover have "headers_of_json b (JObj (rsp_headers r)) = Inr (rsp_headers r)"
    by (simp add: headers_of_json_def)
  ultimately show ?thesis
    by (simp add: from_wire_def response_wire_def get_def int_of_json_def)
qed

section \<open>Encoding a call\<close>

text \<open>The text of a request can be encoded: strings are Unicode text and the names of a
  dictionary are distinct.\<close>

definition wf_request :: "tool_call_request \<Rightarrow> bool" where
  "wf_request r \<longleftrightarrow>
     list_all wf_str ([request_id r, target_rs_url r, http_method r, tool r, resource r] @ action r) \<and>
     distinct (map fst (headers r)) \<and> (\<forall>(k, v) \<in> set (headers r). wf_str k \<and> wf_str v) \<and>
     wf_json (JObj (constraints r)) \<and> wf_json (tool_arguments r) \<and>
     list_all (pred_option wf_str)
       [mcp_tool_name r, claimed_intent_hash r, content_type r, acting_for_user r, provider r]"

lemma ascii_wf_str: "isascii s \<Longrightarrow> wf_str s"
proof -
  have "no_pair s" if "\<forall>c \<in> set s. c < 128"
    using that by (induction s rule: no_pair.induct) (auto simp: is_high_def)
  then show "isascii s \<Longrightarrow> wf_str s" by (fastforce simp: wf_str_def isascii_def)
qed

lemma wf_str_lit [simp]: "\<forall>c \<in> set s. of_char c < (128 :: nat) \<Longrightarrow> wf_str (lit s)"
  by (rule ascii_wf_str) simp

lemma isascii_b64encode: "isascii (b64encode bs)"
  unfolding b64encode_def using unat_byte_less by (intro isascii_b64_nats) auto

lemma keys_str_field: "map fst (str_field k v) = [] \<or> map fst (str_field k v) = [lit k]"
  by (simp add: str_field_def split: option.split)

lemma distinct_append_sub:
  "distinct xs \<Longrightarrow> distinct ys \<Longrightarrow> set ys \<subseteq> B \<Longrightarrow> set xs \<inter> B = {} \<Longrightarrow> distinct (xs @ ys)"
  by auto

lemma distinct_fields:
  "distinct ks \<Longrightarrow> list_all2 (\<lambda>k f. map fst f = [] \<or> map fst f = [k]) ks fs \<Longrightarrow>
     distinct (map fst (concat fs)) \<and> set (map fst (concat fs)) \<subseteq> set ks"
proof (induction ks arbitrary: fs)
  case Nil
  then show ?case by simp
next
  case (Cons k ks)
  from Cons.prems(2) obtain f fs' where fs: "fs = f # fs'"
    and f: "map fst f = [] \<or> map fst f = [k]" and rest: "list_all2 (\<lambda>k f. map fst f = [] \<or> map fst f = [k]) ks fs'"
    by (auto simp: list_all2_Cons1)
  from Cons.prems(1) have "k \<notin> set ks" and "distinct ks" by simp_all
  moreover obtain M where M: "M = map fst (concat fs')" by simp
  ultimately have "distinct M" "set M \<subseteq> set ks" "k \<notin> set ks" using Cons.IH [OF _ rest] by simp_all
  moreover have "map fst (concat fs) = map fst f @ M" by (simp add: fs M)
  ultimately show ?case using f by auto
qed

text \<open>The optional fields, in the order of the source.\<close>

definition optional_fields :: "tool_call_request \<Rightarrow> (pystr \<times> json) list list" where
  "optional_fields r =
     [str_field ''mcp_tool_name'' (mcp_tool_name r),
      str_field ''plaintext_request_body'' (map_option b64encode (plaintext_request_body r)),
      str_field ''claimed_intent_hash'' (claimed_intent_hash r),
      (if tool_arguments r \<noteq> JNull then [(lit ''tool_arguments'', tool_arguments r)] else []),
      str_field ''content_type'' (content_type r),
      str_field ''transport'' (map_option transport_value (transport r)),
      str_field ''acting_for_user'' (acting_for_user r),
      str_field ''provider'' (provider r)]"

lemma to_wire_fields:
  "to_wire r = take 8 (to_wire r) @ concat (optional_fields r)"
  by (simp add: to_wire_def optional_fields_def)

lemma to_wire_keys: "distinct (map fst (to_wire r))"
proof -
  let ?base = "map lit [''request_id'', ''target_rs_url'', ''http_method'', ''headers'', ''tool'', ''action'',
    ''resource'', ''constraints'']"
  let ?opt = "map lit [''mcp_tool_name'', ''plaintext_request_body'', ''claimed_intent_hash'',
    ''tool_arguments'', ''content_type'', ''transport'', ''acting_for_user'', ''provider'']"
  have "list_all2 (\<lambda>k f. map fst f = [] \<or> map fst f = [k]) ?opt (optional_fields r)"
    unfolding optional_fields_def using keys_str_field by (simp del: map_is_Nil_conv)
  then have opt: "distinct (map fst (concat (optional_fields r)))"
    "set (map fst (concat (optional_fields r))) \<subseteq> set ?opt"
    using distinct_fields [of ?opt "optional_fields r"] by simp_all
  have base: "map fst (take 8 (to_wire r)) = ?base" by (simp add: to_wire_def)
  have "map fst (to_wire r) = map fst (take 8 (to_wire r)) @ map fst (concat (optional_fields r))"
    by (subst to_wire_fields) simp
  also have "distinct \<dots>"
    unfolding base by (rule distinct_append_sub [OF _ opt]) simp_all
  finally show ?thesis .
qed

definition fields_ok :: "(pystr \<times> json) list \<Rightarrow> bool" where
  "fields_ok f \<longleftrightarrow> (\<forall>(k, j) \<in> set f. wf_str k \<and> wf_json j)"

lemma fields_ok_simps [simp]:
  "fields_ok []" "fields_ok [(k, j)] \<longleftrightarrow> wf_str k \<and> wf_json j"
  "wf_str (lit n) \<Longrightarrow> fields_ok (str_field n v) \<longleftrightarrow> pred_option wf_str v"
  "fields_ok (f @ g) \<longleftrightarrow> fields_ok f \<and> fields_ok g"
  "fields_ok (concat fs) \<longleftrightarrow> list_all fields_ok fs"
  by (cases v; auto simp: fields_ok_def str_field_def list_all_iff)+

lemma wf_to_wire:
  assumes "wf_request r"
  shows "wf_json (JObj (to_wire r))"
proof -
  have t: "pred_option wf_str (map_option transport_value (transport r))"
    by (cases "transport r"; cases "the (transport r)") simp_all
  have b: "pred_option wf_str (map_option b64encode (plaintext_request_body r))"
    by (cases "plaintext_request_body r") (simp_all add: ascii_wf_str isascii_b64encode)
  have opt: "fields_ok (concat (optional_fields r))"
    using assms t b by (simp add: optional_fields_def wf_request_def)
  have base: "fields_ok (take 8 (to_wire r))"
    using assms by (auto simp: fields_ok_def to_wire_def wf_request_def list_all_iff comp_def split_def)
  have "fields_ok (to_wire r)"
    by (subst to_wire_fields) (use opt base in simp)
  with to_wire_keys [of r] show ?thesis by (simp add: fields_ok_def)
qed


lemma conversion_exn_not_os [simp]: "conversion_exn c \<noteq> OSError k"
  by (cases c) simp_all

lemma conversions_not_os:
  "converted c \<noteq> Inl (OSError k)" "body_of_json j \<noteq> Inl (OSError k)"
  "int_of_json b j \<noteq> Inl (OSError k)" "headers_of_json b j \<noteq> Inl (OSError k)"
proof -
  show c: "converted c \<noteq> Inl (OSError k)" for c :: "conversion_error + 'b"
    by (simp add: converted_def split: sum.split)
  show "body_of_json j \<noteq> Inl (OSError k)"
    by (simp add: body_of_json_def split: json.split option.split)
  show "int_of_json b j \<noteq> Inl (OSError k)"
    by (simp add: int_of_json_def c split: json.split option.split)
  show "headers_of_json b j \<noteq> Inl (OSError k)"
    by (simp add: headers_of_json_def c split: json.split)
qed

lemma from_wire_not_os: "from_wire b obj \<noteq> Inl (OSError k)"
proof (cases obj)
  case (JObj kvs)
  show ?thesis unfolding JObj from_wire_def json.case
    by (split sum.split option.split)+ (use conversions_not_os in auto)
qed (simp_all add: from_wire_def)

end
