(* ===== verification/Ipc_Client.thy ===== *)
theory Ipc_Client
  imports Ipc_Frame Ipc_Path Ipc_Message
begin

text \<open>
  \<open>AssemblerClient\<close> of \<open>ipc.py\<close> over a UNIX socket: connect with handshake, re-dial, \<open>invoke\<close> with
  its one retry, clarification answers, close.

  The state of an action is the client together with its world: the outcomes of the coming
  dials, and, for the theorems, the sockets the client has replaced (\<open>replaced\<close>). The Windows
  pipe of \<open>Pipe_Win\<close> has the same interface; the client is modelled over the socket.
\<close>

section \<open>State\<close>

record client =
  csock :: sock
  needs_redial :: bool
  caps :: "pystr list"
  endpoint :: "pystr option"
  conn_timeout :: timeout
  call_timeout :: timeout

record world =
  cl :: client
  dials :: "dial list"
  replaced :: "sock list"

text \<open>A world whose dials are used up refuses every further one: there is no socket file.\<close>

definition no_dial :: dial where
  "no_dial = \<lparr>stat_before = (\<lambda>p. Inl NotFound), stat_after = (\<lambda>p. Inl NotFound), getuid = 0,
     connect_result = Some Refused, peer_cred = None,
     fresh = \<lparr>rx = [], tx = [], tx_plan = [], is_open = True, deadline = None\<rparr>\<rparr>"

definition next_dial :: "dial list \<Rightarrow> dial" where
  "next_dial ds = (case ds of [] \<Rightarrow> no_dial | d # _ \<Rightarrow> d)"

section \<open>Connecting\<close>

text \<open>\<open>_diagnosable_ipc_error\<close> around the handshake.\<close>

definition diagnosed :: "pystr \<Rightarrow> timeout \<Rightarrow> exn \<Rightarrow> exn" where
  "diagnosed ep t e =
     (case e of
        IpcError f \<Rightarrow> IpcError (DiagnosedIpc ep (lit ''handshake-read'') t f)
      | OSError k \<Rightarrow> IpcError (DiagnosedOs ep (lit ''handshake-read'') t k)
      | _ \<Rightarrow> e)"

text \<open>\<open>AssemblerClient.connect\<close>: the client, or the error and the socket left behind.\<close>

definition client_connect ::
  "env \<Rightarrow> dial \<Rightarrow> pystr \<Rightarrow> timeout \<Rightarrow> pystr list \<Rightarrow> timeout \<Rightarrow> (exn \<times> sock option) + client" where
  "client_connect env d ep timeout cs call_t =
     (case connect_unix env d ep timeout of
        (Inl e, so) \<Rightarrow> Inl (e, so)
      | (Inr u, None) \<Rightarrow> Inl (RuntimeError, None)
      | (Inr u, Some s) \<Rightarrow>
          (case perform_handshake role_agent s of
             (Inl (HandshakeError l r), s') \<Rightarrow> Inl (HandshakeError l r, Some (sock_close s'))
           | (Inl e, s') \<Rightarrow> Inl (diagnosed ep timeout e, Some (sock_close s'))
           | (Inr role, s') \<Rightarrow>
               if role \<noteq> role_assembler
               then Inl (IpcError (WrongPeerRole (unat role)), Some (sock_close s'))
               else Inr \<lparr>csock = set_deadline call_t s', needs_redial = False, caps = cs,
                         endpoint = Some ep, conn_timeout = timeout, call_timeout = call_t\<rparr>))"

definition reconnect :: "env \<Rightarrow> (exn, world, unit) act" where
  "reconnect env w =
     (case endpoint (cl w) of
        None \<Rightarrow> (Inl (IpcError NoEndpoint), w)
      | Some ep \<Rightarrow>
          if ep = [] then (Inl (IpcError NoEndpoint), w)
          else
            (let old = sock_close (csock (cl w));
                 w' = w\<lparr>cl := (cl w)\<lparr>csock := old\<rparr>, dials := tl (dials w)\<rparr>
             in case client_connect env (next_dial (dials w)) ep (conn_timeout (cl w)) (caps (cl w))
                       (call_timeout (cl w)) of
                  Inl (e, so) \<Rightarrow> (Inl e, w')
                | Inr c \<Rightarrow> (Inr (), w'\<lparr>cl := (cl w')\<lparr>csock := csock c, needs_redial := False\<rparr>,
                                       replaced := replaced w @ [old]\<rparr>)))"

section \<open>Invoking\<close>

text \<open>An action on the client's socket.\<close>

definition on_sock :: "(exn, sock, 'a) act \<Rightarrow> (exn, world, 'a) act" where
  "on_sock m w = (case m (csock (cl w)) of (r, s') \<Rightarrow> (r, w\<lparr>cl := (cl w)\<lparr>csock := s'\<rparr>\<rparr>))"

definition client_close :: "world \<Rightarrow> world" where
  "client_close w = w\<lparr>cl := (cl w)\<lparr>csock := sock_close (csock (cl w))\<rparr>\<rparr>"

definition request_payload :: "pystr list \<Rightarrow> tool_call_request \<Rightarrow> bytes" where
  "request_payload cs req =
     dumps_bytes compact (JObj (to_wire req @
       (if cs \<noteq> [] then [(lit ''hawcx_experimental_capabilities'', JArr (map JStr cs))] else [])))"

text \<open>What a reply frame means for the caller.\<close>

definition interpret_reply :: "builtins \<Rightarrow> tool_call_request \<Rightarrow> byte \<Rightarrow> bytes \<Rightarrow> exn + tool_call_response" where
  "interpret_reply b req msg_type body =
     (if msg_type = msg_tool_call_response then
        (case loads_bytes body of Inl f \<Rightarrow> Inl (text_error f) | Inr obj \<Rightarrow> from_wire b obj)
      else if msg_type = msg_request_rejected then
        (case loads_bytes body of
           Inl f \<Rightarrow> Inl (text_error f)
         | Inr (JObj kvs) \<Rightarrow>
             Inl (RequestRejected (get (lit ''request_id'') (JStr (request_id req)) kvs)
                                  (get (lit ''reason'') (JStr []) kvs))
         | Inr _ \<Rightarrow> Inl AttributeError)
      else Inl (IpcError (UnexpectedResponse (unat msg_type))))"

definition exchange_frames :: "bytes \<Rightarrow> (exn, sock, byte \<times> bytes) act" where
  "exchange_frames payload =
     andthen (write_frame msg_tool_call_request payload) (\<lambda>_. read_frame)"

definition invoke_once :: "builtins \<Rightarrow> tool_call_request \<Rightarrow> (exn, world, tool_call_response) act" where
  "invoke_once b req w =
     (case on_sock (exchange_frames (request_payload (caps (cl w)) req)) w of
        (Inl e, w') \<Rightarrow>
          if e = OSError Timeout
          then (Inl e, let c = client_close w' in c\<lparr>cl := (cl c)\<lparr>needs_redial := True\<rparr>\<rparr>)
          else (Inl e, w')
      | (Inr (t, body), w') \<Rightarrow> (interpret_reply b req t body, w'))"

text \<open>The two \<open>except\<close> clauses of \<open>invoke\<close>: the outcomes that stand for a spent connection.\<close>

definition connection_lost :: "exn \<Rightarrow> bool" where
  "connection_lost e =
     (case e of
        OSError k \<Rightarrow> k = BrokenPipe \<or> k = ConnReset
      | IpcError f \<Rightarrow> contains (lit ''closed connection'') (ipc_str f)
      | _ \<Rightarrow> False)"

definition invoke :: "env \<Rightarrow> builtins \<Rightarrow> tool_call_request \<Rightarrow> (exn, world, tool_call_response) act" where
  "invoke env b req w =
     andthen (if needs_redial (cl w) then reconnect env else ret ()) (\<lambda>_.
       catch (invoke_once b req) (\<lambda>e.
         if connection_lost e then andthen (reconnect env) (\<lambda>_. invoke_once b req) else throw e)) w"

definition send_clarification_answer ::
  "pystr \<Rightarrow> int \<Rightarrow> int option \<Rightarrow> pystr option \<Rightarrow> (exn, world, unit) act" where
  "send_clarification_answer pending_id session_id answer_index answer_text =
     on_sock (write_frame msg_clarification_answer (dumps_bytes compact (JObj (
       [(lit ''pending_id'', JStr pending_id), (lit ''session_id'', JInt session_id)]
       @ (case answer_index of None \<Rightarrow> [] | Some i \<Rightarrow> [(lit ''answer_index'', JInt i)])
       @ str_field ''answer_text'' answer_text))))"

section \<open>One attempt\<close>

lemma contains_lit_closed: "contains (lit ''closed connection'') (ipc_str PeerClosedMidMessage)"
  by (simp add: lit_def starts_def)

text \<open>The verdict on an attempt from the bytes that come after the request is written.\<close>

definition reply_outcome :: "builtins \<Rightarrow> tool_call_request \<Rightarrow> bytes \<Rightarrow> os_kind option \<Rightarrow> exn + tool_call_response" where
  "reply_outcome b req bs st =
     (case parse_frame bs st of Inl e \<Rightarrow> Inl e | Inr ((t, body), rest) \<Rightarrow> interpret_reply b req t body)"

lemma write_frame_ok:
  assumes "is_open s" and "tx_plan s = []" and "length payload < max_message_size"
  shows "write_frame t payload s = (Inr (), s\<lparr>tx := tx s @ to_be 4 (1 + length payload) @ [t] @ payload\<rparr>)"
  using assms by (simp add: write_frame_def encode_frame_ok andthen_def lift_def sock_sendall_def)

lemma invoke_once_outcome:
  assumes "is_open (csock (cl w))" and "tx_plan (csock (cl w)) = []"
    and "length (request_payload (caps (cl w)) req) < max_message_size"
  shows "fst (invoke_once b req w)
           = reply_outcome b req (sock_pending (csock (cl w))) (sock_stop (csock (cl w)))"
proof -
  let ?s = "csock (cl w)"
  let ?p = "request_payload (caps (cl w)) req"
  let ?s1 = "?s\<lparr>tx := tx ?s @ to_be 4 (1 + length ?p) @ [msg_tool_call_request] @ ?p\<rparr>"
  have v: "sock_pending ?s1 = sock_pending ?s" "sock_stop ?s1 = sock_stop ?s"
    by (simp_all add: sock_pending_def sock_stop_def)
  obtain s' where r: "read_frame ?s1 =
      (case parse_frame (sock_pending ?s) (sock_stop ?s) of Inl e \<Rightarrow> (Inl e, s') | Inr (f, rest) \<Rightarrow> (Inr f, s'))"
    by (rule read_frame_parses [of ?s1, unfolded v])
  have "exchange_frames ?p ?s = read_frame ?s1"
    unfolding exchange_frames_def using write_frame_ok [OF assms] by (simp add: andthen_def)
  with r show ?thesis
    by (auto simp: invoke_once_def on_sock_def reply_outcome_def split: sum.splits prod.splits)
qed


section \<open>What a call writes\<close>

definition request_frame :: "pystr list \<Rightarrow> tool_call_request \<Rightarrow> bytes" where
  "request_frame cs req =
     (case encode_frame msg_tool_call_request (request_payload cs req) of Inl e \<Rightarrow> [] | Inr f \<Rightarrow> f)"

lemma ex_take_self [simp]: "\<exists>n. xs = take n xs"
  by (metis take_all order_refl)

lemma write_frame_tx:
  "\<exists>n. tx (snd (write_frame t payload s)) = tx s @ take n (case encode_frame t payload of Inl e \<Rightarrow> [] | Inr f \<Rightarrow> f)"
  by (auto simp: write_frame_def andthen_def lift_def sock_sendall_def
      split: sum.splits list.splits option.splits intro: exI [of _ 0])

lemma write_frame_Inr:
  assumes "write_frame t payload s = (Inr u, s')"
  obtains f where "encode_frame t payload = Inr f" and "tx s' = tx s @ f" and "is_open s'"
    and "sock_pending s' = sock_pending s" and "sock_stop s' = sock_stop s"
    and "deadline s' = deadline s"
  using assms
  by (auto simp: write_frame_def andthen_def lift_def sock_sendall_def sock_pending_def sock_stop_def
      split: sum.splits list.splits option.splits if_splits prod.splits)

lemma read_frame_keeps: "tx (snd (read_frame s)) = tx s" "is_open (snd (read_frame s)) = is_open s"
  "deadline (snd (read_frame s)) = deadline s"
proof -
  obtain s' where "read_frame s =
      (case parse_frame (sock_pending s) (sock_stop s) of Inl e \<Rightarrow> (Inl e, s') | Inr (f, rest) \<Rightarrow> (Inr f, s'))"
    and f: "s'\<lparr>rx := []\<rparr> = s\<lparr>rx := []\<rparr>" by (rule read_frame_parses)
  then have "snd (read_frame s) = s'" by (auto split: sum.splits)
  with sock_frame_fields [OF f] show "tx (snd (read_frame s)) = tx s"
    "is_open (snd (read_frame s)) = is_open s" "deadline (snd (read_frame s)) = deadline s" by simp_all
qed

lemma exchange_tx:
  "\<exists>n. tx (snd (exchange_frames (request_payload cs req) s)) = tx s @ take n (request_frame cs req)"
proof -
  let ?p = "request_payload cs req"
  obtain r s1 where w: "write_frame msg_tool_call_request ?p s = (r, s1)" by force
  then have "tx (snd (exchange_frames ?p s)) = tx s1"
    using read_frame_keeps(1) [of s1] by (auto simp: exchange_frames_def andthen_def split: sum.splits)
  with write_frame_tx [of msg_tool_call_request ?p s] w show ?thesis by (simp add: request_frame_def)
qed

lemma invoke_once_frame:
  assumes "invoke_once b req w = (r, w')"
  shows "replaced w' = replaced w" and "dials w' = dials w" and "caps (cl w') = caps (cl w)"
    and "endpoint (cl w') = endpoint (cl w)"
    and "\<exists>n. tx (csock (cl w')) = tx (csock (cl w)) @ take n (request_frame (caps (cl w)) req)"
proof -
  obtain x s' where x: "exchange_frames (request_payload (caps (cl w)) req) (csock (cl w)) = (x, s')" by force
  with exchange_tx [of "caps (cl w)" req "csock (cl w)"]
  obtain n where n: "tx s' = tx (csock (cl w)) @ take n (request_frame (caps (cl w)) req)" by auto
  from assms x show "replaced w' = replaced w" and "dials w' = dials w" and "caps (cl w') = caps (cl w)"
    and "endpoint (cl w') = endpoint (cl w)"
    by (auto simp: invoke_once_def on_sock_def client_close_def Let_def split: sum.splits prod.splits if_splits)
  from assms x have "tx (csock (cl w')) = tx s'"
    by (auto simp: invoke_once_def on_sock_def client_close_def sock_close_def Let_def
        split: sum.splits prod.splits if_splits)
  with n show "\<exists>n. tx (csock (cl w')) = tx (csock (cl w)) @ take n (request_frame (caps (cl w)) req)" by auto
qed

lemma perform_handshake_Inr:
  assumes "perform_handshake role s = (Inr r, s')"
  shows "tx s' = tx s @ hello role" and "is_open s'" and "deadline s' = deadline s"
    and "handshake_verdict (sock_pending s) (sock_stop s) = Inr (r, sock_pending s')"
proof -
  from assms obtain u s1 where w: "write_frame msg_type_handshake (encode_handshake role) s = (Inr u, s1)"
    by (auto simp: perform_handshake_def andthen_def split: sum.splits prod.splits)
  then obtain f where f: "encode_frame msg_type_handshake (encode_handshake role) = Inr f" "tx s1 = tx s @ f"
    "is_open s1" "sock_pending s1 = sock_pending s" "sock_stop s1 = sock_stop s" "deadline s1 = deadline s"
    by (rule write_frame_Inr)
  then have hello: "f = hello role" by (auto simp: encode_frame_def hello_def Let_def split: if_splits)
  obtain s2 where r2: "read_frame s1 =
      (case parse_frame (sock_pending s) (sock_stop s) of Inl e \<Rightarrow> (Inl e, s2) | Inr (f, rest) \<Rightarrow> (Inr f, s2))"
    and fr: "s2\<lparr>rx := []\<rparr> = s1\<lparr>rx := []\<rparr>"
    and p: "\<forall>f rest. parse_frame (sock_pending s) (sock_stop s) = Inr (f, rest) \<longrightarrow>
           sock_pending s2 = rest \<and> sock_stop s2 = sock_stop s"
    by (rule read_frame_parses [of s1, unfolded f(4,5)]) (rule that)
  from assms w r2 have s': "s' = s2"
    and v: "\<exists>rest. handshake_verdict (sock_pending s) (sock_stop s) = Inr (r, rest) \<and>
        (\<exists>f. parse_frame (sock_pending s) (sock_stop s) = Inr (f, rest))"
    by (auto simp: perform_handshake_def handshake_verdict_def decode_handshake_def andthen_def throw_def
        lift_def ret_def Let_def split: sum.splits prod.splits if_splits)
  from s' f hello sock_frame_fields [OF fr] show "tx s' = tx s @ hello role" "is_open s'" "deadline s' = deadline s"
    by simp_all
  from v p s' show "handshake_verdict (sock_pending s) (sock_stop s) = Inr (r, sock_pending s')" by auto
qed

lemma connect_unix_Inr:
  "connect_unix env d path t = (Inr u, so) \<Longrightarrow> \<exists>s. so = Some s \<and> tx s = tx (fresh d) \<and> rx s = rx (fresh d)"
  by (auto simp: connect_unix_def Let_def set_deadline_def dest!: verify_peer_Inr
      split: sum.splits option.splits prod.splits)

lemma client_connect_Inr:
  assumes "client_connect env d ep t cs ct = Inr c"
  obtains s s' where "connect_unix env d ep t = (Inr (), Some s)"
    and "perform_handshake role_agent s = (Inr role_assembler, s')" and "csock c = set_deadline ct s'"
    and "caps c = cs" and "endpoint c = Some ep" and "\<not> needs_redial c"
  using assms
  by (auto simp: client_connect_def split: sum.splits prod.splits option.splits exn.splits if_splits)


text \<open>Everything written to the client's connections, in order.\<close>

definition all_tx :: "world \<Rightarrow> bytes" where
  "all_tx w = concat (map tx (replaced w)) @ tx (csock (cl w))"

definition fresh_dials :: "world \<Rightarrow> bool" where
  "fresh_dials w \<longleftrightarrow> (\<forall>d \<in> set (dials w). tx (fresh d) = [])"

lemma next_dial_fresh: "fresh_dials w \<Longrightarrow> tx (fresh (next_dial (dials w))) = []"
  by (auto simp: fresh_dials_def next_dial_def no_dial_def split: list.split)

lemma sock_close_tx [simp]: "tx (sock_close s) = tx s"
  by (simp add: sock_close_def)

lemma invoke_once_tx:
  assumes "invoke_once b req w = (r, w')"
  shows "\<exists>n. all_tx w' = all_tx w @ take n (request_frame (caps (cl w)) req)"
    and "fresh_dials w' = fresh_dials w" and "caps (cl w') = caps (cl w)"
  using invoke_once_frame [OF assms] by (auto simp: all_tx_def fresh_dials_def)

lemma reconnect_tx:
  assumes "reconnect env w = (r, w')" and "fresh_dials w"
  shows "all_tx w' = all_tx w @ (case r of Inl e \<Rightarrow> [] | Inr u \<Rightarrow> hello role_agent)"
    and "fresh_dials w'" and "caps (cl w') = caps (cl w)"
proof -
  have "all_tx w' = all_tx w @ (case r of Inl e \<Rightarrow> [] | Inr u \<Rightarrow> hello role_agent) \<and>
    fresh_dials w' \<and> caps (cl w') = caps (cl w)"
  proof (cases "endpoint (cl w) = None \<or> endpoint (cl w) = Some []")
    case True
    with assms show ?thesis by (auto simp: reconnect_def)
  next
    case False
    then obtain ep where ep: "endpoint (cl w) = Some ep" "ep \<noteq> []" by auto
    have fd: "\<forall>d \<in> set (tl (dials w)). tx (fresh d) = []"
      using assms(2) by (cases "dials w") (auto simp: fresh_dials_def)
    let ?cc = "client_connect env (next_dial (dials w)) ep (conn_timeout (cl w)) (caps (cl w)) (call_timeout (cl w))"
    show ?thesis
    proof (cases ?cc)
      case (Inl x)
      with assms(1) ep fd show ?thesis
        by (auto simp: reconnect_def Let_def all_tx_def fresh_dials_def split: prod.splits)
    next
      case (Inr c)
      then obtain s s' where "connect_unix env (next_dial (dials w)) ep (conn_timeout (cl w)) = (Inr (), Some s)"
        and h: "perform_handshake role_agent s = (Inr role_assembler, s')"
        and c: "csock c = set_deadline (call_timeout (cl w)) s'" by (rule client_connect_Inr)
      then have "tx s = []" using connect_unix_Inr next_dial_fresh [OF assms(2)] by fastforce
      with perform_handshake_Inr(1) [OF h] c have "tx (csock c) = hello role_agent" by (simp add: set_deadline_def)
      with Inr assms(1) ep fd show ?thesis
        by (auto simp: reconnect_def Let_def all_tx_def fresh_dials_def)
    qed
  qed
  then show "all_tx w' = all_tx w @ (case r of Inl e \<Rightarrow> [] | Inr u \<Rightarrow> hello role_agent)"
    and "fresh_dials w'" and "caps (cl w') = caps (cl w)" by blast+
qed

text \<open>How a call runs: an optional re-dial, one attempt, and perhaps one more.\<close>

lemma invoke_runs:
  assumes "invoke env b req w = (r, w')"
  obtains (no_dial) e where "reconnect env w = (Inl e, w')" and "r = Inl e" and "needs_redial (cl w)"
    | (once) w1 where "(if needs_redial (cl w) then reconnect env else ret ()) w = (Inr (), w1)"
        and "invoke_once b req w1 = (r, w')" and "\<And>e. r = Inl e \<Longrightarrow> \<not> connection_lost e"
    | (no_second) w1 w2 e e' where "(if needs_redial (cl w) then reconnect env else ret ()) w = (Inr (), w1)"
        and "invoke_once b req w1 = (Inl e, w2)" and "connection_lost e"
        and "reconnect env w2 = (Inl e', w')" and "r = Inl e'"
    | (twice) w1 w2 w3 e where "(if needs_redial (cl w) then reconnect env else ret ()) w = (Inr (), w1)"
        and "invoke_once b req w1 = (Inl e, w2)" and "connection_lost e"
        and "reconnect env w2 = (Inr (), w3)" and "invoke_once b req w3 = (r, w')"
proof -
  obtain x w1 where 1: "(if needs_redial (cl w) then reconnect env else ret ()) w = (x, w1)" by force
  show thesis
  proof (cases x)
    case (Inl e)
    with 1 assms show thesis
      by (intro no_dial [of e]) (auto simp: invoke_def andthen_def ret_def split: if_splits)
  next
    case (Inr u)
    obtain y w2 where 2: "invoke_once b req w1 = (y, w2)" by force
    show thesis
    proof (cases "\<exists>e. y = Inl e \<and> connection_lost e")
      case False
      with 1 2 Inr assms have "r = y" "w' = w2"
        by (auto simp: invoke_def andthen_def catch_def throw_def split: sum.splits if_splits)
      with 1 2 Inr False show thesis by (intro once [of w1]) auto
    next
      case True
      then obtain e where e: "y = Inl e" "connection_lost e" by blast
      obtain z w3 where 3: "reconnect env w2 = (z, w3)" by force
      show thesis
      proof (cases z)
        case (Inl e')
        with 1 2 3 Inr e assms show thesis
          by (intro no_second [of w1 e w2 e']) (auto simp: invoke_def andthen_def catch_def)
      next
        case (Inr v)
        with 1 2 3 \<open>x = Inr u\<close> e assms show thesis
          by (intro twice [of w1 e w2 w3]) (auto simp: invoke_def andthen_def catch_def)
      qed
    qed
  qed
qed


section \<open>Properties\<close>

lemma dial_prefix:
  assumes "(if needs_redial (cl w) then reconnect env else ret ()) w = (Inr (), w1)" and "fresh_dials w"
  shows "\<exists>pre \<in> {[], hello role_agent}. all_tx w1 = all_tx w @ pre"
    and "fresh_dials w1" and "caps (cl w1) = caps (cl w)"
  using assms reconnect_tx [of env w "Inr ()" w1] by (auto simp: ret_def split: if_splits)

text \<open>
  C8: a call is put on the wire at most twice. Whatever the connections do, the bytes a call
  adds to them are: at most one handshake, then a prefix of the request frame, and, only after
  that attempt lost its connection, one more handshake on a fresh connection and one more prefix
  of the same frame. Nothing else is ever written, and there is no third attempt.
\<close>

theorem invoke_writes_at_most_twice:
  assumes "invoke env b req w = (r, w')" and "fresh_dials w"
  shows "\<exists>pre n1 second. all_tx w' = all_tx w @ pre @ take n1 (request_frame (caps (cl w)) req) @ second \<and>
           pre \<in> {[], hello role_agent} \<and>
           (second = [] \<or> (\<exists>n2. second = hello role_agent @ take n2 (request_frame (caps (cl w)) req)) \<and>
              (\<exists>w1 w2 e. (if needs_redial (cl w) then reconnect env else ret ()) w = (Inr (), w1) \<and>
                 invoke_once b req w1 = (Inl e, w2) \<and> connection_lost e \<and>
                 all_tx w2 = all_tx w @ pre @ take n1 (request_frame (caps (cl w)) req)))"
  using assms(1)
proof (cases rule: invoke_runs)
  case (no_dial e)
  with reconnect_tx [OF no_dial(1) assms(2)] show ?thesis by (intro exI [of _ "[]"] exI [of _ 0]) simp
next
  case (once w1)
  from dial_prefix [OF once(1) assms(2)] invoke_once_tx [OF once(2)]
  show ?thesis by (metis append.assoc append_Nil2)
next
  case (no_second w1 w2 e e')
  from dial_prefix [OF no_second(1) assms(2)] invoke_once_tx [OF no_second(2)] reconnect_tx(1) [OF no_second(4)]
  show ?thesis by (metis append.assoc append_Nil2 old.sum.simps(5))
next
  case (twice w1 w2 w3 e)
  note 1 = dial_prefix [OF twice(1) assms(2)]
  note 2 = invoke_once_tx [OF twice(2)]
  from 1 2 have "fresh_dials w2" by simp
  note 3 = reconnect_tx [OF twice(4) this]
  note 4 = invoke_once_tx [OF twice(5)]
  from 1 obtain pre where pre: "pre \<in> {[], hello role_agent}" "all_tx w1 = all_tx w @ pre" by blast
  from 2 1 obtain n1 where n1: "all_tx w2 = all_tx w1 @ take n1 (request_frame (caps (cl w)) req)" by auto
  from 4 1 2 3 obtain n2 where "all_tx w' = all_tx w3 @ take n2 (request_frame (caps (cl w)) req)" by auto
  with 3(1) pre n1 have "all_tx w' = all_tx w @ pre @ take n1 (request_frame (caps (cl w)) req) @
      hello role_agent @ take n2 (request_frame (caps (cl w)) req)" by simp
  moreover have "all_tx w2 = all_tx w @ pre @ take n1 (request_frame (caps (cl w)) req)" using pre n1 by simp
  ultimately show ?thesis using pre(1) twice(1-3) by blast
qed

text \<open>A request and a client whose peer answers it with a rejection.\<close>

definition demo_request :: tool_call_request where
  "demo_request = \<lparr>request_id = lit ''r1'', target_rs_url = lit ''u'', http_method = lit ''POST'', headers = [],
     tool = lit ''t'', mcp_tool_name = None, action = [lit ''read''], resource = lit ''*'', constraints = [],
     plaintext_request_body = None, claimed_intent_hash = None, tool_arguments = JNull, content_type = None,
     transport = None, acting_for_user = None, provider = None\<rparr>"

definition rejection_body :: bytes where
  "rejection_body = dumps_bytes compact (JObj [(lit ''reason'', JStr (lit ''no''))])"

definition demo_world :: "rx_event list \<Rightarrow> world" where
  "demo_world script = \<lparr>cl = \<lparr>csock = \<lparr>rx = script, tx = [], tx_plan = [], is_open = True, deadline = None\<rparr>,
     needs_redial = False, caps = [], endpoint = Some (lit ''/e''), conn_timeout = None, call_timeout = None\<rparr>,
     dials = [], replaced = []\<rparr>"

definition no_builtins :: builtins where
  "no_builtins = \<lparr>dict_of = (\<lambda>j. Inl ConvType), int_of_float = (\<lambda>r. Inl ConvValue),
     float_equals = (\<lambda>r i. False)\<rparr>"

lemma demo_fresh: "fresh_dials (demo_world es)"
  by (simp add: fresh_dials_def demo_world_def)

theorem invoke_writes_at_most_twice_witness:
  "\<exists>pre n1 second. all_tx (snd (invoke (\<lambda>v. None) no_builtins demo_request (demo_world [Eof])))
       = pre @ take n1 (request_frame [] demo_request) @ second \<and> pre \<in> {[], hello role_agent} \<and>
     (second = [] \<or> (\<exists>n2. second = hello role_agent @ take n2 (request_frame [] demo_request)))"
proof -
  obtain r w' where run: "invoke (\<lambda>v. None) no_builtins demo_request (demo_world [Eof]) = (r, w')" by force
  have "all_tx (demo_world [Eof]) = []" "caps (cl (demo_world [Eof])) = []"
    by (simp_all add: all_tx_def demo_world_def)
  with invoke_writes_at_most_twice [OF run demo_fresh] run show ?thesis
    by (metis append_Nil snd_conv)
qed

text \<open>
  A refusal is a verdict and is never retried. If the reply on the connection is a
  rejection frame, then the call raises \<open>RequestRejected\<close> with the fields of that frame; it has
  written the request exactly once, re-dialled nothing and replaced no connection.
\<close>

theorem rejection_is_final:
  assumes "is_open (csock (cl w))" and "tx_plan (csock (cl w)) = []" and "\<not> needs_redial (cl w)"
    and "encode_frame msg_tool_call_request (request_payload (caps (cl w)) req) = Inr f"
    and "parse_frame (sock_pending (csock (cl w))) (sock_stop (csock (cl w)))
           = Inr ((msg_request_rejected, body), rest)"
    and "loads_bytes body = Inr (JObj kvs)"
  shows "\<exists>w'. invoke env b req w = (Inl (RequestRejected (get (lit ''request_id'') (JStr (request_id req)) kvs)
             (get (lit ''reason'') (JStr []) kvs)), w') \<and>
           tx (csock (cl w')) = tx (csock (cl w)) @ f \<and> dials w' = dials w \<and> replaced w' = replaced w"
proof -
  let ?e = "RequestRejected (get (lit ''request_id'') (JStr (request_id req)) kvs) (get (lit ''reason'') (JStr []) kvs)"
  let ?p = "request_payload (caps (cl w)) req"
  from assms(4) have len: "length ?p < max_message_size"
    by (auto simp: encode_frame_def Let_def split: if_splits)
  obtain r w' where run: "invoke_once b req w = (r, w')" by force
  have "interpret_reply b req msg_request_rejected body = Inl ?e"
    using assms(6) by (simp add: interpret_reply_def msg_types)
  with invoke_once_outcome [OF assms(1,2) len, where b = b] assms(5) run have r: "r = Inl ?e"
    by (simp add: reply_outcome_def)
  have "invoke env b req w = (r, w')"
    using assms(3) run r by (simp add: invoke_def andthen_def ret_def catch_def throw_def connection_lost_def)
  moreover have "tx (csock (cl w')) = tx (csock (cl w)) @ f"
  proof -
    have "tx (snd (exchange_frames ?p (csock (cl w)))) = tx (csock (cl w)) @ f"
      unfolding exchange_frames_def andthen_def write_frame_ok [OF assms(1,2) len]
      using assms(4) encode_frame_ok [OF len] read_frame_keeps(1) by simp
    with run r show ?thesis
      by (auto simp: invoke_once_def on_sock_def client_close_def Let_def split: sum.splits prod.splits if_splits)
  qed
  ultimately show ?thesis using r invoke_once_frame [OF run] by blast
qed


lemma demo_payload_small: "length (request_payload [] demo_request) < max_message_size"
  by (simp add: request_payload_def demo_request_def to_wire_def str_field_def dumps_bytes_def compact_def
      quote_def escape_char_def lit_def max_message_size_def)

lemma rejection_body_small: "length rejection_body < max_message_size"
  by (simp add: rejection_body_def dumps_bytes_def compact_def quote_def escape_char_def lit_def
      max_message_size_def)

theorem rejection_is_final_witness:
  "\<exists>w w'. invoke (\<lambda>v. None) no_builtins demo_request w
      = (Inl (RequestRejected (JStr (lit ''r1'')) (JStr (lit ''no''))), w') \<and> replaced w' = replaced w"
proof -
  let ?f = "to_be 4 (1 + length rejection_body) @ [msg_request_rejected] @ rejection_body"
  let ?w = "demo_world [Data ?f]"
  have "parse_frame (?f @ []) None = Inr ((msg_request_rejected, rejection_body), [])"
    by (rule parse_encode [OF encode_frame_ok [OF rejection_body_small]])
  then have p: "parse_frame (sock_pending (csock (cl ?w))) (sock_stop (csock (cl ?w)))
      = Inr ((msg_request_rejected, rejection_body), [])"
    by (simp add: demo_world_def sock_pending_def sock_stop_def)
  have l: "loads_bytes rejection_body = Inr (JObj [(lit ''reason'', JStr (lit ''no''))])"
    unfolding rejection_body_def by (rule loads_dumps_bytes) simp_all
  have c: "is_open (csock (cl ?w))" "tx_plan (csock (cl ?w)) = []" "\<not> needs_redial (cl ?w)" "caps (cl ?w) = []"
    by (simp_all add: demo_world_def)
  show ?thesis
    using rejection_is_final [OF c(1-3) _ p l, of demo_request] encode_frame_ok [OF demo_payload_small] c(4)
    by (fastforce simp: get_def demo_request_def)
qed


lemma invoke_answered:
  assumes "is_open (csock (cl w))" and "tx_plan (csock (cl w)) = []" and "\<not> needs_redial (cl w)"
    and "length (request_payload (caps (cl w)) req) < max_message_size"
    and "sock_pending (csock (cl w)) = f @ rest"
    and "encode_frame msg_tool_call_response (dumps_bytes compact (response_wire resp)) = Inr f"
    and "wf_json (response_wire resp)"
  shows "\<exists>w'. invoke env b req w = (Inr resp, w')"
proof -
  obtain r w' where run: "invoke_once b req w = (r, w')" by force
  have "loads_bytes (dumps_bytes compact (response_wire resp)) = Inr (response_wire resp)"
    using assms(7) by (intro loads_dumps_bytes) simp_all
  then have "interpret_reply b req msg_tool_call_response (dumps_bytes compact (response_wire resp)) = Inr resp"
    by (simp add: interpret_reply_def from_wire_response)
  with invoke_once_outcome [OF assms(1,2,4), where b = b] run have "r = Inr resp"
    by (simp add: reply_outcome_def assms(5) parse_encode [OF assms(6)])
  with run assms(3) show ?thesis by (simp add: invoke_def andthen_def ret_def catch_def)
qed

text \<open>
  C17: what the Assembler answers is what the caller gets. If the bytes on the connection start
  with the frame of a response, in the JSON form the Assembler writes, then the call returns
  that very response: its request id, status, headers and, decoded from Base64, its body.
\<close>

theorem response_delivered:
  assumes "is_open (csock (cl w))" and "tx_plan (csock (cl w)) = []" and "\<not> needs_redial (cl w)"
    and "length (request_payload (caps (cl w)) req) < max_message_size"
    and "sock_pending (csock (cl w)) = f @ rest"
    and "encode_frame msg_tool_call_response (dumps_bytes compact (response_wire resp)) = Inr f"
    and "wf_json (response_wire resp)"
  shows "fst (invoke env b req w) = Inr resp"
  using invoke_answered [OF assms] by (metis fst_conv)

definition demo_answer_response :: tool_call_response where
  "demo_answer_response = \<lparr>rsp_request_id = JStr (lit ''r1''), rsp_http_status = 200, rsp_headers = [],
     rsp_body = [123, 125]\<rparr>"

definition response_frame :: "tool_call_response \<Rightarrow> bytes" where
  "response_frame r = (let p = dumps_bytes compact (response_wire r)
     in to_be 4 (1 + length p) @ [msg_tool_call_response] @ p)"

lemma b64_demo: "b64encode [123, 125] = lit ''e30=''"
  by (simp add: b64encode_def b64_char_def lit_def)

lemma demo_answer_response:
  "wf_json (response_wire demo_answer_response)"
  "encode_frame msg_tool_call_response (dumps_bytes compact (response_wire demo_answer_response)) =
     Inr (response_frame demo_answer_response)"
proof -
  show "wf_json (response_wire demo_answer_response)"
    by (simp add: response_wire_def demo_answer_response_def b64_demo wf_str_def lit_def is_high_def)
  have "length (dumps_bytes compact (response_wire demo_answer_response)) < max_message_size"
    by (simp add: response_wire_def demo_answer_response_def b64_demo dumps_bytes_def compact_def quote_def
        escape_char_def lit_def max_message_size_def dec_int_def dec.simps)
  then show "encode_frame msg_tool_call_response (dumps_bytes compact (response_wire demo_answer_response)) =
     Inr (response_frame demo_answer_response)"
    by (simp add: encode_frame_ok response_frame_def Let_def)
qed

theorem response_delivered_witness:
  "fst (invoke (\<lambda>v. None) no_builtins demo_request (demo_world [Data (response_frame demo_answer_response)]))
     = Inr demo_answer_response"
proof (rule response_delivered)
  show "sock_pending (csock (cl (demo_world [Data (response_frame demo_answer_response)]))) =
      response_frame demo_answer_response @ []"
    by (simp add: demo_world_def sock_pending_def)
qed (use demo_answer_response demo_payload_small in \<open>simp_all add: demo_world_def\<close>)


subsection \<open>Calls that time out\<close>

text \<open>\<open>late es w\<close>: the same client, with \<open>es\<close> as what still arrives on its present connection.\<close>

definition late :: "rx_event list \<Rightarrow> world \<Rightarrow> world" where
  "late es w = w\<lparr>cl := (cl w)\<lparr>csock := (csock (cl w))\<lparr>rx := es\<rparr>\<rparr>\<rparr>"

definition alike :: "world \<Rightarrow> world \<Rightarrow> bool" where
  "alike w v \<longleftrightarrow> cl w = cl v \<and> dials w = dials v"

lemma invoke_once_alike:
  "alike w v \<Longrightarrow> fst (invoke_once b req w) = fst (invoke_once b req v) \<and>
     alike (snd (invoke_once b req w)) (snd (invoke_once b req v))"
  by (auto simp: alike_def invoke_once_def on_sock_def client_close_def Let_def
      split: sum.split prod.split)

lemma reconnect_alike:
  "alike w v \<Longrightarrow> fst (reconnect env w) = fst (reconnect env v) \<and>
     alike (snd (reconnect env w)) (snd (reconnect env v))"
  by (auto simp: alike_def reconnect_def Let_def split: sum.split prod.split option.split)

lemma reconnect_late:
  "fst (reconnect env (late es w)) = fst (reconnect env w) \<and>
     (fst (reconnect env w) = Inr () \<longrightarrow> alike (snd (reconnect env (late es w))) (snd (reconnect env w)))"
  by (auto simp: alike_def reconnect_def late_def Let_def split: sum.split prod.split option.split)

lemma andthen_alike:
  assumes "fst (m w) = fst (m v)" and "\<And>x. fst (m v) = Inr x \<Longrightarrow> alike (snd (m w)) (snd (m v))"
    and "\<And>x w v. alike w v \<Longrightarrow> fst (f x w) = fst (f x v)"
  shows "fst (andthen m f w) = fst (andthen m f v)"
  using assms by (auto simp: andthen_def split: prod.split sum.split)

lemma attempt_alike:
  assumes "alike w v"
  shows "fst (catch (invoke_once b req) (\<lambda>e. if connection_lost e
            then andthen (reconnect env) (\<lambda>_. invoke_once b req) else throw e) w) =
         fst (catch (invoke_once b req) (\<lambda>e. if connection_lost e
            then andthen (reconnect env) (\<lambda>_. invoke_once b req) else throw e) v)"
proof -
  obtain x w1 v1 where w1: "invoke_once b req w = (x, w1)" "invoke_once b req v = (x, v1)" "alike w1 v1"
    using invoke_once_alike [OF assms, of b req] by (metis prod.collapse)
  have "fst (andthen (reconnect env) (\<lambda>_. invoke_once b req) w1)
      = fst (andthen (reconnect env) (\<lambda>_. invoke_once b req) v1)"
    using reconnect_alike [OF w1(3), of env] invoke_once_alike by (intro andthen_alike) auto
  with w1 show ?thesis by (auto simp: catch_def throw_def split: sum.split)
qed

lemma invoke_late:
  assumes "needs_redial (cl w)"
  shows "fst (invoke env b req (late es w)) = fst (invoke env b req w)"
proof -
  have "needs_redial (cl (late es w))" using assms by (simp add: late_def)
  with assms show ?thesis
    using reconnect_late [of env es w] attempt_alike [of _ _ b req env]
    unfolding invoke_def by (auto intro!: andthen_alike)
qed

lemma client_connect_Inl:
  assumes "client_connect env d ep t cs ct = Inl (e, so)" and "peer_cred d \<noteq> Some (Inl Timeout)"
  shows "e \<noteq> OSError Timeout"
  using assms connect_unix_Inl [of env d ep t]
  by (auto simp: client_connect_def diagnosed_def split: sum.splits prod.splits option.splits exn.splits if_splits)

lemma reconnect_not_timeout:
  assumes "reconnect env w = (Inl e, w')" and "\<forall>d \<in> set (dials w). peer_cred d \<noteq> Some (Inl Timeout)"
  shows "e \<noteq> OSError Timeout" and "\<forall>d \<in> set (dials w'). peer_cred d \<noteq> Some (Inl Timeout)"
proof -
  have n: "peer_cred (next_dial (dials w)) \<noteq> Some (Inl Timeout)"
    using assms(2) by (auto simp: next_dial_def no_dial_def split: list.split)
  show "e \<noteq> OSError Timeout"
    using assms(1) client_connect_Inl [OF _ n]
    by (auto simp: reconnect_def Let_def split: option.splits if_splits sum.splits prod.splits)
  show "\<forall>d \<in> set (dials w'). peer_cred d \<noteq> Some (Inl Timeout)"
    using assms by (cases "dials w")
      (auto simp: reconnect_def Let_def split: option.splits if_splits sum.splits prod.splits)
qed

lemma invoke_once_timeout:
  assumes "invoke_once b req w = (Inl (OSError Timeout), w')"
  shows "\<not> is_open (csock (cl w')) \<and> needs_redial (cl w')"
proof -
  have "interpret_reply b req t body \<noteq> Inl (OSError Timeout)" for t body
    by (auto simp: interpret_reply_def text_error_def from_wire_not_os
        split: sum.splits text_fault.splits json.splits)
  with assms show ?thesis
    by (auto simp: invoke_once_def on_sock_def client_close_def sock_close_def Let_def
        split: sum.splits prod.splits if_splits)
qed

text \<open>
  C9: a call that timed out is abandoned for good. It leaves its connection closed, and nothing
  that still arrives on that connection, in particular the late reply, has any influence on the
  result of the next call: for every such continuation the next call returns the same.
\<close>

theorem late_reply_never_read:
  assumes "invoke env b req w = (Inl (OSError Timeout), w')"
    and "\<forall>d \<in> set (dials w). peer_cred d \<noteq> Some (Inl Timeout)"
  shows "\<not> is_open (csock (cl w')) \<and> (\<forall>es. fst (invoke env b2 req2 (late es w')) = fst (invoke env b2 req2 w'))"
proof -
  have "\<not> is_open (csock (cl w')) \<and> needs_redial (cl w')"
    using assms(1)
  proof (cases rule: invoke_runs)
    case (no_dial e)
    with reconnect_not_timeout(1) [OF no_dial(1) assms(2)] show ?thesis by simp
  next
    case (once w1)
    then show ?thesis by (simp add: invoke_once_timeout)
  next
    case (no_second w1 w2 e e')
    from no_second(1) assms(2) have "\<forall>d \<in> set (dials w1). peer_cred d \<noteq> Some (Inl Timeout)"
      by (cases "dials w") (auto simp: ret_def reconnect_def Let_def
          split: if_splits option.splits sum.splits prod.splits)
    with invoke_once_frame(2) [OF no_second(2)]
    have "\<forall>d \<in> set (dials w2). peer_cred d \<noteq> Some (Inl Timeout)" by simp
    from reconnect_not_timeout(1) [OF no_second(4) this] no_second(5) show ?thesis by simp
  next
    case (twice w1 w2 w3 e)
    then show ?thesis by (simp add: invoke_once_timeout)
  qed
  with invoke_late show ?thesis by blast
qed

lemma demo_timeout:
  "\<exists>w'. invoke (\<lambda>v. None) no_builtins demo_request (demo_world [Fail Timeout]) = (Inl (OSError Timeout), w')"
proof -
  let ?w = "demo_world [Fail Timeout]"
  have "reply_outcome no_builtins demo_request (sock_pending (csock (cl ?w))) (sock_stop (csock (cl ?w)))
      = Inl (OSError Timeout)"
    by (simp add: reply_outcome_def parse_frame_def demo_world_def sock_pending_def sock_stop_def end_of_input_def)
  with invoke_once_outcome [of ?w demo_request no_builtins] demo_payload_small
  obtain w' where "invoke_once no_builtins demo_request ?w = (Inl (OSError Timeout), w')"
    by (metis (no_types, lifting) demo_world_def client.select_convs(1,3) prod.collapse sock.select_convs(3,4)
        world.select_convs(1))
  then show ?thesis
    by (simp add: invoke_def andthen_def ret_def catch_def throw_def connection_lost_def) (simp add: demo_world_def)
qed

theorem late_reply_never_read_witness:
  "\<exists>w'. invoke (\<lambda>v. None) no_builtins demo_request (demo_world [Fail Timeout]) = (Inl (OSError Timeout), w') \<and>
     \<not> is_open (csock (cl w'))"
proof -
  obtain w' where run: "invoke (\<lambda>v. None) no_builtins demo_request (demo_world [Fail Timeout])
      = (Inl (OSError Timeout), w')" using demo_timeout by blast
  have "\<forall>d \<in> set (dials (demo_world [Fail Timeout])). peer_cred d \<noteq> Some (Inl Timeout)"
    by (simp add: demo_world_def)
  from late_reply_never_read [OF run this] run show ?thesis by blast
qed


subsection \<open>A re-dial that fails\<close>

lemma ebadf_not_lost [simp]: "\<not> connection_lost (OSError ebadf)"
  by (simp add: connection_lost_def ebadf_def)

lemma invoke_on_closed:
  assumes "\<not> is_open (csock (cl w))" and "\<not> needs_redial (cl w)"
    and "length (request_payload (caps (cl w)) req) < max_message_size"
  shows "invoke env b req w = (Inl (OSError ebadf), w)"
proof -
  have "exchange_frames (request_payload (caps (cl w)) req) (csock (cl w)) = (Inl (OSError ebadf), csock (cl w))"
    using assms by (simp add: exchange_frames_def write_frame_def encode_frame_ok andthen_def lift_def
        sock_sendall_def)
  then have "invoke_once b req w = (Inl (OSError ebadf), w)"
    by (simp add: invoke_once_def on_sock_def ebadf_def)
  then show ?thesis using assms(2) by (simp add: invoke_def andthen_def ret_def catch_def throw_def)
qed

text \<open>
  C10: a failed re-dial wedges the client. When a call finds its connection spent and the one
  re-dial fails as well, the client keeps a closed socket without a note to dial again, so every
  later call fails with \<open>EBADF\<close> at the write, without a dial, even when the Assembler is back
  (for any outcomes \<open>ds\<close> of further dials).
\<close>

theorem failed_redial_wedges_client:
  assumes "\<not> needs_redial (cl w)" and "invoke_once b req w = (Inl e, w2)" and "connection_lost e"
    and "reconnect env w2 = (Inl e', w')" and "endpoint (cl w) = Some ep" and "ep \<noteq> []"
    and "\<not> needs_redial (cl w2)" and "length (request_payload (caps (cl w)) req2) < max_message_size"
  shows "invoke env b req w = (Inl e', w') \<and>
         invoke env b2 req2 (w'\<lparr>dials := ds\<rparr>) = (Inl (OSError (Errno 9)), w'\<lparr>dials := ds\<rparr>)"
proof
  show "invoke env b req w = (Inl e', w')"
    using assms(1-4) by (simp add: invoke_def andthen_def ret_def catch_def)
  from invoke_once_frame [OF assms(2)] assms(5) have "endpoint (cl w2) = Some ep" "caps (cl w2) = caps (cl w)"
    by simp_all
  with assms(4,6,7) have "\<not> is_open (csock (cl w'))" "\<not> needs_redial (cl w')" "caps (cl w') = caps (cl w)"
    by (auto simp: reconnect_def Let_def sock_close_def split: sum.splits prod.splits)
  with invoke_on_closed [of "w'\<lparr>dials := ds\<rparr>" req2 env b2] assms(8)
  show "invoke env b2 req2 (w'\<lparr>dials := ds\<rparr>) = (Inl (OSError (Errno 9)), w'\<lparr>dials := ds\<rparr>)"
    by (simp add: ebadf_def)
qed

lemma demo_spent:
  "\<exists>w2. invoke_once no_builtins demo_request (demo_world [Eof]) = (Inl (IpcError PeerClosedMidMessage), w2) \<and>
     \<not> needs_redial (cl w2) \<and> reconnect (\<lambda>v. None) w2
       = (Inl (IpcError (StatFailed (lit ''/e'') NotFound)), w2\<lparr>cl := (cl w2)\<lparr>csock := sock_close (csock (cl w2))\<rparr>\<rparr>)"
proof -
  let ?w = "demo_world [Eof]"
  obtain r w2 where run: "invoke_once no_builtins demo_request ?w = (r, w2)" by force
  have c: "is_open (csock (cl ?w))" "tx_plan (csock (cl ?w)) = []" "caps (cl ?w) = []"
    by (simp_all add: demo_world_def)
  have "reply_outcome no_builtins demo_request (sock_pending (csock (cl ?w))) (sock_stop (csock (cl ?w)))
      = Inl (IpcError PeerClosedMidMessage)"
    by (simp add: reply_outcome_def parse_frame_def demo_world_def sock_pending_def sock_stop_def end_of_input_def)
  with invoke_once_outcome [OF c(1,2), of demo_request no_builtins] c(3) demo_payload_small run
  have r: "r = Inl (IpcError PeerClosedMidMessage)" by simp
  with run have n: "cl w2 = (cl ?w)\<lparr>csock := csock (cl w2)\<rparr>" "dials w2 = []"
    by (auto simp: invoke_once_def on_sock_def demo_world_def split: sum.splits prod.splits if_splits)
  then have n: "\<not> needs_redial (cl w2)" "endpoint (cl w2) = Some (lit ''/e'')" "dials w2 = []"
    "conn_timeout (cl w2) = None"
    by (simp_all add: demo_world_def, (metis client.select_convs(2,4,5) client.update_convs(1))+)
  then show ?thesis using run r
    by (simp add: reconnect_def next_dial_def client_connect_def connect_unix_def validate_ipc_socket_path_def
        no_dial_def Let_def)
qed

theorem failed_redial_wedges_client_witness:
  "\<exists>w'. \<forall>ds. invoke (\<lambda>v. None) no_builtins demo_request (demo_world [Eof])
       = (Inl (IpcError (StatFailed (lit ''/e'') NotFound)), w') \<and>
     invoke (\<lambda>v. None) no_builtins demo_request (w'\<lparr>dials := ds\<rparr>)
       = (Inl (OSError (Errno 9)), w'\<lparr>dials := ds\<rparr>)"
proof -
  obtain w2 w' where 1: "invoke_once no_builtins demo_request (demo_world [Eof]) = (Inl (IpcError PeerClosedMidMessage), w2)"
    and 2: "\<not> needs_redial (cl w2)"
    and 3: "reconnect (\<lambda>v. None) w2 = (Inl (IpcError (StatFailed (lit ''/e'') NotFound)), w')"
    using demo_spent by blast
  have w: "\<not> needs_redial (cl (demo_world [Eof]))" "endpoint (cl (demo_world [Eof])) = Some (lit ''/e'')"
    "caps (cl (demo_world [Eof])) = []" by (simp_all add: demo_world_def)
  have lost: "connection_lost (IpcError PeerClosedMidMessage)"
    using contains_lit_closed by (simp add: connection_lost_def)
  show ?thesis
    using failed_redial_wedges_client [OF w(1) 1 lost 3 w(2) _ 2, of demo_request no_builtins] w(3)
      demo_payload_small by auto
qed


subsection \<open>Connecting\<close>

text \<open>
  C11: a client exists only on the far side of a complete handshake. If \<open>connect\<close> returns, the
  connection passed the path and peer checks, this side has written its hello and nothing else,
  the peer's first frame was a handshake with the same major version in the role of the
  Assembler, and the bytes behind that frame are still unread; the deadline of the connection is
  now the one for tool calls.
\<close>

theorem client_connect_sound:
  assumes "client_connect env d ep t cs ct = Inr c"
  shows "\<exists>s. connect_unix env d ep t = (Inr (), Some s) \<and>
           handshake_verdict (sock_pending s) (sock_stop s) = Inr (role_assembler, sock_pending (csock c)) \<and>
           tx (csock c) = tx (fresh d) @ hello role_agent \<and> is_open (csock c) \<and> deadline (csock c) = ct"
  using assms
proof (rule client_connect_Inr)
  fix s s'
  assume s: "connect_unix env d ep t = (Inr (), Some s)"
    and h: "perform_handshake role_agent s = (Inr role_assembler, s')" and c: "csock c = set_deadline ct s'"
  have "sock_pending (csock c) = sock_pending s'" by (simp add: c set_deadline_def sock_pending_def)
  with perform_handshake_Inr [OF h] connect_unix_Inr [OF s] s c show ?thesis
    by (auto simp: set_deadline_def)
qed

definition peer_sock :: sock where
  "peer_sock = \<lparr>rx = [Data (hello role_assembler @ [7])], tx = [], tx_plan = [], is_open = True, deadline = None\<rparr>"

theorem client_connect_sound_witness:
  "\<exists>c. client_connect demo_env (demo_dial\<lparr>fresh := peer_sock\<rparr>) (lit ''/run/a/x.sock'') None [] (Some 180000) = Inr c \<and>
     sock_pending (csock c) = [7] \<and> deadline (csock c) = Some 180000"
proof -
  let ?d = "demo_dial\<lparr>fresh := peer_sock\<rparr>"
  have u: "connect_unix demo_env ?d (lit ''/run/a/x.sock'') None = (Inr (), Some peer_sock)"
    by (simp add: connect_unix_def validate_ipc_socket_path_def demo_paths verify_peer_after_connect_def)
  have p: "sock_pending peer_sock = hello role_assembler @ [7]" "sock_stop peer_sock = None"
    "is_open peer_sock" "tx_plan peer_sock = []"
    by (simp_all add: peer_sock_def sock_pending_def sock_stop_def)
  obtain s' where "perform_handshake role_agent peer_sock =
      (case handshake_verdict (sock_pending peer_sock) (sock_stop peer_sock) of
         Inl e \<Rightarrow> (Inl e, s') | Inr (r, rest) \<Rightarrow> (Inr r, s'))"
    by (rule perform_handshake_verdict [OF p(3,4), of role_agent])
  then have "perform_handshake role_agent peer_sock = (Inr role_assembler, s')"
    by (simp add: p handshake_verdict_hello)
  with u obtain c where c: "client_connect demo_env ?d (lit ''/run/a/x.sock'') None [] (Some 180000) = Inr c"
    by (simp add: client_connect_def)
  from client_connect_sound [OF c] u c show ?thesis
    by (auto simp: p handshake_verdict_hello)
qed

subsection \<open>Recovery\<close>

text \<open>A dial that gets through to an Assembler that will answer with \<open>f\<close>.\<close>

definition answering :: "env \<Rightarrow> dial \<Rightarrow> client \<Rightarrow> bytes \<Rightarrow> bool" where
  "answering env d c f \<longleftrightarrow>
     (\<exists>ep s rest. endpoint c = Some ep \<and> ep \<noteq> [] \<and> connect_unix env d ep (conn_timeout c) = (Inr (), Some s) \<and>
        is_open s \<and> tx_plan s = [] \<and> sock_pending s = hello role_assembler @ f @ rest)"

lemma answering_reconnects:
  assumes "answering env (next_dial (dials w)) (cl w) f"
  obtains w' rest where "reconnect env w = (Inr (), w')" and "is_open (csock (cl w'))" and "tx_plan (csock (cl w')) = []"
    and "sock_pending (csock (cl w')) = f @ rest" and "caps (cl w') = caps (cl w)" and "\<not> needs_redial (cl w')"
proof -
  from assms obtain ep s rest where ep: "endpoint (cl w) = Some ep" "ep \<noteq> []"
    and u: "connect_unix env (next_dial (dials w)) ep (conn_timeout (cl w)) = (Inr (), Some s)"
    and s: "is_open s" "tx_plan s = []" "sock_pending s = hello role_assembler @ f @ rest"
    unfolding answering_def by blast
  obtain s' where h: "perform_handshake role_agent s =
      (case handshake_verdict (sock_pending s) (sock_stop s) of Inl e \<Rightarrow> (Inl e, s') | Inr (r, rest) \<Rightarrow> (Inr r, s'))"
    and s': "is_open s'" "tx_plan s' = []"
    and p: "\<forall>r rest. handshake_verdict (sock_pending s) (sock_stop s) = Inr (r, rest) \<longrightarrow>
           sock_pending s' = rest \<and> sock_stop s' = sock_stop s"
    by (rule perform_handshake_verdict [OF s(1,2), of role_agent]) (rule that)
  from s(3) have v: "handshake_verdict (sock_pending s) (sock_stop s) = Inr (role_assembler, f @ rest)"
    using handshake_verdict_hello by simp
  with h have "perform_handshake role_agent s = (Inr role_assembler, s')" by simp
  with u ep have "\<exists>w'. reconnect env w = (Inr (), w') \<and> csock (cl w') = set_deadline (call_timeout (cl w)) s' \<and>
      caps (cl w') = caps (cl w) \<and> \<not> needs_redial (cl w')"
    by (simp add: reconnect_def client_connect_def Let_def)
  then obtain w' where "reconnect env w = (Inr (), w')" "csock (cl w') = set_deadline (call_timeout (cl w)) s'"
    "caps (cl w') = caps (cl w)" "\<not> needs_redial (cl w')" by blast
  with s' p v that show thesis by (auto simp: set_deadline_def sock_pending_def)
qed

lemma invoke_once_answered:
  assumes "is_open (csock (cl w))" and "tx_plan (csock (cl w)) = []"
    and "length (request_payload (caps (cl w)) req) < max_message_size"
    and "sock_pending (csock (cl w)) = f @ rest"
    and "encode_frame msg_tool_call_response (dumps_bytes compact (response_wire resp)) = Inr f"
    and "wf_json (response_wire resp)"
  obtains w' where "invoke_once b req w = (Inr resp, w')" and "is_open (csock (cl w'))"
    and "needs_redial (cl w') = needs_redial (cl w)"
proof -
  obtain r w' where run: "invoke_once b req w = (r, w')" by force
  have "loads_bytes (dumps_bytes compact (response_wire resp)) = Inr (response_wire resp)"
    using assms(6) by (intro loads_dumps_bytes) simp_all
  then have "interpret_reply b req msg_tool_call_response (dumps_bytes compact (response_wire resp)) = Inr resp"
    by (simp add: interpret_reply_def from_wire_response)
  with invoke_once_outcome [OF assms(1,2,3), where b = b] run have r: "r = Inr resp"
    by (simp add: reply_outcome_def assms(4) parse_encode [OF assms(5)])
  let ?p = "request_payload (caps (cl w)) req"
  have "is_open (snd (exchange_frames ?p (csock (cl w))))"
    unfolding exchange_frames_def andthen_def write_frame_ok [OF assms(1-3)]
    using assms(1) read_frame_keeps(2) by simp
  with run r have "is_open (csock (cl w')) \<and> needs_redial (cl w') = needs_redial (cl w)"
    by (auto simp: invoke_once_def on_sock_def split: sum.splits prod.splits if_splits)
  with run r that show thesis by blast
qed

lemma invoke_once_timeouts: "invoke_once b req w = (r, w') \<Longrightarrow> conn_timeout (cl w') = conn_timeout (cl w)"
  by (auto simp: invoke_once_def on_sock_def client_close_def Let_def split: sum.splits prod.splits if_splits)

text \<open>
  C36: a client recovers. After a call that timed out, or on a connection that the Assembler closed
  meanwhile, the next call succeeds as soon as one dial gets through to an Assembler that answers:
  it re-dials by itself, returns the response, and leaves the client on an open connection that is
  not marked for another dial.
\<close>

theorem client_recovers:
  assumes "needs_redial (cl w) \<or> (\<exists>e w1. invoke_once b req w = (Inl e, w1) \<and> connection_lost e)"
    and "answering env (next_dial (dials w)) (cl w) f"
    and "length (request_payload (caps (cl w)) req) < max_message_size"
    and "encode_frame msg_tool_call_response (dumps_bytes compact (response_wire resp)) = Inr f"
    and "wf_json (response_wire resp)"
  shows "\<exists>w'. invoke env b req w = (Inr resp, w') \<and> is_open (csock (cl w')) \<and> \<not> needs_redial (cl w')"
proof (cases "needs_redial (cl w)")
  case True
  obtain w1 rest where w1: "reconnect env w = (Inr (), w1)" "is_open (csock (cl w1))" "tx_plan (csock (cl w1)) = []"
    "sock_pending (csock (cl w1)) = f @ rest" "caps (cl w1) = caps (cl w)" "\<not> needs_redial (cl w1)"
    by (rule answering_reconnects [OF assms(2)])
  then obtain w' where "invoke_once b req w1 = (Inr resp, w')" "is_open (csock (cl w'))" "\<not> needs_redial (cl w')"
    using invoke_once_answered [of w1 req f rest resp b] assms(3-5) by auto
  with True w1(1) show ?thesis by (auto simp: invoke_def andthen_def catch_def)
next
  case False
  with assms(1) obtain e w0 where run: "invoke_once b req w = (Inl e, w0)" and e: "connection_lost e" by blast
  from invoke_once_frame [OF run] invoke_once_timeouts [OF run] assms(2)
  have "answering env (next_dial (dials w0)) (cl w0) f" by (simp add: answering_def)
  then obtain w1 rest where w1: "reconnect env w0 = (Inr (), w1)" "is_open (csock (cl w1))" "tx_plan (csock (cl w1)) = []"
    "sock_pending (csock (cl w1)) = f @ rest" "caps (cl w1) = caps (cl w0)" "\<not> needs_redial (cl w1)"
    by (rule answering_reconnects)
  moreover from invoke_once_frame(3) [OF run] have "caps (cl w0) = caps (cl w)" .
  ultimately obtain w' where "invoke_once b req w1 = (Inr resp, w')" "is_open (csock (cl w'))" "\<not> needs_redial (cl w')"
    using invoke_once_answered [of w1 req f rest resp b] assms(3-5) by auto
  with False run e w1(1) show ?thesis by (auto simp: invoke_def andthen_def catch_def ret_def)
qed

theorem client_recovers_witness:
  "\<exists>w w'. sock_pending (csock (cl w)) = [] \<and> invoke demo_env no_builtins demo_request w = (Inr demo_answer_response, w') \<and>
     is_open (csock (cl w'))"
proof -
  let ?f = "response_frame demo_answer_response"
  let ?s = "peer_sock\<lparr>rx := [Data (hello role_assembler @ ?f)]\<rparr>"
  let ?v = "demo_world [Eof]"
  let ?w = "?v\<lparr>cl := (cl ?v)\<lparr>endpoint := Some (lit ''/run/a/x.sock'')\<rparr>, dials := [demo_dial\<lparr>fresh := ?s\<rparr>]\<rparr>"
  have c: "is_open (csock (cl ?w))" "tx_plan (csock (cl ?w)) = []" "caps (cl ?w) = []"
    by (simp_all add: demo_world_def)
  have "reply_outcome no_builtins demo_request (sock_pending (csock (cl ?w))) (sock_stop (csock (cl ?w)))
      = Inl (IpcError PeerClosedMidMessage)"
    by (simp add: reply_outcome_def parse_frame_def demo_world_def sock_pending_def sock_stop_def end_of_input_def)
  with invoke_once_outcome [OF c(1,2), of demo_request no_builtins] c(3) demo_payload_small
  have spent: "fst (invoke_once no_builtins demo_request ?w) = Inl (IpcError PeerClosedMidMessage)" by simp
  have "connect_unix demo_env (demo_dial\<lparr>fresh := ?s\<rparr>) (lit ''/run/a/x.sock'') None = (Inr (), Some ?s)"
    by (simp add: connect_unix_def validate_ipc_socket_path_def demo_paths verify_peer_after_connect_def)
  then have ready: "answering demo_env (next_dial (dials ?w)) (cl ?w) ?f"
    by (simp add: answering_def next_dial_def demo_world_def peer_sock_def sock_pending_def)
  have lost: "connection_lost (IpcError PeerClosedMidMessage)"
    using contains_lit_closed by (simp add: connection_lost_def)
  have "\<exists>w'. invoke demo_env no_builtins demo_request ?w = (Inr demo_answer_response, w') \<and> is_open (csock (cl w')) \<and>
      \<not> needs_redial (cl w')"
  proof (rule client_recovers [OF _ ready])
    show "needs_redial (cl ?w) \<or> (\<exists>e w1. invoke_once no_builtins demo_request ?w = (Inl e, w1) \<and> connection_lost e)"
      using spent lost by (metis prod.collapse)
  qed (use demo_answer_response demo_payload_small c(3) in simp_all)
  moreover have "sock_pending (csock (cl ?w)) = []" by (simp add: demo_world_def sock_pending_def)
  ultimately show ?thesis by blast
qed

end
