(* ===== verification/Agent.thy ===== *)
theory Agent
  imports Ipc_Client
begin

text \<open>
  \<open>agent.py\<close> and \<open>auth_ipc.py\<close>: where the sockets are, the Authenticator's control socket and
  enrollment, and \<open>HawcxAgent\<close> with its principal allowlist. The UNIX side is modelled; on
  Windows only the endpoint names are.

  SHA-256 (\<open>sha\<close>, the hex digest) and \<open>uuid4\<close> (\<open>uid\<close>, its hex text) are arguments.
\<close>

section \<open>Endpoints\<close>

definition nonempty :: "pystr option \<Rightarrow> pystr option" where
  "nonempty v = (case v of Some [] \<Rightarrow> None | _ \<Rightarrow> v)"

lemma nonempty_lit [simp]: "nonempty (Some (lit (c # s))) = Some (lit (c # s))"
  by (simp add: nonempty_def lit_def)

definition default_ipc_dir :: "env \<Rightarrow> exn + pystr" where
  "default_ipc_dir env =
     (case nonempty (env (lit ''XDG_RUNTIME_DIR'')) of
        Some d \<Rightarrow> Inr (path_join d (lit ''hawcx''))
      | None \<Rightarrow>
          (case nonempty (env (lit ''TMPDIR'')) of
             Some d \<Rightarrow> Inr (path_join d (lit ''hawcx''))
           | None \<Rightarrow>
               if env (lit ''HAAP_SDK_ALLOW_TMP_IPC'') = Some (lit ''1'') then Inr (lit ''/tmp/hawcx'')
               else Inl (HawcxError NoIpcBaseDir)))"

text \<open>The prefix \<open>\\.\pipe\\<close> of a named pipe.\<close>

definition pipe_prefix :: pystr where
  "pipe_prefix = [92, 92, 46, 92, 112, 105, 112, 101, 92]"

definition base_dir :: "env \<Rightarrow> pystr option \<Rightarrow> exn + pystr" where
  "base_dir env ipc_dir = (case ipc_dir of Some d \<Rightarrow> Inr d | None \<Rightarrow> default_ipc_dir env)"

definition default_endpoint_for :: "env \<Rightarrow> bool \<Rightarrow> pystr \<Rightarrow> nat \<Rightarrow> pystr option \<Rightarrow> exn + pystr" where
  "default_endpoint_for env win32 agent_id index ipc_dir =
     (if win32 then Inr (pipe_prefix @ lit ''haap-'' @ agent_id @ lit ''-agent-assembler-'' @ dec index)
      else case base_dir env ipc_dir of
          Inl e \<Rightarrow> Inl e
        | Inr base \<Rightarrow> Inr (path_join (path_join base agent_id) (lit ''agent-assembler-'' @ dec index @ lit ''.sock'')))"

definition default_auth_control_socket_for :: "env \<Rightarrow> bool \<Rightarrow> pystr \<Rightarrow> pystr option \<Rightarrow> exn + pystr" where
  "default_auth_control_socket_for env win32 agent_id ipc_dir =
     (case nonempty (env (lit ''HAAP_AUTH_CONTROL_SOCK'')) of
        Some p \<Rightarrow> Inr p
      | None \<Rightarrow>
          if win32 then Inr (pipe_prefix @ lit ''haap-'' @ agent_id @ lit ''-auth-control'')
          else (case base_dir env ipc_dir of
                  Inl e \<Rightarrow> Inl e
                | Inr base \<Rightarrow> Inr (path_join (path_join base agent_id) (lit ''auth-control.sock''))))"

section \<open>The Authenticator client\<close>

record enrollment =
  agent_instance_id :: pystr
  client_id :: pystr
  ik_fingerprint :: pystr
  session_id :: pystr
  already_enrolled :: bool
  trust_level :: "pystr option"

definition msg_register_req :: byte where "msg_register_req = 7"
definition msg_register_resp :: byte where "msg_register_resp = 8"

definition required :: "string \<Rightarrow> (pystr \<times> json) list \<Rightarrow> exn + json" where
  "required k kvs = (case map_of kvs (lit k) of None \<Rightarrow> Inl (KeyError (lit k)) | Some v \<Rightarrow> Inr v)"

definition enrolled :: "bool \<Rightarrow> (pystr \<times> json) list \<Rightarrow> exn + enrollment" where
  "enrolled already kvs =
     (case required ''agent_instance_id'' kvs of Inl e \<Rightarrow> Inl e | Inr i \<Rightarrow>
      case required ''client_id'' kvs of Inl e \<Rightarrow> Inl e | Inr c \<Rightarrow>
      case required ''session_id'' kvs of Inl e \<Rightarrow> Inl e | Inr s \<Rightarrow>
      Inr \<lparr>agent_instance_id = py_str i, client_id = py_str c,
           ik_fingerprint = py_str (get (lit ''ik_fingerprint'') (JStr []) kvs), session_id = py_str s,
           already_enrolled = already,
           trust_level = (if already then (case get (lit ''trust_level'') JNull kvs of JNull \<Rightarrow> None
                                           | t \<Rightarrow> Some (py_str t)) else None)\<rparr>)"

text \<open>A body that is not an object fails in the membership test, the subscription, or \<open>.get\<close>.\<close>

definition not_a_dict :: "json \<Rightarrow> exn" where
  "not_a_dict j =
     (case j of
        JArr js \<Rightarrow> if JStr (lit ''error'') \<in> set js \<and> JStr (lit ''type'') \<notin> set js
                   then TypeError BadToolArgument else AttributeError
      | JStr s \<Rightarrow> if contains (lit ''error'') s \<and> \<not> contains (lit ''type'') s
                   then TypeError BadToolArgument else AttributeError
      | _ \<Rightarrow> TypeError BadToolArgument)"

definition parse_register_response :: "bytes \<Rightarrow> exn + enrollment" where
  "parse_register_response body =
     (case loads_bytes body of
        Inl f \<Rightarrow> Inl (IpcError MalformedRegister)
      | Inr (JObj kvs) \<Rightarrow>
          if has_key (lit ''error'') kvs \<and> \<not> has_key (lit ''type'') kvs
          then Inl (EnrollmentRejected (py_str (get (lit ''error'') JNull kvs)) None)
          else (let variant = get (lit ''type'') JNull kvs in
            if variant = JStr (lit ''Enrolled'') then enrolled False kvs
            else if variant = JStr (lit ''AlreadyEnrolled'') then enrolled True kvs
            else if variant = JStr (lit ''Degraded'')
            then Inl (EnrollmentRejected (py_str (get (lit ''reason'') (JStr (lit ''policy push failed'')) kvs))
                        (nonempty (Some (py_str (get (lit ''agent_instance_id'') (JStr []) kvs)))))
            else Inl (IpcError UnknownVariant))
      | Inr j \<Rightarrow> Inl (not_a_dict j))"

record auth_client = auth_sock :: "sock option"

text \<open>\<open>AuthenticatorClient.connect\<close> on UNIX; an \<open>OSError\<close> of \<open>connect\<close> passes through as it is.\<close>

definition auth_connect :: "env \<Rightarrow> dial \<Rightarrow> pystr \<Rightarrow> timeout \<Rightarrow> exn + auth_client" where
  "auth_connect env d ep timeout =
     (case validate_ipc_socket_path env d ep of
        Inl e \<Rightarrow> Inl e
      | Inr pre \<Rightarrow>
          (case connect_result d of
             Some k \<Rightarrow> Inl (OSError k)
           | None \<Rightarrow> Inr \<lparr>auth_sock = Some (case timeout of None \<Rightarrow> fresh d
                                            | Some t \<Rightarrow> set_deadline (Some t) (fresh d))\<rparr>))"

definition register_payload :: "pystr \<Rightarrow> pystr \<Rightarrow> pystr \<Rightarrow> pystr option \<Rightarrow> json" where
  "register_payload agent_class subject_user_id org_token prepared =
     JObj ([(lit ''agent_class'', JStr agent_class), (lit ''subject_user_id'', JStr subject_user_id),
            (lit ''org_token'', JStr org_token)] @ str_field ''prepared_agent_id'' prepared)"

definition register_exchange :: "bytes \<Rightarrow> (exn, sock, enrollment) act" where
  "register_exchange body =
     andthen (write_frame msg_register_req body) (\<lambda>_.
     andthen read_frame (\<lambda>(t, resp).
       if t \<noteq> msg_register_resp then throw (IpcError (UnexpectedRegister (unat t)))
       else lift (parse_register_response resp)))"

definition register_agent ::
  "pystr \<Rightarrow> pystr \<Rightarrow> pystr \<Rightarrow> pystr option \<Rightarrow> (exn, auth_client, enrollment) act" where
  "register_agent agent_class subject_user_id org_token prepared c =
     (case auth_sock c of
        None \<Rightarrow> (Inl (HawcxError AuthClientClosed), c)
      | Some s \<Rightarrow>
          (let body = dumps_bytes compact (register_payload agent_class subject_user_id org_token prepared) in
           if max_message_size < length body + 1 then (Inl (IpcError (RegisterTooLarge (length body))), c)
           else case register_exchange body s of (r, s') \<Rightarrow> (r, c\<lparr>auth_sock := Some s'\<rparr>)))"

text \<open>\<open>close\<close>; the closed socket is returned, for the theorems.\<close>

definition auth_close :: "auth_client \<Rightarrow> auth_client \<times> sock option" where
  "auth_close c = (case auth_sock c of None \<Rightarrow> (c, None) | Some s \<Rightarrow> (c\<lparr>auth_sock := None\<rparr>, Some (sock_close s)))"


section \<open>The agent\<close>

record agent =
  a_client :: "world option"
  allowlist :: "pystr list"
  a_enrollment :: "enrollment option"

text \<open>The argument \<open>principal_allowlist\<close>: a list, tuple or set of strings and other things, or
  something else.\<close>

datatype allow_entry = EntryStr pystr | EntryOther
datatype allow_arg = Collection "allow_entry list" | NotCollection

fun check_entries :: "allow_entry list \<Rightarrow> exn + pystr list" where
  "check_entries [] = Inr []"
| "check_entries (e # es) =
     (case e of
        EntryOther \<Rightarrow> Inl (TypeError AllowlistEntryNotStr)
      | EntryStr p \<Rightarrow>
          if p = [] then Inl (TypeError AllowlistEntryEmpty)
          else (case check_entries es of Inl x \<Rightarrow> Inl x | Inr ps \<Rightarrow> Inr (p # ps)))"

definition validate_principal_allowlist :: "allow_arg \<Rightarrow> exn + pystr list" where
  "validate_principal_allowlist arg =
     (case arg of NotCollection \<Rightarrow> Inl (TypeError AllowlistNotACollection) | Collection es \<Rightarrow> check_entries es)"

text \<open>A lone surrogate cannot be hashed as UTF-8.\<close>

definition principal_fingerprint :: "(bytes \<Rightarrow> pystr) \<Rightarrow> pystr \<Rightarrow> exn + pystr" where
  "principal_fingerprint sha who =
     (case utf8_encode who of None \<Rightarrow> Inl UnicodeError | Some bs \<Rightarrow> Inr (take 12 (sha bs)))"

definition assert_principal_allowed :: "(bytes \<Rightarrow> pystr) \<Rightarrow> agent \<Rightarrow> pystr \<Rightarrow> exn + unit" where
  "assert_principal_allowed sha a who =
     (if who = [] then Inl (HawcxError PrincipalEmpty)
      else if who \<notin> set (allowlist a)
      then (case principal_fingerprint sha who of
              Inl e \<Rightarrow> Inl e | Inr fp \<Rightarrow> Inl (HawcxError (PrincipalNotAllowed fp)))
      else Inr ())"

definition agent_connect ::
  "env \<Rightarrow> dial \<Rightarrow> pystr \<Rightarrow> allow_arg \<Rightarrow> timeout \<Rightarrow> timeout \<Rightarrow> dial list \<Rightarrow> exn + agent" where
  "agent_connect env d ep allow timeout call_t later =
     (case validate_principal_allowlist allow of
        Inl e \<Rightarrow> Inl e
      | Inr ps \<Rightarrow>
          (case client_connect env d ep timeout [] call_t of
             Inl (e, so) \<Rightarrow> Inl e
           | Inr c \<Rightarrow> Inr \<lparr>a_client = Some \<lparr>cl = c, dials = later, replaced = []\<rparr>, allowlist = ps,
                         a_enrollment = None\<rparr>))"

definition agent_connect_by_agent_id ::
  "env \<Rightarrow> dial \<Rightarrow> pystr \<Rightarrow> allow_arg \<Rightarrow> nat \<Rightarrow> pystr option \<Rightarrow> timeout \<Rightarrow> timeout \<Rightarrow> dial list \<Rightarrow> exn + agent" where
  "agent_connect_by_agent_id env d agent_id allow index ipc_dir timeout call_t later =
     (case default_endpoint_for env False agent_id index ipc_dir of
        Inl e \<Rightarrow> Inl e
      | Inr ep \<Rightarrow> agent_connect env d ep allow timeout call_t later)"

text \<open>
  \<open>invoke\<close> takes its keyword arguments as a request record; an empty \<open>request_id\<close> stands for an
  absent one.
\<close>

definition complete_request :: "pystr \<Rightarrow> tool_call_request \<Rightarrow> tool_call_request" where
  "complete_request uid r =
     r\<lparr>request_id := (if request_id r = [] then lit ''req-'' @ take 16 uid else request_id r),
       http_method := upper (http_method r)\<rparr>"

definition agent_invoke ::
  "env \<Rightarrow> builtins \<Rightarrow> (bytes \<Rightarrow> pystr) \<Rightarrow> pystr \<Rightarrow> tool_call_request \<Rightarrow> (exn, agent, tool_call_response) act" where
  "agent_invoke env b sha uid r a =
     (case a_client a of
        None \<Rightarrow> (Inl (HawcxError AgentClosed), a)
      | Some w \<Rightarrow>
          (case (case acting_for_user r of None \<Rightarrow> Inr () | Some p \<Rightarrow> assert_principal_allowed sha a p) of
             Inl e \<Rightarrow> (Inl e, a)
           | Inr u \<Rightarrow> (case invoke env b (complete_request uid r) w of
                        (res, w') \<Rightarrow> (res, a\<lparr>a_client := Some w'\<rparr>))))"

definition agent_invoke_for ::
  "env \<Rightarrow> builtins \<Rightarrow> (bytes \<Rightarrow> pystr) \<Rightarrow> pystr \<Rightarrow> pystr \<Rightarrow> tool_call_request \<Rightarrow> (exn, agent, tool_call_response) act" where
  "agent_invoke_for env b sha uid who r a =
     (if who = [] then (Inl (ValueError []), a)
      else case assert_principal_allowed sha a who of
          Inl e \<Rightarrow> (Inl e, a)
        | Inr u \<Rightarrow> agent_invoke env b sha uid (r\<lparr>acting_for_user := Some who, provider := None\<rparr>) a)"

definition agent_send_clarification ::
  "pystr \<Rightarrow> int \<Rightarrow> int option \<Rightarrow> pystr option \<Rightarrow> (exn, agent, unit) act" where
  "agent_send_clarification pending_id sid answer_index answer_text a =
     (case a_client a of
        None \<Rightarrow> (Inl (HawcxError AgentClosed), a)
      | Some w \<Rightarrow> (case send_clarification_answer pending_id sid answer_index answer_text w of
                    (r, w') \<Rightarrow> (r, a\<lparr>a_client := Some w'\<rparr>)))"

definition agent_close :: "agent \<Rightarrow> agent" where
  "agent_close a = a\<lparr>a_client := None\<rparr>"

text \<open>\<open>enroll\<close>: phase 1 over a dial to the Authenticator. Its connection is closed on every path
  that opened it; the last component is that closed connection.\<close>

definition enroll_register ::
  "env \<Rightarrow> dial \<Rightarrow> pystr \<Rightarrow> pystr \<Rightarrow> pystr \<Rightarrow> pystr \<Rightarrow> timeout \<Rightarrow> (exn + enrollment) \<times> sock option" where
  "enroll_register env d auth_ep name org_token agent_class enroll_t =
     (case auth_connect env d auth_ep enroll_t of
        Inl e \<Rightarrow> (Inl e, None)
      | Inr auth \<Rightarrow>
          (case register_agent agent_class name org_token (Some name) auth of
             (r, auth') \<Rightarrow> (r, snd (auth_close auth'))))"

text \<open>Phase 2 over a dial to the Assembler of the enrolled identity.\<close>

definition enroll_connect ::
  "env \<Rightarrow> dial \<Rightarrow> enrollment \<Rightarrow> pystr list \<Rightarrow> nat \<Rightarrow> pystr option \<Rightarrow> timeout \<Rightarrow> timeout \<Rightarrow> dial list \<Rightarrow> exn + agent" where
  "enroll_connect env d result ps index ipc_dir conn_t call_t later =
     (case default_endpoint_for env False (agent_instance_id result) index ipc_dir of
        Inl e \<Rightarrow> Inl e
      | Inr ep \<Rightarrow>
          (case client_connect env d ep conn_t [] call_t of
             Inl (e, so) \<Rightarrow> Inl e
           | Inr c \<Rightarrow> Inr \<lparr>a_client = Some \<lparr>cl = c, dials = later, replaced = []\<rparr>, allowlist = ps,
                         a_enrollment = Some result\<rparr>))"

definition agent_enroll ::
  "env \<Rightarrow> dial \<Rightarrow> dial \<Rightarrow> pystr \<Rightarrow> pystr \<Rightarrow> allow_arg \<Rightarrow> pystr \<Rightarrow> pystr option \<Rightarrow> pystr option \<Rightarrow> nat
     \<Rightarrow> timeout \<Rightarrow> timeout \<Rightarrow> timeout \<Rightarrow> dial list \<Rightarrow> (exn + agent) \<times> sock option" where
  "agent_enroll env d1 d2 name org_token allow agent_class auth_socket ipc_dir index
      conn_t enroll_t call_t later =
     (case validate_principal_allowlist allow of
        Inl e \<Rightarrow> (Inl e, None)
      | Inr ps \<Rightarrow>
          if name = [] then (Inl (HawcxError EnrollNeedsName), None)
          else if org_token = [] then (Inl (HawcxError EnrollNeedsOrgToken), None)
          else (case (case nonempty auth_socket of Some p \<Rightarrow> Inr p
                      | None \<Rightarrow> default_auth_control_socket_for env False name ipc_dir) of
            Inl e \<Rightarrow> (Inl e, None)
          | Inr auth_ep \<Rightarrow>
              (case enroll_register env d1 auth_ep name org_token agent_class enroll_t of
                 (Inl e, so) \<Rightarrow> (Inl e, so)
               | (Inr result, so) \<Rightarrow> (enroll_connect env d2 result ps index ipc_dir conn_t call_t later, so))))"

section \<open>Properties\<close>

lemma check_entries_Inr: "check_entries es = Inr ps \<Longrightarrow> map EntryStr ps = es \<and> [] \<notin> set ps"
  by (induction es arbitrary: ps) (auto split: allow_entry.splits if_splits sum.splits)

lemma assert_principal_Inr:
  "assert_principal_allowed sha a p = Inr u \<longleftrightarrow> p \<noteq> [] \<and> p \<in> set (allowlist a)"
  by (auto simp: assert_principal_allowed_def principal_fingerprint_def split: option.splits)

text \<open>
  C12: the principal allowlist is a gate in front of the socket. A call whose principal is not on
  the list of a connected agent raises, and leaves the agent and the whole world of its client
  (bytes written, dials made, connections) exactly as they were; and the error carries nothing
  of the principal but the first twelve characters of its digest.
\<close>

theorem principal_gate:
  assumes "acting_for_user r = Some p" and "p \<notin> set (allowlist a)"
  shows "\<exists>e. agent_invoke env b sha uid r a = (Inl e, a) \<and>
           (a_client a \<noteq> None \<and> scalars p \<and> p \<noteq> [] \<longrightarrow>
              (\<exists>bs. utf8_encode p = Some bs \<and> e = HawcxError (PrincipalNotAllowed (take 12 (sha bs)))))"
proof (cases "a_client a")
  case None
  then show ?thesis by (simp add: agent_invoke_def)
next
  case (Some w)
  obtain e where e: "assert_principal_allowed sha a p = Inl e"
    using assms(2) assert_principal_Inr [of sha a p] by (cases "assert_principal_allowed sha a p") auto
  with Some assms(1) have "agent_invoke env b sha uid r a = (Inl e, a)" by (simp add: agent_invoke_def)
  moreover have "\<exists>bs. utf8_encode p = Some bs \<and> e = HawcxError (PrincipalNotAllowed (take 12 (sha bs)))"
    if "scalars p" "p \<noteq> []"
    using e that assms(2) utf8_roundtrip [OF that(1)]
    by (auto simp: assert_principal_allowed_def principal_fingerprint_def)
  ultimately show ?thesis by blast
qed

definition demo_agent :: agent where
  "demo_agent = \<lparr>a_client = Some (demo_world [Eof]), allowlist = [lit ''alice''], a_enrollment = None\<rparr>"

theorem principal_gate_witness:
  "agent_invoke (\<lambda>v. None) no_builtins (\<lambda>bs. lit ''0123456789abcdef'') [] (demo_request\<lparr>acting_for_user := Some (lit ''bob'')\<rparr>)
      demo_agent = (Inl (HawcxError (PrincipalNotAllowed (lit ''0123456789ab''))), demo_agent)"
proof -
  have "acting_for_user (demo_request\<lparr>acting_for_user := Some (lit ''bob'')\<rparr>) = Some (lit ''bob'')" by simp
  moreover have "lit ''bob'' \<notin> set (allowlist demo_agent)" by (simp add: demo_agent_def)
  moreover have "scalars (lit ''bob'')" by (rule isascii_scalars) simp
  ultimately show ?thesis
    using principal_gate [of "demo_request\<lparr>acting_for_user := Some (lit ''bob'')\<rparr>" "lit ''bob''" demo_agent
        "\<lambda>v. None" no_builtins "\<lambda>bs. lit ''0123456789abcdef''" "[]"]
    by (auto simp: demo_agent_def take_map [symmetric] lit_def)
qed


text \<open>What an Authenticator answers for a fresh enrollment.\<close>

definition enrolled_wire :: "enrollment \<Rightarrow> json" where
  "enrolled_wire r = JObj [(lit ''type'', JStr (lit ''Enrolled'')),
     (lit ''agent_instance_id'', JStr (agent_instance_id r)), (lit ''client_id'', JStr (client_id r)),
     (lit ''ik_fingerprint'', JStr (ik_fingerprint r)), (lit ''session_id'', JStr (session_id r))]"

lemma parse_register_enrolled:
  assumes "wf_json (enrolled_wire r)" and "\<not> already_enrolled r" and "trust_level r = None"
  shows "parse_register_response (dumps_bytes compact (enrolled_wire r)) = Inr r"
proof -
  have "loads_bytes (dumps_bytes compact (enrolled_wire r)) = Inr (enrolled_wire r)"
    using assms(1) by (intro loads_dumps_bytes) simp_all
  with assms(2,3) show ?thesis
    by (simp add: parse_register_response_def enrolled_wire_def has_key_def enrolled_def required_def get_def
        py_str_def)
qed

lemma register_exchange_answer:
  assumes "encode_frame msg_register_req body = Inr q" and "is_open s" and "tx_plan s = []"
    and "sock_pending s = f @ rest" and "encode_frame msg_register_resp resp = Inr f"
    and "parse_register_response resp = Inr r"
  shows "\<exists>s'. register_exchange body s = (Inr r, s')"
proof -
  let ?s1 = "s\<lparr>tx := tx s @ q\<rparr>"
  have w: "write_frame msg_register_req body s = (Inr (), ?s1)"
    using assms(1-3) by (simp add: write_frame_def andthen_def lift_def sock_sendall_def)
  have v: "sock_pending ?s1 = f @ rest" "sock_stop ?s1 = sock_stop s"
    by (simp_all add: sock_pending_def sock_stop_def flip: assms(4))
  obtain s' where "read_frame ?s1 = (case parse_frame (sock_pending ?s1) (sock_stop ?s1) of
         Inl e \<Rightarrow> (Inl e, s') | Inr (f, rest) \<Rightarrow> (Inr f, s'))"
    by (rule read_frame_parses [of ?s1])
  then have "read_frame ?s1 = (Inr (msg_register_resp, resp), s')"
    by (simp add: v parse_encode [OF assms(5)])
  with w assms(6) show ?thesis
    by (simp add: register_exchange_def andthen_def lift_def)
qed

text \<open>What an enrollment has to be, for the members of the Authenticator's answer: the answer is one of
  the two variants that enroll, and every field is the text of its member.\<close>

definition reports :: "(pystr \<times> json) list \<Rightarrow> enrollment \<Rightarrow> bool" where
  "reports kvs r \<longleftrightarrow>
     map_of kvs (lit ''type'') = Some (JStr (if already_enrolled r then lit ''AlreadyEnrolled'' else lit ''Enrolled'')) \<and>
     map_option py_str (map_of kvs (lit ''agent_instance_id'')) = Some (agent_instance_id r) \<and>
     map_option py_str (map_of kvs (lit ''client_id'')) = Some (client_id r) \<and>
     map_option py_str (map_of kvs (lit ''session_id'')) = Some (session_id r) \<and>
     ik_fingerprint r = (case map_of kvs (lit ''ik_fingerprint'') of None \<Rightarrow> [] | Some v \<Rightarrow> py_str v) \<and>
     trust_level r = (if already_enrolled r
        then (case map_of kvs (lit ''trust_level'') of None \<Rightarrow> None | Some JNull \<Rightarrow> None | Some t \<Rightarrow> Some (py_str t))
        else None)"

lemma required_Inr: "required k kvs = Inr v \<longleftrightarrow> map_of kvs (lit k) = Some v"
  by (simp add: required_def split: option.split)

lemma get_Some_str: "get k JNull kvs = JStr t \<Longrightarrow> map_of kvs k = Some (JStr t)"
  by (simp add: get_def split: option.splits)

lemma py_str_JStr: "py_str (JStr s) = s"
  by (simp add: py_str_def)

lemma enrolled_reports:
  assumes "enrolled already kvs = Inr r"
    and "map_of kvs (lit ''type'') = Some (JStr (if already then lit ''AlreadyEnrolled'' else lit ''Enrolled''))"
  shows "reports kvs r"
  using assms
  by (auto simp: enrolled_def reports_def required_Inr get_def py_str_JStr split: sum.splits option.split json.split)

lemma parse_register_reports:
  assumes "parse_register_response body = Inr r"
  obtains kvs where "loads_bytes body = Inr (JObj kvs)" "reports kvs r"
proof -
  from assms obtain kvs where kvs: "loads_bytes body = Inr (JObj kvs)"
    by (auto simp: parse_register_response_def split: sum.splits json.splits)
  let ?v = "get (lit ''type'') JNull kvs"
  from assms kvs consider "?v = JStr (lit ''Enrolled'')" "enrolled False kvs = Inr r"
    | "?v = JStr (lit ''AlreadyEnrolled'')" "enrolled True kvs = Inr r"
    by (auto simp: parse_register_response_def Let_def split: if_splits)
  then have "reports kvs r"
    by cases (auto intro!: enrolled_reports dest: get_Some_str)
  with kvs show thesis by (rule that)
qed

lemma write_frame_sent:
  assumes "write_frame t body s = (Inr u, s1)"
  obtains q where "encode_frame t body = Inr q" "tx s1 = tx s @ q" "sock_pending s1 = sock_pending s"
    "sock_stop s1 = sock_stop s"
  using assms
  by (auto simp: write_frame_def andthen_def lift_def sock_sendall_def sock_pending_def sock_stop_def
      split: sum.splits prod.splits if_splits list.splits option.splits)

text \<open>A registration that succeeds wrote its one frame and read one frame, which reports the result.\<close>

lemma register_exchange_Inr:
  assumes "register_exchange body s = (Inr r, s')"
  obtains q resp rest kvs where "encode_frame msg_register_req body = Inr q" "tx s' = tx s @ q"
    "parse_frame (sock_pending s) (sock_stop s) = Inr ((msg_register_resp, resp), rest)"
    "loads_bytes resp = Inr (JObj kvs)" "reports kvs r"
proof -
  obtain w s1 where w: "write_frame msg_register_req body s = (w, s1)" by force
  with assms obtain u where u: "w = Inr u" by (cases w) (auto simp: register_exchange_def andthen_def)
  obtain q where q: "encode_frame msg_register_req body = Inr q" "tx s1 = tx s @ q"
    "sock_pending s1 = sock_pending s" "sock_stop s1 = sock_stop s"
    using w u by (auto elim: write_frame_sent)
  obtain s2 where s2: "read_frame s1 = (case parse_frame (sock_pending s1) (sock_stop s1) of
         Inl e \<Rightarrow> (Inl e, s2) | Inr (f, rest) \<Rightarrow> (Inr f, s2))" and f: "s2\<lparr>rx := []\<rparr> = s1\<lparr>rx := []\<rparr>"
    by (rule read_frame_parses [of s1]) (rule that)
  then have "tx s2 = tx s1" using sock_frame_fields by blast
  from assms w u obtain resp where x: "read_frame s1 = (Inr (msg_register_resp, resp), s')"
    and r: "parse_register_response resp = Inr r"
    by (auto simp: register_exchange_def andthen_def lift_def throw_def split: sum.splits prod.splits if_splits)
  with s2 q obtain rest where p: "parse_frame (sock_pending s) (sock_stop s) = Inr ((msg_register_resp, resp), rest)"
    and s': "s' = s2"
    by (auto split: sum.splits prod.splits)
  from r obtain kvs where "loads_bytes resp = Inr (JObj kvs)" "reports kvs r" by (rule parse_register_reports)
  with q p \<open>tx s2 = tx s1\<close> s' show thesis by (intro that) simp_all
qed

text \<open>Phase 1, if it succeeds, on the connection it made.\<close>

definition registers :: "dial \<Rightarrow> json \<Rightarrow> enrollment \<Rightarrow> sock \<Rightarrow> bool" where
  "registers d request result s \<longleftrightarrow>
     (\<exists>q resp rest kvs. encode_frame msg_register_req (dumps_bytes compact request) = Inr q \<and>
        tx s = tx (fresh d) @ q \<and>
        parse_frame (sock_pending (fresh d)) (sock_stop (fresh d)) = Inr ((msg_register_resp, resp), rest) \<and>
        loads_bytes resp = Inr (JObj kvs) \<and> reports kvs result)"

lemma enroll_register_closed:
  assumes "enroll_register env d ep n t cls et = (r, Some s)"
  shows "\<not> is_open s"
  using assms by (auto simp: enroll_register_def auth_close_def sock_close_def split: sum.splits prod.splits option.splits)

lemma enroll_register_Inr:
  assumes "enroll_register env d ep n t cls et = (Inr result, so)"
  obtains s where "so = Some s" "registers d (register_payload cls n t (Some n)) result s"
proof -
  let ?body = "dumps_bytes compact (register_payload cls n t (Some n))"
  from assms obtain auth auth' where "auth_connect env d ep et = Inr auth"
    and reg: "register_agent cls n t (Some n) auth = (Inr result, auth')" and so: "so = snd (auth_close auth')"
    by (auto simp: enroll_register_def split: sum.splits prod.splits)
  then obtain s0 where s0: "auth_sock auth = Some s0" "tx s0 = tx (fresh d)"
    "sock_pending s0 = sock_pending (fresh d)" "sock_stop s0 = sock_stop (fresh d)"
    by (auto simp: auth_connect_def set_deadline_def sock_pending_def sock_stop_def split: sum.splits option.splits)
  with reg obtain s' where x: "register_exchange ?body s0 = (Inr result, s')" "auth_sock auth' = Some s'"
    by (auto simp: register_agent_def Let_def split: if_splits prod.splits)
  have "registers d (register_payload cls n t (Some n)) result (sock_close s')"
    by (rule register_exchange_Inr [OF x(1)]) (auto simp: registers_def s0 sock_close_def)
  with so x(2) show thesis by (intro that [of "sock_close s'"]) (simp_all add: auth_close_def)
qed

lemma enroll_connect_Inr:
  assumes "enroll_connect env d result ps index ipc_dir conn_t call_t later = Inr a"
  shows "\<exists>w ep. a_enrollment a = Some result \<and> a_client a = Some w \<and> endpoint (cl w) = Some ep \<and>
           default_endpoint_for env False (agent_instance_id result) index ipc_dir = Inr ep \<and>
           is_open (csock (cl w)) \<and> allowlist a = ps"
proof -
  from assms obtain ep c where ep: "default_endpoint_for env False (agent_instance_id result) index ipc_dir = Inr ep"
    and c: "client_connect env d ep conn_t [] call_t = Inr c"
    and a: "a = \<lparr>a_client = Some \<lparr>cl = c, dials = later, replaced = []\<rparr>, allowlist = ps, a_enrollment = Some result\<rparr>"
    by (auto simp: enroll_connect_def split: sum.splits)
  from c obtain s1 s2 where "perform_handshake role_agent s1 = (Inr role_assembler, s2)"
    and "csock c = set_deadline call_t s2" "endpoint c = Some ep" by (rule client_connect_Inr)
  with perform_handshake_Inr(2) have "is_open (csock c)" "endpoint c = Some ep" by (auto simp: set_deadline_def)
  with ep a show ?thesis by auto
qed

text \<open>
  C13: enrollment hands over a connected agent of the identity that the Authenticator reported. If
  \<open>enroll\<close> returns, then the control connection carried exactly one register frame with the name,
  the class and the token; the first frame of its answer is a register response whose JSON object
  has the type \<open>Enrolled\<close> or \<open>AlreadyEnrolled\<close> and names every field of the agent's enrollment; the
  agent is connected to the conventional socket of just that instance id; and its allowlist is the
  caller's, without the empty string. Whether \<open>enroll\<close> returns or raises, the control connection it
  made is closed.
\<close>

theorem enroll_sound:
  assumes "agent_enroll env d1 d2 name org_token allow agent_class auth_socket ipc_dir index
      conn_t enroll_t call_t later = (res, so)"
  shows "(\<forall>s. so = Some s \<longrightarrow> \<not> is_open s) \<and>
    (\<forall>a. res = Inr a \<longrightarrow>
       (\<exists>result w ep s. so = Some s \<and>
           registers d1 (register_payload agent_class name org_token (Some name)) result s \<and>
           a_enrollment a = Some result \<and> a_client a = Some w \<and> endpoint (cl w) = Some ep \<and>
           default_endpoint_for env False (agent_instance_id result) index ipc_dir = Inr ep \<and>
           is_open (csock (cl w)) \<and> allow = Collection (map EntryStr (allowlist a)) \<and> [] \<notin> set (allowlist a)))"
proof (intro conjI allI impI)
  show "\<not> is_open s" if "so = Some s" for s
    using assms that enroll_register_closed
    by (auto simp: agent_enroll_def split: sum.splits if_splits prod.splits)
next
  fix a
  assume "res = Inr a"
  with assms obtain ps auth_ep result where ps: "validate_principal_allowlist allow = Inr ps"
    and 1: "enroll_register env d1 auth_ep name org_token agent_class enroll_t = (Inr result, so)"
    and 2: "enroll_connect env d2 result ps index ipc_dir conn_t call_t later = Inr a"
    by (auto simp: agent_enroll_def split: sum.splits if_splits prod.splits)
  have "allow = Collection (map EntryStr ps) \<and> [] \<notin> set ps"
    using ps check_entries_Inr by (auto simp: validate_principal_allowlist_def split: allow_arg.splits)
  with enroll_register_Inr [OF 1] enroll_connect_Inr [OF 2]
  show "\<exists>result w ep s. so = Some s \<and>
      registers d1 (register_payload agent_class name org_token (Some name)) result s \<and>
      a_enrollment a = Some result \<and> a_client a = Some w \<and> endpoint (cl w) = Some ep \<and>
      default_endpoint_for env False (agent_instance_id result) index ipc_dir = Inr ep \<and>
      is_open (csock (cl w)) \<and> allow = Collection (map EntryStr (allowlist a)) \<and> [] \<notin> set (allowlist a)"
    by (metis (no_types))
qed

text \<open>A world in which every path is a root-owned socket with the inode that was validated.\<close>

definition open_dial :: "bytes \<Rightarrow> dial" where
  "open_dial bs = \<lparr>stat_before = (\<lambda>p. Inr (demo_stat 0)), stat_after = (\<lambda>p. Inr (demo_stat 0)), getuid = 0,
     connect_result = None, peer_cred = None,
     fresh = \<lparr>rx = [Data bs], tx = [], tx_plan = [], is_open = True, deadline = None\<rparr>\<rparr>"

definition demo_result :: enrollment where
  "demo_result = \<lparr>agent_instance_id = lit ''i7'', client_id = lit ''c'', ik_fingerprint = lit ''f'',
     session_id = lit ''s'', already_enrolled = False, trust_level = None\<rparr>"

definition demo_answer :: bytes where
  "demo_answer = (let body = dumps_bytes compact (enrolled_wire demo_result)
     in to_be 4 (1 + length body) @ [msg_register_resp] @ body)"

lemma demo_enrolled_wf: "wf_json (enrolled_wire demo_result)"
  by (simp add: enrolled_wire_def demo_result_def lit_def wf_str_def is_high_def is_low_def)

lemma demo_answer_short: "length (dumps_bytes compact (enrolled_wire demo_result)) < 1000"
  by code_simp

lemma demo_answer_frame:
  "encode_frame msg_register_resp (dumps_bytes compact (enrolled_wire demo_result)) = Inr demo_answer"
  using demo_answer_short by (simp add: encode_frame_def demo_answer_def Let_def max_message_size_def)

lemma open_dial_connects:
  "connect_unix (\<lambda>v. None) (open_dial bs) p t = (Inr (), Some (set_deadline t (fresh (open_dial bs))))"
  by (cases t) (simp_all add: connect_unix_def validate_ipc_socket_path_def verify_peer_after_connect_def
      expected_uid_def open_dial_def demo_stat_def set_deadline_def)

lemma open_dial_handshakes:
  "\<exists>c. client_connect (\<lambda>v. None) (open_dial (hello role_assembler)) p t [] ct = Inr c"
proof -
  let ?s = "set_deadline t (fresh (open_dial (hello role_assembler)))"
  have p: "sock_pending ?s = hello role_assembler @ []" "sock_stop ?s = None" "is_open ?s" "tx_plan ?s = []"
    by (simp_all add: open_dial_def sock_pending_def sock_stop_def set_deadline_def)
  obtain s' where "perform_handshake role_agent ?s =
      (case handshake_verdict (sock_pending ?s) (sock_stop ?s) of
         Inl e \<Rightarrow> (Inl e, s') | Inr (r, rest) \<Rightarrow> (Inr r, s'))"
    by (rule perform_handshake_verdict [OF p(3,4), of role_agent])
  then have "perform_handshake role_agent ?s = (Inr role_assembler, s')"
    unfolding p(1) handshake_verdict_hello by simp
  then show ?thesis by (simp add: client_connect_def open_dial_connects)
qed

lemma demo_registers:
  "\<exists>so. enroll_register (\<lambda>v. None) (open_dial demo_answer) p (lit ''n'') (lit ''t'') (lit ''autonomous'') None =
      (Inr demo_result, so)"
proof -
  let ?body = "dumps_bytes compact (register_payload (lit ''autonomous'') (lit ''n'') (lit ''t'') (Some (lit ''n'')))"
  let ?s = "fresh (open_dial demo_answer)"
  have short: "length ?body < 1000" by code_simp
  then obtain q where q: "encode_frame msg_register_req ?body = Inr q"
    by (simp add: encode_frame_def Let_def max_message_size_def)
  have "parse_register_response (dumps_bytes compact (enrolled_wire demo_result)) = Inr demo_result"
    by (rule parse_register_enrolled [OF demo_enrolled_wf]) (simp_all add: demo_result_def)
  moreover have "is_open ?s" "tx_plan ?s = []" "sock_pending ?s = demo_answer @ []"
    by (simp_all add: open_dial_def sock_pending_def)
  ultimately obtain s' where "register_exchange ?body ?s = (Inr demo_result, s')"
    using register_exchange_answer [OF q _ _ _ demo_answer_frame] by blast
  moreover have "auth_connect (\<lambda>v. None) (open_dial demo_answer) p None = Inr \<lparr>auth_sock = Some ?s\<rparr>"
    by (simp add: auth_connect_def validate_ipc_socket_path_def expected_uid_def open_dial_def demo_stat_def)
  ultimately show ?thesis
    using short by (simp add: enroll_register_def register_agent_def Let_def max_message_size_def)
qed

theorem enroll_sound_witness:
  "\<exists>a so w. agent_enroll (\<lambda>v. None) (open_dial demo_answer) (open_dial (hello role_assembler)) (lit ''n'') (lit ''t'')
      (Collection [EntryStr (lit ''alice'')]) (lit ''autonomous'') (Some (lit ''/run/x'')) (Some (lit ''/run'')) 0
      None None None [] = (Inr a, so) \<and>
     a_client a = Some w \<and> endpoint (cl w) = Some (lit ''/run/i7/agent-assembler-0.sock'') \<and> is_open (csock (cl w))"
proof -
  have ep: "default_endpoint_for (\<lambda>v. None) False (agent_instance_id demo_result) 0 (Some (lit ''/run'')) =
      Inr (lit ''/run/i7/agent-assembler-0.sock'')"
    by code_simp
  obtain so where "enroll_register (\<lambda>v. None) (open_dial demo_answer) (lit ''/run/x'') (lit ''n'') (lit ''t'')
      (lit ''autonomous'') None = (Inr demo_result, so)"
    using demo_registers by blast
  moreover obtain c where "client_connect (\<lambda>v. None) (open_dial (hello role_assembler))
      (lit ''/run/i7/agent-assembler-0.sock'') None [] None = Inr c"
    using open_dial_handshakes by blast
  ultimately obtain a where a: "agent_enroll (\<lambda>v. None) (open_dial demo_answer) (open_dial (hello role_assembler))
      (lit ''n'') (lit ''t'') (Collection [EntryStr (lit ''alice'')]) (lit ''autonomous'') (Some (lit ''/run/x''))
      (Some (lit ''/run'')) 0 None None None [] = (Inr a, so)" and r: "a_enrollment a = Some demo_result"
    by (auto simp: agent_enroll_def enroll_connect_def validate_principal_allowlist_def ep)
  from enroll_sound [OF a] a r show ?thesis by (auto simp: ep)
qed

end
