(* ===== verification/Mcp_Caller.thy ===== *)
theory Mcp_Caller
  imports Agent
begin

text \<open>
  \<open>mcp_caller.py\<close>: one MCP \<open>tools/call\<close> through the agent and the reading of its answer as a
  decision, the process-wide agent of the environment, and the check of a scaffolded
  configuration for values that were never filled in.
\<close>

section \<open>Requests\<close>

text \<open>\<open>env.get(name, "").strip()\<close>.\<close>

definition env_strip :: "env \<Rightarrow> string \<Rightarrow> pystr" where
  "env_strip env v = (case env (lit v) of None \<Rightarrow> [] | Some s \<Rightarrow> strip s)"

definition default_transport :: "env \<Rightarrow> exn + token_transport" where
  "default_transport env =
     (let raw = env_strip env ''HAAP_SDK_TOKEN_TRANSPORT'' in
      if raw = [] then Inr McpMeta
      else case find (\<lambda>t. transport_value t = raw) [HttpHeader, McpMeta, McpMetaV725] of
          Some t \<Rightarrow> Inr t
        | None \<Rightarrow> Inl (ValueError (lit ''HAAP_SDK_TOKEN_TRANSPORT='' @ py_repr raw @
            lit '' is not a known transport; expected one of: http_header, mcp_meta, mcp_meta_v7_2_5'')))"

record mcp_tool =
  tool_id :: pystr
  t_url :: pystr
  t_name :: pystr
  t_actions :: "pystr list"
  t_resource :: pystr
  t_arguments :: "(pystr \<times> json) list"

record caller =
  c_agent :: "agent option"
  c_provider :: "pystr option"
  c_seq :: int

definition chosen_arguments :: "mcp_tool \<Rightarrow> (pystr \<times> json) list option \<Rightarrow> (pystr \<times> json) list" where
  "chosen_arguments t arguments = (case arguments of None \<Rightarrow> t_arguments t | Some a \<Rightarrow> a)"

definition envelope :: "mcp_tool \<Rightarrow> (pystr \<times> json) list option \<Rightarrow> caller \<Rightarrow> json \<times> caller" where
  "envelope t arguments c =
     (let n = c_seq c + 1 in
      (JObj [(lit ''jsonrpc'', JStr (lit ''2.0'')), (lit ''id'', JInt n), (lit ''method'', JStr (lit ''tools/call'')),
             (lit ''params'', JObj [(lit ''name'', JStr (t_name t)),
                                    (lit ''arguments'', JObj (chosen_arguments t arguments))])],
       c\<lparr>c_seq := n\<rparr>))"

definition invoke_kwargs ::
  "env \<Rightarrow> mcp_tool \<Rightarrow> pystr \<Rightarrow> (pystr \<times> json) list option \<Rightarrow> (exn, caller, tool_call_request) act" where
  "invoke_kwargs env t who arguments c =
     (case envelope t arguments c of
        (doc, c') \<Rightarrow>
          (case default_transport env of
             Inl e \<Rightarrow> (Inl e, c')
           | Inr tr \<Rightarrow>
               (Inr \<lparr>request_id = [], target_rs_url = t_url t, http_method = lit ''POST'',
                     headers = [(lit ''Accept'', lit ''application/json, text/event-stream'')],
                     tool = tool_id t, mcp_tool_name = Some (t_name t), action = t_actions t,
                     resource = t_resource t, constraints = [],
                     plaintext_request_body = Some (dumps_bytes spaced doc), claimed_intent_hash = None,
                     tool_arguments = JObj (chosen_arguments t arguments),
                     content_type = Some (lit ''application/json''), transport = Some tr,
                     acting_for_user = Some who, provider = c_provider c'\<rparr>, c')))"

section \<open>The documents of a body\<close>

text \<open>\<open>str.splitlines()\<close>: a carriage return and a line feed together are one break.\<close>

fun split_lines :: "pystr \<Rightarrow> pystr list" where
  "split_lines [] = []"
| "split_lines (c # s) =
     (if is_break c then [] # split_lines (if c = 13 \<and> take 1 s = [10] then drop 1 s else s)
      else case split_lines s of [] \<Rightarrow> [[c]] | l # ls \<Rightarrow> (c # l) # ls)"

definition object_of :: "pystr \<Rightarrow> (pystr \<times> json) list option" where
  "object_of s = (case loads s of Some (JObj kvs) \<Rightarrow> Some kvs | _ \<Rightarrow> None)"

definition data_line :: "pystr \<Rightarrow> (pystr \<times> json) list option" where
  "data_line raw = (let l = strip raw in
     if starts (lit ''data:'') l then object_of (strip (drop 5 l)) else None)"

definition json_documents :: "pystr \<Rightarrow> (pystr \<times> json) list list" where
  "json_documents body_text =
     (let s = strip body_text in
      if s = [] then []
      else case loads s of
          Some j \<Rightarrow> (case j of JObj kvs \<Rightarrow> [kvs] | _ \<Rightarrow> [])
        | None \<Rightarrow> List.map_filter data_line (split_lines s))"

section \<open>Classification\<close>

record decision =
  d_tool :: pystr
  d_principal :: pystr
  allowed :: bool
  d_reason :: json
  d_reason_code :: "pystr option"
  d_status :: "int option"
  d_body :: pystr
  d_request_id :: json

definition downstream_error_reason :: "json \<Rightarrow> pystr" where
  "downstream_error_reason err =
     (case err of
        JObj kvs \<Rightarrow>
          (let code = get (lit ''code'') JNull kvs; message = get (lit ''message'') JNull kvs in
           if code \<noteq> JNull \<and> truthy message
           then lit ''downstream error '' @ py_str code @ lit '': '' @ py_str message
           else if truthy message then py_str message
           else if code \<noteq> JNull then lit ''downstream error '' @ py_str code
           else lit ''downstream returned an error'')
      | _ \<Rightarrow> py_str err)"

text \<open>\<open>code in range(-32005, -31999)\<close>: by value, so a float may be in it; a bool never is.\<close>

definition in_reject_codes :: "builtins \<Rightarrow> json \<Rightarrow> bool" where
  "in_reject_codes b code =
     (case code of
        JInt i \<Rightarrow> - 32005 \<le> i \<and> i < - 31999
      | JFloat r \<Rightarrow> (\<exists>i \<in> set [- 32005 .. - 32000]. float_equals b r i)
      | _ \<Rightarrow> False)"

text \<open>The evidence of an error value: the reason and, for a HAAP rejection, its reason code.\<close>

definition error_verdict :: "builtins \<Rightarrow> json \<Rightarrow> pystr \<times> pystr option" where
  "error_verdict b err =
     (case err of
        JObj kvs \<Rightarrow>
          if in_reject_codes b (get (lit ''code'') JNull kvs)
          then (let message = get (lit ''message'') JNull kvs in
                if truthy message then py_str message else lit ''rejected by the HAAP MCP gateway'',
                case get (lit ''data'') JNull kvs of
                  JObj d \<Rightarrow> (let rc = get (lit ''hawcx_reason_code'') JNull d in
                             if truthy rc then Some (py_str rc) else None)
                | _ \<Rightarrow> None)
          else (downstream_error_reason err, None)
      | _ \<Rightarrow> (downstream_error_reason err, None))"

definition doc_error :: "(pystr \<times> json) list \<Rightarrow> json" where
  "doc_error d = get (lit ''error'') JNull d"

definition classify :: "builtins \<Rightarrow> pystr \<Rightarrow> pystr \<Rightarrow> tool_call_response \<Rightarrow> decision" where
  "classify b tid who resp =
     (let body_text = utf8_replace (rsp_body resp);
          status = rsp_http_status resp;
          rid = (if truthy (rsp_request_id resp) then rsp_request_id resp else JStr []);
          documents = json_documents body_text;
          base = \<lparr>d_tool = tid, d_principal = who, allowed = False, d_reason = JNull,
                  d_reason_code = None, d_status = Some status, d_body = body_text, d_request_id = rid\<rparr>
      in case find (\<lambda>d. truthy (doc_error d)) documents of
          Some d \<Rightarrow> (case error_verdict b (doc_error d) of
                      (reason, code) \<Rightarrow> base\<lparr>d_reason := JStr reason, d_reason_code := code\<rparr>)
        | None \<Rightarrow>
            if status = 401 \<or> status = 403
            then base\<lparr>d_reason := JStr (lit ''destination refused with HTTP '' @ dec_int status)\<rparr>
            else if documents = []
            then base\<lparr>d_reason := JStr (lit ''unclassifiable response body: no JSON-RPC document found'')\<rparr>
            else base\<lparr>allowed := True\<rparr>)"

text \<open>\<open>call\<close>: an Assembler rejection is a decision, every other exception passes through. A caller
  without an agent fails on the attribute of \<open>None\<close>.\<close>

definition call ::
  "env \<Rightarrow> builtins \<Rightarrow> (bytes \<Rightarrow> pystr) \<Rightarrow> pystr \<Rightarrow> mcp_tool \<Rightarrow> pystr \<Rightarrow> (pystr \<times> json) list option
     \<Rightarrow> (exn, caller, decision) act" where
  "call env b sha uid t who arguments c =
     (case invoke_kwargs env t who arguments c of
        (Inl e, c') \<Rightarrow> (Inl e, c')
      | (Inr req, c') \<Rightarrow>
          (case c_agent c' of
             None \<Rightarrow> (Inl AttributeError, c')
           | Some a \<Rightarrow>
               (case agent_invoke env b sha uid req a of
                  (Inr resp, a') \<Rightarrow> (Inr (classify b (tool_id t) who resp), c'\<lparr>c_agent := Some a'\<rparr>)
                | (Inl e, a') \<Rightarrow>
                    ((case e of
                        RequestRejected rid reason \<Rightarrow>
                          Inr \<lparr>d_tool = tool_id t, d_principal = who, allowed = False, d_reason = reason,
                               d_reason_code = None, d_status = None, d_body = [], d_request_id = rid\<rparr>
                      | _ \<Rightarrow> Inl e), c'\<lparr>c_agent := Some a'\<rparr>))))"

definition ljust :: "nat \<Rightarrow> pystr \<Rightarrow> pystr" where
  "ljust n s = s @ replicate (n - length s) 32"

definition summary :: "decision \<Rightarrow> pystr" where
  "summary d =
     (if allowed d then lit ''ALLOW'' else lit ''DENY '') @ lit '' '' @ ljust 28 (d_tool d) @ lit '' as '' @ d_principal d
     @ (case d_status d of None \<Rightarrow> [] | Some n \<Rightarrow> lit '' http='' @ dec_int n)
     @ (case d_reason_code d of None \<Rightarrow> [] | Some rc \<Rightarrow> if rc = [] then [] else lit '' ['' @ rc @ lit '']'')
     @ (if truthy (d_reason d) then [32, 0x2014, 32] @ py_str (d_reason d) else [])"

section \<open>Finding the documents\<close>

lemma loads_not_value:
  assumes c: "c \<in> {58, 100, 101, 105, 114}"
  shows "loads (c # s) = None"
proof -
  have w: "word_after (lit (x # xs)) (c # s) = None" if "of_char x \<notin> {58, 100, 101, 105, 114 :: nat}" for x xs
    using c that by (auto simp: word_after_def starts_def lit_def)
  have "lex_num (c # s) = None" and k: "skip (c # s) = c # s"
    using c by (auto simp: is_ws_def lex_num_def lex_unsigned_def lex_int_def is_digit_def skip_first)
  then have "scan_atom (c # s) = None" by (simp add: scan_atom_def w)
  with c k show ?thesis by (auto simp: loads_def)
qed

lemma split_lines_lf [simp]: "split_lines (10 # b) = [] # split_lines b"
  by (simp add: is_break_def)

lemma split_lines_snoc_ne: "split_lines (s @ [10]) \<noteq> []"
  by (cases s) (auto split: list.splits)

declare split_lines.simps(2) [simp del]

lemma split_lines_append: "split_lines (a @ 10 # b) = split_lines (a @ [10]) @ split_lines b"
proof (induction a rule: split_lines.induct)
  case 1
  then show ?case by simp
next
  case (2 c s)
  show ?case
  proof (cases "is_break c")
    case True
    then show ?thesis
      using "2.IH"(1) by (cases s) (auto simp: split_lines.simps(2) [of c] split: if_splits)
  next
    case False
    with "2.IH"(2) split_lines_snoc_ne [of s] show ?thesis
      by (cases "split_lines (s @ [10])") (simp_all add: split_lines.simps(2) [of c])
  qed
qed



lemma data_line_dumps:
  assumes "st = compact \<or> st = spaced" and "wf_json (JObj kvs)" and "sp = [] \<or> sp = [32]"
  shows "data_line (lit ''data:'' @ sp @ dumps st (JObj kvs)) = Some kvs"
proof -
  let ?d = "dumps st (JObj kvs)"
  have l: "loads ?d = Some (JObj kvs)" using assms(1,2) by (intro loads_dumps) auto
  have e: "?d \<noteq> []" "hd ?d = 123" "last ?d = 125" by simp_all
  then have 1: "strip (lit ''data:'' @ sp @ ?d) = lit ''data:'' @ sp @ ?d"
    by (intro strip_id) (auto simp: lit_def is_space_def)
  have 2: "strip (sp @ ?d) = ?d"
  proof -
    have "lstrip (sp @ ?d) = ?d" using assms(3) by (auto simp: lstrip_def is_space_def)
    moreover have "lstrip ?d = ?d" by (simp add: lstrip_def is_space_def)
    moreover have "strip ?d = ?d" using e by (intro strip_id) (auto simp: is_space_def)
    ultimately show ?thesis by (simp add: strip_def)
  qed
  have "drop 5 (lit ''data:'' @ sp @ ?d) = sp @ ?d" by (simp add: lit_def)
  with 1 2 l show ?thesis by (simp add: data_line_def object_of_def Let_def del: dumps.simps)
qed


















lemma whole_document:
  assumes "st = compact \<or> st = spaced" and "wf_json (JObj kvs)"
  shows "json_documents (dumps st (JObj kvs)) = [kvs]"
proof -
  have "loads (dumps st (JObj kvs)) = Some (JObj kvs)" using assms by (intro loads_dumps) auto
  moreover have "strip (dumps st (JObj kvs)) = dumps st (JObj kvs)"
    by (intro strip_id) (auto simp: is_space_def)
  moreover have "dumps st (JObj kvs) \<noteq> []" by simp
  ultimately show ?thesis by (simp add: json_documents_def Let_def del: dumps.simps)
qed

section \<open>Properties\<close>

lemma find_SomeD: "find P xs = Some x \<Longrightarrow> x \<in> set xs \<and> P x"
  by (induction xs) (auto split: if_splits)

lemma find_None: "find P xs = None \<longleftrightarrow> (\<forall>x \<in> set xs. \<not> P x)"
  by (auto simp: find_None_iff)

lemma allowed_iff:
  "allowed (classify b tid who resp) \<longleftrightarrow>
     json_documents (utf8_replace (rsp_body resp)) \<noteq> [] \<and>
     (\<forall>d \<in> set (json_documents (utf8_replace (rsp_body resp))). \<not> truthy (doc_error d)) \<and>
     rsp_http_status resp \<noteq> 401 \<and> rsp_http_status resp \<noteq> 403"
proof (cases "find (\<lambda>d. truthy (doc_error d)) (json_documents (utf8_replace (rsp_body resp)))")
  case None
  then show ?thesis by (auto simp: classify_def Let_def None find_None [symmetric])
next
  case (Some d)
  from find_SomeD [OF Some] show ?thesis by (auto simp: classify_def Let_def Some split: prod.splits)
qed

text \<open>
  C14: what counts as ALLOW. A response is allowed exactly when its body yields at least one JSON
  object, no object of it carries a true \<open>error\<close> member, and the status is neither 401 nor 403.
  Nothing else is asked: the witness is an HTTP 500 with the body \<open>{}\<close>, which is allowed.
\<close>

theorem classify_allowed_iff:
  "allowed (classify b tid who resp) \<longleftrightarrow>
     json_documents (utf8_replace (rsp_body resp)) \<noteq> [] \<and>
     (\<forall>d \<in> set (json_documents (utf8_replace (rsp_body resp))). \<not> truthy (doc_error d)) \<and>
     rsp_http_status resp \<notin> {401, 403}"
  using allowed_iff by simp

definition demo_response :: "int \<Rightarrow> pystr \<Rightarrow> tool_call_response" where
  "demo_response st body = \<lparr>rsp_request_id = JStr (lit ''r''), rsp_http_status = st, rsp_headers = [],
     rsp_body = ascii_bytes body\<rparr>"

lemma demo_response [simp]:
  "rsp_http_status (demo_response st s) = st"
  "isascii s \<Longrightarrow> utf8_replace (rsp_body (demo_response st s)) = s"
  using utf8_roundtrip [OF isascii_scalars, of s] utf8_ascii [of s] by (auto simp: demo_response_def)

theorem classify_allowed_iff_witness:
  "allowed (classify no_builtins (lit ''t'') (lit ''alice'') (demo_response 500 (lit ''{}'')))"
proof -
  have "lit ''{}'' = dumps compact (JObj [])" by (simp add: lit_def)
  then have "json_documents (lit ''{}'') = [[]]" using whole_document [of compact "[]"] by simp
  then show ?thesis
    using classify_allowed_iff [of no_builtins "lit ''t''" "lit ''alice''" "demo_response 500 (lit ''{}'')"]
    by (simp add: doc_error_def get_def)
qed








text \<open>A stream of two events. The second is a denial whose object is spread over two \<open>data:\<close> lines; a
  client that joins them, as event streams are defined, reads \<open>{"error": 1}\<close>. The lines are read one
  by one instead, and the object of the first event makes the answer an ALLOW.\<close>

definition split_denial :: pystr where
  "split_denial = lit ''data: {}'' @ [10, 10] @ lit ''data: {'' @ quote (lit ''error'') @ lit '':'' @ [10] @ lit ''data: 1}''"

lemma split_denial_lines:
  "split_lines split_denial = [lit ''data: {}'', [], lit ''data: {'' @ quote (lit ''error'') @ lit '':'', lit ''data: 1}'']"
  by (simp add: split_denial_def lit_def quote_def escape_char_def split_lines.simps(2) is_break_def)

lemma loads_number_brace: "loads [49, 125] = None"
  by (simp add: loads_def skip_def is_ws_def scan_atom_def word_after_def starts_def lit_def lex_num_def
      lex_unsigned_def lex_int_def is_digit_def lex_frac_def lex_exp_def eval_nat_numeral)

lemma loads_half: "loads (123 # quote (lit ''error'') @ [58]) = None"
  by (simp add: loads_def skip_def is_ws_def lit_def quote_def escape_char_def eval_nat_numeral scan_string_def)

lemma empty_data: "data_line (lit ''data: {}'') = Some []"
  using data_line_dumps [of compact "[]" "[32]"] by (simp add: lit_def)

lemma blank_data: "data_line [] = None"
  by (simp add: data_line_def strip_def lstrip_def rstrip_def Let_def lit_def starts_def)

lemma split_denial_data:
  "data_line (lit ''data: {}'') = Some []" 
  "data_line (lit ''data: {'' @ quote (lit ''error'') @ lit '':'') = None" "data_line (lit ''data: 1}'') = None"
proof -
  show "data_line (lit ''data: {}'') = Some []" by (rule empty_data)
  show "data_line (lit ''data: {'' @ quote (lit ''error'') @ lit '':'') = None"
    using loads_half by (simp add: data_line_def Let_def strip_def lstrip_def rstrip_def is_space_def lit_def starts_def object_of_def quote_def escape_char_def)
  show "data_line (lit ''data: 1}'') = None"
    using loads_number_brace by (simp add: data_line_def Let_def strip_def lstrip_def rstrip_def is_space_def lit_def starts_def object_of_def)
qed
lemma split_denial_documents: "json_documents split_denial = [[]]"
proof -
  have "strip split_denial = split_denial" by (intro strip_id) (simp_all add: split_denial_def lit_def is_space_def)
  moreover have "loads split_denial = None" unfolding split_denial_def by (simp add: lit_def loads_not_value)
  moreover have "split_denial \<noteq> []" by (simp add: split_denial_def)
  ultimately show ?thesis
    by (simp add: json_documents_def Let_def split_denial_lines split_denial_data blank_data List.map_filter_simps)
qed

lemma split_denial_is_allowed:
  "allowed (classify b tid who (demo_response 200 split_denial))"
proof -
  have "isascii split_denial" by (simp add: split_denial_def lit_def quote_def escape_char_def)
  then show ?thesis by (simp add: allowed_iff split_denial_documents doc_error_def get_def)
qed

text \<open>The two lines joined are the object.\<close>

lemma split_denial_joined: "loads (123 # quote (lit ''error'') @ [58, 10, 49, 125]) = Some (JObj [(lit ''error'', JInt 1)])"
  by code_simp

text \<open>\<open>str.splitlines\<close> breaks lines at U+2028 as well, which JSON allows inside a string and an event
  stream does not treat as a line end: a denial with that character in its message is dropped.\<close>

definition separator_denial :: pystr where
  "separator_denial = lit ''data: {}'' @ [10, 10] @ lit ''data: {'' @ quote (lit ''error'') @ lit '':'' @ [34, 0x2028, 34, 125]"

lemma separator_denial_lines:
  "split_lines separator_denial = [lit ''data: {}'', [], lit ''data: {'' @ quote (lit ''error'') @ lit '':'' @ [34], [34, 125]]"
  by (simp add: separator_denial_def lit_def quote_def escape_char_def split_lines.simps(2) is_break_def)

lemma loads_open_string: "loads (123 # quote (lit ''error'') @ [58, 34]) = None"
  by code_simp

lemma separator_denial_read: "loads (123 # quote (lit ''error'') @ [58, 34, 0x2028, 34, 125]) = Some (JObj [(lit ''error'', JStr [0x2028])])"
  by code_simp

lemma separator_denial_documents: "json_documents separator_denial = [[]]"
proof -
  have "data_line (lit ''data: {'' @ quote (lit ''error'') @ lit '':'' @ [34]) = None"
    using loads_open_string by (simp add: data_line_def Let_def strip_def lstrip_def rstrip_def is_space_def lit_def starts_def object_of_def quote_def escape_char_def)
  moreover have "data_line [34, 125] = None"
    by (simp add: data_line_def Let_def strip_def lstrip_def rstrip_def is_space_def lit_def starts_def)
  moreover have "strip separator_denial = separator_denial"
    by (intro strip_id) (simp_all add: separator_denial_def lit_def is_space_def)
  moreover have "loads separator_denial = None" unfolding separator_denial_def by (simp add: lit_def loads_not_value)
  moreover have "separator_denial \<noteq> []" by (simp add: separator_denial_def)
  ultimately show ?thesis
    by (simp add: json_documents_def Let_def separator_denial_lines empty_data blank_data List.map_filter_simps)
qed

lemma separator_denial_is_allowed:
  assumes "utf8_replace (rsp_body resp) = separator_denial" and "rsp_http_status resp = 200"
  shows "allowed (classify b tid who resp)"
  using assms by (simp add: allowed_iff separator_denial_documents doc_error_def get_def)

text \<open>
  A policy reason code is evidence. A decision carries one only if it is a denial and some
  document of the body is a JSON-RPC error whose code lies in the reserved range and whose
  \<open>data.hawcx_reason_code\<close> says just that.
\<close>

theorem reason_code_is_evidence:
  assumes "d_reason_code (classify b tid who resp) = Some rc"
  shows "\<exists>d e m. d \<in> set (json_documents (utf8_replace (rsp_body resp))) \<and> doc_error d = JObj e \<and>
           in_reject_codes b (get (lit ''code'') JNull e) \<and> get (lit ''data'') JNull e = JObj m \<and>
           rc = py_str (get (lit ''hawcx_reason_code'') JNull m) \<and> \<not> allowed (classify b tid who resp)"
proof (cases "find (\<lambda>d. truthy (doc_error d)) (json_documents (utf8_replace (rsp_body resp)))")
  case None
  with assms show ?thesis by (auto simp: classify_def Let_def split: if_splits)
next
  case (Some d)
  with assms have v: "snd (error_verdict b (doc_error d)) = Some rc"
    by (simp add: classify_def Let_def split: prod.splits)
  then obtain e where e: "doc_error d = JObj e" by (auto simp: error_verdict_def split: json.splits)
  with v have c: "in_reject_codes b (get (lit ''code'') JNull e)"
    by (auto simp: error_verdict_def split: if_splits)
  with v e obtain m where "get (lit ''data'') JNull e = JObj m" "rc = py_str (get (lit ''hawcx_reason_code'') JNull m)"
    by (auto simp: error_verdict_def Let_def split: json.splits if_splits)
  moreover have "\<not> allowed (classify b tid who resp)" using find_SomeD [OF Some] by (auto simp: allowed_iff)
  ultimately show ?thesis using find_SomeD [OF Some] e c by blast
qed

definition denial_doc :: "(pystr \<times> json) list" where
  "denial_doc = [(lit ''error'', JObj [(lit ''code'', JInt (- 32001)),
     (lit ''data'', JObj [(lit ''hawcx_reason_code'', JInt 7)])])]"

theorem reason_code_is_evidence_witness:
  "\<exists>d e. d \<in> set (json_documents (utf8_replace (rsp_body (demo_response 200 (dumps compact (JObj denial_doc)))))) \<and>
     doc_error d = JObj e"
proof -
  have wf: "wf_json (JObj denial_doc)" by (simp add: denial_doc_def wf_str_def lit_def is_high_def)
  then have "isascii (dumps compact (JObj denial_doc))" by (intro isascii_dumps) simp_all
  then have "json_documents (utf8_replace (rsp_body (demo_response 200 (dumps compact (JObj denial_doc))))) = [denial_doc]"
    using whole_document [OF _ wf, of compact] by (simp del: dumps.simps)
  then have "d_reason_code (classify no_builtins (lit ''t'') (lit ''alice'')
      (demo_response 200 (dumps compact (JObj denial_doc)))) = Some (dec_int 7)"
    by (simp add: classify_def Let_def denial_doc_def doc_error_def get_def error_verdict_def in_reject_codes_def
        py_str_def del: dumps.simps)
  from reason_code_is_evidence [OF this] show ?thesis by blast
qed

section \<open>Calls\<close>

lemma agent_invoke_Inr:
  assumes "agent_invoke env b sha uid r a = (Inr resp, a')" and "acting_for_user r = Some who"
  shows "who \<in> set (allowlist a)" and "who \<noteq> []" and "a_client a \<noteq> None"
  using assms assert_principal_Inr [of sha a who]
  by (auto simp: agent_invoke_def split: option.splits sum.splits prod.splits)

lemma invoke_kwargs_Inr:
  assumes "invoke_kwargs env t who args c = (Inr r, c')"
  shows "c' = c\<lparr>c_seq := c_seq c + 1\<rparr>" and "acting_for_user r = Some who" and "provider r = c_provider c"
    and "plaintext_request_body r = Some (dumps_bytes spaced (fst (envelope t args c)))"
    and "tool_arguments r = JObj (chosen_arguments t args)" and "request_id r = []"
    and "tool r = tool_id t" and "mcp_tool_name r = Some (t_name t)"
  using assms by (auto simp: invoke_kwargs_def envelope_def Let_def split: sum.splits)

text \<open>
  C16: an ALLOW is an answer. If \<open>call\<close> returns an allowed decision, then the principal is on the
  agent's allowlist, the agent's \<open>invoke\<close> returned a response to exactly the request that
  \<open>invoke_kwargs\<close> shows, and that response is the one classified. A rejection by the Assembler
  never comes out as allowed.
\<close>

theorem call_allowed_sound:
  assumes "call env b sha uid t who args c = (Inr d, c')" and "allowed d"
  shows "\<exists>a a' req resp. c_agent c = Some a \<and> c_agent c' = Some a' \<and> who \<in> set (allowlist a) \<and> who \<noteq> [] \<and>
           fst (invoke_kwargs env t who args c) = Inr req \<and> agent_invoke env b sha uid req a = (Inr resp, a') \<and>
           d = classify b (tool_id t) who resp \<and> c_seq c' = c_seq c + 1"
proof -
  from assms obtain req c1 where k: "invoke_kwargs env t who args c = (Inr req, c1)"
    by (auto simp: call_def split: prod.splits sum.splits)
  from assms k obtain a where a: "c_agent c1 = Some a" by (auto simp: call_def split: option.splits)
  obtain r a' where i: "agent_invoke env b sha uid req a = (r, a')" by force
  with assms k a obtain resp where r: "r = Inr resp" "d = classify b (tool_id t) who resp"
    and c': "c' = c1\<lparr>c_agent := Some a'\<rparr>"
    by (cases r) (auto simp: call_def split: exn.splits)
  from invoke_kwargs_Inr(1,2) [OF k] agent_invoke_Inr [of env b sha uid req a resp a' who] i r a c' k
  show ?thesis by auto
qed

definition demo_tool :: mcp_tool where
  "demo_tool = \<lparr>tool_id = lit ''mail.read'', t_url = lit ''u'', t_name = lit ''list'',
     t_actions = [lit ''read''], t_resource = lit ''mailbox'', t_arguments = [(lit ''top'', JInt 5)]\<rparr>"

text \<open>A caller whose agent has one answer waiting: HTTP 200 with the body \<open>{}\<close>.\<close>

definition demo_caller :: caller where
  "demo_caller = \<lparr>c_agent = Some (demo_agent\<lparr>a_client := Some (demo_world [Data (response_frame demo_answer_response)])\<rparr>),
     c_provider = None, c_seq = 4\<rparr>"

definition demo_body :: bytes where
  "demo_body = dumps_bytes spaced (fst (envelope demo_tool None demo_caller))"

definition demo_call_request :: tool_call_request where
  "demo_call_request = \<lparr>request_id = [], target_rs_url = lit ''u'', http_method = lit ''POST'',
     headers = [(lit ''Accept'', lit ''application/json, text/event-stream'')],
     tool = lit ''mail.read'', mcp_tool_name = Some (lit ''list''), action = [lit ''read''],
     resource = lit ''mailbox'', constraints = [],
     plaintext_request_body = Some demo_body,
     claimed_intent_hash = None, tool_arguments = JObj [(lit ''top'', JInt 5)],
     content_type = Some (lit ''application/json''), transport = Some McpMeta,
     acting_for_user = Some (lit ''alice''), provider = None\<rparr>"

lemma demo_kwargs:
  "invoke_kwargs (\<lambda>v. None) demo_tool (lit ''alice'') None demo_caller =
     (Inr demo_call_request, demo_caller\<lparr>c_seq := 5\<rparr>)"
  by (simp add: invoke_kwargs_def envelope_def Let_def default_transport_def env_strip_def demo_call_request_def
      demo_body_def demo_tool_def demo_caller_def chosen_arguments_def)

lemma length_b64_nats: "length (b64_nats ns) \<le> 4 * length ns"
  by (induction ns rule: b64_nats.induct) simp_all

lemma length_escape: "length (concat (map escape_char s)) \<le> 12 * length s"
proof (induction s)
  case (Cons c s)
  have "length (escape_char c) \<le> 12" by (simp add: escape_char_def u_escape_def hex4_def)
  with Cons show ?case by simp
qed simp

lemma demo_body_small: "length demo_body < 200"
  by (simp add: demo_body_def envelope_def Let_def demo_tool_def demo_caller_def chosen_arguments_def
      dumps_bytes_def spaced_def quote_def escape_char_def lit_def dec_int_def dec.simps)

lemma demo_call_small:
  "length (request_payload [] (complete_request [] demo_call_request)) < max_message_size"
proof -
  have "length (concat (map escape_char (b64encode demo_body))) \<le> 12 * length (b64encode demo_body)"
    by (rule length_escape)
  also have "length (b64encode demo_body) \<le> 4 * length demo_body"
    using length_b64_nats [of "map unat demo_body"] by (simp add: b64encode_def)
  finally have "length (concat (map escape_char (b64encode demo_body))) < 9600" using demo_body_small by simp
  then show ?thesis
    by (simp add: request_payload_def demo_call_request_def complete_request_def to_wire_def str_field_def
      dumps_bytes_def compact_def quote_def escape_char_def lit_def max_message_size_def
      upper_def upper_char_def is_lower_def dec_int_def dec.simps)
qed

theorem call_allowed_sound_witness:
  "\<exists>d c'. call (\<lambda>v. None) no_builtins (\<lambda>bs. []) [] demo_tool (lit ''alice'') None demo_caller = (Inr d, c') \<and>
     allowed d \<and> c_seq c' = 5"
proof -
  let ?w = "demo_world [Data (response_frame demo_answer_response)]"
  have "\<exists>w'. invoke (\<lambda>v. None) no_builtins (complete_request [] demo_call_request) ?w = (Inr demo_answer_response, w')"
  proof (rule invoke_answered)
    show "sock_pending (csock (cl ?w)) = response_frame demo_answer_response @ []"
      by (simp add: demo_world_def sock_pending_def)
  qed (use demo_answer_response demo_call_small in \<open>simp_all add: demo_world_def\<close>)
  then obtain a' where "agent_invoke (\<lambda>v. None) no_builtins (\<lambda>bs. []) [] demo_call_request
      (demo_agent\<lparr>a_client := Some ?w\<rparr>) = (Inr demo_answer_response, a')"
    by (auto simp: agent_invoke_def demo_call_request_def assert_principal_allowed_def demo_agent_def)
  then obtain c' where run: "call (\<lambda>v. None) no_builtins (\<lambda>bs. []) [] demo_tool (lit ''alice'') None demo_caller =
      (Inr (classify no_builtins (lit ''mail.read'') (lit ''alice'') demo_answer_response), c')"
    by (simp add: call_def demo_kwargs) (simp add: demo_caller_def demo_tool_def)
  have "utf8_replace (rsp_body demo_answer_response) = dumps compact (JObj [])"
    using demo_response(2) [of "lit ''{}''" 200] by (simp add: demo_answer_response_def demo_response_def lit_def ascii_bytes_def)
  then have ok: "allowed (classify no_builtins (lit ''mail.read'') (lit ''alice'') demo_answer_response)"
    by (simp add: allowed_iff whole_document doc_error_def get_def demo_answer_response_def del: dumps.simps)
  from call_allowed_sound [OF run ok] run ok show ?thesis by (auto simp: demo_caller_def)
qed

text \<open>
  The request says what was asked. The body that \<open>call\<close> sends parses back to the JSON-RPC
  document of \<open>envelope\<close>, whose arguments are also the request's \<open>tool_arguments\<close>; the document has
  no \<open>_meta\<close> member that could pose as the Assembler's token; and its id is one above the last.
\<close>

theorem call_request_faithful:
  assumes "invoke_kwargs env t who args c = (Inr r, c')"
    and "wf_str (t_name t)" and "wf_json (JObj (chosen_arguments t args))"
  shows "\<exists>body params. plaintext_request_body r = Some body \<and>
           loads_bytes body = Inr (JObj [(lit ''jsonrpc'', JStr (lit ''2.0'')), (lit ''id'', JInt (c_seq c + 1)),
             (lit ''method'', JStr (lit ''tools/call'')), (lit ''params'', JObj params)]) \<and>
           map_of params (lit ''name'') = Some (JStr (t_name t)) \<and>
           map_of params (lit ''arguments'') = Some (tool_arguments r) \<and>
           map_of params (lit ''_meta'') = None \<and> c_seq c' = c_seq c + 1"
proof -
  have "wf_json (fst (envelope t args c))"
    using assms(2,3) by (simp add: envelope_def Let_def wf_str_def lit_def is_high_def)
  then have "loads_bytes (dumps_bytes spaced (fst (envelope t args c))) = Inr (fst (envelope t args c))"
    by (intro loads_dumps_bytes) simp_all
  with invoke_kwargs_Inr [OF assms(1)] show ?thesis
    by (simp add: envelope_def Let_def)
qed

theorem call_request_faithful_witness:
  "\<exists>body m. plaintext_request_body demo_call_request = Some body \<and> loads_bytes body = Inr (JObj m) \<and>
     map_of m (lit ''id'') = Some (JInt 5)"
proof -
  have wf: "wf_str (t_name demo_tool)" "wf_json (JObj (chosen_arguments demo_tool None))"
    by (simp_all add: demo_tool_def chosen_arguments_def wf_str_def lit_def is_high_def)
  from call_request_faithful [OF demo_kwargs wf] show ?thesis by (auto simp: demo_caller_def)
qed

end
