(* ===== verification/Mcp_Config.thy ===== *)
theory Mcp_Config
  imports Mcp_Caller
begin

text \<open>
  The glue of \<open>mcp_caller.py\<close>: the process-wide agent that \<open>get_agent\<close> connects from the
  environment, the allowlist variable, and the check that no placeholder of a scaffolded
  configuration is left (\<open>require_filled\<close>).

  The process-wide handle \<open>_AGENT\<close> is an explicit state of type \<open>agent option\<close>.
\<close>

section \<open>The process-wide agent\<close>

definition get_agent ::
  "env \<Rightarrow> dial \<Rightarrow> timeout \<Rightarrow> timeout \<Rightarrow> dial list \<Rightarrow> allow_arg \<Rightarrow> (exn, agent option, agent) act" where
  "get_agent env d conn_t call_t later allow cell =
     (case cell of
        Some a \<Rightarrow> (Inr a, cell)
      | None \<Rightarrow>
          (let sock = env_strip env ''HAWCX_ASSEMBLER_SOCK'';
               agent_id = env_strip env ''HAWCX_AGENT_ID'';
               ipc_dir = env_strip env ''HAWCX_IPC_DIR'';
               made = (if sock \<noteq> [] then agent_connect env d sock allow conn_t call_t later
                       else if agent_id = [] then Inl RuntimeError
                       else agent_connect_by_agent_id env d agent_id allow 0 (nonempty (Some ipc_dir))
                              conn_t call_t later)
           in case made of Inl e \<Rightarrow> (Inl e, None) | Inr a \<Rightarrow> (Inr a, Some a)))"

definition close_agent :: "agent option \<Rightarrow> agent option" where
  "close_agent cell = None"

definition env_principal_allowlist :: "env \<Rightarrow> pystr list option" where
  "env_principal_allowlist env =
     (case env (lit ''HAWCX_PRINCIPAL_ALLOWLIST'') of
        None \<Rightarrow> None
      | Some raw \<Rightarrow> Some (filter (\<lambda>p. p \<noteq> []) (map strip (split_on 44 raw))))"

section \<open>Placeholders\<close>

definition fill_me :: pystr where
  "fill_me = lit ''<FILL ME -- scaffolded by `hawcx init`>''"

text \<open>
  A configuration value, as far as the scan looks: strings, dataclass instances (fields in order),
  dictionaries with string keys, lists and tuples, and everything else.
\<close>

datatype config =
    CStr pystr
  | CData "(pystr \<times> config) list"
  | CDict "(pystr \<times> config) list"
  | CSeq "config list"
  | COther

fun scan_unfilled :: "config \<Rightarrow> pystr \<Rightarrow> pystr list"
  and scan_fields :: "(pystr \<times> config) list \<Rightarrow> pystr \<Rightarrow> pystr list"
  and scan_keys :: "(pystr \<times> config) list \<Rightarrow> pystr \<Rightarrow> pystr list"
  and scan_seq :: "config list \<Rightarrow> nat \<Rightarrow> pystr \<Rightarrow> pystr list" where
  "scan_unfilled (CStr s) path = (if s = fill_me then [path] else [])"
| "scan_unfilled (CData fs) path = scan_fields fs path"
| "scan_unfilled (CDict kvs) path = scan_keys kvs path"
| "scan_unfilled (CSeq vs) path = scan_seq vs 0 path"
| "scan_unfilled COther path = []"
| "scan_fields [] path = []"
| "scan_fields ((f, v) # fs) path = scan_unfilled v (path @ [46] @ f) @ scan_fields fs path"
| "scan_keys [] path = []"
| "scan_keys ((k, v) # kvs) path = scan_unfilled v (path @ [91] @ py_repr k @ [93]) @ scan_keys kvs path"
| "scan_seq [] i path = []"
| "scan_seq (v # vs) i path = scan_unfilled v (path @ [91] @ dec i @ [93]) @ scan_seq vs (Suc i) path"

definition require_filled :: "(pystr \<times> config) list \<Rightarrow> exn + unit" where
  "require_filled values =
     (let unfilled = concat (map (\<lambda>(name, v). scan_unfilled v name) values) in
      if unfilled = [] then Inr ()
      else Inl (ValueError (dec (length unfilled) @ lit '' unfilled config value(s): ''
        @ join_with (lit '', '') unfilled
        @ lit ''. Replace every FILL_ME with the value for this deployment. ''
        @ lit ''`principal_allowlist` has no default on purpose: it is the ''
        @ lit ''fail-closed gate on `acting_for_user`, so pass the explicit set of ''
        @ lit ''permitted principals, or [] to forbid runtime principal switching ''
        @ lit ''entirely.'')))"

section \<open>Positions\<close>

text \<open>The specification of the scan: where in a value a leaf stands, and how a position is written.\<close>

datatype place = Field pystr | Key pystr | Index nat

inductive at :: "config \<Rightarrow> place list \<Rightarrow> config \<Rightarrow> bool" where
  at_here: "at v [] v"
| at_field: "(f, v) \<in> set fs \<Longrightarrow> at v ps w \<Longrightarrow> at (CData fs) (Field f # ps) w"
| at_key: "(k, v) \<in> set kvs \<Longrightarrow> at v ps w \<Longrightarrow> at (CDict kvs) (Key k # ps) w"
| at_index: "i < length vs \<Longrightarrow> at (vs ! i) ps w \<Longrightarrow> at (CSeq vs) (Index i # ps) w"

inductive_simps at_simps [simp]: "at (CStr s) ps w" "at COther ps w"
inductive_cases at_DataE: "at (CData fs) ps w"
inductive_cases at_DictE: "at (CDict kvs) ps w"
inductive_cases at_SeqE: "at (CSeq vs) ps w"

fun place_text :: "place \<Rightarrow> pystr" where
  "place_text (Field f) = [46] @ f"
| "place_text (Key k) = [91] @ py_repr k @ [93]"
| "place_text (Index i) = [91] @ dec i @ [93]"

definition place_path :: "pystr \<Rightarrow> place list \<Rightarrow> pystr" where
  "place_path name ps = name @ concat (map place_text ps)"

lemma place_path_simps [simp]:
  "place_path name [] = name"
  "place_path name (p # ps) = place_path (name @ place_text p) ps"
  by (simp_all add: place_path_def)

text \<open>The paths of the placeholders in a value.\<close>

definition holes :: "config \<Rightarrow> pystr \<Rightarrow> pystr set" where
  "holes v name = {place_path name ps | ps. at v ps (CStr fill_me)}"

lemma holes_leaf [simp]: "holes (CStr s) name = (if s = fill_me then {name} else {})" "holes COther name = {}"
  by (auto simp: holes_def)

lemma holes_data [simp]: "holes (CData fs) name = (\<Union>(f, v) \<in> set fs. holes v (name @ [46] @ f))"
proof (intro equalityI subsetI)
  fix x assume "x \<in> holes (CData fs) name"
  then show "x \<in> (\<Union>(f, v) \<in> set fs. holes v (name @ [46] @ f))"
    unfolding holes_def by (auto elim!: at_DataE) fastforce
next
  fix x assume "x \<in> (\<Union>(f, v) \<in> set fs. holes v (name @ [46] @ f))"
  then obtain f v ps where "(f, v) \<in> set fs" "at v ps (CStr fill_me)" "x = place_path (name @ [46] @ f) ps"
    by (auto simp: holes_def)
  then have "at (CData fs) (Field f # ps) (CStr fill_me)" "x = place_path name (Field f # ps)"
    by (auto intro: at_field)
  then show "x \<in> holes (CData fs) name" unfolding holes_def by blast
qed

lemma holes_dict [simp]: "holes (CDict kvs) name = (\<Union>(k, v) \<in> set kvs. holes v (name @ [91] @ py_repr k @ [93]))"
proof (intro equalityI subsetI)
  fix x assume "x \<in> holes (CDict kvs) name"
  then show "x \<in> (\<Union>(k, v) \<in> set kvs. holes v (name @ [91] @ py_repr k @ [93]))"
    unfolding holes_def by (auto elim!: at_DictE) fastforce
next
  fix x assume "x \<in> (\<Union>(k, v) \<in> set kvs. holes v (name @ [91] @ py_repr k @ [93]))"
  then obtain k v ps where "(k, v) \<in> set kvs" "at v ps (CStr fill_me)"
    "x = place_path (name @ [91] @ py_repr k @ [93]) ps" by (auto simp: holes_def)
  then have "at (CDict kvs) (Key k # ps) (CStr fill_me)" "x = place_path name (Key k # ps)"
    by (auto intro: at_key)
  then show "x \<in> holes (CDict kvs) name" unfolding holes_def by blast
qed

lemma holes_seq [simp]: "holes (CSeq vs) name = (\<Union>i < length vs. holes (vs ! i) (name @ [91] @ dec i @ [93]))"
proof (intro equalityI subsetI)
  fix x assume "x \<in> holes (CSeq vs) name"
  then show "x \<in> (\<Union>i < length vs. holes (vs ! i) (name @ [91] @ dec i @ [93]))"
    unfolding holes_def by (auto elim!: at_SeqE) blast
next
  fix x assume "x \<in> (\<Union>i < length vs. holes (vs ! i) (name @ [91] @ dec i @ [93]))"
  then obtain i ps where "i < length vs" "at (vs ! i) ps (CStr fill_me)"
    "x = place_path (name @ [91] @ dec i @ [93]) ps" by (auto simp: holes_def)
  then have "at (CSeq vs) (Index i # ps) (CStr fill_me)" "x = place_path name (Index i # ps)"
    by (auto intro: at_index)
  then show "x \<in> holes (CSeq vs) name" unfolding holes_def by blast
qed

lemma scan_holes:
  "set (scan_unfilled v name) = holes v name"
  "set (scan_fields fs name) = (\<Union>(f, v) \<in> set fs. holes v (name @ [46] @ f))"
  "set (scan_keys kvs name) = (\<Union>(k, v) \<in> set kvs. holes v (name @ [91] @ py_repr k @ [93]))"
  "set (scan_seq vs i name) = (\<Union>j < length vs. holes (vs ! j) (name @ [91] @ dec (i + j) @ [93]))"
proof (induction v name and fs name and kvs name and vs i name
    rule: scan_unfilled_scan_fields_scan_keys_scan_seq.induct)
  case (11 v vs i path)
  have "(\<Union>j < length (v # vs). holes ((v # vs) ! j) (path @ [91] @ dec (i + j) @ [93])) =
      holes v (path @ [91] @ dec i @ [93]) \<union> (\<Union>j < length vs. holes (vs ! j) (path @ [91] @ dec (Suc i + j) @ [93]))"
    unfolding length_Cons lessThan_Suc_eq_insert_0 by simp
  with 11 show ?case by simp
qed auto

section \<open>Properties\<close>

lemma require_filled_Inr:
  "require_filled vals = Inr () \<longleftrightarrow> concat (map (\<lambda>(n, v). scan_unfilled v n) vals) = []"
  by (simp add: require_filled_def Let_def)

text \<open>
  A configuration passes exactly when nothing in it is left to fill. \<open>require_filled\<close> returns
  if and only if no value, however deeply it is nested in dataclasses, dictionaries and lists,
  has the placeholder at any position.
\<close>

theorem require_filled_iff:
  "require_filled vals = Inr () \<longleftrightarrow> \<not> (\<exists>name v ps. (name, v) \<in> set vals \<and> at v ps (CStr fill_me))"
proof -
  have "scan_unfilled v n = [] \<longleftrightarrow> holes v n = {}" for v n
    by (simp flip: scan_holes(1))
  then show ?thesis unfolding require_filled_Inr by (fastforce simp: holes_def)
qed

text \<open>
  Every placeholder is reported, under its own path. The paths in the message of the error
  are those of the positions of the placeholder in the values, no more and no fewer.
\<close>

theorem require_filled_reports:
  assumes "require_filled vals = Inl e"
  shows "\<exists>unfilled rest. e = ValueError (dec (length unfilled) @ lit '' unfilled config value(s): '' @
           join_with (lit '', '') unfilled @ rest) \<and> unfilled \<noteq> [] \<and>
         set unfilled = {place_path name ps | name ps v. (name, v) \<in> set vals \<and> at v ps (CStr fill_me)}"
proof -
  let ?u = "concat (map (\<lambda>(n, v). scan_unfilled v n) vals)"
  have "set ?u = (\<Union>(n, v) \<in> set vals. holes v n)" using scan_holes(1) by fastforce
  also have "\<dots> = {place_path name ps | name ps v. (name, v) \<in> set vals \<and> at v ps (CStr fill_me)}"
    by (auto simp: holes_def)
  finally show ?thesis
    using assms by (intro exI [of _ ?u]) (auto simp: require_filled_def Let_def split: if_splits)
qed

definition demo_config :: "(pystr \<times> config) list" where
  "demo_config = [(lit ''TOOLS'', CDict [(lit ''m'', CData [(lit ''url'', CStr fill_me)])])]"

theorem require_filled_reports_witness:
  "\<exists>e unfilled rest. require_filled demo_config = Inl e \<and> unfilled \<noteq> [] \<and>
     e = ValueError (dec (length unfilled) @ lit '' unfilled config value(s): '' @ join_with (lit '', '') unfilled @ rest)"
proof -
  have "require_filled demo_config \<noteq> Inr ()" by (simp add: require_filled_Inr demo_config_def)
  then obtain e where e: "require_filled demo_config = Inl e" by (cases "require_filled demo_config") auto
  from require_filled_reports [OF e] e show ?thesis by blast
qed

subsection \<open>The allowlist variable\<close>

text \<open>A name that the variable can carry: not empty, without a comma or surrounding space.\<close>

definition listable :: "pystr \<Rightarrow> bool" where
  "listable p \<longleftrightarrow> p \<noteq> [] \<and> strip p = p \<and> 44 \<notin> set p"

lemma strip_parts: "p \<in> set (map strip (split_on c raw)) \<Longrightarrow> c \<notin> set p"
proof -
  assume "p \<in> set (map strip (split_on c raw))"
  then obtain w where w: "p = strip w" "w \<in> set (split_on c raw)" by auto
  have "set (strip w) \<subseteq> set w"
    by (auto simp: strip_def lstrip_def rstrip_def dest!: set_dropWhileD)
  with w split_on_parts show ?thesis by fastforce
qed

text \<open>
  The allowlist variable says what the operator wrote. Names joined with commas are read back
  in order, an empty variable is the empty allowlist (and not an unset one), and whatever the
  variable holds, no entry is empty or holds a comma.
\<close>

theorem env_allowlist_roundtrip:
  assumes "\<forall>p \<in> set ps. listable p" and "env (lit ''HAWCX_PRINCIPAL_ALLOWLIST'') = Some (join_with [44] ps)"
  shows "env_principal_allowlist env = Some ps \<and>
         (\<forall>raw. \<exists>qs. env_principal_allowlist (env(lit ''HAWCX_PRINCIPAL_ALLOWLIST'' := Some raw)) = Some qs \<and>
            [] \<notin> set qs \<and> (\<forall>q \<in> set qs. 44 \<notin> set q))"
proof
  show "env_principal_allowlist env = Some ps"
  proof (cases "ps = []")
    case True
    with assms(2) show ?thesis by (simp add: env_principal_allowlist_def strip_def lstrip_def rstrip_def)
  next
    case False
    with assms(1) have "split_on 44 (join_with [44] ps) = ps" by (intro split_join) (auto simp: listable_def)
    moreover have "map strip ps = ps" "filter (\<lambda>p. p \<noteq> []) ps = ps"
      using assms(1) by (auto simp: listable_def map_idI filter_id_conv)
    ultimately show ?thesis using assms(2) by (simp add: env_principal_allowlist_def)
  qed
next
  show "\<forall>raw. \<exists>qs. env_principal_allowlist (env(lit ''HAWCX_PRINCIPAL_ALLOWLIST'' := Some raw)) = Some qs \<and>
            [] \<notin> set qs \<and> (\<forall>q \<in> set qs. 44 \<notin> set q)"
    using strip_parts [of _ 44] by (simp add: env_principal_allowlist_def) fastforce
qed

theorem env_allowlist_roundtrip_witness:
  "env_principal_allowlist ((\<lambda>v. None)(lit ''HAWCX_PRINCIPAL_ALLOWLIST'' := Some (lit ''alice,bob'')))
     = Some [lit ''alice'', lit ''bob'']"
proof -
  have "\<forall>p \<in> set [lit ''alice'', lit ''bob'']. listable p"
    by (simp add: listable_def strip_def lstrip_def rstrip_def is_space_def lit_def)
  moreover have "lit ''alice,bob'' = join_with [44] [lit ''alice'', lit ''bob'']" by (simp add: lit_def)
  ultimately show ?thesis
    using env_allowlist_roundtrip [of "[lit ''alice'', lit ''bob'']"
        "(\<lambda>v. None)(lit ''HAWCX_PRINCIPAL_ALLOWLIST'' := Some (lit ''alice,bob''))"] by simp
qed

subsection \<open>The process-wide agent\<close>

lemma entries_of: "check_entries es = Inr ps \<Longrightarrow> es = map EntryStr ps"
  using check_entries_Inr by metis

lemma agent_connect_Inr:
  assumes "agent_connect env d ep allow t ct later = Inr a"
  shows "allow = Collection (map EntryStr (allowlist a)) \<and> a_client a \<noteq> None"
  using assms by (auto simp: agent_connect_def validate_principal_allowlist_def
      split: sum.splits allow_arg.splits dest!: entries_of)

text \<open>
  One agent per process. The agent that \<open>get_agent\<close> returns is the one it keeps; a first call
  connects it under exactly the allowlist it was given, and until \<open>close_agent\<close> every later call
  returns that agent without dialling, whatever allowlist the later caller passes.
\<close>

theorem get_agent_once:
  assumes "get_agent env d t ct later allow cell = (Inr a, cell')"
  shows "cell' = Some a \<and>
         (cell = None \<longrightarrow> allow = Collection (map EntryStr (allowlist a)) \<and> a_client a \<noteq> None) \<and>
         get_agent env2 d2 t2 ct2 later2 allow2 cell' = (Inr a, cell') \<and> close_agent cell' = None"
proof -
  have "cell' = Some a"
    using assms by (auto simp: get_agent_def Let_def split: option.splits sum.splits)
  moreover have "allow = Collection (map EntryStr (allowlist a)) \<and> a_client a \<noteq> None" if "cell = None"
  proof -
    from assms that obtain ep where "agent_connect env d ep allow ct' call' later = Inr a \<or>
        agent_connect env d ep allow t ct later = Inr a" for ct' call'
      by (auto simp: get_agent_def agent_connect_by_agent_id_def Let_def split: sum.splits if_splits)
    then show ?thesis using agent_connect_Inr by blast
  qed
  ultimately show ?thesis by (simp add: get_agent_def close_agent_def)
qed

theorem get_agent_once_witness:
  "fst (get_agent (\<lambda>v. None) (open_dial []) (Some 1) None [] (Collection []) (snd (get_agent (\<lambda>v. None) (open_dial []) None None []
      NotCollection (Some demo_agent)))) = Inr demo_agent"
proof -
  have "get_agent (\<lambda>v. None) (open_dial []) None None [] NotCollection (Some demo_agent) = (Inr demo_agent, Some demo_agent)"
    by (simp add: get_agent_def)
  from get_agent_once [OF this] this show ?thesis by simp
qed

end
