(* ===== verification/Crewai_Tool.thy ===== *)
theory Crewai_Tool
  imports Agent
begin

text \<open>
  \<open>hawcx_crewai/tool.py\<close>: the CrewAI tool that forwards its calls to a \<open>HawcxAgent\<close>, its document
  variant, the constructors and \<open>for_user\<close>.

  The keyword arguments of a call are JSON values, as CrewAI hands them over; a call that is given
  some other Python value fails in \<open>json.dumps\<close> and is not modelled. What pydantic makes of the
  fields is an argument (\<open>model\<close>), and so is \<open>str\<close> of an SDK exception whose text carries paths and
  numbers (\<open>txt\<close>); the texts of the agent's own errors are written out. An exception that \<open>_run\<close>
  does not turn into text is an \<open>Inl\<close>.
\<close>

section \<open>The tool\<close>

record hawcx_tool =
  crew_name :: pystr
  crew_description :: pystr
  crew_provider :: pystr
  crew_tool_id :: pystr
  crew_endpoint :: pystr
  crew_method :: pystr
  crew_action :: "pystr list"
  crew_resource :: pystr
  crew_headers :: "(pystr \<times> pystr) list"
  crew_default_user :: "pystr option"

text \<open>The keyword argument \<open>hawcx_agent\<close>: absent or \<open>None\<close>, something else, or an agent.\<close>

datatype agent_arg = NoAgent | NotAnAgent | AnAgent

definition init_tool :: "(hawcx_tool \<Rightarrow> exn + hawcx_tool) \<Rightarrow> agent_arg \<Rightarrow> hawcx_tool \<Rightarrow> exn + hawcx_tool" where
  "init_tool model ag data =
     (case ag of
        NoAgent \<Rightarrow> Inl (TypeError (MissingArgument (lit ''hawcx_agent'')))
      | NotAnAgent \<Rightarrow> Inl (TypeError BadToolArgument)
      | AnAgent \<Rightarrow> model data)"

text \<open>A tool was built with an agent, so \<open>for_user\<close> passes one again.\<close>

definition for_user :: "(hawcx_tool \<Rightarrow> exn + hawcx_tool) \<Rightarrow> hawcx_tool \<Rightarrow> pystr \<Rightarrow> exn + hawcx_tool" where
  "for_user model t who = init_tool model AnAgent (t\<lparr>crew_default_user := Some who\<rparr>)"

definition search_tool :: "pystr \<Rightarrow> pystr \<Rightarrow> pystr \<Rightarrow> hawcx_tool" where
  "search_tool rs_base_url tid prov =
     \<lparr>crew_name = lit ''hawcx_search'',
      crew_description = lit ''Search the organisation's protected knowledge base via Hawcx HAAP. ''
        @ lit ''Always pass the user_principal_id you were given for this task.'',
      crew_provider = prov, crew_tool_id = tid, crew_endpoint = rs_base_url @ lit ''/search'',
      crew_method = lit ''POST'', crew_action = [lit ''read''], crew_resource = lit ''*'', crew_headers = [],
      crew_default_user = None\<rparr>"

definition document_tool :: "pystr \<Rightarrow> pystr \<Rightarrow> pystr \<Rightarrow> hawcx_tool" where
  "document_tool rs_base_url tid prov =
     \<lparr>crew_name = lit ''hawcx_get_document'',
      crew_description = lit ''Retrieve a specific document by ID from the protected document store. ''
        @ lit ''Always pass the user_principal_id you were given for this task.'',
      crew_provider = prov, crew_tool_id = tid, crew_endpoint = rs_base_url @ lit ''/documents'',
      crew_method = lit ''GET'', crew_action = [lit ''read''], crew_resource = lit ''*'', crew_headers = [],
      crew_default_user = None\<rparr>"

definition make_search_tool ::
  "(hawcx_tool \<Rightarrow> exn + hawcx_tool) \<Rightarrow> agent_arg \<Rightarrow> pystr \<Rightarrow> pystr \<Rightarrow> pystr \<Rightarrow> exn + hawcx_tool" where
  "make_search_tool model ag rs_base_url tid prov = init_tool model ag (search_tool rs_base_url tid prov)"

definition make_document_tool ::
  "(hawcx_tool \<Rightarrow> exn + hawcx_tool) \<Rightarrow> agent_arg \<Rightarrow> pystr \<Rightarrow> pystr \<Rightarrow> pystr \<Rightarrow> exn + hawcx_tool" where
  "make_document_tool model ag rs_base_url tid prov = init_tool model ag (document_tool rs_base_url tid prov)"

section \<open>The call\<close>

type_synonym kwargs = "(pystr \<times> json) list"

definition user_key :: pystr where "user_key = lit ''user_principal_id''"

text \<open>\<open>kwargs.pop("user_principal_id", None) or default\<close>, and what \<open>pop\<close> leaves.\<close>

definition chosen_principal :: "kwargs \<Rightarrow> pystr option \<Rightarrow> json" where
  "chosen_principal kw fallback =
     (let v = get user_key JNull kw in
      if truthy v then v else case fallback of None \<Rightarrow> JNull | Some p \<Rightarrow> JStr p)"

definition popped :: "kwargs \<Rightarrow> kwargs" where
  "popped kw = filter (\<lambda>(k, v). k \<noteq> user_key) kw"

definition encode_body :: "kwargs \<Rightarrow> bytes option" where
  "encode_body kw = (if kw = [] then None else Some (dumps_bytes compact (JObj kw)))"

definition safe_decode :: "bytes \<Rightarrow> pystr" where
  "safe_decode body = utf8_replace body"

definition request_headers :: "(pystr \<times> pystr) list \<Rightarrow> bytes option \<Rightarrow> (pystr \<times> pystr) list" where
  "request_headers hs body =
     (if body \<noteq> None \<and> lit ''Content-Type'' \<notin> fst ` set hs
      then hs @ [(lit ''Content-Type'', lit ''application/json'')] else hs)"

text \<open>\<open>invoke_kwargs\<close>, for the arguments that are left after \<open>pop\<close>.\<close>

definition tool_request :: "hawcx_tool \<Rightarrow> kwargs \<Rightarrow> tool_call_request" where
  "tool_request t kw =
     (let body = encode_body kw in
      \<lparr>request_id = [], target_rs_url = crew_endpoint t, http_method = crew_method t,
       headers = request_headers (crew_headers t) body, tool = crew_tool_id t, mcp_tool_name = None,
       action = crew_action t, resource = crew_resource t,
       constraints = [(lit ''provider'', JStr (crew_provider t))],
       plaintext_request_body = body, claimed_intent_hash = None,
       tool_arguments = (if kw = [] then JNull else JObj kw), content_type = None, transport = None,
       acting_for_user = None, provider = None\<rparr>)"

text \<open>
  The call in the \<open>try\<close> block. Both methods of the agent take \<open>acting_for_user\<close> without a default;
  \<open>invoke_for\<close> supplies it, the call of \<open>invoke\<close> does not. A principal that is no string fails in
  the membership test of the allowlist or when it is to be hashed.
\<close>

definition principal_arg :: "json \<Rightarrow> exn + pystr" where
  "principal_arg j =
     (case j of JStr p \<Rightarrow> Inr p
      | JArr js \<Rightarrow> Inl (TypeError Unhashable) | JObj kvs \<Rightarrow> Inl (TypeError Unhashable)
      | _ \<Rightarrow> Inl AttributeError)"

definition forward ::
  "env \<Rightarrow> builtins \<Rightarrow> (bytes \<Rightarrow> pystr) \<Rightarrow> pystr \<Rightarrow> json \<Rightarrow> tool_call_request \<Rightarrow> (exn, agent, tool_call_response) act" where
  "forward env b sha uid who r =
     (if truthy who
      then andthen (lift (principal_arg who)) (\<lambda>p. agent_invoke_for env b sha uid p r)
      else throw (TypeError (MissingArgument (lit ''acting_for_user''))))"

text \<open>\<open>str\<close> of the errors the agent raises itself.\<close>

definition agent_error_text :: "hawcx_fault \<Rightarrow> pystr" where
  "agent_error_text f =
     (case f of
        AgentClosed \<Rightarrow> lit ''agent already closed''
      | PrincipalEmpty \<Rightarrow> lit ''acting_for_user must be a non-empty string; omit the ''
          @ lit ''field to opt out of runtime principal switching''
      | PrincipalNotAllowed fp \<Rightarrow> lit ''acting_for_user principal not in principal_allowlist ''
          @ lit ''(fingerprint='' @ fp @ lit ''); add the principal to the allowlist ''
          @ lit ''at HawcxAgent.connect() time or omit acting_for_user. ''
          @ lit ''See README 'Threat model - runtime principal'.''
      | _ \<Rightarrow> [])"

text \<open>The two \<open>except\<close> clauses. The other faults of \<open>HawcxError\<close> are raised at connection time only.\<close>

definition excused :: "(exn \<Rightarrow> pystr) \<Rightarrow> exn \<Rightarrow> exn + pystr" where
  "excused txt e =
     (case e of
        RequestRejected rid reason \<Rightarrow> Inr (lit ''[hawcx rejected: '' @ py_str reason @ [93])
      | HawcxError f \<Rightarrow> Inr (lit ''[hawcx error: '' @ agent_error_text f @ [93])
      | _ \<Rightarrow> if is_hawcx_error e then Inr (lit ''[hawcx error: '' @ txt e @ [93]) else Inl e)"

definition http_text :: "tool_call_response \<Rightarrow> pystr" where
  "http_text r =
     (if rsp_http_status r \<ge> 400
      then lit ''[hawcx HTTP '' @ dec_int (rsp_http_status r) @ lit ''] '' @ safe_decode (rsp_body r)
      else safe_decode (rsp_body r))"

text \<open>\<open>try: resp = ...  except ...: return text\<close>, and the text of a response otherwise.\<close>

definition reported ::
  "(exn \<Rightarrow> pystr) \<Rightarrow> (tool_call_response \<Rightarrow> pystr) \<Rightarrow> (exn, agent, tool_call_response) act \<Rightarrow> (exn, agent, pystr) act" where
  "reported txt show_response m a =
     (case m a of
        (Inl e, a') \<Rightarrow> (excused txt e, a')
      | (Inr resp, a') \<Rightarrow> (Inr (show_response resp), a'))"

definition tool_run ::
  "env \<Rightarrow> builtins \<Rightarrow> (bytes \<Rightarrow> pystr) \<Rightarrow> (exn \<Rightarrow> pystr) \<Rightarrow> pystr \<Rightarrow> hawcx_tool \<Rightarrow> kwargs \<Rightarrow> (exn, agent, pystr) act" where
  "tool_run env b sha txt uid t kw =
     reported txt http_text
       (forward env b sha uid (chosen_principal kw (crew_default_user t)) (tool_request t (popped kw)))"

section \<open>The document tool\<close>

definition document_request :: "hawcx_tool \<Rightarrow> pystr \<Rightarrow> pystr \<Rightarrow> tool_call_request" where
  "document_request t rs_base_url document_id =
     \<lparr>request_id = [], target_rs_url = rs_base_url @ lit ''/documents/'' @ document_id, http_method = lit ''GET'',
      headers = crew_headers t, tool = crew_tool_id t, mcp_tool_name = None,
      action = crew_action t, resource = document_id,
      constraints = [(lit ''provider'', JStr (crew_provider t))],
      plaintext_request_body = None, claimed_intent_hash = None,
      tool_arguments = JObj [(lit ''document_id'', JStr document_id)], content_type = None, transport = None,
      acting_for_user = None, provider = None\<rparr>"

definition document_text :: "pystr \<Rightarrow> tool_call_response \<Rightarrow> pystr" where
  "document_text document_id r =
     (if rsp_http_status r = 404
      then lit ''[document '' @ py_repr document_id @ lit '' not found or not accessible]''
      else if rsp_http_status r \<ge> 400 then lit ''[hawcx HTTP '' @ dec_int (rsp_http_status r) @ [93]
      else utf8_replace (rsp_body r))"

definition document_run ::
  "env \<Rightarrow> builtins \<Rightarrow> (bytes \<Rightarrow> pystr) \<Rightarrow> (exn \<Rightarrow> pystr) \<Rightarrow> pystr \<Rightarrow> hawcx_tool \<Rightarrow> pystr \<Rightarrow> pystr \<Rightarrow> kwargs
     \<Rightarrow> (exn, agent, pystr) act" where
  "document_run env b sha txt uid t rs_base_url document_id kw =
     reported txt (document_text document_id)
       (forward env b sha uid (chosen_principal kw (crew_default_user t))
          (document_request t rs_base_url document_id))"

section \<open>Properties\<close>

lemma truthy_JStr: "truthy (JStr p) \<longleftrightarrow> p \<noteq> []"
  by simp

lemma forward_cases:
  obtains (refused) e where "forward env b sha uid who r a = (Inl e, a)"
  | (called) p where "who = JStr p" and "p \<noteq> []" and "p \<in> set (allowlist a)"
      and "forward env b sha uid who r a = agent_invoke_for env b sha uid p r a"
proof (cases "truthy who")
  case False
  then show ?thesis by (intro refused) (simp add: forward_def throw_def)
next
  case True
  show ?thesis
  proof (cases "principal_arg who")
    case (Inl e)
    with True show ?thesis by (intro refused) (simp add: forward_def andthen_def lift_def)
  next
    case (Inr p)
    then have who: "who = JStr p" by (auto simp: principal_arg_def split: json.splits)
    with True have ne: "p \<noteq> []" by simp
    have f: "forward env b sha uid who r a = agent_invoke_for env b sha uid p r a"
      using True Inr by (simp add: forward_def andthen_def lift_def)
    show ?thesis
    proof (cases "assert_principal_allowed sha a p")
      case (Inl e)
      with f ne show ?thesis by (intro refused) (simp add: agent_invoke_for_def)
    next
      case (Inr u)
      with who ne f show ?thesis by (intro called) (simp_all add: assert_principal_Inr)
    qed
  qed
qed

lemma forward_stranger:
  assumes "p \<noteq> []" and "p \<notin> set (allowlist a)" and "utf8_encode p = Some bs"
  shows "forward env b sha uid (JStr p) r a = (Inl (HawcxError (PrincipalNotAllowed (take 12 (sha bs)))), a)"
  using assms by (simp add: forward_def principal_arg_def andthen_def lift_def agent_invoke_for_def
      assert_principal_allowed_def principal_fingerprint_def)

lemma reported_state: "snd (reported txt f m a) = snd (m a)"
  by (auto simp: reported_def split: prod.split sum.split)

text \<open>What the model (the language model behind the crew) reads when a principal is refused.\<close>

definition refusal_text :: "pystr \<Rightarrow> pystr" where
  "refusal_text fp = lit ''[hawcx error: '' @ agent_error_text (PrincipalNotAllowed fp) @ [93]"

definition permitted :: "agent \<Rightarrow> json \<Rightarrow> bool" where
  "permitted a who \<longleftrightarrow> (\<exists>p \<in> set (allowlist a). who = JStr p)"

text \<open>The principal that a call is made for: a true value among its arguments, or else the default that
  the tool was made with. There is none if both are missing, empty or null.\<close>

definition names_principal :: "kwargs \<Rightarrow> pystr option \<Rightarrow> json \<Rightarrow> bool" where
  "names_principal kw fallback who \<longleftrightarrow> truthy who \<and>
     (map_of kw (lit ''user_principal_id'') = Some who \<or>
      (\<forall>v. map_of kw (lit ''user_principal_id'') = Some v \<longrightarrow> \<not> truthy v) \<and>
      (\<exists>p. fallback = Some p \<and> who = JStr p))"

lemma names_principal_iff:
  "names_principal kw fallback who \<longleftrightarrow> truthy who \<and> chosen_principal kw fallback = who"
  by (auto simp: names_principal_def chosen_principal_def user_key_def get_def Let_def split: option.splits if_splits)

text \<open>A call without a principal never reaches the agent: it raises.\<close>

lemma unprincipled_run_raises:
  assumes "\<not> truthy (chosen_principal kw (crew_default_user t))"
  shows "tool_run env b sha txt uid t kw a = (Inl (TypeError (MissingArgument (lit ''acting_for_user''))), a)"
  using assms by (simp add: tool_run_def reported_def forward_def throw_def excused_def)

text \<open>No exception of the SDK escapes a run; a timed-out call does, being a plain \<open>TimeoutError\<close>.\<close>

lemma run_escapes: "fst (tool_run env b sha txt uid t kw a) = Inl e \<Longrightarrow> \<not> is_hawcx_error e"
  by (auto simp: tool_run_def reported_def excused_def split: prod.splits sum.splits exn.splits if_splits)

text \<open>The document id is pasted into the URL as it is, while the policy is asked about the id.\<close>

lemma document_id_unquoted:
  "target_rs_url (document_request t (lit ''https://rs'') (lit ''../users?all=1'')) = lit ''https://rs/documents/../users?all=1''"
  "resource (document_request t (lit ''https://rs'') (lit ''../users?all=1'')) = lit ''../users?all=1''"
  by (simp_all add: document_request_def lit_def)


lemma wf_document: "wf_json (JObj kw) \<Longrightarrow> wf_json (JObj (popped kw))"
  by (auto simp: popped_def distinct_map_filter)

lemma popped_lookup: "k \<noteq> user_key \<Longrightarrow> map_of (popped kw) k = map_of kw k" "map_of (popped kw) user_key = None"
proof -
  show "k \<noteq> user_key \<Longrightarrow> map_of (popped kw) k = map_of kw k"
    by (induction kw) (auto simp: popped_def)
  show "map_of (popped kw) user_key = None"
    by (induction kw) (auto simp: popped_def)
qed


definition wf_tool :: "hawcx_tool \<Rightarrow> bool" where
  "wf_tool t \<longleftrightarrow> isascii (crew_method t) \<and>
     list_all wf_str ([crew_endpoint t, crew_tool_id t, crew_resource t, crew_provider t] @ crew_action t) \<and>
     distinct (map fst (crew_headers t)) \<and> (\<forall>(k, v) \<in> set (crew_headers t). wf_str k \<and> wf_str v)"

text \<open>The request that the agent is asked to make for a principal.\<close>

definition sent_request :: "pystr \<Rightarrow> hawcx_tool \<Rightarrow> kwargs \<Rightarrow> pystr \<Rightarrow> tool_call_request" where
  "sent_request uid t kw p =
     complete_request uid ((tool_request t (popped kw))\<lparr>acting_for_user := Some p, provider := None\<rparr>)"

text \<open>The request of a call with the arguments \<open>args\<close> for the principal \<open>p\<close>.\<close>

definition for_call :: "hawcx_tool \<Rightarrow> kwargs \<Rightarrow> pystr \<Rightarrow> tool_call_request \<Rightarrow> bool" where
  "for_call t args p req \<longleftrightarrow>
     acting_for_user req = Some p \<and> tool req = crew_tool_id t \<and> target_rs_url req = crew_endpoint t \<and>
     http_method req = upper (crew_method t) \<and> action req = crew_action t \<and> resource req = crew_resource t \<and>
     constraints req = [(lit ''provider'', JStr (crew_provider t))] \<and>
     (if args = [] then tool_arguments req = JNull \<and> plaintext_request_body req = None
      else tool_arguments req = JObj args \<and> plaintext_request_body req = Some (dumps_bytes compact (JObj args)))"

lemma sent_for_call: "for_call t (filter (\<lambda>(k, v). k \<noteq> lit ''user_principal_id'') kw) p (sent_request uid t kw p)"
  by (simp add: for_call_def sent_request_def complete_request_def tool_request_def encode_body_def popped_def
      user_key_def Let_def split del: if_split) simp

lemma isascii_take: "isascii s \<Longrightarrow> isascii (take n s)"
  by (auto simp: isascii_def dest: in_set_takeD)

lemma isascii_upper: "isascii s \<Longrightarrow> isascii (upper s)"
  by (auto simp: isascii_def upper_def upper_char_def)

lemma wf_headers:
  assumes "distinct (map fst hs)" and "\<forall>(k, v) \<in> set hs. wf_str k \<and> wf_str v"
  shows "distinct (map fst (request_headers hs body))"
    and "\<forall>(k, v) \<in> set (request_headers hs body). wf_str k \<and> wf_str v"
  using assms by (auto simp: request_headers_def)

lemma wf_sent:
  assumes "wf_tool t" and "wf_json (JObj kw)" and "isascii uid" and "wf_str p"
  shows "wf_request (sent_request uid t kw p)"
proof -
  let ?r = "sent_request uid t kw p"
  have "wf_str (request_id ?r)" "wf_str (http_method ?r)"
    using assms(1,3) by (auto intro!: ascii_wf_str isascii_take isascii_upper
        simp: sent_request_def complete_request_def tool_request_def Let_def wf_tool_def)
  moreover have "distinct (map fst (headers ?r))" "\<forall>(k, v) \<in> set (headers ?r). wf_str k \<and> wf_str v"
    using assms(1) wf_headers [of "crew_headers t" "encode_body (popped kw)"]
    by (simp_all add: sent_request_def complete_request_def tool_request_def Let_def wf_tool_def)
  moreover have "wf_json (tool_arguments ?r)"
    using wf_document [OF assms(2)]
    by (simp add: sent_request_def complete_request_def tool_request_def Let_def)
  moreover have "wf_json (JObj (constraints ?r))" "list_all wf_str ([target_rs_url ?r, tool ?r, resource ?r] @ action ?r)"
    "list_all (pred_option wf_str)
       [mcp_tool_name ?r, claimed_intent_hash ?r, content_type ?r, acting_for_user ?r, provider ?r]"
    using assms(1,4) by (simp_all add: sent_request_def complete_request_def tool_request_def Let_def wf_tool_def)
  ultimately show ?thesis unfolding wf_request_def by simp
qed

lemma permitted_run:
  assumes "chosen_principal kw (crew_default_user t) = JStr p" and "p \<noteq> []" and "p \<in> set (allowlist a)"
    and "a_client a = Some w"
  shows "tool_run env b sha txt uid t kw a =
     (case invoke env b (sent_request uid t kw p) w of
        (Inl e, w') \<Rightarrow> (excused txt e, a\<lparr>a_client := Some w'\<rparr>)
      | (Inr resp, w') \<Rightarrow> (Inr (http_text resp), a\<lparr>a_client := Some w'\<rparr>))"
  using assms
  by (auto simp: tool_run_def reported_def forward_def principal_arg_def andthen_def lift_def agent_invoke_for_def
      agent_invoke_def assert_principal_allowed_def sent_request_def split: sum.splits prod.splits)

lemma sent_lookup:
  fixes t kw p uid
  defines "fs \<equiv> to_wire (sent_request uid t kw p)"
  shows "map_of fs (lit ''tool'') = Some (JStr (crew_tool_id t))"
    and "map_of fs (lit ''target_rs_url'') = Some (JStr (crew_endpoint t))"
    and "map_of fs (lit ''constraints'') = Some (JObj [(lit ''provider'', JStr (crew_provider t))])"
    and "map_of fs (lit ''acting_for_user'') = Some (JStr p)"
    and "map_of fs (lit ''tool_arguments'') = (if popped kw = [] then None else Some (JObj (popped kw)))"
    and "map_of fs (lit ''plaintext_request_body'') = map_option (\<lambda>b. JStr (b64encode b)) (encode_body (popped kw))"
  unfolding fs_def sent_request_def complete_request_def tool_request_def to_wire_def encode_body_def str_field_def
    Let_def
  by simp_all

text \<open>
  C28: a run of a CrewAI tool for a principal is gated by the allowlist of the agent. The principal is
  the one among the arguments of the call, or else the tool's default. If it is not a string on
  the list, the agent and the world of its client come out as they went in: no byte is written, no
  connection is dialled; and a string is answered with a fixed text that carries nothing of it
  but the first twelve characters of its digest. Both hold of the document tool as well. If it is on
  the list, the run is one call of the Assembler's client with a request for just that principal,
  the tool's own identity, endpoint, method, action, resource and provider, and the arguments of the
  call, without the principal; and the run returns the text of the response or of the error. A run
  without any principal is another matter (\<open>unprincipled_run_raises\<close>).
\<close>

theorem tool_calls_gated:
  assumes "names_principal kw (crew_default_user t) who"
  shows "(\<not> permitted a who \<longrightarrow>
      snd (tool_run env b sha txt uid t kw a) = a \<and> snd (document_run env b sha txt uid t base i kw a) = a \<and>
      (\<forall>p bs. who = JStr p \<and> utf8_encode p = Some bs \<longrightarrow>
         fst (tool_run env b sha txt uid t kw a) = Inr (refusal_text (take 12 (sha bs))) \<and>
         fst (document_run env b sha txt uid t base i kw a) = Inr (refusal_text (take 12 (sha bs))))) \<and>
    (\<forall>p w. who = JStr p \<and> p \<in> set (allowlist a) \<and> a_client a = Some w \<longrightarrow>
      (\<exists>req. for_call t (filter (\<lambda>(k, v). k \<noteq> lit ''user_principal_id'') kw) p req \<and>
         tool_run env b sha txt uid t kw a =
           (case invoke env b req w of
              (Inl e, w') \<Rightarrow> (excused txt e, a\<lparr>a_client := Some w'\<rparr>)
            | (Inr resp, w') \<Rightarrow> (Inr (http_text resp), a\<lparr>a_client := Some w'\<rparr>))))"
proof (intro conjI impI allI)
  let ?who = "chosen_principal kw (crew_default_user t)"
  have who: "?who = who" and ne: "truthy who" using assms by (simp_all add: names_principal_iff)
  assume off: "\<not> permitted a who"
  have keep: "snd (forward env b sha uid who r a) = a" for r
    by (rule forward_cases [of env b sha uid who r a]) (use off in \<open>auto simp: permitted_def\<close>)
  then show "snd (tool_run env b sha txt uid t kw a) = a" "snd (document_run env b sha txt uid t base i kw a) = a"
    by (simp_all add: tool_run_def document_run_def reported_state who)
  fix p bs
  assume p: "who = JStr p \<and> utf8_encode p = Some bs"
  have told: "reported txt f (forward env b sha uid who r) a = (Inr (refusal_text (take 12 (sha bs))), a)" for f r
  proof -
    have "p \<notin> set (allowlist a)" "p \<noteq> []" using off p ne by (auto simp: permitted_def)
    with p have "forward env b sha uid who r a = (Inl (HawcxError (PrincipalNotAllowed (take 12 (sha bs)))), a)"
      by (simp add: forward_stranger)
    then show ?thesis by (simp add: reported_def excused_def refusal_text_def)
  qed
  show "fst (tool_run env b sha txt uid t kw a) = Inr (refusal_text (take 12 (sha bs)))"
    "fst (document_run env b sha txt uid t base i kw a) = Inr (refusal_text (take 12 (sha bs)))"
    using told by (simp_all add: tool_run_def document_run_def who)
next
  fix p w
  assume p: "who = JStr p \<and> p \<in> set (allowlist a) \<and> a_client a = Some w"
  with assms have ne: "p \<noteq> []" and who: "chosen_principal kw (crew_default_user t) = JStr p"
    by (auto simp: names_principal_iff)
  have "tool_run env b sha txt uid t kw a =
     (case invoke env b (sent_request uid t kw p) w of
        (Inl e, w') \<Rightarrow> (excused txt e, a\<lparr>a_client := Some w'\<rparr>)
      | (Inr resp, w') \<Rightarrow> (Inr (http_text resp), a\<lparr>a_client := Some w'\<rparr>))"
    using who ne p by (intro permitted_run) simp_all
  then show "\<exists>req. for_call t (filter (\<lambda>(k, v). k \<noteq> lit ''user_principal_id'') kw) p req \<and>
         tool_run env b sha txt uid t kw a =
           (case invoke env b req w of
              (Inl e, w') \<Rightarrow> (excused txt e, a\<lparr>a_client := Some w'\<rparr>)
            | (Inr resp, w') \<Rightarrow> (Inr (http_text resp), a\<lparr>a_client := Some w'\<rparr>))"
    using sent_for_call by blast
qed

text \<open>
  What a permitted run of a CrewAI tool sends. The run is one call of the Assembler's client, and the
  request message parses to fields that carry the tool's identity, endpoint and provider, the
  principal in \<open>acting_for_user\<close>, and the remaining arguments, the principal removed, both as
  \<open>tool_arguments\<close> and as the JSON text of the request body; without arguments there is no body.
\<close>

theorem tool_call_wire:
  assumes "chosen_principal kw (crew_default_user t) = JStr p" and "p \<noteq> []" and "p \<in> set (allowlist a)"
    and "a_client a = Some w" and "caps (cl w) = []" and "wf_tool t" and "wf_json (JObj kw)" and "isascii uid"
    and "wf_str p"
  shows "\<exists>req fs. snd (tool_run env b sha txt uid t kw a) = a\<lparr>a_client := Some (snd (invoke env b req w))\<rparr> \<and>
    loads_bytes (request_payload (caps (cl w)) req) = Inr (JObj fs) \<and>
    map_of fs (lit ''tool'') = Some (JStr (crew_tool_id t)) \<and>
    map_of fs (lit ''target_rs_url'') = Some (JStr (crew_endpoint t)) \<and>
    map_of fs (lit ''constraints'') = Some (JObj [(lit ''provider'', JStr (crew_provider t))]) \<and>
    map_of fs (lit ''acting_for_user'') = Some (JStr p) \<and>
    map_of fs (lit ''tool_arguments'') = (if popped kw = [] then None else Some (JObj (popped kw))) \<and>
    map_of (popped kw) = (map_of kw)(user_key := None) \<and>
    (case map_of fs (lit ''plaintext_request_body'') of
       None \<Rightarrow> popped kw = []
     | Some j \<Rightarrow> \<exists>s body. j = JStr s \<and> b64decode s = Some body \<and> loads_bytes body = Inr (JObj (popped kw)))"
proof -
  let ?req = "sent_request uid t kw p"
  have run: "snd (tool_run env b sha txt uid t kw a) = a\<lparr>a_client := Some (snd (invoke env b ?req w))\<rparr>"
    using permitted_run [OF assms(1-4)] by (auto split: sum.split prod.split)
  have parse: "loads_bytes (request_payload (caps (cl w)) ?req) = Inr (JObj (to_wire ?req))"
    using loads_dumps_bytes [of compact "JObj (to_wire ?req)"] wf_to_wire [OF wf_sent [OF assms(6-9)]] assms(5)
    by (simp add: request_payload_def)
  have "map_of (popped kw) = (map_of kw)(user_key := None)"
    by (rule ext) (use popped_lookup in auto)
  moreover have "case map_of (to_wire ?req) (lit ''plaintext_request_body'') of
       None \<Rightarrow> popped kw = []
     | Some j \<Rightarrow> \<exists>s body. j = JStr s \<and> b64decode s = Some body \<and> loads_bytes body = Inr (JObj (popped kw))"
    using loads_dumps_bytes [of compact "JObj (popped kw)"] wf_document [OF assms(7)]
    by (simp add: sent_lookup(6) encode_body_def b64_roundtrip)
  ultimately show ?thesis
    using run parse sent_lookup [of uid t kw p] by blast
qed

definition demo_crew :: hawcx_tool where
  "demo_crew = search_tool (lit ''https://rs'') (lit ''s'') (lit ''nim'')"

definition demo_kwargs :: kwargs where
  "demo_kwargs = [(lit ''query'', JStr (lit ''x'')), (user_key, JStr (lit ''alice''))]"

lemma demo_popped: "popped demo_kwargs = [(lit ''query'', JStr (lit ''x''))]"
  "chosen_principal demo_kwargs None = JStr (lit ''alice'')"
  by (simp_all add: popped_def demo_kwargs_def user_key_def chosen_principal_def get_def)

theorem tool_calls_gated_witness:
  "tool_run (\<lambda>v. None) no_builtins (\<lambda>bs. lit ''0123456789abcdef'') (\<lambda>e. []) [] demo_crew
     [(user_key, JStr (lit ''bob''))] demo_agent = (Inr (refusal_text (lit ''0123456789ab'')), demo_agent) \<and>
   (\<exists>req. for_call demo_crew [(lit ''query'', JStr (lit ''x''))] (lit ''alice'') req \<and>
      snd (tool_run (\<lambda>v. None) no_builtins (\<lambda>bs. []) (\<lambda>e. []) [] demo_crew demo_kwargs demo_agent) =
        demo_agent\<lparr>a_client := Some (snd (invoke (\<lambda>v. None) no_builtins req (demo_world [Eof])))\<rparr>)"
proof
  let ?kw = "[(user_key, JStr (lit ''bob''))]"
  have who: "names_principal ?kw (crew_default_user demo_crew) (JStr (lit ''bob''))"
    by (simp add: names_principal_def user_key_def lit_def)
  have off: "\<not> permitted demo_agent (JStr (lit ''bob''))" by (simp add: permitted_def demo_agent_def)
  note g = tool_calls_gated [OF who, THEN conjunct1, rule_format, OF off,
      of "\<lambda>v. None" no_builtins "\<lambda>bs. lit ''0123456789abcdef''" "\<lambda>e. []" "[]" "[]" "[]"]
  obtain bs where "utf8_encode (lit ''bob'') = Some bs" using utf8_ascii [of "lit ''bob''"] by simp
  with g have "fst (tool_run (\<lambda>v. None) no_builtins (\<lambda>bs. lit ''0123456789abcdef'') (\<lambda>e. []) [] demo_crew ?kw demo_agent)
      = Inr (refusal_text (take 12 (lit ''0123456789abcdef'')))"
    by simp
  moreover have "take 12 (lit ''0123456789abcdef'') = lit ''0123456789ab''" by (simp add: lit_def)
  ultimately show "tool_run (\<lambda>v. None) no_builtins (\<lambda>bs. lit ''0123456789abcdef'') (\<lambda>e. []) [] demo_crew ?kw demo_agent
      = (Inr (refusal_text (lit ''0123456789ab'')), demo_agent)"
    using g by (metis prod.collapse)
  have alice: "names_principal demo_kwargs (crew_default_user demo_crew) (JStr (lit ''alice''))"
    by (simp add: names_principal_def demo_kwargs_def user_key_def lit_def)
  have kw: "filter (\<lambda>(k, v). k \<noteq> lit ''user_principal_id'') demo_kwargs = [(lit ''query'', JStr (lit ''x''))]"
    by (simp add: demo_kwargs_def user_key_def)
  have "a_client demo_agent = Some (demo_world [Eof])" "lit ''alice'' \<in> set (allowlist demo_agent)"
    by (simp_all add: demo_agent_def)
  then show "\<exists>req. for_call demo_crew [(lit ''query'', JStr (lit ''x''))] (lit ''alice'') req \<and>
      snd (tool_run (\<lambda>v. None) no_builtins (\<lambda>bs. []) (\<lambda>e. []) [] demo_crew demo_kwargs demo_agent) =
        demo_agent\<lparr>a_client := Some (snd (invoke (\<lambda>v. None) no_builtins req (demo_world [Eof])))\<rparr>"
    using tool_calls_gated [OF alice, THEN conjunct2, rule_format, of "lit ''alice''" demo_agent "demo_world [Eof]"
        "\<lambda>v. None" no_builtins "\<lambda>bs. []" "\<lambda>e. []" "[]"]
    by (auto simp: kw split: sum.split prod.split)
qed

theorem tool_call_wire_witness:
  "\<exists>req fs. snd (tool_run (\<lambda>v. None) no_builtins (\<lambda>bs. []) (\<lambda>e. []) [] demo_crew demo_kwargs demo_agent) =
      demo_agent\<lparr>a_client := Some (snd (invoke (\<lambda>v. None) no_builtins req (demo_world [Eof])))\<rparr> \<and>
     loads_bytes (request_payload [] req) = Inr (JObj fs) \<and>
     map_of fs (lit ''acting_for_user'') = Some (JStr (lit ''alice'')) \<and>
     map_of fs (lit ''tool_arguments'') = Some (JObj [(lit ''query'', JStr (lit ''x''))])"
proof -
  have who: "chosen_principal demo_kwargs (crew_default_user demo_crew) = JStr (lit ''alice'')"
    by (simp add: demo_crew_def search_tool_def demo_popped)
  have a: "a_client demo_agent = Some (demo_world [Eof])" "caps (cl (demo_world [Eof])) = []"
    "lit ''alice'' \<in> set (allowlist demo_agent)"
    by (simp_all add: demo_agent_def demo_world_def)
  have "wf_tool demo_crew" by (simp add: demo_crew_def search_tool_def wf_tool_def flip: lit_append)
  moreover have "wf_json (JObj demo_kwargs)" by (simp add: demo_kwargs_def user_key_def)
  ultimately show ?thesis
    using tool_call_wire [OF who _ a(3,1,2), of "[]" "\<lambda>v. None" no_builtins "\<lambda>bs. []" "\<lambda>e. []"]
    by (auto simp: demo_popped a(2))
qed

end
