(* ===== verification/Template.thy ===== *)
theory Template
  imports Ipc_Message "HOL-Library.List_Lexorder"
begin

text \<open>
  \<open>template.py\<close>: loading and validating a \<open>hawcx/agent-template/v1\<close> document. Documents are JSON
  values; the YAML parser is an argument and is taken to yield such values too (no dates, no keys
  that are not strings). What Python raises on a value it cannot hash is modelled.
\<close>

section \<open>Vocabulary\<close>

definition template_header :: pystr where "template_header = lit ''hawcx/agent-template/v1''"

definition authority_keys :: "pystr list" where
  "authority_keys = map lit [''granted_scopes'', ''granted'', ''authority'', ''approved'', ''approval'',
     ''policy'', ''policy_set'', ''policyset'', ''signature'', ''signatures'', ''signed'',
     ''assigned'', ''assignments'', ''publish_status'', ''published'', ''auto_approve'',
     ''scope_ceiling'', ''org_token'', ''ciba_waiver'']"

definition risk_enum :: "pystr list" where
  "risk_enum = map lit [''read_public'', ''read_internal'', ''read_financial'', ''write_internal'',
     ''move_money'', ''admin'']"

definition actions_enum :: "pystr list" where
  "actions_enum = map lit [''read'', ''write'', ''execute'']"

definition frameworks :: "pystr list" where
  "frameworks = map lit [''crewai'', ''langchain'', ''composio'', ''openshell'', ''visual'']"

definition top_keys :: "pystr list" where
  "top_keys = map lit [''template'', ''name'', ''version'', ''framework'', ''tools'', ''constraints'',
     ''suggested_levels'']"

text \<open>The required keys, as \<open>sorted\<close> lists them.\<close>

definition required_top :: "pystr list" where
  "required_top = map lit [''framework'', ''name'', ''template'', ''tools'', ''version'']"

definition privileged_suffixes :: "pystr list" where
  "privileged_suffixes = map lit [''refund'', ''transfer'', ''payout'', ''wire'', ''payment'', ''payments'']"

text \<open>The first code points of the runs of ten decimal digits (category Nd), which \<open>\d\<close> matches
  (Unicode 14, as in Python 3.11).\<close>

definition digit_runs :: "nat list" where
  "digit_runs = [
     0x30, 0x660, 0x6f0, 0x7c0, 0x966, 0x9e6, 0xa66, 0xae6, 0xb66, 0xbe6, 0xc66, 0xce6, 0xd66,
     0xde6, 0xe50, 0xed0, 0xf20, 0x1040, 0x1090, 0x17e0, 0x1810, 0x1946, 0x19d0, 0x1a80, 0x1a90,
     0x1b50, 0x1bb0, 0x1c40, 0x1c50, 0xa620, 0xa8d0, 0xa900, 0xa9d0, 0xa9f0, 0xaa50, 0xabf0, 0xff10,
     0x104a0, 0x10d30, 0x11066, 0x110f0, 0x11136, 0x111d0, 0x112f0, 0x11450, 0x114d0, 0x11650,
     0x116c0, 0x11730, 0x118e0, 0x11950, 0x11c50, 0x11d50, 0x11da0, 0x16a60, 0x16ac0, 0x16b50,
     0x1d7ce, 0x1d7d8, 0x1d7e2, 0x1d7ec, 0x1d7f6, 0x1e140, 0x1e2f0, 0x1e950, 0x1fbf0]"

definition is_decimal :: "nat \<Rightarrow> bool" where
  "is_decimal c \<longleftrightarrow> (\<exists>d \<in> set digit_runs. d \<le> c \<and> c < d + 10)"

text \<open>The three patterns, matched in full. None of the classes holds the separator.\<close>

definition name_re :: "pystr \<Rightarrow> bool" where
  "name_re s \<longleftrightarrow> (case s of [] \<Rightarrow> False | c # t \<Rightarrow> (is_lower c \<or> is_digit c) \<and>
     (\<forall>d \<in> set t. is_lower d \<or> is_digit d \<or> d = 45))"

definition version_re :: "pystr \<Rightarrow> bool" where
  "version_re s \<longleftrightarrow> (let parts = split_on 46 s in length parts = 3 \<and>
     (\<forall>p \<in> set parts. p \<noteq> [] \<and> (\<forall>c \<in> set p. is_decimal c)))"

definition id_char :: "nat \<Rightarrow> bool" where
  "id_char c \<longleftrightarrow> is_lower c \<or> is_digit c \<or> c = 95"

definition tool_id_re :: "pystr \<Rightarrow> bool" where
  "tool_id_re s \<longleftrightarrow> (let parts = split_on 46 s in 2 \<le> length parts \<and>
     (\<forall>p \<in> set parts. p \<noteq> [] \<and> (\<forall>c \<in> set p. id_char c)))"

section \<open>Validation\<close>

type_synonym errs = "(pystr \<times> pystr) list"

fun scan_authority :: "json \<Rightarrow> pystr \<Rightarrow> errs"
  and authority_members :: "(pystr \<times> json) list \<Rightarrow> pystr \<Rightarrow> errs"
  and authority_items :: "json list \<Rightarrow> nat \<Rightarrow> pystr \<Rightarrow> errs" where
  "scan_authority (JObj kvs) path = authority_members kvs path"
| "scan_authority (JArr js) path = authority_items js 0 path"
| "scan_authority _ path = []"
| "authority_members [] path = []"
| "authority_members ((k, v) # kvs) path =
     (if lower k \<in> set authority_keys then [(lit ''E_AUTHORITY_CLAIM'', path @ [46] @ k)] else [])
     @ scan_authority v (path @ [46] @ k) @ authority_members kvs path"
| "authority_items [] i path = []"
| "authority_items (j # js) i path =
     scan_authority j (path @ [91] @ dec i @ [93]) @ authority_items js (Suc i) path"

fun unhashable :: "json \<Rightarrow> bool" where
  "unhashable (JArr _) = True"
| "unhashable (JObj _) = True"
| "unhashable _ = False"

text \<open>\<open>x in S\<close> for a set of strings.\<close>

definition in_names :: "pystr list \<Rightarrow> json \<Rightarrow> exn + bool" where
  "in_names names j =
     (if unhashable j then Inl (TypeError Unhashable)
      else Inr (case j of JStr s \<Rightarrow> s \<in> set names | _ \<Rightarrow> False))"

definition check :: "bool \<Rightarrow> string \<Rightarrow> pystr \<Rightarrow> errs" where
  "check ok code path = (if ok then [] else [(lit code, path)])"

definition root_errors :: "(pystr \<times> json) list \<Rightarrow> exn + errs" where
  "root_errors doc =
     (let keys = map fst doc;
          missing = filter (\<lambda>k. k \<notin> set keys) required_top;
          unknown = filter (\<lambda>k. lower k \<notin> set authority_keys) (sort (filter (\<lambda>k. k \<notin> set top_keys) keys));
          name = get (lit ''name'') JNull doc;
          version = get (lit ''version'') JNull doc
      in case (case get (lit ''framework'') JNull doc of
                 JObj fw \<Rightarrow> in_names frameworks (get (lit ''kind'') JNull fw)
               | _ \<Rightarrow> Inr False) of
           Inl e \<Rightarrow> Inl e
         | Inr fw_ok \<Rightarrow> Inr (scan_authority (JObj doc) [36]
             @ check (get (lit ''template'') JNull doc = JStr template_header) ''E_TEMPLATE_HEADER'' (lit ''$.template'')
             @ map (\<lambda>k. (lit ''E_MISSING_KEY'', lit ''$.'' @ k)) missing
             @ map (\<lambda>k. (lit ''E_UNKNOWN_KEY'', lit ''$.'' @ k)) unknown
             @ check (case name of JStr s \<Rightarrow> name_re s | _ \<Rightarrow> False) ''E_BAD_NAME'' (lit ''$.name'')
             @ check (case version of JStr s \<Rightarrow> version_re s | _ \<Rightarrow> False) ''E_BAD_VERSION'' (lit ''$.version'')
             @ check fw_ok ''E_BAD_FRAMEWORK'' (lit ''$.framework'')))"

definition constraint_entry :: "json \<Rightarrow> pystr \<Rightarrow> json" where
  "constraint_entry cons tid = (case cons of JObj cs \<Rightarrow> get tid JNull cs | _ \<Rightarrow> JNull)"

definition some_key_starts :: "string \<Rightarrow> json \<Rightarrow> bool" where
  "some_key_starts pre entry = (case entry of JObj kvs \<Rightarrow> (\<exists>k \<in> set (map fst kvs). starts (lit pre) k) | _ \<Rightarrow> False)"

definition actions_ok :: "json \<Rightarrow> exn + bool" where
  "actions_ok actions =
     (case actions of
        JArr as \<Rightarrow> if as = [] then Inr False
                   else if \<exists>a \<in> set as. unhashable a then Inl (TypeError Unhashable)
                   else Inr (\<forall>a \<in> set as. case a of JStr s \<Rightarrow> s \<in> set actions_enum | _ \<Rightarrow> False)
      | _ \<Rightarrow> Inr False)"

definition tool_errors :: "json \<Rightarrow> pystr list \<Rightarrow> pystr \<Rightarrow> pystr \<Rightarrow> json \<Rightarrow> json \<Rightarrow> exn + errs" where
  "tool_errors cons ids path tid actions risk =
     (case actions_ok actions of
        Inl e \<Rightarrow> Inl e
      | Inr act_ok \<Rightarrow>
          (case in_names risk_enum risk of
             Inl e \<Rightarrow> Inl e
           | Inr risk_ok \<Rightarrow>
               (let money = (risk = JStr (lit ''move_money'')); entry = constraint_entry cons tid
                in Inr (check (tid \<notin> set ids) ''E_DUP_TOOL_ID'' (path @ lit ''.id'')
                    @ check act_ok ''E_BAD_ACTION'' (path @ lit ''.actions'')
                    @ check risk_ok ''E_BAD_RISK'' (path @ lit ''.risk'')
                    @ check (\<not> (last (split_on 46 tid) \<in> set privileged_suffixes \<and> \<not> money)) ''E_RISK_SMUGGLE'' path
                    @ check (money \<longrightarrow> some_key_starts ''max_'' entry) ''E_MISSING_CEILING''
                        (lit ''$.constraints.'' @ tid)
                    @ check (money \<longrightarrow> some_key_starts ''ciba_'' entry) ''E_MISSING_CIBA''
                        (lit ''$.constraints.'' @ tid)))))"

text \<open>The loop over the tools: the ids seen so far go along.\<close>

fun check_tools :: "json \<Rightarrow> nat \<Rightarrow> json list \<Rightarrow> pystr list \<Rightarrow> exn + pystr list \<times> errs" where
  "check_tools cons i [] ids = Inr (ids, [])"
| "check_tools cons i (t # ts) ids =
     (let path = lit ''$.tools['' @ dec i @ lit '']'';
          skip_tool = (\<lambda>p. case check_tools cons (Suc i) ts ids of
             Inl e \<Rightarrow> Inl e | Inr (ids', es) \<Rightarrow> Inr (ids', (lit ''E_BAD_TOOL'', p) # es))
      in case t of
           JObj kvs \<Rightarrow>
             (case (map_of kvs (lit ''id''), map_of kvs (lit ''actions''), map_of kvs (lit ''risk'')) of
                (Some tid, Some actions, Some risk) \<Rightarrow>
                  (case tid of
                     JStr s \<Rightarrow>
                       if isascii s \<and> tool_id_re s then
                         (case tool_errors cons ids path s actions risk of
                            Inl e \<Rightarrow> Inl e
                          | Inr es1 \<Rightarrow> (case check_tools cons (Suc i) ts (ids @ [s]) of
                              Inl e \<Rightarrow> Inl e | Inr (ids', es) \<Rightarrow> Inr (ids', es1 @ es)))
                       else skip_tool (path @ lit ''.id'')
                   | _ \<Rightarrow> skip_tool (path @ lit ''.id''))
              | _ \<Rightarrow> skip_tool path)
         | _ \<Rightarrow> skip_tool path)"

definition constraint_errors :: "json \<Rightarrow> pystr list \<Rightarrow> errs" where
  "constraint_errors cons ids =
     (case cons of
        JNull \<Rightarrow> []
      | JObj cs \<Rightarrow> map (\<lambda>k. (lit ''E_UNKNOWN_CONSTRAINT_REF'', lit ''$.constraints.'' @ k))
                     (filter (\<lambda>k. k \<notin> set ids) (map fst cs))
      | _ \<Rightarrow> [(lit ''E_BAD_CONSTRAINTS'', lit ''$.constraints'')])"

definition validate_v1 :: "json \<Rightarrow> exn + errs" where
  "validate_v1 j =
     (case j of
        JObj doc \<Rightarrow>
          (case root_errors doc of
             Inl e \<Rightarrow> Inl e
           | Inr es1 \<Rightarrow>
               (let cons = get (lit ''constraints'') JNull doc;
                    tools = (case get (lit ''tools'') JNull doc of JArr ts \<Rightarrow> ts | _ \<Rightarrow> []);
                    empty_tools = check (tools \<noteq> []) ''E_TOOLS_EMPTY'' (lit ''$.tools'')
                in case check_tools cons 0 tools [] of
                     Inl e \<Rightarrow> Inl e
                   | Inr (ids, es2) \<Rightarrow> Inr (es1 @ empty_tools @ es2 @ constraint_errors cons ids)))
      | _ \<Rightarrow> Inr [(lit ''E_ROOT_TYPE'', [36])])"

section \<open>Loading\<close>

text \<open>\<open>yaml\<close>: absent when PyYAML is not installed; \<open>None\<close> for a \<open>YAMLError\<close>.\<close>

definition parse_template :: "(pystr \<Rightarrow> json option) option \<Rightarrow> pystr \<Rightarrow> exn + json" where
  "parse_template yaml src =
     (if starts [123] (lstrip src)
      then (case loads src of None \<Rightarrow> Inl (TemplateError InvalidJson []) | Some j \<Rightarrow> Inr j)
      else case yaml of
          None \<Rightarrow> Inl (TemplateError YamlMissing [])
        | Some load \<Rightarrow> (case load src of None \<Rightarrow> Inl (TemplateError InvalidYaml []) | Some j \<Rightarrow> Inr j))"

datatype template_source = SourceText pystr | SourceBytes bytes

definition load_template :: "(pystr \<Rightarrow> json option) option \<Rightarrow> template_source \<Rightarrow> exn + json" where
  "load_template yaml src =
     (case (case src of SourceText s \<Rightarrow> Some s | SourceBytes bs \<Rightarrow> utf8_decode bs) of
        None \<Rightarrow> Inl (TemplateError TemplateNotUtf8 [])
      | Some s \<Rightarrow>
          (case parse_template yaml s of
             Inl e \<Rightarrow> Inl e
           | Inr doc \<Rightarrow>
               (case validate_v1 doc of
                  Inl e \<Rightarrow> Inl e
                | Inr errs \<Rightarrow> if errs \<noteq> [] then Inl (TemplateError InvalidTemplate errs) else Inr doc)))"

text \<open>\<open>t[k]\<close>, \<open>t.get(k, dflt)\<close>, and \<open>tuple(x)\<close> on a decoded value.\<close>

definition item :: "string \<Rightarrow> json \<Rightarrow> exn + json" where
  "item k j = (case j of
     JObj kvs \<Rightarrow> (case map_of kvs (lit k) of None \<Rightarrow> Inl (KeyError (lit k)) | Some v \<Rightarrow> Inr v)
   | _ \<Rightarrow> Inl (TypeError BadToolArgument))"

definition item_or :: "string \<Rightarrow> json \<Rightarrow> json \<Rightarrow> exn + json" where
  "item_or k dflt j = (case j of JObj kvs \<Rightarrow> Inr (get (lit k) dflt kvs) | _ \<Rightarrow> Inl AttributeError)"

definition elements :: "json \<Rightarrow> exn + json list" where
  "elements j = (case j of
     JArr js \<Rightarrow> Inr js
   | JStr s \<Rightarrow> Inr (map (\<lambda>c. JStr [c]) s)
   | JObj kvs \<Rightarrow> Inr (map (\<lambda>(k, v). JStr k) kvs)
   | _ \<Rightarrow> Inl (TypeError BadToolArgument))"

definition tool_entry :: "json \<Rightarrow> exn + json \<times> json list" where
  "tool_entry t =
     (case item ''id'' t of
        Inl e \<Rightarrow> Inl e
      | Inr i \<Rightarrow> (case item ''actions'' t of
          Inl e \<Rightarrow> Inl e
        | Inr a \<Rightarrow> (case elements a of Inl e \<Rightarrow> Inl e | Inr as \<Rightarrow> Inr (i, as))))"

definition tool_entries :: "json \<Rightarrow> exn + (json \<times> json list) list" where
  "tool_entries doc =
     (case item ''tools'' doc of
        Inl e \<Rightarrow> Inl e
      | Inr ts \<Rightarrow> (case elements ts of Inl e \<Rightarrow> Inl e | Inr xs \<Rightarrow> collect tool_entry xs))"

section \<open>What a valid template is\<close>

text \<open>The values inside a document, at any depth.\<close>

inductive inside :: "json \<Rightarrow> json \<Rightarrow> bool" where
  inside_self: "inside j j"
| inside_member: "(k, v) \<in> set kvs \<Longrightarrow> inside v w \<Longrightarrow> inside (JObj kvs) w"
| inside_item: "v \<in> set js \<Longrightarrow> inside v w \<Longrightarrow> inside (JArr js) w"

inductive_cases inside_ObjE: "inside (JObj kvs) w"
inductive_cases inside_ArrE: "inside (JArr js) w"
inductive_simps inside_atom [simp]:
  "inside JNull w" "inside (JBool b) w" "inside (JInt i) w" "inside (JFloat r) w" "inside (JStr s) w"

definition claims_authority :: "json \<Rightarrow> bool" where
  "claims_authority j \<longleftrightarrow> (\<exists>kvs k v. inside j (JObj kvs) \<and> (k, v) \<in> set kvs \<and> lower k \<in> set authority_keys)"

lemma claims_atom [simp]:
  "\<not> claims_authority JNull" "\<not> claims_authority (JBool b)" "\<not> claims_authority (JInt i)"
  "\<not> claims_authority (JFloat r)" "\<not> claims_authority (JStr s)"
  by (simp_all add: claims_authority_def)

lemma claims_obj [simp]:
  "claims_authority (JObj kvs) \<longleftrightarrow>
     (\<exists>k v. (k, v) \<in> set kvs \<and> (lower k \<in> set authority_keys \<or> claims_authority v))"
  unfolding claims_authority_def by (blast intro: inside_self inside_member elim: inside_ObjE)

lemma claims_arr [simp]: "claims_authority (JArr js) \<longleftrightarrow> (\<exists>v \<in> set js. claims_authority v)"
  unfolding claims_authority_def by (blast intro: inside_item elim: inside_ArrE)

lemma scan_authority_iff:
  "scan_authority j path = [] \<longleftrightarrow> \<not> claims_authority j"
  "authority_members kvs path = [] \<longleftrightarrow>
     (\<forall>(k, v) \<in> set kvs. lower k \<notin> set authority_keys \<and> \<not> claims_authority v)"
  "authority_items js i path = [] \<longleftrightarrow> (\<forall>v \<in> set js. \<not> claims_authority v)"
  by (induction j path and kvs path and js i path rule: scan_authority_authority_members_authority_items.induct) auto

lemma check_Nil [simp]: "check ok code path = [] \<longleftrightarrow> ok" "[] = check ok code path \<longleftrightarrow> ok"
  by (auto simp: check_def)

text \<open>A tool of a valid template, with its id.\<close>

definition tool_ok :: "json \<Rightarrow> json \<Rightarrow> pystr \<Rightarrow> bool" where
  "tool_ok cons t s \<longleftrightarrow>
     (\<exists>kvs as r. t = JObj kvs \<and> map_of kvs (lit ''id'') = Some (JStr s) \<and> isascii s \<and> tool_id_re s \<and>
        map_of kvs (lit ''actions'') = Some (JArr (map JStr as)) \<and> as \<noteq> [] \<and> set as \<subseteq> set actions_enum \<and>
        map_of kvs (lit ''risk'') = Some (JStr r) \<and> r \<in> set risk_enum \<and>
        (last (split_on 46 s) \<in> set privileged_suffixes \<longrightarrow> r = lit ''move_money'') \<and>
        (r = lit ''move_money'' \<longrightarrow>
           some_key_starts ''max_'' (constraint_entry cons s) \<and> some_key_starts ''ciba_'' (constraint_entry cons s)))"

lemma all_JStr: "(\<forall>a \<in> set as. case a of JStr s \<Rightarrow> P s | _ \<Rightarrow> False) \<longleftrightarrow> (\<exists>ss. as = map JStr ss \<and> (\<forall>s \<in> set ss. P s))"
proof (induction as)
  case Nil
  then show ?case by simp
next
  case (Cons a as)
  show ?case
  proof (cases a)
    case (JStr s)
    have "(\<exists>ss. JStr s # as = map JStr ss \<and> (\<forall>x \<in> set ss. P x)) \<longleftrightarrow>
        P s \<and> (\<exists>ss. as = map JStr ss \<and> (\<forall>x \<in> set ss. P x))" (is "?l \<longleftrightarrow> ?r")
    proof
      assume ?r
      then obtain ss where "JStr s # as = map JStr (s # ss)" "\<forall>x \<in> set (s # ss). P x" by auto
      then show ?l by (intro exI [of _ "s # ss"] conjI)
    qed (auto simp: Cons_eq_map_conv)
    with Cons JStr show ?thesis by simp
  qed (auto simp: Cons_eq_map_conv)
qed

lemma actions_ok_True:
  "actions_ok j = Inr True \<longleftrightarrow> (\<exists>as. j = JArr (map JStr as) \<and> as \<noteq> [] \<and> set as \<subseteq> set actions_enum)"
proof (cases j)
  case (JArr js)
  then show ?thesis using all_JStr [of js "\<lambda>s. s \<in> set actions_enum"] by (auto simp: actions_ok_def)
qed (auto simp: actions_ok_def)

lemma in_names_True: "in_names names j = Inr True \<longleftrightarrow> (\<exists>s \<in> set names. j = JStr s)"
  by (cases j) (auto simp: in_names_def)

lemma tool_errors_Nil:
  "tool_errors cons ids path s actions risk = Inr [] \<longleftrightarrow>
     s \<notin> set ids \<and> (\<exists>as r. actions = JArr (map JStr as) \<and> as \<noteq> [] \<and> set as \<subseteq> set actions_enum \<and>
       risk = JStr r \<and> r \<in> set risk_enum \<and>
       (last (split_on 46 s) \<in> set privileged_suffixes \<longrightarrow> r = lit ''move_money'') \<and>
       (r = lit ''move_money'' \<longrightarrow>
          some_key_starts ''max_'' (constraint_entry cons s) \<and> some_key_starts ''ciba_'' (constraint_entry cons s)))"
proof -
  have "tool_errors cons ids path s actions risk = Inr [] \<longleftrightarrow>
      actions_ok actions = Inr True \<and> in_names risk_enum risk = Inr True \<and> s \<notin> set ids \<and>
      (last (split_on 46 s) \<in> set privileged_suffixes \<longrightarrow> risk = JStr (lit ''move_money'')) \<and>
      (risk = JStr (lit ''move_money'') \<longrightarrow>
          some_key_starts ''max_'' (constraint_entry cons s) \<and> some_key_starts ''ciba_'' (constraint_entry cons s))"
    by (auto simp: tool_errors_def Let_def split: sum.splits)
  then show ?thesis unfolding actions_ok_True in_names_True by auto
qed

lemma check_tools_Nil:
  "check_tools cons i ts ids = Inr (ids', []) \<longleftrightarrow>
     (\<exists>ss. ids' = ids @ ss \<and> list_all2 (tool_ok cons) ts ss \<and> distinct ss \<and> set ss \<inter> set ids = {})"
proof (induction ts arbitrary: i ids)
  case Nil
  then show ?case by auto
next
  case (Cons t ts)
  let ?path = "lit ''$.tools['' @ dec i @ lit '']''"
  have "check_tools cons i (t # ts) ids = Inr (ids', []) \<longleftrightarrow>
      (\<exists>kvs s actions risk. t = JObj kvs \<and> map_of kvs (lit ''id'') = Some (JStr s) \<and>
         map_of kvs (lit ''actions'') = Some actions \<and> map_of kvs (lit ''risk'') = Some risk \<and> isascii s \<and>
         tool_id_re s \<and> tool_errors cons ids ?path s actions risk = Inr [] \<and>
         check_tools cons (Suc i) ts (ids @ [s]) = Inr (ids', []))"
    by (auto simp: Let_def split: json.splits option.splits sum.splits if_splits prod.splits)
  also have "\<dots> \<longleftrightarrow> (\<exists>s ss. tool_ok cons t s \<and> s \<notin> set ids \<and> ids' = (ids @ [s]) @ ss \<and>
      list_all2 (tool_ok cons) ts ss \<and> distinct ss \<and> set ss \<inter> set (ids @ [s]) = {})"
    unfolding Cons.IH tool_errors_Nil tool_ok_def by (rule iffI) (elim exE conjE, blast)+
  also have "\<dots> \<longleftrightarrow> (\<exists>ss. ids' = ids @ ss \<and> list_all2 (tool_ok cons) (t # ts) ss \<and> distinct ss \<and>
      set ss \<inter> set ids = {})"
    by (auto simp: list_all2_Cons1)
  finally show ?case .
qed

lemma validate_Nil:
  "validate_v1 j = Inr [] \<longleftrightarrow>
     (\<exists>doc ts ss. j = JObj doc \<and> root_errors doc = Inr [] \<and> get (lit ''tools'') JNull doc = JArr ts \<and> ts \<noteq> [] \<and>
        list_all2 (tool_ok (get (lit ''constraints'') JNull doc)) ts ss \<and> distinct ss \<and>
        constraint_errors (get (lit ''constraints'') JNull doc) ss = [])"
proof (cases j)
  case (JObj doc)
  let ?cons = "get (lit ''constraints'') JNull doc"
  let ?tools = "case get (lit ''tools'') JNull doc of JArr ts \<Rightarrow> ts | _ \<Rightarrow> []"
  have "validate_v1 j = Inr [] \<longleftrightarrow> root_errors doc = Inr [] \<and> ?tools \<noteq> [] \<and>
      (\<exists>ids. check_tools ?cons 0 ?tools [] = Inr (ids, []) \<and> constraint_errors ?cons ids = [])"
    by (auto simp: validate_v1_def JObj Let_def split: sum.splits)
  also have "\<dots> \<longleftrightarrow> (\<exists>ts ss. root_errors doc = Inr [] \<and> get (lit ''tools'') JNull doc = JArr ts \<and> ts \<noteq> [] \<and>
      list_all2 (tool_ok ?cons) ts ss \<and> distinct ss \<and> constraint_errors ?cons ss = [])"
    unfolding check_tools_Nil by (auto split: json.splits)
  finally show ?thesis using JObj by auto
qed (auto simp: validate_v1_def)

lemma root_errors_Nil:
  "root_errors doc = Inr [] \<longleftrightarrow>
     \<not> claims_authority (JObj doc) \<and> get (lit ''template'') JNull doc = JStr template_header \<and>
     set required_top \<subseteq> fst ` set doc \<and> fst ` set doc \<subseteq> set top_keys \<and>
     (\<exists>s. get (lit ''name'') JNull doc = JStr s \<and> name_re s) \<and>
     (\<exists>s. get (lit ''version'') JNull doc = JStr s \<and> version_re s) \<and>
     (\<exists>fw. get (lit ''framework'') JNull doc = JObj fw \<and> in_names frameworks (get (lit ''kind'') JNull fw) = Inr True)"
proof -
  let ?fw = "case get (lit ''framework'') JNull doc of
      JObj fw \<Rightarrow> in_names frameworks (get (lit ''kind'') JNull fw) | _ \<Rightarrow> Inr False"
  have fw: "?fw = Inr True \<longleftrightarrow>
      (\<exists>fw. get (lit ''framework'') JNull doc = JObj fw \<and> in_names frameworks (get (lit ''kind'') JNull fw) = Inr True)"
    by (auto split: json.splits)
  have str: "(case x of JStr s \<Rightarrow> P s | _ \<Rightarrow> False) \<longleftrightarrow> (\<exists>s. x = JStr s \<and> P s)" for x P
    by (cases x) auto
  have unknown: "filter (\<lambda>k. lower k \<notin> set authority_keys) (sort (filter (\<lambda>k. k \<notin> set top_keys) (map fst doc))) = []
      \<longleftrightarrow> fst ` set doc \<subseteq> set top_keys" if "\<not> claims_authority (JObj doc)"
    using that by (fastforce simp: filter_empty_conv)
  have missing: "filter (\<lambda>k. k \<notin> set (map fst doc)) required_top = [] \<longleftrightarrow> set required_top \<subseteq> fst ` set doc"
    by (auto simp: filter_empty_conv)
  have "root_errors doc = Inr [] \<longleftrightarrow>
      ?fw = Inr True \<and> scan_authority (JObj doc) [36] = [] \<and> get (lit ''template'') JNull doc = JStr template_header \<and>
      filter (\<lambda>k. k \<notin> set (map fst doc)) required_top = [] \<and>
      filter (\<lambda>k. lower k \<notin> set authority_keys) (sort (filter (\<lambda>k. k \<notin> set top_keys) (map fst doc))) = [] \<and>
      (\<exists>s. get (lit ''name'') JNull doc = JStr s \<and> name_re s) \<and>
      (\<exists>s. get (lit ''version'') JNull doc = JStr s \<and> version_re s)"
    unfolding root_errors_def Let_def str [symmetric]
    by (simp del: scan_authority.simps split: sum.split) auto
  with fw unknown missing scan_authority_iff(1) show ?thesis by blast
qed

section \<open>Properties\<close>

lemma load_template_Inr:
  assumes "load_template yaml src = Inr j"
  obtains doc ts ss where "j = JObj doc" and "root_errors doc = Inr []" and "get (lit ''tools'') JNull doc = JArr ts"
    and "ts \<noteq> []" and "list_all2 (tool_ok (get (lit ''constraints'') JNull doc)) ts ss" and "distinct ss"
    and "constraint_errors (get (lit ''constraints'') JNull doc) ss = []"
proof -
  from assms have "validate_v1 j = Inr []"
    by (auto simp: load_template_def split: option.splits sum.splits if_splits)
  then show thesis using that by (auto simp: validate_Nil)
qed

text \<open>
  C20: a template that claims authority does not load. In a document that \<open>load_template\<close> returns no
  object, however deeply it is nested in objects and arrays, has a key that is an authority key
  in any spelling of upper and lower case; claims are rejected, never stripped, for the document
  is returned as it was parsed.
\<close>

theorem authority_fence:
  assumes "load_template yaml (SourceText src) = Inr doc" and "inside doc (JObj kvs)" and "(k, v) \<in> set kvs"
  shows "lower k \<notin> set authority_keys \<and> parse_template yaml src = Inr doc"
proof
  from assms(1) obtain d where "doc = JObj d" "root_errors d = Inr []" by (rule load_template_Inr)
  then have "\<not> claims_authority doc" by (simp add: root_errors_Nil)
  with assms(2,3) show "lower k \<notin> set authority_keys" unfolding claims_authority_def by blast
  from assms(1) show "parse_template yaml src = Inr doc"
    by (auto simp: load_template_def split: sum.splits if_splits)
qed

lemma item_Inr: "map_of kvs (lit k) = Some v \<Longrightarrow> item k (JObj kvs) = Inr v"
  by (simp add: item_def)

lemma tool_entry_ok:
  assumes "tool_ok cons t s"
  shows "\<exists>as. tool_entry t = Inr (JStr s, map JStr as) \<and> as \<noteq> [] \<and> set as \<subseteq> set actions_enum \<and> tool_id_re s \<and> isascii s"
  using assms by (auto simp: tool_ok_def tool_entry_def elements_def item_Inr)

text \<open>An entry of a template as the generators see it: the id and the names of the actions.\<close>

definition json_entry :: "pystr \<times> pystr list \<Rightarrow> json \<times> json list" where
  "json_entry e = (case e of (i, names) \<Rightarrow> (JStr i, map JStr names))"

definition entry_ok :: "pystr \<times> pystr list \<Rightarrow> bool" where
  "entry_ok e \<longleftrightarrow> (case e of (i, names) \<Rightarrow>
     tool_id_re i \<and> isascii i \<and> names \<noteq> [] \<and> set names \<subseteq> set actions_enum)"

lemma collect_entries:
  "list_all2 (tool_ok cons) ts ss \<Longrightarrow>
     \<exists>es. collect tool_entry ts = Inr (map json_entry es) \<and> map fst es = ss \<and> (\<forall>e \<in> set es. entry_ok e)"
proof (induction rule: list_all2_induct)
  case Nil
  then show ?case by simp
next
  case (Cons t ts s ss)
  then obtain es where es: "collect tool_entry ts = Inr (map json_entry es)" "map fst es = ss" "\<forall>e \<in> set es. entry_ok e"
    by blast
  from tool_entry_ok [OF Cons.hyps(1)] obtain names where t: "tool_entry t = Inr (JStr s, map JStr names)"
    and ok: "entry_ok (s, names)" by (auto simp: entry_ok_def)
  from t es(1) have "collect tool_entry (t # ts) = Inr (map json_entry ((s, names) # es))"
    by (simp add: json_entry_def)
  with es(2,3) ok show ?case by (intro exI [of _ "(s, names) # es"]) simp
qed

lemma loaded_entries:
  assumes "load_template yaml src = Inr doc"
  shows "\<exists>es. tool_entries doc = Inr (map json_entry es) \<and> es \<noteq> [] \<and> distinct (map fst es) \<and> (\<forall>e \<in> set es. entry_ok e)"
  using assms
proof (rule load_template_Inr)
  fix d ts ss
  assume d: "doc = JObj d" "get (lit ''tools'') JNull d = JArr ts" "ts \<noteq> []" and ss: "distinct ss"
    and ok: "list_all2 (tool_ok (get (lit ''constraints'') JNull d)) ts ss"
  from d have "item ''tools'' doc = Inr (JArr ts)" by (auto simp: item_def get_def split: option.splits)
  with collect_entries [OF ok] obtain es where "tool_entries doc = Inr (map json_entry es)"
    "map fst es = ss" "\<forall>e \<in> set es. entry_ok e" by (auto simp: tool_entries_def elements_def)
  moreover from ok d(3) have "ss \<noteq> []" by auto
  ultimately show ?thesis using ss by (intro exI [of _ es]) auto
qed

lemma loaded_fields:
  assumes "load_template yaml src = Inr doc"
  shows "\<exists>d name version fw kind. doc = JObj d \<and> item ''name'' doc = Inr (JStr name) \<and> name_re name \<and>
           item ''version'' doc = Inr (JStr version) \<and> version_re version \<and>
           get (lit ''framework'') JNull d = JObj fw \<and> map_of fw (lit ''kind'') = Some (JStr kind) \<and> kind \<in> set frameworks"
  using assms
proof (rule load_template_Inr)
  fix d
  have item: "item k (JObj d) = Inr (JStr s)" if "get (lit k) JNull d = JStr s" for k s
    using that by (auto simp: item_def get_def split: option.splits)
  have kind: "\<exists>kind \<in> set frameworks. map_of fw (lit ''kind'') = Some (JStr kind)"
    if "in_names frameworks (get (lit ''kind'') JNull fw) = Inr True" for fw
    using that unfolding in_names_True by (auto simp: get_def split: option.splits)
  assume "doc = JObj d" and "root_errors d = Inr []"
  then obtain name version fw where "get (lit ''name'') JNull d = JStr name" "name_re name"
    "get (lit ''version'') JNull d = JStr version" "version_re version" "get (lit ''framework'') JNull d = JObj fw"
    "in_names frameworks (get (lit ''kind'') JNull fw) = Inr True" by (auto simp: root_errors_Nil)
  moreover from kind [OF this(6)] obtain k where "k \<in> set frameworks" "map_of fw (lit ''kind'') = Some (JStr k)" by blast
  ultimately show ?thesis using item \<open>doc = JObj d\<close>
    by (intro exI [of _ d] exI [of _ name] exI [of _ version] exI [of _ fw] exI [of _ k]) simp
qed

text \<open>
  C21: what loads can be generated from. On a loaded template \<open>tool_entries\<close> never raises: it gives
  at least one tool, every id is a dotted ASCII identifier of its own, and every list of actions
  is a non-empty list of \<open>read\<close>, \<open>write\<close> and \<open>execute\<close>.
\<close>

theorem template_tools_typed:
  assumes "load_template yaml src = Inr doc"
  shows "\<exists>es. tool_entries doc = Inr (map (\<lambda>(i, names). (JStr i, map JStr names)) es) \<and> es \<noteq> [] \<and>
           distinct (map fst es) \<and>
           (\<forall>(i, names) \<in> set es. tool_id_re i \<and> isascii i \<and> names \<noteq> [] \<and> set names \<subseteq> set actions_enum)"
  using loaded_entries [OF assms] by (simp add: entry_ok_def json_entry_def [abs_def])

text \<open>
  No privileged tool without a ceiling and a confirmation. In a loaded template a tool whose last
  segment is a privileged verb declares the risk \<open>move_money\<close>, and every tool with that risk has
  an entry in \<open>constraints\<close> with a \<open>max_\<close> key and a \<open>ciba_\<close> key.
\<close>

theorem privileged_tools_bounded:
  assumes "load_template yaml src = Inr (JObj doc)" and "get (lit ''tools'') JNull doc = JArr ts"
    and "JObj tm \<in> set ts"
  shows "\<exists>s r. map_of tm (lit ''id'') = Some (JStr s) \<and> map_of tm (lit ''risk'') = Some (JStr r) \<and>
           (last (split_on 46 s) \<in> set privileged_suffixes \<longrightarrow> r = lit ''move_money'') \<and>
           (r = lit ''move_money'' \<longrightarrow> (\<exists>cs e. get (lit ''constraints'') JNull doc = JObj cs \<and> map_of cs s = Some (JObj e) \<and>
              (\<exists>k \<in> fst ` set e. starts (lit ''max_'') k) \<and> (\<exists>k \<in> fst ` set e. starts (lit ''ciba_'') k)))"
proof -
  from assms(1,2) obtain ss where "list_all2 (tool_ok (get (lit ''constraints'') JNull doc)) ts ss"
    by (auto elim!: load_template_Inr)
  with assms(3) obtain s where "tool_ok (get (lit ''constraints'') JNull doc) (JObj tm) s"
    by (metis in_set_conv_nth list_all2_conv_all_nth)
  then obtain r where "map_of tm (lit ''id'') = Some (JStr s)" "map_of tm (lit ''risk'') = Some (JStr r)"
    "last (split_on 46 s) \<in> set privileged_suffixes \<longrightarrow> r = lit ''move_money''"
    and m: "r = lit ''move_money'' \<longrightarrow> some_key_starts ''max_'' (constraint_entry (get (lit ''constraints'') JNull doc) s) \<and>
      some_key_starts ''ciba_'' (constraint_entry (get (lit ''constraints'') JNull doc) s)"
    by (auto simp: tool_ok_def)
  moreover have "\<exists>cs e. get (lit ''constraints'') JNull doc = JObj cs \<and> map_of cs s = Some (JObj e) \<and>
      (\<exists>k \<in> fst ` set e. starts (lit ''max_'') k) \<and> (\<exists>k \<in> fst ` set e. starts (lit ''ciba_'') k)"
    if "r = lit ''move_money''"
    using m that by (auto simp: some_key_starts_def constraint_entry_def get_def split: json.splits option.splits)
  ultimately show ?thesis by blast
qed

text \<open>A template with one tool that moves money.\<close>

definition demo_refund :: "(pystr \<times> json) list" where
  "demo_refund = [(lit ''id'', JStr (lit ''s.refund'')), (lit ''actions'', JArr [JStr (lit ''write'')]),
     (lit ''risk'', JStr (lit ''move_money''))]"

definition demo_bounds :: "(pystr \<times> json) list" where
  "demo_bounds = [(lit ''max_amount'', JInt 5), (lit ''ciba_over'', JInt 1)]"

definition demo_template :: "(pystr \<times> json) list" where
  "demo_template =
     [(lit ''template'', JStr template_header), (lit ''name'', JStr (lit ''a'')), (lit ''version'', JStr (lit ''1.0.0'')),
      (lit ''framework'', JObj [(lit ''kind'', JStr (lit ''crewai''))]), (lit ''tools'', JArr [JObj demo_refund]),
      (lit ''constraints'', JObj [(lit ''s.refund'', JObj demo_bounds)])]"

definition harmless :: "string \<Rightarrow> bool" where
  "harmless k \<longleftrightarrow> lower (lit k) \<notin> set authority_keys"

lemma harmless_keys:
  "\<forall>k \<in> {''template'', ''name'', ''version'', ''framework'', ''kind'', ''tools'', ''constraints'', ''id'', ''actions'',
     ''risk'', ''s.refund'', ''max_amount'', ''ciba_over''}. harmless k"
  by (simp add: harmless_def authority_keys_def lit_def lower_def lower_char_def is_upper_def)

lemma demo_root: "root_errors demo_template = Inr []"
proof -
  have "\<not> claims_authority (JObj demo_template)"
    using harmless_keys by (auto simp: demo_template_def demo_refund_def demo_bounds_def harmless_def)
  moreover have "name_re (lit ''a'')" by (simp add: name_re_def lit_def ascii_classes)
  moreover have "is_decimal 48" "is_decimal 49" by (simp_all add: is_decimal_def digit_runs_def)
  then have "version_re (lit ''1.0.0'')" by (simp add: version_re_def lit_def)
  moreover have "in_names frameworks (JStr (lit ''crewai'')) = Inr True" by (simp add: in_names_def frameworks_def)
  ultimately show ?thesis
    unfolding root_errors_Nil by (simp add: demo_template_def get_def required_top_def top_keys_def)
qed

lemma demo_tool_ok: "tool_ok (JObj [(lit ''s.refund'', JObj demo_bounds)]) (JObj demo_refund) (lit ''s.refund'')"
proof -
  have "tool_id_re (lit ''s.refund'')" by (simp add: tool_id_re_def lit_def id_char_def ascii_classes)
  moreover have "some_key_starts ''max_'' (JObj demo_bounds)" "some_key_starts ''ciba_'' (JObj demo_bounds)"
    by (simp_all add: some_key_starts_def demo_bounds_def lit_def starts_def)
  moreover have "isascii (lit ''s.refund'')" by simp
  ultimately show ?thesis
    by (simp add: tool_ok_def demo_refund_def constraint_entry_def get_def actions_enum_def risk_enum_def)
      (intro exI [of _ "[lit ''write'']"], simp)
qed

lemma demo_template_loads:
  "load_template None (SourceText (dumps compact (JObj demo_template))) = Inr (JObj demo_template)"
proof -
  have "wf_json (JObj demo_template)"
    by (simp add: demo_template_def demo_refund_def demo_bounds_def wf_str_def lit_def is_high_def template_header_def)
  then have "loads (dumps compact (JObj demo_template)) = Some (JObj demo_template)" by (intro loads_dumps) simp_all
  moreover have "starts [123] (lstrip (dumps compact (JObj demo_template)))"
    by (simp add: lstrip_def is_space_def starts_def)
  moreover have "validate_v1 (JObj demo_template) = Inr []"
    using demo_root demo_tool_ok unfolding validate_Nil
    by (intro exI [of _ demo_template] exI [of _ "[JObj demo_refund]"] exI [of _ "[lit ''s.refund'']"])
      (simp add: demo_template_def get_def constraint_errors_def)
  ultimately show ?thesis by (simp add: load_template_def parse_template_def del: dumps.simps)
qed

theorem authority_fence_witness:
  "lower (lit ''max_amount'') \<notin> set authority_keys"
proof -
  have "inside (JObj demo_template) (JObj demo_bounds)"
    by (rule inside_member [of "lit ''constraints''" "JObj [(lit ''s.refund'', JObj demo_bounds)]"])
      (auto simp: demo_template_def intro: inside_member inside_self)
  moreover have "(lit ''max_amount'', JInt 5) \<in> set demo_bounds" by (simp add: demo_bounds_def)
  ultimately show ?thesis using authority_fence [OF demo_template_loads] by blast
qed

theorem template_tools_typed_witness:
  "\<exists>xs. tool_entries (JObj demo_template) = Inr xs \<and> xs \<noteq> []"
  using template_tools_typed [OF demo_template_loads] by auto

theorem privileged_tools_bounded_witness:
  "\<exists>s. map_of demo_refund (lit ''id'') = Some (JStr s) \<and> map_of demo_refund (lit ''risk'') = Some (JStr (lit ''move_money''))"
proof -
  have "get (lit ''tools'') JNull demo_template = JArr [JObj demo_refund]" by (simp add: demo_template_def get_def)
  from privileged_tools_bounded [OF demo_template_loads this, of demo_refund] show ?thesis
    by (auto simp: demo_refund_def)
qed

end
