(* ===== verification/Wrap.thy ===== *)
theory Wrap
  imports Template
begin

text \<open>
  \<open>wrap.py\<close>: the two code generators, line by line. The generated text is a list of lines joined
  with line feeds, as in the source; the constant lines are the source's own. \<open>fmt\<close> stands for
  \<open>str\<close> on a decoded value that is not a string (a loaded template never has one where it is used),
  and the timestamp of \<open>stamp_time\<close> is an argument.
\<close>

section \<open>Class names\<close>

text \<open>\<open>p[:1].upper() + p[1:]\<close>. Ids are ASCII, so \<open>upper\<close> and \<open>isalpha\<close> are those of ASCII.\<close>

definition capital :: "pystr \<Rightarrow> pystr" where
  "capital p = upper (take 1 p) @ drop 1 p"

text \<open>\<open>[p for p in re.split(r"[._]+", tool_id) if p]\<close>: the runs between separators.\<close>

definition is_part_char :: "nat \<Rightarrow> bool" where
  "is_part_char c \<longleftrightarrow> c \<noteq> 46 \<and> c \<noteq> 95"

definition class_name_for :: "pystr \<Rightarrow> pystr" where
  "class_name_for tool_id =
     (let parts = find_runs is_part_char tool_id;
          name = concat (map capital parts) @ lit ''Tool'';
          name1 = (if is_upper (hd name) \<or> is_lower (hd name) then name else lit ''Tool'' @ name)
      in if name1 \<in> set py_keywords then name1 @ [95] else name1)"

definition as_str :: "json \<Rightarrow> exn + pystr" where
  "as_str j = (case j of JStr s \<Rightarrow> Inr s | _ \<Rightarrow> Inl (TypeError BadToolArgument))"

fun check_collisions :: "(pystr \<times> pystr) list \<Rightarrow> (json \<times> json list) list \<Rightarrow> exn + unit" where
  "check_collisions seen [] = Inr ()"
| "check_collisions seen ((i, as) # es) =
     chain (as_str i) (\<lambda>tid.
       let cls = class_name_for tid in
       case map_of seen cls of
         Some other \<Rightarrow>
           if other \<noteq> tid then Inl (GenerationError (ClassCollision other tid cls))
           else check_collisions (upd cls tid seen) es
       | None \<Rightarrow> check_collisions (upd cls tid seen) es)"

definition assert_ascii :: "pystr \<Rightarrow> exn + pystr" where
  "assert_ascii source =
     (let non_ascii = sort (remdups (filter (\<lambda>c. c > 127) source))
      in if non_ascii \<noteq> [] then Inl (GenerationError (NonAsciiSource non_ascii)) else Inr source)"

section \<open>The generated module\<close>

definition banner :: string where
  "banner = ''# @generated by `hawcx wrap` -- DO NOT EDIT. Regenerate from the template.''"

definition module_preamble :: "string list" where
  "module_preamble = [
     '''',
     ''Every call goes through `HawcxAgent.invoke`, so the agent process never'',
     ''holds a reusable credential: the Assembler mints a per-call token and'',
     ''performs the provider-credential fetch out of process.'',
     '''',
     ''`endpoint` is a constructor argument, NOT template data -- endpoints come'',
     ''from the org tool registry / EIB at runtime (Pattern Z). Nothing below'',
     ''`tools:` in the template reached this file; `constraints` and'',
     ''`suggested_levels` are suggestions and are applied by policy, not code.'',
     ''\"\"\"'',
     '''',
     ''from __future__ import annotations'',
     '''',
     ''from typing import Any'',
     '''',
     ''from hawcx_haap import HawcxAgent'',
     '''',
     '''',
     ''class _HawcxGeneratedTool:'',
     ''    \"\"\"Base for every generated tool. One HAAP tool identity per class.\"\"\"'',
     '''',
     ''    TOOL_ID: str = \"\"'',
     ''    ACTIONS: tuple[str, ...] = ()'',
     '''',
     ''    def __init__(self, agent: HawcxAgent, endpoint: str, *,'',
     ''                 method: str = \"POST\", provider: str | None = None,'',
     ''                 acting_for_user: str | None = None) -> None:'',
     ''        if not self.TOOL_ID:'',
     ''            raise ValueError('',
     ''                \"_HawcxGeneratedTool is abstract; use a generated subclass\"'',
     ''            )'',
     ''        if not endpoint:'',
     ''            # Fail closed. An empty endpoint would reach the Assembler as an'',
     ''            # empty target and surface as an opaque mint/forward error far'',
     ''            # from the missing registry entry that actually caused it.'',
     ''            raise ValueError('',
     ''                f\"{type(self).__name__}: endpoint is required -- resolve it from the \"'',
     ''                f\"org tool registry for tool id {self.TOOL_ID!r}\"'',
     ''            )'',
     ''        self._agent = agent'',
     ''        self._endpoint = endpoint'',
     ''        self._method = method'',
     ''        self._provider = provider'',
     ''        self._acting_for_user = acting_for_user'',
     '''',
     ''    @property'',
     ''    def tool_id(self) -> str:'',
     ''        return self.TOOL_ID'',
     '''',
     ''    def __call__(self, **arguments: Any):'',
     ''        \"\"\"Invoke the tool. Keyword arguments become the tool arguments.\"\"\"'',
     ''        return self._agent.invoke('',
     ''            target_rs_url=self._endpoint,'',
     ''            http_method=self._method,'',
     ''            tool=self.TOOL_ID,'',
     ''            action=self.ACTIONS,'',
     ''            provider=self._provider,'',
     ''            acting_for_user=self._acting_for_user,'',
     ''            tool_arguments=arguments or None,'',
     ''        )'',
     '''']"

definition module_registry :: "string list" where
  "module_registry = [
     '''',
     ''#: Tool id -> generated class. Keyed by the HAAP tool identity, not by'',
     ''#: class name, because the tool id is what policy and the Assembler bind to.'',
     ''TOOLS: dict[str, type[_HawcxGeneratedTool]] = {'']"

definition module_tail :: "string list" where
  "module_tail = [
     ''}'',
     '''',
     '''',
     ''def build_tools(agent: HawcxAgent, endpoints: dict[str, str], **kwargs: Any):'',
     ''    \"\"\"Construct every tool from an id -> endpoint map.'',
     '''',
     ''    Raises on an endpoint map that does not cover the template, rather than'',
     ''    silently building a partial tool set: a missing tool shows up later as'',
     ''    the agent simply never attempting that call, which looks like a model'',
     ''    decision rather than a configuration gap.'',
     ''    \"\"\"'',
     ''    missing = sorted(set(TOOLS) - set(endpoints))'',
     ''    if missing:'',
     ''        raise ValueError(f\"no endpoint supplied for: {missing}\")'',
     ''    extra = sorted(set(endpoints) - set(TOOLS))'',
     ''    if extra:'',
     ''        # Fail closed too: an endpoint for a tool the template does not'',
     ''        # declare means the map and the template disagree about scope.'',
     ''        raise ValueError(f\"endpoint supplied for undeclared tool(s): {extra}\")'',
     ''    return {tid: cls(agent, endpoints[tid], **kwargs) for tid, cls in TOOLS.items()}'',
     '''']"

text \<open>\<open>str(j)\<close> in an f-string, \<open>repr(j)\<close>, and the tuple of a tool's actions.\<close>

definition formatted :: "(json \<Rightarrow> pystr) \<Rightarrow> json \<Rightarrow> pystr" where
  "formatted fmt j = (case j of JStr s \<Rightarrow> s | _ \<Rightarrow> fmt j)"

definition repr_of :: "(json \<Rightarrow> pystr) \<Rightarrow> json \<Rightarrow> pystr" where
  "repr_of fmt j = (case j of JStr s \<Rightarrow> py_repr s | _ \<Rightarrow> fmt j)"

definition acts_tuple :: "(json \<Rightarrow> pystr) \<Rightarrow> json list \<Rightarrow> pystr" where
  "acts_tuple fmt actions =
     lit ''('' @ join_with (lit '', '') (map (repr_of fmt) actions) @ (if length actions = 1 then lit '','' else []) @ lit '')''"

definition class_lines :: "(json \<Rightarrow> pystr) \<Rightarrow> json \<times> json list \<Rightarrow> exn + pystr list" where
  "class_lines fmt e = (case e of (i, actions) \<Rightarrow>
     chain (as_str i) (\<lambda>tid. chain (collect as_str actions) (\<lambda>names. Inr
       [[],
        lit ''class '' @ class_name_for tid @ lit ''(_HawcxGeneratedTool):'',
        lit ''    \"\"\"`'' @ tid @ lit ''` -- actions: '' @ join_with (lit '', '') names @ lit ''.\"\"\"'',
        [],
        lit ''    TOOL_ID = \"'' @ tid @ lit ''\"'',
        lit ''    ACTIONS = '' @ acts_tuple fmt actions,
        []])))"

definition registry_line :: "json \<times> json list \<Rightarrow> exn + pystr" where
  "registry_line e = chain (as_str (fst e)) (\<lambda>tid.
     Inr (lit ''    \"'' @ tid @ lit ''\": '' @ class_name_for tid @ lit '',''))"

definition framework_kind :: "json \<Rightarrow> exn + json" where
  "framework_kind doc = (case doc of
     JObj d \<Rightarrow>
       (let f = get (lit ''framework'') JNull d in
        if \<not> truthy f then Inr (JStr (lit ''unknown''))
        else case f of JObj fw \<Rightarrow> Inr (get (lit ''kind'') (JStr (lit ''unknown'')) fw) | _ \<Rightarrow> Inl AttributeError)
   | _ \<Rightarrow> Inl (TypeError BadToolArgument))"

definition module_head :: "(json \<Rightarrow> pystr) \<Rightarrow> pystr \<Rightarrow> json \<Rightarrow> json \<Rightarrow> pystr \<Rightarrow> nat \<Rightarrow> pystr option \<Rightarrow> pystr list" where
  "module_head fmt name version framework path n now =
     [lit banner,
      lit ''# template : '' @ name @ [32] @ formatted fmt version @ lit ''  ('' @ path @ lit '')'',
      lit ''# framework: '' @ formatted fmt framework,
      lit ''# tools    : '' @ dec n @ (case now of None \<Rightarrow> [] | Some t \<Rightarrow> [10] @ lit ''# Generated at '' @ t),
      lit ''\"\"\"HAAP-wrapped tools for `'' @ name @ lit ''`.'']"

definition generate_module :: "(json \<Rightarrow> pystr) \<Rightarrow> json \<Rightarrow> pystr \<Rightarrow> pystr option \<Rightarrow> exn + pystr" where
  "generate_module fmt doc path now =
     chain (tool_entries doc) (\<lambda>entries.
     chain (check_collisions [] entries) (\<lambda>_.
     chain (item ''name'' doc) (\<lambda>name.
     chain (item ''version'' doc) (\<lambda>version.
     chain (framework_kind doc) (\<lambda>framework.
     chain (as_str name) (\<lambda>name.
     chain (collect (class_lines fmt) entries) (\<lambda>classes.
     chain (collect registry_line entries) (\<lambda>registry.
     assert_ascii (join_with [10]
       (module_head fmt name version framework path (length entries) now @ map lit module_preamble @
        concat classes @ map lit module_registry @ registry @ map lit module_tail))))))))))"

section \<open>The configuration skeleton\<close>

definition config_banner :: "string list" where
  "config_banner = [
     ''# Scaffolded by `hawcx init`. THIS FILE IS YOURS -- edit it and keep it.'',
     ''# Nothing regenerates over your edits: `hawcx init` refuses to overwrite an'',
     ''# existing config.py, so re-running it after adding tools to the template'',
     ''# rewrites the generated tool module and leaves this file alone.'']"

definition config_preamble :: "string list" where
  "config_preamble = [
     '''',
     ''Fill in every FILL_ME below. Until you do, importing this module raises a'',
     ''ValueError naming every value still unfilled -- an unfilled deployment'',
     ''fails here rather than sending a placeholder somewhere as a URL or a'',
     ''principal.'',
     '''',
     ''Use it like::'',
     '''',
     ''    from hawcx_haap import Caller, close_agent, get_agent'',
     '''',
     ''    import config'',
     '''',
     ''    def run(principal: str) -> None:'',
     ''        caller = Caller(agent=get_agent(config.PRINCIPAL_ALLOWLIST),'',
     ''                        provider=config.PROVIDER)'',
     ''        try:'',
     ''            for tool in config.TOOLS.values():'',
     ''                print(caller.call(tool, principal).summary())'',
     ''        finally:'',
     ''            close_agent()'',
     '''',
     ''`principal` comes from the request being served; PRINCIPAL_ALLOWLIST is what'',
     ''decides whether it is permitted. Those are two different things and the'',
     ''second one is not derived from the first.'',
     '''',
     ''Pure-Python and stdlib-only apart from `hawcx_haap` itself, so an agent'',
     ''carrying this file still bundles with `hawcx bundle` (a zipapp cannot'',
     ''carry native extensions).'',
     ''\"\"\"'',
     '''',
     ''from __future__ import annotations'',
     '''',
     ''from hawcx_haap import FILL_ME, McpTool, require_filled'',
     '''',
     ''#: OAuth provider id naming the bridging bearer the Assembler attaches for'',
     ''#: this destination, e.g. \"microsoft\". Write None if this agent needs no'',
     ''#: bridging bearer -- write it explicitly, because \"no provider\" and \"nobody'',
     ''#: has looked at this yet\" must not be the same value.'',
     ''PROVIDER: str | None = FILL_ME'',
     '''',
     ''#: The principals this agent may act for. REQUIRED, and deliberately'',
     ''#: without a default: it is the fail-closed gate on `acting_for_user`, so a'',
     ''#: default here would be a default answer to \"who may this agent'',
     ''#: impersonate\". Source it from operator config -- NEVER from model output,'',
     ''#: a request body, or anything an LLM can influence.'',
     ''#:'',
     ''#: `[]` is a real answer and means \"forbid runtime principal switching'',
     ''#: entirely\". It is not the same as leaving this unfilled.'',
     ''PRINCIPAL_ALLOWLIST: list[str] = FILL_ME'',
     '''',
     ''#: HAAP tool id -> the MCP tool it names. `tool_id` and `actions` come from'',
     ''#: the template and are already filled; `url`, `name` and `resource` are'',
     ''#: yours, because only your tenant knows them.'',
     ''#:'',
     ''#: `name` is the downstream MCP tool name from the server's own'',
     ''#: `tools/list` -- not the HAAP tool id, and not a guess at it. Enumerate'',
     ''#: the tenant's MCP inventory and paste the real names in.'',
     ''TOOLS: dict[str, McpTool] = {'']"

definition config_tail :: "string list" where
  "config_tail = [
     ''}'',
     '''',
     ''# Fails the import while any FILL_ME survives, naming every one of them in'',
     ''# one message. Keep this call: it is the difference between a placeholder'',
     ''# that stops a deployment and a placeholder that ships in one.'',
     ''require_filled('',
     ''    PROVIDER=PROVIDER,'',
     ''    PRINCIPAL_ALLOWLIST=PRINCIPAL_ALLOWLIST,'',
     ''    TOOLS=TOOLS,'',
     '')'',
     '''']"

definition config_lines :: "(json \<Rightarrow> pystr) \<Rightarrow> json \<times> json list \<Rightarrow> exn + pystr list" where
  "config_lines fmt e = (case e of (i, actions) \<Rightarrow>
     chain (as_str i) (\<lambda>tid. Inr
       [lit ''    \"'' @ tid @ lit ''\": McpTool('',
        lit ''        tool_id=\"'' @ tid @ lit ''\",'',
        lit ''        url=FILL_ME,        # target RS URL of the MCP server'',
        lit ''        name=FILL_ME,       # downstream MCP tool name from tools/list'',
        lit ''        actions='' @ acts_tuple fmt actions @ lit '','',
        lit ''        resource=FILL_ME,   # resource scope, or \"*\" for the whole server'',
        lit ''    ),'']))"

definition generate_config :: "(json \<Rightarrow> pystr) \<Rightarrow> json \<Rightarrow> pystr \<Rightarrow> exn + pystr" where
  "generate_config fmt doc path =
     chain (tool_entries doc) (\<lambda>entries.
     chain (check_collisions [] entries) (\<lambda>_.
     chain (item ''name'' doc) (\<lambda>name.
     chain (item ''version'' doc) (\<lambda>version.
     chain (as_str name) (\<lambda>name.
     chain (collect (config_lines fmt) entries) (\<lambda>tools.
     assert_ascii (join_with [10]
       (map lit config_banner @
        [lit ''# template: '' @ name @ [32] @ formatted fmt version @ lit ''  ('' @ path @ lit '')'',
         lit ''\"\"\"Deployment config for `'' @ name @ lit ''`.''] @
        map lit config_preamble @ concat tools @ map lit config_tail))))))))"

section \<open>Facts about the constant lines\<close>

lemma lit_Cons: "lit (c # s) = of_char c # lit s"
  by (simp add: lit_def)

declare starts_eval [simp]

lemma nl_in_lit: "10 \<in> set (lit s) \<longleftrightarrow> CHR 0x0A \<in> set s"
proof -
  have "(10 :: nat) = of_char (CHR 0x0A)" by simp
  then have "10 \<in> set (lit s) \<longleftrightarrow> of_char (CHR 0x0A) \<in> (of_char ` set s :: nat set)" by (simp add: lit_def)
  also have "\<dots> \<longleftrightarrow> CHR 0x0A \<in> set s" by (auto simp del: of_char_Char)
  finally show ?thesis .
qed

text \<open>A line of ASCII characters without a line feed.\<close>

definition one_line :: "pystr \<Rightarrow> bool" where
  "one_line s \<longleftrightarrow> 10 \<notin> set s \<and> isascii s"

fun ascii_char :: "char \<Rightarrow> bool" where
  "ascii_char (Char b0 b1 b2 b3 b4 b5 b6 b7) \<longleftrightarrow>
     \<not> b7 \<and> (b0 \<or> \<not> b1 \<or> b2 \<or> \<not> b3 \<or> b4 \<or> b5 \<or> b6)"

lemma one_line_lit: "list_all ascii_char s \<Longrightarrow> one_line (lit s)"
proof -
  assume a: "list_all ascii_char s"
  have "(of_char c :: nat) < 128" if "c \<in> set s" for c
    using a that by (cases c) (auto simp: list_all_iff)
  moreover have "CHR 0x0A \<notin> set s" using a by (auto simp: list_all_iff)
  ultimately show ?thesis by (auto simp: one_line_def nl_in_lit isascii_def) (auto simp: lit_def)
qed

lemma constant_lines:
  "list_all (list_all ascii_char) module_preamble" "list_all (list_all ascii_char) module_registry"
  "list_all (list_all ascii_char) module_tail" "list_all (list_all ascii_char) config_banner"
  "list_all (list_all ascii_char) config_preamble" "list_all (list_all ascii_char) config_tail"
  by code_simp+

section \<open>Reading a generated module\<close>

text \<open>What a reader of the module finds in its lines: the class declarations (the base class apart), the
  tool id and the actions assigned in each, and the registry between its first and last line.\<close>

definition is_class_line :: "pystr \<Rightarrow> bool" where
  "is_class_line l \<longleftrightarrow> starts (lit ''class '') l \<and> l \<noteq> lit ''class _HawcxGeneratedTool:''"

definition is_id_line :: "pystr \<Rightarrow> bool" where
  "is_id_line l \<longleftrightarrow> starts (lit ''    TOOL_ID = '') l"

definition is_actions_line :: "pystr \<Rightarrow> bool" where
  "is_actions_line l \<longleftrightarrow> starts (lit ''    ACTIONS = '') l"

definition registry_open :: pystr where
  "registry_open = lit ''TOOLS: dict[str, type[_HawcxGeneratedTool]] = {''"

definition module_classes :: "pystr \<Rightarrow> pystr list" where
  "module_classes src = map (\<lambda>l. takeWhile (\<lambda>c. c \<noteq> 40) (drop 6 l)) (filter is_class_line (split_on 10 src))"

definition module_ids :: "pystr \<Rightarrow> pystr list" where
  "module_ids src = map (\<lambda>l. takeWhile (\<lambda>c. c \<noteq> 34) (drop 15 l)) (filter is_id_line (split_on 10 src))"

definition module_actions :: "pystr \<Rightarrow> pystr list list" where
  "module_actions src = map (\<lambda>l. find_runs is_lower (drop 14 l)) (filter is_actions_line (split_on 10 src))"

definition read_entry :: "pystr \<Rightarrow> pystr \<times> pystr" where
  "read_entry l = (takeWhile (\<lambda>c. c \<noteq> 34) (drop 5 l),
     takeWhile (\<lambda>c. c \<noteq> 44) (drop 3 (dropWhile (\<lambda>c. c \<noteq> 34) (drop 5 l))))"

definition module_tools :: "pystr \<Rightarrow> (pystr \<times> pystr) list" where
  "module_tools src =
     map read_entry (takeWhile (\<lambda>l. l \<noteq> [125]) (drop 1 (dropWhile (\<lambda>l. l \<noteq> registry_open) (split_on 10 src))))"

lemma constant_reads:
  "filter is_class_line (map lit module_preamble) = []" "filter is_class_line (map lit module_registry) = []"
  "filter is_class_line (map lit module_tail) = []"
  "filter is_id_line (map lit module_preamble) = []" "filter is_id_line (map lit module_registry) = []"
  "filter is_id_line (map lit module_tail) = []"
  "filter is_actions_line (map lit module_preamble) = []" "filter is_actions_line (map lit module_registry) = []"
  "filter is_actions_line (map lit module_tail) = []"
  by (simp_all add: module_preamble_def module_registry_def module_tail_def is_class_line_def is_id_line_def
      is_actions_line_def)

lemma registry_frame:
  "registry_open \<notin> set (map lit module_preamble)"
  "\<exists>ls. map lit module_registry = ls @ [registry_open] \<and> registry_open \<notin> set ls"
  "\<exists>ls. map lit module_tail = [125] # ls"
proof -
  show "registry_open \<notin> set (map lit module_preamble)"
    by (simp add: module_preamble_def registry_open_def)
  show "\<exists>ls. map lit module_registry = ls @ [registry_open] \<and> registry_open \<notin> set ls"
    by (rule exI [of _ "map lit (butlast module_registry)"])
      (simp add: module_registry_def registry_open_def)
  show "\<exists>ls. map lit module_tail = [125] # ls"
    by (simp add: module_tail_def) (simp add: lit_def)
qed

section \<open>Ids, names and actions\<close>

lemma tool_id_chars: "tool_id_re i \<Longrightarrow> c \<in> set i \<Longrightarrow> id_char c \<or> c = 46"
  using split_on_cover [of c i 46] by (auto simp: tool_id_re_def Let_def)

lemma tool_id_ne: "tool_id_re i \<Longrightarrow> i \<noteq> []"
  by (auto simp: tool_id_re_def)

lemma capital_chars:
  assumes "p \<noteq> []" and "\<forall>c \<in> set p. is_lower c \<or> is_digit c"
  shows "\<forall>c \<in> set (capital p). is_alnum c" and "is_upper (hd (capital p)) \<or> is_digit (hd (capital p))"
    and "capital p \<noteq> []"
  using assms by (cases p; auto simp: capital_def upper_def upper_char_def is_alnum_def ascii_classes)+

text \<open>A class name: letters and digits, starting with a letter, and no keyword.\<close>

lemma class_name_chars:
  assumes "tool_id_re i"
  shows "\<forall>c \<in> set (class_name_for i). is_alnum c" and "is_upper (hd (class_name_for i))"
    and "ends (lit ''Tool'') (class_name_for i)" and "class_name_for i \<notin> set py_keywords"
proof -
  let ?parts = "find_runs is_part_char i"
  have part: "p \<noteq> [] \<and> (\<forall>c \<in> set p. is_lower c \<or> is_digit c)" if "p \<in> set ?parts" for p
    using find_runs_parts [OF that] tool_id_chars [OF assms]
    by (fastforce simp: is_part_char_def id_char_def)
  let ?name = "concat (map capital ?parts) @ lit ''Tool''"
  have al: "\<forall>c \<in> set ?name. is_alnum c"
    using part capital_chars(1) by (auto simp: lit_def is_alnum_def ascii_classes) 
  have hd: "is_upper (hd ?name) \<or> is_digit (hd ?name)"
  proof (cases ?parts)
    case Nil
    then show ?thesis by (simp add: lit_def is_upper_def)
  next
    case (Cons p ps)
    with part [of p] have "capital p \<noteq> []" "is_upper (hd (capital p)) \<or> is_digit (hd (capital p))"
      using capital_chars(2,3) [of p] by auto
    with Cons show ?thesis by simp
  qed
  let ?name1 = "if is_upper (hd ?name) \<or> is_lower (hd ?name) then ?name else lit ''Tool'' @ ?name"
  have e: "ends (lit ''Tool'') ?name1" by (simp add: ends_def)
  have kw: "\<not> ends (lit ''Tool'') k" if "k \<in> set py_keywords" for k
    using that by (auto simp: py_keywords_def ends_def lit_def)
  from e kw have "?name1 \<notin> set py_keywords" by blast
  then have c: "class_name_for i = ?name1" unfolding class_name_for_def Let_def by (rule if_not_P)
  show "ends (lit ''Tool'') (class_name_for i)" and "class_name_for i \<notin> set py_keywords"
    using e kw unfolding c by blast+
  show "\<forall>c \<in> set (class_name_for i). is_alnum c"
    unfolding c using al by (auto simp: lit_def is_alnum_def ascii_classes split: if_splits)
  show "is_upper (hd (class_name_for i))"
    unfolding c using hd by (auto simp: lit_def ascii_classes)
qed

text \<open>An action is written as its name in single quotes, and read back from the tuple.\<close>

definition tuple_text :: "pystr list \<Rightarrow> pystr" where
  "tuple_text names =
     lit ''('' @ join_with (lit '', '') (map py_repr names) @ (if length names = 1 then lit '','' else []) @ lit '')''"

lemma acts_tuple_typed: "acts_tuple fmt (map JStr names) = tuple_text names"
  by (simp add: acts_tuple_def tuple_text_def repr_of_def comp_def)

lemma action_names:
  assumes "a \<in> set actions_enum"
  shows "py_repr a = [39] @ a @ [39]" and "a \<noteq> []" and "\<forall>c \<in> set a. is_lower c"
  using assms by (auto simp: actions_enum_def py_repr_def repr_char_def lit_def is_lower_def)

lemma find_runs_quoted:
  assumes "a \<in> set actions_enum"
  shows "find_runs is_lower (py_repr a @ s) = a # find_runs is_lower s"
proof -
  have q: "\<not> is_lower 39" by (simp add: is_lower_def)
  have "find_runs is_lower (a @ 39 # s) = a # find_runs is_lower s"
    using find_runs_step [OF action_names(3,2) [OF assms] q] .
  then show ?thesis by (simp add: action_names(1) [OF assms] find_runs_skip q)
qed

lemma find_runs_join:
  assumes "set names \<subseteq> set actions_enum"
  shows "find_runs is_lower (join_with (lit '', '') (map py_repr names) @ s) = names @ find_runs is_lower s"
  using assms
proof (induction names)
  case Nil
  then show ?case by simp
next
  case (Cons a names)
  have q: "find_runs is_lower (lit '', '' @ t) = find_runs is_lower t" for t
    by (simp add: lit_def find_runs_skip is_lower_def)
  from Cons show ?case
    by (cases names) (simp_all add: find_runs_quoted q)
qed

lemma read_tuple: "set names \<subseteq> set actions_enum \<Longrightarrow> find_runs is_lower (tuple_text names) = names"
proof -
  assume a: "set names \<subseteq> set actions_enum"
  have "find_runs is_lower (lit ''('' @ t) = find_runs is_lower t" for t
    by (simp add: lit_def find_runs_skip is_lower_def)
  moreover have "find_runs is_lower ((if length names = 1 then lit '','' else []) @ lit '')'') = []"
    by (simp add: lit_def find_runs_skip is_lower_def)
  ultimately show ?thesis by (simp only: tuple_text_def find_runs_join [OF a]) simp
qed

lemma tuple_line: "set names \<subseteq> set actions_enum \<Longrightarrow> one_line (tuple_text names)"
proof -
  assume a: "set names \<subseteq> set actions_enum"
  have "one_line (py_repr n)" if "n \<in> set names" for n
  proof -
    from that a have "n \<in> set actions_enum" by blast
    from action_names [OF this] show ?thesis by (auto simp: one_line_def isascii_def is_lower_def)
  qed
  moreover have "one_line (join_with (lit '', '') ws)" if "\<forall>w \<in> set ws. one_line w" for ws
    using that by (induction "lit '', ''" ws rule: join_with.induct) (auto simp: one_line_def lit_def)
  ultimately have "one_line (join_with (lit '', '') (map py_repr names))" by auto
  then show ?thesis by (simp add: tuple_text_def one_line_def) (simp add: lit_def)
qed

section \<open>The lines of a generated module\<close>

definition class_block :: "pystr \<times> pystr list \<Rightarrow> pystr list" where
  "class_block e = (case e of (i, names) \<Rightarrow>
     [[],
      lit ''class '' @ class_name_for i @ lit ''(_HawcxGeneratedTool):'',
      lit ''    \"\"\"`'' @ i @ lit ''` -- actions: '' @ join_with (lit '', '') names @ lit ''.\"\"\"'',
      [],
      lit ''    TOOL_ID = \"'' @ i @ lit ''\"'',
      lit ''    ACTIONS = '' @ tuple_text names,
      []])"

definition registry_entry :: "pystr \<times> pystr list \<Rightarrow> pystr" where
  "registry_entry e = lit ''    \"'' @ fst e @ lit ''\": '' @ class_name_for (fst e) @ lit '',''"

lemma collect_typed: "(\<And>e. f (json_entry e) = Inr (g e)) \<Longrightarrow> collect f (map json_entry es) = Inr (map g es)"
  by (induction es) auto

lemma as_str_JStr [simp]: "as_str (JStr s) = Inr s"
  by (simp add: as_str_def)

lemma class_lines_typed: "class_lines fmt (json_entry e) = Inr (class_block e)"
proof -
  have "collect as_str (map JStr names) = Inr names" for names by (induction names) auto
  then show ?thesis by (simp add: class_lines_def class_block_def json_entry_def acts_tuple_typed split: prod.split)
qed

lemma registry_line_typed: "registry_line (json_entry e) = Inr (registry_entry e)"
  by (simp add: registry_line_def registry_entry_def json_entry_def split: prod.split)

definition module_lines :: "pystr \<Rightarrow> pystr \<Rightarrow> pystr \<Rightarrow> pystr \<Rightarrow> pystr option \<Rightarrow> (pystr \<times> pystr list) list \<Rightarrow> pystr list" where
  "module_lines name version framework path now es =
     [lit banner,
      lit ''# template : '' @ name @ [32] @ version @ lit ''  ('' @ path @ lit '')'',
      lit ''# framework: '' @ framework,
      lit ''# tools    : '' @ dec (length es)] @
     (case now of None \<Rightarrow> [] | Some t \<Rightarrow> [lit ''# Generated at '' @ t]) @
     [lit ''\"\"\"HAAP-wrapped tools for `'' @ name @ lit ''`.''] @ map lit module_preamble @
     concat (map class_block es) @ map lit module_registry @ map registry_entry es @ map lit module_tail"

lemma join_with_append:
  "xs \<noteq> [] \<Longrightarrow> ys \<noteq> [] \<Longrightarrow> join_with sep (xs @ ys) = join_with sep xs @ sep @ join_with sep ys"
proof (induction sep xs rule: join_with.induct)
  case (2 sep w)
  then show ?case by (cases ys) auto
qed auto

lemma join_with_Cons: "ys \<noteq> [] \<Longrightarrow> join_with sep (w # ys) = w @ sep @ join_with sep ys"
  by (cases ys) auto

lemma module_text:
  "join_with [10] (module_head fmt name (JStr version) (JStr framework) path (length es) now @ map lit module_preamble @
     concat (map class_block es) @ map lit module_registry @ map registry_entry es @ map lit module_tail) =
   join_with [10] (module_lines name version framework path now es)"
  by (simp add: module_head_def module_lines_def formatted_def join_with_Cons split: option.split)

text \<open>On distinct ids the collision check passes exactly when the class names are distinct, and raises
  nothing else than a \<open>GenerationError\<close>.\<close>

definition classes :: "(pystr \<times> pystr list) list \<Rightarrow> pystr list" where
  "classes es = map (\<lambda>e. class_name_for (fst e)) es"

lemma check_collisions_iff:
  assumes "distinct (map fst es)" and "\<forall>c t. map_of seen c = Some t \<longrightarrow> t \<notin> fst ` set es"
  shows "(check_collisions seen (map json_entry es) = Inr () \<longleftrightarrow>
        distinct (classes es) \<and> (\<forall>c \<in> set (classes es). map_of seen c = None)) \<and>
     (\<forall>x. check_collisions seen (map json_entry es) = Inl x \<longrightarrow> (\<exists>f. x = GenerationError f))"
  using assms
proof (induction es arbitrary: seen)
  case Nil
  then show ?case by (simp add: classes_def)
next
  case (Cons e es)
  obtain i names where e: "e = (i, names)" by fastforce
  let ?c = "class_name_for i"
  have cs: "classes (e # es) = ?c # classes es" by (simp add: e classes_def)
  show ?case
  proof (cases "map_of seen ?c")
    case None
    have ih: "\<forall>c t. map_of (upd ?c i seen) c = Some t \<longrightarrow> t \<notin> fst ` set es"
      using Cons.prems e by auto
    have step: "check_collisions seen (map json_entry (e # es)) = check_collisions (upd ?c i seen) (map json_entry es)"
      using None by (simp add: e json_entry_def Let_def)
    have "(distinct (classes (e # es)) \<and> (\<forall>c \<in> set (classes (e # es)). map_of seen c = None)) =
        (distinct (classes es) \<and> (\<forall>c \<in> set (classes es). map_of (upd ?c i seen) c = None))"
      using None by (auto simp: cs)
    with Cons.IH [OF _ ih] Cons.prems(1) show ?thesis unfolding step by simp
  next
    case (Some t)
    with Cons.prems(2) have "t \<noteq> i" by (auto simp: e)
    with Some have "check_collisions seen (map json_entry (e # es)) = Inl (GenerationError (ClassCollision t i ?c))"
      by (simp add: e json_entry_def Let_def)
    with Some show ?thesis by (simp add: cs)
  qed
qed

lemma check_collisions_ok:
  assumes "distinct (map fst es)"
  shows "check_collisions [] (map json_entry es) = Inr () \<longleftrightarrow> distinct (classes es)"
    and "check_collisions [] (map json_entry es) = Inl x \<Longrightarrow> \<exists>f. x = GenerationError f"
  using check_collisions_iff [of es "[]"] assms by auto

lemma assert_ascii_Inr: "assert_ascii s = Inr t \<longleftrightarrow> isascii s \<and> t = s"
proof -
  have "sort (remdups (filter (\<lambda>c. c > 127) s)) = [] \<longleftrightarrow> set (sort (remdups (filter (\<lambda>c. c > 127) s))) = {}"
    by (simp only: set_empty)
  also have "\<dots> \<longleftrightarrow> isascii s" by (auto simp: isascii_def)
  finally have "sort (remdups (filter (\<lambda>c. c > 127) s)) = [] \<longleftrightarrow> isascii s" .
  then show ?thesis by (auto simp: assert_ascii_def Let_def)
qed

lemma assert_ascii_Inl: "assert_ascii s = Inl x \<Longrightarrow> \<exists>f. x = GenerationError f"
  by (auto simp: assert_ascii_def Let_def split: if_splits)

lemma framework_kind_loaded:
  "get (lit ''framework'') JNull d = JObj fw \<Longrightarrow> map_of fw (lit ''kind'') = Some k \<Longrightarrow> framework_kind (JObj d) = Inr k"
  by (auto simp: framework_kind_def get_def Let_def split: option.splits)

lemma generate_module_typed:
  assumes "tool_entries doc = Inr (map json_entry es)" and "item ''name'' doc = Inr (JStr name)"
    and "item ''version'' doc = Inr (JStr version)" and "framework_kind doc = Inr (JStr kind)"
  shows "generate_module fmt doc path now = chain (check_collisions [] (map json_entry es))
     (\<lambda>_. assert_ascii (join_with [10] (module_lines name version kind path now es)))"
  using assms by (simp add: generate_module_def collect_typed [where f = "class_lines fmt", OF class_lines_typed]
      collect_typed [where f = registry_line, OF registry_line_typed] module_text)

definition config_block :: "pystr \<times> pystr list \<Rightarrow> pystr list" where
  "config_block e = (case e of (i, names) \<Rightarrow>
       [lit ''    \"'' @ i @ lit ''\": McpTool('',
        lit ''        tool_id=\"'' @ i @ lit ''\",'',
        lit ''        url=FILL_ME,        # target RS URL of the MCP server'',
        lit ''        name=FILL_ME,       # downstream MCP tool name from tools/list'',
        lit ''        actions='' @ tuple_text names @ lit '','',
        lit ''        resource=FILL_ME,   # resource scope, or \"*\" for the whole server'',
        lit ''    ),''])"

lemma config_lines_typed: "config_lines fmt (json_entry e) = Inr (config_block e)"
  by (simp add: config_lines_def config_block_def json_entry_def acts_tuple_typed split: prod.split)

definition config_text_lines :: "pystr \<Rightarrow> pystr \<Rightarrow> pystr \<Rightarrow> (pystr \<times> pystr list) list \<Rightarrow> pystr list" where
  "config_text_lines name version path es =
     map lit config_banner @
     [lit ''# template: '' @ name @ [32] @ version @ lit ''  ('' @ path @ lit '')'',
      lit ''\"\"\"Deployment config for `'' @ name @ lit ''`.''] @
     map lit config_preamble @ concat (map config_block es) @ map lit config_tail"

lemma generate_config_typed:
  assumes "tool_entries doc = Inr (map json_entry es)" and "item ''name'' doc = Inr (JStr name)"
    and "item ''version'' doc = Inr (JStr version)"
  shows "generate_config fmt doc path = chain (check_collisions [] (map json_entry es))
     (\<lambda>_. assert_ascii (join_with [10] (config_text_lines name version path es)))"
  using assms by (simp add: generate_config_def collect_typed [where f = "config_lines fmt", OF config_lines_typed] formatted_def config_text_lines_def)

text \<open>What every loaded template gives the generators.\<close>

lemma loaded_generates:
  assumes "load_template yaml src = Inr doc"
  shows "\<exists>es name version kind. tool_entries doc = Inr (map json_entry es) \<and> es \<noteq> [] \<and> distinct (map fst es) \<and>
     (\<forall>e \<in> set es. entry_ok e) \<and> item ''name'' doc = Inr (JStr name) \<and> name_re name \<and>
     item ''version'' doc = Inr (JStr version) \<and> version_re version \<and>
     framework_kind doc = Inr (JStr kind) \<and> kind \<in> set frameworks"
  using loaded_entries [OF assms] loaded_fields [OF assms] framework_kind_loaded by blast

section \<open>The characters of the generated text\<close>

definition chars :: "(nat \<Rightarrow> bool) \<Rightarrow> pystr \<Rightarrow> bool" where
  "chars P s \<longleftrightarrow> (\<forall>c \<in> set s. P c)"

lemma chars_simps [simp]:
  "chars P []" "chars P (c # s) \<longleftrightarrow> P c \<and> chars P s" "chars P (s @ t) \<longleftrightarrow> chars P s \<and> chars P t"
  by (auto simp: chars_def)

text \<open>A class of characters that holds all of printable ASCII.\<close>

definition wide :: "(nat \<Rightarrow> bool) \<Rightarrow> bool" where
  "wide P \<longleftrightarrow> (\<forall>c. c < 128 \<and> c \<noteq> 10 \<longrightarrow> P c)"

lemma wide_chars: "wide P \<Longrightarrow> one_line s \<Longrightarrow> chars P s"
  by (auto simp: wide_def one_line_def chars_def isascii_def)

lemma wide_lit [simp]: "wide P \<Longrightarrow> list_all ascii_char s \<Longrightarrow> chars P (lit s)"
  by (intro wide_chars one_line_lit)

lemma wide_constants:
  assumes "wide P"
  shows "\<forall>l \<in> lit ` set module_preamble. chars P l" "\<forall>l \<in> lit ` set module_registry. chars P l"
    "\<forall>l \<in> lit ` set module_tail. chars P l" "\<forall>l \<in> lit ` set config_banner. chars P l"
    "\<forall>l \<in> lit ` set config_preamble. chars P l" "\<forall>l \<in> lit ` set config_tail. chars P l"
  using constant_lines assms unfolding list_all_iff [where P = "list_all ascii_char"] by auto

lemma wide_join: "(\<forall>w \<in> set ws. chars P w) \<Longrightarrow> chars P sep \<Longrightarrow> chars P (join_with sep ws)"
  by (induction sep ws rule: join_with.induct) auto

lemma wide_entry:
  assumes "wide P" and "entry_ok (i, names)"
  shows "chars P i" and "chars P (class_name_for i)" and "chars P (tuple_text names)"
    and "chars P (join_with (lit '', '') names)"
proof -
  have i: "tool_id_re i" and n: "set names \<subseteq> set actions_enum" using assms(2) by (auto simp: entry_ok_def)
  have "id_char c \<or> c = 46 \<Longrightarrow> P c" "is_alnum c \<Longrightarrow> P c" "is_lower c \<Longrightarrow> P c" for c
    using assms(1) by (auto simp: wide_def id_char_def is_alnum_def ascii_classes)
  then show "chars P i" "chars P (class_name_for i)"
    using tool_id_chars [OF i] class_name_chars(1) [OF i] by (auto simp: chars_def)
  show "chars P (tuple_text names)" by (rule wide_chars [OF assms(1) tuple_line [OF n]])
  have "chars P w" if "w \<in> set names" for w
    using action_names(3) [of w] that n \<open>\<And>c. is_lower c \<Longrightarrow> P c\<close> by (auto simp: chars_def)
  then show "chars P (join_with (lit '', '') names)" using assms(1) by (intro wide_join) auto
qed

lemma wide_blocks:
  assumes "wide P" and "\<forall>e \<in> set es. entry_ok e"
  shows "\<forall>l \<in> set (concat (map class_block es)). chars P l" and "\<forall>l \<in> registry_entry ` set es. chars P l"
    and "\<forall>l \<in> set (concat (map config_block es)). chars P l"
proof -
  have "\<forall>l \<in> set (class_block e). chars P l" "chars P (registry_entry e)" "\<forall>l \<in> set (config_block e). chars P l"
    if "entry_ok e" for e
    using wide_entry [OF assms(1)] that assms(1)
    by (cases e; simp add: class_block_def registry_entry_def config_block_def)+
  with assms(2) show "\<forall>l \<in> set (concat (map class_block es)). chars P l" "\<forall>l \<in> registry_entry ` set es. chars P l"
    "\<forall>l \<in> set (concat (map config_block es)). chars P l" by auto
qed

lemma wide_fields:
  assumes "wide P" and "name_re name" and "kind \<in> set frameworks"
  shows "chars P name" and "chars P kind" and "chars P (dec n)"
proof -
  show "chars P name" using assms(1,2)
    by (cases name) (auto simp: wide_def name_re_def chars_def ascii_classes)
  show "chars P kind" using assms(1,3) by (auto simp: frameworks_def)
  have "c < 128 \<and> c \<noteq> 10" if "c \<in> set (dec n)" for c
    using dec_digits [OF that] by (simp add: is_digit_def)
  then show "chars P (dec n)" using assms(1) by (simp add: wide_def chars_def)
qed

lemma module_chars:
  assumes "wide P" and "\<forall>e \<in> set es. entry_ok e" and "name_re name" and "kind \<in> set frameworks"
  shows "(\<forall>l \<in> set (module_lines name version kind path now es). chars P l) \<longleftrightarrow>
    chars P version \<and> chars P path \<and> (\<forall>t. now = Some t \<longrightarrow> chars P t)"
proof -
  have b: "chars P (lit banner)" and sp: "P 32" using assms(1) by (simp_all add: banner_def wide_def)
  show ?thesis
    using wide_fields [OF assms(1,3,4)] b sp assms(1) wide_constants(1-3) [OF assms(1)] wide_blocks(1,2) [OF assms(1,2)]
    unfolding module_lines_def by (auto simp: ball_Un split: option.split)
qed

lemma config_chars:
  assumes "wide P" and "\<forall>e \<in> set es. entry_ok e" and "name_re name"
  shows "(\<forall>l \<in> set (config_text_lines name version path es). chars P l) \<longleftrightarrow> chars P version \<and> chars P path"
proof -
  have sp: "P 32" using assms(1) by (simp add: wide_def)
  have "chars P name" using wide_fields [OF assms(1,3), of "lit ''crewai''"] by (auto simp: frameworks_def)
  with sp assms(1) wide_constants(4-6) [OF assms(1)] wide_blocks(3) [OF assms(1,2)] show ?thesis
    unfolding config_text_lines_def by (auto simp: ball_Un)
qed

lemma isascii_join: "isascii (join_with [10] ls) \<longleftrightarrow> (\<forall>l \<in> set ls. isascii l)"
  by (induction "[10] :: pystr" ls rule: join_with.induct) auto

lemma isascii_chars: "isascii s \<longleftrightarrow> chars (\<lambda>c. c < 128) s"
  by (simp add: isascii_def chars_def)

lemma wide_ascii: "wide (\<lambda>c. c < 128)"
  by (simp add: wide_def)

lemma wide_line: "wide (\<lambda>c. c \<noteq> 10)"
  by (simp add: wide_def)

lemma version_line: "version_re v \<Longrightarrow> chars (\<lambda>c. c \<noteq> 10) v"
proof -
  assume v: "version_re v"
  have "\<not> is_decimal 10" by (simp add: is_decimal_def digit_runs_def)
  with v show ?thesis using split_on_cover [of 10 v 46] by (auto simp: version_re_def Let_def chars_def)
qed

lemma json_str_inj: "inj JStr"
  by (simp add: inj_on_def)

section \<open>What the readers find\<close>

lemma id_no_quote: "tool_id_re i \<Longrightarrow> c \<in> set i \<Longrightarrow> c \<noteq> 34"
  using tool_id_chars [of i c] by (auto simp: id_char_def ascii_classes)

lemma class_no_punct: "tool_id_re i \<Longrightarrow> c \<in> set (class_name_for i) \<Longrightarrow> c \<noteq> 40 \<and> c \<noteq> 44 \<and> c \<noteq> 95"
  using class_name_chars(1) [of i] by (auto simp: is_alnum_def ascii_classes)

lemma read_registry_entry:
  assumes "tool_id_re i"
  shows "read_entry (registry_entry (i, names)) = (i, class_name_for i)"
proof -
  have e: "drop 5 (registry_entry (i, names)) = i @ 34 # [58, 32] @ class_name_for i @ 44 # []"
    by (simp add: registry_entry_def lit_def)
  have "takeWhile (\<lambda>c. c \<noteq> 34) (i @ 34 # [58, 32] @ class_name_for i @ 44 # []) = i"
    by (rule takeWhile_mark) (rule id_no_quote [OF assms])
  moreover have "dropWhile (\<lambda>c. c \<noteq> 34) (i @ 34 # [58, 32] @ class_name_for i @ 44 # []) =
      34 # [58, 32] @ class_name_for i @ 44 # []"
    by (rule dropWhile_mark) (rule id_no_quote [OF assms])
  moreover have "takeWhile (\<lambda>c. c \<noteq> 44) (class_name_for i @ 44 # []) = class_name_for i"
    by (rule takeWhile_mark) (use class_no_punct [OF assms] in blast)
  ultimately show ?thesis unfolding read_entry_def e by simp
qed

lemma block_reads:
  assumes "entry_ok (i, names)"
  shows "map (\<lambda>l. takeWhile (\<lambda>c. c \<noteq> 40) (drop 6 l)) (filter is_class_line (class_block (i, names))) = [class_name_for i]"
    and "map (\<lambda>l. takeWhile (\<lambda>c. c \<noteq> 34) (drop 15 l)) (filter is_id_line (class_block (i, names))) = [i]"
    and "map (\<lambda>l. find_runs is_lower (drop 14 l)) (filter is_actions_line (class_block (i, names))) = [names]"
proof -
  from assms have i: "tool_id_re i" and n: "set names \<subseteq> set actions_enum" by (auto simp: entry_ok_def)
  from class_name_chars(2) [OF i] have hd: "is_upper (hd (class_name_for i))" .
  have cls: "lit ''class '' @ class_name_for i @ lit ''(_HawcxGeneratedTool):'' \<noteq> lit ''class _HawcxGeneratedTool:''"
    using hd class_no_punct [OF i] by (cases "class_name_for i") (auto simp: lit_def is_upper_def)
  have "filter is_class_line (class_block (i, names)) = [lit ''class '' @ class_name_for i @ lit ''(_HawcxGeneratedTool):'']"
    using cls by (simp add: class_block_def is_class_line_def lit_Cons)
  moreover have "drop 6 (lit ''class '' @ class_name_for i @ lit ''(_HawcxGeneratedTool):'') =
      class_name_for i @ 40 # lit ''_HawcxGeneratedTool):''" by (simp add: lit_Cons)
  moreover have "takeWhile (\<lambda>c. c \<noteq> 40) (class_name_for i @ 40 # lit ''_HawcxGeneratedTool):'') = class_name_for i"
    by (rule takeWhile_mark) (use class_no_punct [OF i] in blast)
  ultimately show "map (\<lambda>l. takeWhile (\<lambda>c. c \<noteq> 40) (drop 6 l)) (filter is_class_line (class_block (i, names))) = [class_name_for i]"
    by simp
  have "filter is_id_line (class_block (i, names)) = [lit ''    TOOL_ID = \"'' @ i @ lit ''\"'']"
    by (simp add: class_block_def is_id_line_def lit_Cons)
  moreover have "drop 15 (lit ''    TOOL_ID = \"'' @ i @ lit ''\"'') = i @ 34 # []" by (simp add: lit_Cons)
  moreover have "takeWhile (\<lambda>c. c \<noteq> 34) (i @ 34 # []) = i" by (rule takeWhile_mark) (rule id_no_quote [OF i])
  ultimately show "map (\<lambda>l. takeWhile (\<lambda>c. c \<noteq> 34) (drop 15 l)) (filter is_id_line (class_block (i, names))) = [i]"
    by simp
  have "filter is_actions_line (class_block (i, names)) = [lit ''    ACTIONS = '' @ tuple_text names]"
    by (simp add: class_block_def is_actions_line_def lit_Cons)
  moreover have "drop 14 (lit ''    ACTIONS = '' @ tuple_text names) = tuple_text names" by (simp add: lit_Cons)
  ultimately show "map (\<lambda>l. find_runs is_lower (drop 14 l)) (filter is_actions_line (class_block (i, names))) = [names]"
    by (simp add: read_tuple [OF n])
qed

lemma other_lines:
  "filter is_class_line (map registry_entry es) = []" "filter is_id_line (map registry_entry es) = []"
  "filter is_actions_line (map registry_entry es) = []"
  by (induction es) (auto simp: registry_entry_def is_class_line_def is_id_line_def is_actions_line_def lit_Cons)

lemma filter_blocks: "map f (filter P (concat (map class_block es))) = concat (map (\<lambda>e. map f (filter P (class_block e))) es)"
  by (induction es) auto

lemma concat_single: "(\<And>e. e \<in> set es \<Longrightarrow> f e = [g e]) \<Longrightarrow> concat (map f es) = map g es"
  by (induction es) auto

text \<open>A line that starts with a hash or a double quote is none of those read.\<close>

definition unread :: "pystr \<Rightarrow> bool" where
  "unread l \<longleftrightarrow> \<not> is_class_line l \<and> \<not> is_id_line l \<and> \<not> is_actions_line l"

lemma unread_Cons: "c = 34 \<or> c = 35 \<Longrightarrow> unread (c # s)"
  by (auto simp: unread_def is_class_line_def is_id_line_def is_actions_line_def)

lemma unread_lit:
  "unread (lit (CHR ''#'' # s))" "unread (lit (CHR ''#'' # s) @ t)" "unread (lit (CHR 0x22 # s) @ t)"
  by (simp_all add: lit_Cons unread_Cons)

lemma head_unread:
  "\<forall>l \<in> set ([lit banner,
      lit ''# template : '' @ name @ [32] @ version @ lit ''  ('' @ path @ lit '')'',
      lit ''# framework: '' @ framework, lit ''# tools    : '' @ n] @
     (case now of None \<Rightarrow> [] | Some t \<Rightarrow> [lit ''# Generated at '' @ t]) @
     [lit ''\"\"\"HAAP-wrapped tools for `'' @ name @ lit ''`.'']). unread l"
  by (cases now) (simp_all add: banner_def unread_lit)

lemma filter_lines:
  assumes "\<forall>l. unread l \<longrightarrow> \<not> P l" and "filter P (map lit module_preamble) = []"
    and "filter P (map lit module_registry) = []" and "filter P (map lit module_tail) = []"
    and "filter P (map registry_entry es) = []"
  shows "filter P (module_lines name version kind path now es) = filter P (concat (map class_block es))"
proof -
  let ?head = "[lit banner,
      lit ''# template : '' @ name @ [32] @ version @ lit ''  ('' @ path @ lit '')'',
      lit ''# framework: '' @ kind, lit ''# tools    : '' @ dec (length es)] @
     (case now of None \<Rightarrow> [] | Some t \<Rightarrow> [lit ''# Generated at '' @ t]) @
     [lit ''\"\"\"HAAP-wrapped tools for `'' @ name @ lit ''`.'']"
  have "module_lines name version kind path now es = ?head @ map lit module_preamble @
      concat (map class_block es) @ map lit module_registry @ map registry_entry es @ map lit module_tail"
    by (simp only: module_lines_def append_assoc)
  moreover have "filter P ?head = []"
    using head_unread assms(1) unfolding filter_empty_conv by blast
  ultimately show ?thesis using assms(2-5) by (simp only: filter_append) simp
qed

lemma module_filters:
  "filter is_class_line (module_lines name version kind path now es) = filter is_class_line (concat (map class_block es))"
  "filter is_id_line (module_lines name version kind path now es) = filter is_id_line (concat (map class_block es))"
  "filter is_actions_line (module_lines name version kind path now es) = filter is_actions_line (concat (map class_block es))"
  by (rule filter_lines; (simp only: unread_def constant_reads other_lines)?; simp)+

lemma module_line_reads:
  fixes name version kind path now
  assumes "\<forall>e \<in> set es. entry_ok e"
  defines "ls \<equiv> module_lines name version kind path now es"
  shows "map (\<lambda>l. takeWhile (\<lambda>c. c \<noteq> 40) (drop 6 l)) (filter is_class_line ls) = classes es"
    and "map (\<lambda>l. takeWhile (\<lambda>c. c \<noteq> 34) (drop 15 l)) (filter is_id_line ls) = map fst es"
    and "map (\<lambda>l. find_runs is_lower (drop 14 l)) (filter is_actions_line ls) = map snd es"
proof -
  have ok: "entry_ok (fst e, snd e)" if "e \<in> set es" for e using assms(1) that by simp
  show "map (\<lambda>l. takeWhile (\<lambda>c. c \<noteq> 40) (drop 6 l)) (filter is_class_line ls) = classes es"
    unfolding ls_def module_filters filter_blocks classes_def
    by (rule concat_single) (use block_reads(1) [OF ok] in simp)
  show "map (\<lambda>l. takeWhile (\<lambda>c. c \<noteq> 34) (drop 15 l)) (filter is_id_line ls) = map fst es"
    unfolding ls_def module_filters filter_blocks
    by (rule concat_single) (use block_reads(2) [OF ok] in simp)
  show "map (\<lambda>l. find_runs is_lower (drop 14 l)) (filter is_actions_line ls) = map snd es"
    unfolding ls_def module_filters filter_blocks
    by (rule concat_single) (use block_reads(3) [OF ok] in simp)
qed

text \<open>The registry is what stands between its first line and the closing brace.\<close>

lemma registry_reads:
  assumes "\<forall>e \<in> set es. entry_ok e"
  shows "map read_entry (takeWhile (\<lambda>l. l \<noteq> [125]) (drop 1 (dropWhile (\<lambda>l. l \<noteq> registry_open)
           (module_lines name version kind path now es)))) = map (\<lambda>(i, names). (i, class_name_for i)) es"
proof -
  from registry_frame(2) obtain ls where ls: "map lit module_registry = ls @ [registry_open]" "registry_open \<notin> set ls" by blast
  from registry_frame(3) obtain rest where rest: "map lit module_tail = [125] # rest" ..
  let ?head = "[lit banner,
      lit ''# template : '' @ name @ [32] @ version @ lit ''  ('' @ path @ lit '')'',
      lit ''# framework: '' @ kind, lit ''# tools    : '' @ dec (length es)] @
     (case now of None \<Rightarrow> [] | Some t \<Rightarrow> [lit ''# Generated at '' @ t]) @
     [lit ''\"\"\"HAAP-wrapped tools for `'' @ name @ lit ''`.'']"
  let ?before = "?head @ map lit module_preamble @ concat (map class_block es) @ ls"
  have hd: "registry_open = 84 # lit ''OOLS: dict[str, type[_HawcxGeneratedTool]] = {''"
    by (simp add: registry_open_def lit_Cons)
  have "registry_open \<notin> set ?head"
    unfolding hd by (auto simp: banner_def lit_Cons split: option.splits)
  moreover have "registry_open \<notin> set (class_block e)" for e
    unfolding hd by (cases e) (auto simp: class_block_def lit_Cons)
  ultimately have nb: "\<And>l. l \<in> set ?before \<Longrightarrow> l \<noteq> registry_open" using registry_frame(1) ls(2) by auto
  have "module_lines name version kind path now es = ?before @ registry_open # map registry_entry es @ [125] # rest"
    by (simp only: module_lines_def ls rest append_assoc append_Cons append_Nil)
  then have d: "drop 1 (dropWhile (\<lambda>l. l \<noteq> registry_open) (module_lines name version kind path now es)) =
      map registry_entry es @ [125] # rest"
    by (simp only: dropWhile_mark [OF nb]) simp
  have "takeWhile (\<lambda>l. l \<noteq> [125]) (map registry_entry es @ [125] # rest) = map registry_entry es"
    by (rule takeWhile_mark) (auto simp: registry_entry_def lit_Cons)
  with d have "map read_entry (takeWhile (\<lambda>l. l \<noteq> [125]) (drop 1 (dropWhile (\<lambda>l. l \<noteq> registry_open)
      (module_lines name version kind path now es)))) = map (read_entry \<circ> registry_entry) es"
    by (simp only: map_map)
  also have "\<dots> = map (\<lambda>(i, names). (i, class_name_for i)) es"
    using assms by (auto simp: entry_ok_def read_registry_entry)
  finally show ?thesis .
qed

section \<open>Properties\<close>

text \<open>
  C23: the generated module names the template's tools and nothing else. Read line by line, it declares
  one class for each tool under a name of its own, with the id and the actions of that tool in the
  order of the template, and its registry maps every id to its class. The path in the comment
  must not hold a line feed: \<open>path_injects\<close> shows what happens otherwise.
\<close>

theorem generated_module_faithful:
  assumes "load_template yaml src = Inr doc" and "generate_module fmt doc path now = Inr text"
    and "10 \<notin> set path" and "\<forall>t. now = Some t \<longrightarrow> 10 \<notin> set t"
  shows "\<exists>es. tool_entries doc = Inr (map (\<lambda>(i, names). (JStr i, map JStr names)) es) \<and>
           module_ids text = map fst es \<and> module_actions text = map snd es \<and>
           module_classes text = map (\<lambda>(i, names). class_name_for i) es \<and>
           distinct (module_ids text) \<and> distinct (module_classes text) \<and>
           module_tools text = zip (module_ids text) (module_classes text)"
proof -
  from loaded_generates [OF assms(1)] obtain es name version kind where
    es: "tool_entries doc = Inr (map json_entry es)" "distinct (map fst es)" "\<forall>e \<in> set es. entry_ok e"
    and f: "item ''name'' doc = Inr (JStr name)" "name_re name" "item ''version'' doc = Inr (JStr version)"
      "version_re version" "framework_kind doc = Inr (JStr kind)" "kind \<in> set frameworks" by blast
  let ?ls = "module_lines name version kind path now es"
  from assms(2) have tx: "text = join_with [10] ?ls" and cls: "distinct (classes es)"
    by (auto simp: generate_module_typed [OF es(1) f(1,3,5)] chain_Inr assert_ascii_Inr check_collisions_ok(1) [OF es(2)])
  have "\<forall>l \<in> set ?ls. chars (\<lambda>c. c \<noteq> 10) l"
    unfolding module_chars [OF wide_line es(3) f(2,6)] using version_line [OF f(4)] assms(3,4) by (auto simp: chars_def)
  then have "\<forall>l \<in> set ?ls. 10 \<notin> set l" unfolding chars_def by blast
  moreover have "?ls \<noteq> []" by (simp add: module_lines_def)
  ultimately have ls: "split_on 10 text = ?ls" unfolding tx by (intro split_join)
  have c: "classes es = map (\<lambda>(i, names). class_name_for i) es" by (auto simp: classes_def)
  have z: "zip (map fst es) (classes es) = map (\<lambda>(i, names). (i, class_name_for i)) es"
    unfolding c by (induction es) auto
  have "module_ids text = map fst es" "module_actions text = map snd es" "module_classes text = classes es"
    "module_tools text = map (\<lambda>(i, names). (i, class_name_for i)) es"
    unfolding module_ids_def module_actions_def module_classes_def module_tools_def ls
    by (rule module_line_reads [OF es(3)] registry_reads [OF es(3)])+
  with es(1,2) cls c z show ?thesis by (intro exI [of _ es]) (simp add: json_entry_def [abs_def])
qed

text \<open>
  C24: when generation succeeds. From a loaded template both generators succeed exactly when no two
  tool ids give the same class name and the version, the path and the timestamp are ASCII; the two
  outputs of \<open>hawcx init\<close> succeed or fail together, and the only exception is a \<open>GenerationError\<close>.
\<close>

theorem generation_succeeds_iff:
  assumes "load_template yaml src = Inr doc" and "item ''version'' doc = Inr (JStr version)"
    and "tool_entries doc = Inr (map (\<lambda>(i, names). (JStr i, map JStr names)) es)"
  shows "((\<exists>m. generate_module fmt doc path now = Inr m) \<longleftrightarrow>
            distinct (map (\<lambda>(i, names). class_name_for i) es) \<and> isascii version \<and> isascii path \<and>
            (\<forall>t. now = Some t \<longrightarrow> isascii t)) \<and>
         ((\<exists>m. generate_module fmt doc path None = Inr m) \<longleftrightarrow> (\<exists>c. generate_config fmt doc path = Inr c)) \<and>
         (\<forall>e. generate_module fmt doc path now = Inl e \<or> generate_config fmt doc path = Inl e \<longrightarrow>
            (\<exists>f. e = GenerationError f))"
proof -
  from loaded_generates [OF assms(1)] obtain es' name version' kind where
    es': "tool_entries doc = Inr (map json_entry es')" "distinct (map fst es')" "\<forall>e \<in> set es'. entry_ok e"
    and f: "item ''name'' doc = Inr (JStr name)" "name_re name" "item ''version'' doc = Inr (JStr version')"
      "framework_kind doc = Inr (JStr kind)" "kind \<in> set frameworks" by blast
  have inj: "inj json_entry"
    by (auto simp: inj_on_def json_entry_def inj_map_eq_map [OF json_str_inj])
  from assms(3) es'(1) have "map json_entry es' = map json_entry es" by (simp add: json_entry_def [abs_def])
  then have e: "es' = es" using inj by (simp add: inj_map_eq_map)
  from assms(2) f(3) have v: "version' = version" by simp
  note es = es' [unfolded e] and f = f [unfolded v]
  have m: "isascii (join_with [10] (module_lines name version kind path now' es)) \<longleftrightarrow>
      isascii version \<and> isascii path \<and> (\<forall>t. now' = Some t \<longrightarrow> isascii t)" for now'
    unfolding isascii_join unfolding isascii_chars by (rule module_chars [OF wide_ascii es(3) f(2,5)])
  have c: "isascii (join_with [10] (config_text_lines name version path es)) \<longleftrightarrow> isascii version \<and> isascii path"
    unfolding isascii_join unfolding isascii_chars by (rule config_chars [OF wide_ascii es(3) f(2)])
  have d: "map (\<lambda>(i, names). class_name_for i) es = classes es" by (auto simp: classes_def)
  note gen = generate_module_typed [OF es(1) f(1,3,4), of fmt path] generate_config_typed [OF es(1) f(1,3), of fmt path]
  have "(\<exists>m. generate_module fmt doc path now' = Inr m) \<longleftrightarrow>
      distinct (classes es) \<and> isascii version \<and> isascii path \<and> (\<forall>t. now' = Some t \<longrightarrow> isascii t)" for now'
    unfolding gen using m [of now'] check_collisions_ok(1) [OF es(2)] by (auto simp: chain_Inr assert_ascii_Inr)
  moreover have "(\<exists>c. generate_config fmt doc path = Inr c) \<longleftrightarrow> distinct (classes es) \<and> isascii version \<and> isascii path"
    unfolding gen using c check_collisions_ok(1) [OF es(2)] by (auto simp: chain_Inr assert_ascii_Inr)
  moreover have "\<exists>f. e = GenerationError f" if "generate_module fmt doc path now = Inl e \<or> generate_config fmt doc path = Inl e" for e
    using that check_collisions_ok(2) [OF es(2)] assert_ascii_Inl unfolding gen by (auto simp: chain_Inl)
  ultimately show ?thesis unfolding d by simp
qed

text \<open>
  Suggestions stay suggestions. Whatever a template's \<open>constraints\<close> and \<open>suggested_levels\<close> hold, and whether
  they are there at all, the generated module and the configuration skeleton are the same.
\<close>

theorem generation_ignores_suggestions:
  assumes "k = lit ''constraints'' \<or> k = lit ''suggested_levels''"
  shows "generate_module fmt (JObj (upd k v doc)) path now = generate_module fmt (JObj doc) path now \<and>
         generate_config fmt (JObj (upd k v doc)) path = generate_config fmt (JObj doc) path"
proof -
  have "item f (JObj (upd k v doc)) = item f (JObj doc)" if "f = ''tools'' \<or> f = ''name'' \<or> f = ''version''" for f
    using assms that by (auto simp: item_def)
  moreover have "framework_kind (JObj (upd k v doc)) = framework_kind (JObj doc)"
    using assms by (auto simp: framework_kind_def get_def)
  ultimately show ?thesis by (simp add: generate_module_def generate_config_def tool_entries_def)
qed

lemma join_with_part: "l \<in> set ls \<Longrightarrow> \<exists>u v. join_with sep ls = u @ l @ v"
proof (induction sep ls rule: join_with.induct)
  case (2 sep w)
  then have "join_with sep [w] = [] @ l @ []" by simp
  then show ?case by blast
next
  case (3 sep w w' ws)
  show ?case
  proof (cases "l = w")
    case True
    then have "join_with sep (w # w' # ws) = [] @ l @ (sep @ join_with sep (w' # ws))" by simp
    then show ?thesis by blast
  next
    case False
    with 3 obtain u v where "join_with sep (w' # ws) = u @ l @ v" by auto
    then show ?thesis by (intro exI [of _ "w @ sep @ u"] exI [of _ v]) simp
  qed
qed auto

text \<open>A line feed in the path ends the comment: the next line of the path is a line of the module.\<close>

lemma path_injects:
  assumes "load_template yaml src = Inr doc" and "generate_module fmt doc path now = Inr text"
    and "path = a @ [10] @ line @ [10] @ b" and "10 \<notin> set line"
  shows "line \<in> set (split_on 10 text)"
proof -
  from loaded_generates [OF assms(1)] obtain es name version kind where
    "tool_entries doc = Inr (map json_entry es)" "item ''name'' doc = Inr (JStr name)"
    "item ''version'' doc = Inr (JStr version)" "framework_kind doc = Inr (JStr kind)" by blast
  with assms(2) have "text = join_with [10] (module_lines name version kind path now es)"
    by (auto simp: generate_module_typed chain_Inr assert_ascii_Inr)
  moreover have "lit ''# template : '' @ name @ [32] @ version @ lit ''  ('' @ path @ lit '')'' \<in>
      set (module_lines name version kind path now es)" by (simp add: module_lines_def)
  ultimately obtain u v where "text = u @ (lit ''# template : '' @ name @ [32] @ version @ lit ''  ('' @ path @ lit '')'') @ v"
    using join_with_part by metis
  then obtain u v where "text = u @ path @ v" by (metis append.assoc)
  then have "text = (u @ a) @ 10 # (line @ 10 # (b @ v))" by (simp add: assms(3))
  then have "split_on 10 text = split_on 10 (u @ a) @ line # split_on 10 (b @ v)"
    by (simp only: split_on_at split_on_append(1) [OF assms(4)] append_Cons append_Nil)
  then show ?thesis by simp
qed

definition demo_entries :: "(pystr \<times> pystr list) list" where
  "demo_entries = [(lit ''s.refund'', [lit ''write''])]"

lemma demo_tool_entries: "tool_entries (JObj demo_template) = Inr (map (\<lambda>(i, names). (JStr i, map JStr names)) demo_entries)"
  by (simp add: tool_entries_def tool_entry_def item_def demo_template_def demo_refund_def elements_def demo_entries_def)

lemma demo_class: "class_name_for (lit ''s.refund'') = lit ''SRefundTool''"
proof -
  have "lit ''s.refund'' = lit ''s'' @ 46 # lit ''refund''" by (simp add: lit_def)
  moreover have "find_runs is_part_char (lit ''s'' @ 46 # lit ''refund'') = lit ''s'' # find_runs is_part_char (lit ''refund'')"
    by (rule find_runs_step) (simp_all add: is_part_char_def lit_def)
  moreover have "find_runs is_part_char (lit ''refund'') = [lit ''refund'']"
    by (subst find_runs_all) (simp_all add: is_part_char_def lit_def)
  ultimately have "find_runs is_part_char (lit ''s.refund'') = [lit ''s'', lit ''refund'']" by simp
  then show ?thesis
    by (simp add: class_name_for_def capital_def upper_def py_keywords_def Let_def)
      (simp add: lit_def upper_char_def ascii_classes)
qed

lemma demo_version: "item ''version'' (JObj demo_template) = Inr (JStr (lit ''1.0.0''))"
  by (simp add: item_def demo_template_def)

lemma demo_generates: "\<exists>m. generate_module (dumps spaced) (JObj demo_template) (lit ''t.json'') None = Inr m"
proof -
  have e: "tool_entries (JObj demo_template) = Inr (map json_entry demo_entries)"
    using demo_tool_entries by (simp add: json_entry_def [abs_def])
  have "item ''name'' (JObj demo_template) = Inr (JStr (lit ''a''))" by (simp add: item_def demo_template_def)
  moreover have "framework_kind (JObj demo_template) = Inr (JStr (lit ''crewai''))"
    by (simp add: framework_kind_def demo_template_def get_def)
  moreover have "distinct (map fst demo_entries)" "distinct (classes demo_entries)"
    by (simp_all add: demo_entries_def classes_def)
  moreover have "isascii (join_with [10] (module_lines (lit ''a'') (lit ''1.0.0'') (lit ''crewai'') (lit ''t.json'') None demo_entries))"
  proof -
    have "\<forall>e \<in> set demo_entries. entry_ok e"
      by (simp add: demo_entries_def entry_ok_def actions_enum_def) (simp add: tool_id_re_def lit_def id_char_def ascii_classes)
    moreover have "name_re (lit ''a'')" by (simp add: name_re_def lit_def ascii_classes)
    moreover have "lit ''crewai'' \<in> set frameworks" by (simp add: frameworks_def)
    ultimately show ?thesis
      unfolding isascii_join unfolding isascii_chars by (simp add: module_chars [OF wide_ascii] wide_ascii)
  qed
  ultimately show ?thesis
    using check_collisions_ok(1) [of demo_entries]
    by (simp add: generate_module_typed [OF e _ demo_version] chain_Inr assert_ascii_Inr)
qed

theorem generated_module_faithful_witness:
  "\<exists>m. generate_module (dumps spaced) (JObj demo_template) (lit ''t.json'') None = Inr m \<and>
     module_ids m = [lit ''s.refund''] \<and> module_classes m = [lit ''SRefundTool'']"
proof -
  from demo_generates obtain m where m: "generate_module (dumps spaced) (JObj demo_template) (lit ''t.json'') None = Inr m" ..
  have "10 \<notin> set (lit ''t.json'')" by (simp add: nl_in_lit)
  from generated_module_faithful [OF demo_template_loads m this] m show ?thesis
    unfolding demo_tool_entries by (auto simp: demo_entries_def demo_class inj_map_eq_map Cons_eq_map_conv split: prod.splits)
qed

theorem generation_succeeds_iff_witness:
  "\<exists>m c. generate_module (dumps spaced) (JObj demo_template) (lit ''t.json'') None = Inr m \<and>
     generate_config (dumps spaced) (JObj demo_template) (lit ''t.json'') = Inr c"
  using generation_succeeds_iff [OF demo_template_loads demo_version demo_tool_entries,
      of "dumps spaced" "lit ''t.json''" None] demo_generates by blast

theorem generation_ignores_suggestions_witness:
  "generate_module (dumps spaced) (JObj (upd (lit ''constraints'') JNull demo_template)) (lit ''t.json'') None =
   generate_module (dumps spaced) (JObj demo_template) (lit ''t.json'') None"
  using generation_ignores_suggestions [of "lit ''constraints''" "dumps spaced" JNull demo_template "lit ''t.json''" None]
  by simp

end
