(* ===== verification/Submit.thy ===== *)
theory Submit
  imports Ipc_Message Ipc_Path
begin

text \<open>
  \<open>submit.py\<close>: choosing the console credentials of an organisation and posting a template. \<open>urlopen\<close>
  is an argument that says how the request ends; which host it would dial is computed by
  \<open>http_target\<close>, the address parsing of \<open>urllib.request\<close> and \<open>http.client\<close>.
\<close>

section \<open>Credentials\<close>

text \<open>\<open>org.upper().replace('-', '_')\<close>, for an ASCII name; an unset variable and an empty one read alike.\<close>

definition org_suffix :: "pystr \<Rightarrow> pystr" where
  "org_suffix org = map (\<lambda>c. if c = 45 then 95 else c) (upper org)"

definition env_for_org :: "env \<Rightarrow> string \<Rightarrow> pystr \<Rightarrow> pystr option" where
  "env_for_org env base org =
     (let specific = lit base @ [95] @ org_suffix org in
      case env specific of
        Some v \<Rightarrow> if v \<noteq> [] then Some v else env (lit base)
      | None \<Rightarrow> env (lit base))"

definition value_text :: "pystr option \<Rightarrow> pystr" where
  "value_text v = (case v of Some s \<Rightarrow> s | None \<Rightarrow> [])"

definition resolve_credentials :: "env \<Rightarrow> pystr \<Rightarrow> exn + pystr \<times> pystr" where
  "resolve_credentials env org =
     (let url = value_text (env_for_org env ''HAWCX_CONSOLE_URL'' org);
          key = value_text (env_for_org env ''HAWCX_API_KEY'' org);
          missing =
            (if url = [] then [lit ''HAWCX_CONSOLE_URL_'' @ org_suffix org @ lit '' (or HAWCX_CONSOLE_URL)''] else []) @
            (if key = [] then [lit ''HAWCX_API_KEY_'' @ org_suffix org @ lit '' (or HAWCX_API_KEY)''] else [])
      in if missing \<noteq> [] then Inl (SubmitError (MissingCredentials org missing) (JArr []) None)
         else if \<not> starts (lit ''hx_'') key then Inl (SubmitError NotHawcxKey (JArr []) None)
         else Inr (rstrip_of 47 url, key))"

section \<open>The transport guard\<close>

text \<open>\<open>url.split("://", 1)[-1].split("/", 1)[0].split(":", 1)[0]\<close>.\<close>

fun behind_scheme :: "pystr \<Rightarrow> pystr option" where
  "behind_scheme [] = None"
| "behind_scheme (c # s) = (if starts [58, 47, 47] (c # s) then Some (drop 2 s) else behind_scheme s)"

definition guard_host :: "pystr \<Rightarrow> pystr" where
  "guard_host url =
     (let r = (case behind_scheme url of Some r \<Rightarrow> r | None \<Rightarrow> url)
      in takeWhile (\<lambda>c. c \<noteq> 58) (takeWhile (\<lambda>c. c \<noteq> 47) r))"

definition exempt_hosts :: "pystr list" where
  "exempt_hosts = map lit [''localhost'', ''127.0.0.1'', ''::1'']"

definition transport_refused :: "pystr \<Rightarrow> bool" where
  "transport_refused url \<longleftrightarrow> \<not> starts (lit ''https://'') url \<and> guard_host url \<notin> set exempt_hosts"

section \<open>Submitting\<close>

definition submit_path :: pystr where "submit_path = lit ''/api/agent-templates''"

record submit_request =
  rq_url :: pystr
  rq_body :: bytes
  rq_headers :: "(pystr \<times> pystr) list"

text \<open>How \<open>urlopen\<close> ends: a response, an \<open>HTTPError\<close> with its code and body, a \<open>URLError\<close> with its
  reason, or an exception that is neither.\<close>

datatype answer = Response bytes | HttpStatus int bytes | UrlFailure pystr | OtherFailure exn

definition submit_message :: "(pystr \<times> json) list \<Rightarrow> int \<Rightarrow> json" where
  "submit_message payload code =
     (if truthy (get (lit ''message'') JNull payload) then get (lit ''message'') JNull payload
      else if truthy (get (lit ''error'') JNull payload) then get (lit ''error'') JNull payload
      else JStr (lit ''HTTP '' @ dec_int code))"

definition submit_answer :: "pystr \<Rightarrow> answer \<Rightarrow> exn + json" where
  "submit_answer console_url a =
     (case a of
        Response body \<Rightarrow>
          (case loads_bytes body of
             Inl NotUtf8 \<Rightarrow> Inl UnicodeError | Inl NotJson \<Rightarrow> Inl JSONDecodeError | Inr j \<Rightarrow> Inr j)
      | HttpStatus code body \<Rightarrow>
          (let raw = utf8_replace body in
           case loads raw of
             None \<Rightarrow> Inl (SubmitError (ConsoleNotJson code (take 400 raw)) (JArr []) (Some code))
           | Some (JObj payload) \<Rightarrow>
               (let errors = get (lit ''errors'') JNull payload in
                Inl (SubmitError (ConsoleRefused (submit_message payload code))
                       (if truthy errors then errors else JArr []) (Some code)))
           | Some _ \<Rightarrow> Inl AttributeError)
      | UrlFailure reason \<Rightarrow> Inl (SubmitError (ConsoleUnreachable console_url) (JArr []) None)
      | OtherFailure e \<Rightarrow> Inl e)"

definition submit_template ::
  "(submit_request \<Rightarrow> answer) \<Rightarrow> json \<Rightarrow> pystr \<Rightarrow> pystr \<Rightarrow> pystr \<Rightarrow> submit_request list \<times> (exn + json)"
where
  "submit_template urlopen document console_url api_key source =
     (if transport_refused console_url
      then ([], Inl (SubmitError (CleartextUrl console_url) (JArr []) None))
      else
        let req = \<lparr>rq_url = console_url @ submit_path,
             rq_body = dumps_bytes spaced (JObj [(lit ''document'', document), (lit ''source'', JStr source)]),
             rq_headers = [(lit ''Authorization'', lit ''Bearer '' @ api_key),
               (lit ''Content-Type'', lit ''application/json''), (lit ''Accept'', lit ''application/json''),
               (lit ''User-Agent'', lit ''hawcx-haap-cli'')]\<rparr>
        in ([req], submit_answer console_url (urlopen req)))"

section \<open>Which host a URL dials\<close>

text \<open>\<open>urllib.parse.unquote\<close>: the escapes of every run of ASCII are decoded together.\<close>

fun percent :: "pystr \<Rightarrow> nat list" where
  "percent (c # a # b # s) =
     (case (c = 37, hex_value a, hex_value b) of
        (True, Some x, Some y) \<Rightarrow> (16 * x + y) # percent s
      | _ \<Rightarrow> c # percent (a # b # s))"
| "percent s = s"

function unquote :: "pystr \<Rightarrow> pystr" where
  "unquote s =
     (if s = [] then []
      else if \<not> hd s < 128 then hd s # unquote (tl s)
      else utf8_replace (map of_nat (percent (takeWhile (\<lambda>c. c < 128) s))) @ unquote (dropWhile (\<lambda>c. c < 128) s))"
  by pat_completeness auto
termination
proof (relation "measure length")
  show "(dropWhile (\<lambda>c. c < 128) s, s) \<in> measure length" if "s \<noteq> []" and "\<not> \<not> hd s < 128" for s :: pystr
    using that by (cases s) (auto simp: le_imp_less_Suc length_dropWhile_le)
qed auto

declare unquote.simps [simp del]

text \<open>
  \<open>Request\<close> splits the URL at its first colon and takes the host behind \<open>//\<close>; \<open>http.client\<close> cuts a port
  off at the last colon, where it must be a number or empty. \<open>None\<close>: no connection is made. The
  URL has no surrounding white space and no \<open>URL:\<close> prefix, which \<open>Request\<close> would drop.
\<close>

definition unbracket :: "pystr \<Rightarrow> pystr" where
  "unbracket h = (if h \<noteq> [] \<and> hd h = 91 \<and> last h = 93 then butlast (tl h) else h)"

definition dial_name :: "pystr \<Rightarrow> pystr option" where
  "dial_name host =
     (let port = rev (takeWhile (\<lambda>c. c \<noteq> 58) (rev host))
      in if 58 \<in> set host \<and> 93 \<notin> set port
         then (if port = [] \<or> py_int port \<noteq> None
               then Some (unbracket (take (length host - length port - 1) host)) else None)
         else Some (unbracket host))"

definition http_target :: "pystr \<Rightarrow> (pystr \<times> pystr) option" where
  "http_target url =
     (case partition_on 58 url of
        (scheme, colon, rest) \<Rightarrow>
          if colon \<and> lower scheme \<in> {lit ''http'', lit ''https''} \<and> starts [47, 47] rest
          then map_option (Pair (lower scheme))
                 (dial_name (unquote (takeWhile (\<lambda>c. c \<notin> {47, 63, 35}) (drop 2 rest))))
          else None)"

section \<open>The guard and the dialled host\<close>

lemma utf8_replace_ascii: "c < 128 \<Longrightarrow> utf8_replace (map of_nat (c # s)) = c # utf8_replace (map of_nat s)"
  unfolding utf8_replace_def list.map by (subst utf8_steps.simps) (simp add: step_len_def)

lemma unquote_Cons: "c < 128 \<Longrightarrow> c \<noteq> 37 \<Longrightarrow> unquote (c # s) = c # unquote s"
proof -
  assume c: "c < 128" "c \<noteq> 37"
  let ?run = "takeWhile (\<lambda>c. c < 128) s" and ?rest = "dropWhile (\<lambda>c. c < 128) s"
  have s: "unquote s = utf8_replace (map of_nat (percent ?run)) @ unquote ?rest"
  proof (cases s)
    case Nil
    then show ?thesis by (simp add: utf8_replace_def utf8_steps.simps)
  next
    case (Cons d t)
    show ?thesis
    proof (cases "d < 128")
      case True
      with Cons show ?thesis by (subst unquote.simps) simp
    next
      case False
      with Cons show ?thesis by (simp add: utf8_replace_def utf8_steps.simps)
    qed
  qed
  have "percent (c # r) = c # percent r" for r
    using c(2) by (cases r; cases "tl r") auto
  then have "unquote (c # s) = utf8_replace (map of_nat (c # percent ?run)) @ unquote ?rest"
    using c by (subst unquote.simps) simp
  then show ?thesis using utf8_replace_ascii [OF c(1)] s by simp
qed

lemma unquote_append: "\<forall>c \<in> set l. c < 128 \<and> c \<noteq> 37 \<Longrightarrow> unquote (l @ t) = l @ unquote t"
  by (induction l) (auto simp: unquote_Cons)

text \<open>The name that is dialled for a host that starts like \<open>l\<close> up to its first colon.\<close>

definition like :: "pystr \<Rightarrow> pystr \<Rightarrow> bool" where
  "like l h \<longleftrightarrow> takeWhile (\<lambda>c. c \<noteq> 58) h = l"

lemma like_append: "58 \<notin> set l \<Longrightarrow> t = [] \<or> hd t = 58 \<Longrightarrow> like l (l @ t)"
  by (cases t) (auto simp: like_def takeWhile_append takeWhile_eq_all_conv)

lemma likeE:
  assumes "like l h"
  obtains t where "h = l @ t" and "t = [] \<or> hd t = 58" and "58 \<notin> set l"
proof
  show "h = l @ dropWhile (\<lambda>c. c \<noteq> 58) h" using assms by (auto simp: like_def)
  show "dropWhile (\<lambda>c. c \<noteq> 58) h = [] \<or> hd (dropWhile (\<lambda>c. c \<noteq> 58) h) = 58"
    using hd_dropWhile [of "\<lambda>c. c \<noteq> 58" h] by auto
  show "58 \<notin> set l" using assms by (auto simp: like_def dest: set_takeWhileD)
qed

lemma dial_like:
  assumes "like l host" and "l \<noteq> []" and "hd l \<noteq> 91" and "dial_name host = Some h"
  shows "like l h"
  using assms(1)
proof (rule likeE)
  fix t
  assume h: "host = l @ t" and t: "t = [] \<or> hd t = 58" and l: "58 \<notin> set l"
  from assms(2,3) obtain x l' where x: "l = x # l'" "x \<noteq> 91" by (cases l) auto
  have hd: "unbracket (take n host) = take n host" for n using h x by (cases n) (simp_all add: unbracket_def)
  let ?port = "rev (takeWhile (\<lambda>c. c \<noteq> 58) (rev host))"
  have whole: "h = host \<or> 58 \<in> set host \<and> h = take (length host - length ?port - 1) host"
    using assms(4) hd [of "length host - length ?port - 1"] hd [of "length host", simplified]
    unfolding dial_name_def Let_def by (simp only: split: if_splits) simp_all
  show "like l h"
  proof (cases "h = host")
    case True
    then show ?thesis using assms(1) by simp
  next
    case False
    with whole have ne: "58 \<in> set host" and cut: "h = take (length host - length ?port - 1) host" by auto
    from ne h l t obtain v where v: "t = 58 # v" by (cases t) auto
    have "length ?port \<le> length v"
      by (simp add: h v takeWhile_append length_takeWhile_le [of _ "rev v", simplified])
    then have "h = l @ take (length host - length ?port - 1 - length l) t" using cut h v by simp
    moreover have "like l (l @ take n t)" for n
      by (rule like_append [OF l]) (cases n; simp add: v)
    ultimately show ?thesis by (simp only:)
  qed
qed

lemma behind_scheme_first: "58 \<notin> set a \<Longrightarrow> behind_scheme (a @ 58 # 47 # 47 # r) = Some r"
  by (induction a) (auto simp: starts_eval)

lemma behind_scheme_None: "58 \<notin> set a \<Longrightarrow> behind_scheme (a @ [58, 47]) = None"
  by (induction a) (auto simp: starts_eval)

text \<open>Behind the guard a cleartext connection dials an exempt name.\<close>

lemma netloc_like:
  assumes "takeWhile (\<lambda>c. c \<noteq> 58) (takeWhile (\<lambda>c. c \<noteq> 47) r) = l" and "l \<in> set exempt_hosts" and "hd p = 47"
  shows "like l (takeWhile (\<lambda>c. c \<notin> {47, 63, 35}) (r @ p))" and "\<forall>c \<in> set l. c < 128 \<and> c \<noteq> 37" and "l \<noteq> []" and "hd l \<noteq> 91"
proof -
  have no58: "58 \<notin> set l" using assms(1) by (auto dest: set_takeWhileD)
  from assms(2) no58 have l: "l = lit ''localhost'' \<or> l = lit ''127.0.0.1''"
    by (auto simp: exempt_hosts_def lit_def)
  then have ok: "\<forall>c \<in> set l. c \<notin> {47, 63, 35} \<and> c < 128 \<and> c \<noteq> 37" by (auto simp: lit_def)
  then show "\<forall>c \<in> set l. c < 128 \<and> c \<noteq> 37" by blast
  show "l \<noteq> []" "hd l \<noteq> 91" using l by (auto simp: lit_def)
  let ?w = "takeWhile (\<lambda>c. c \<noteq> 47) r"
  obtain t where w: "?w = l @ t" and t: "t = [] \<or> hd t = 58"
    using assms(1) hd_dropWhile [of "\<lambda>c. c \<noteq> 58" ?w] takeWhile_dropWhile_id [of "\<lambda>c. c \<noteq> 58" ?w] by metis
  obtain u where r: "r = ?w @ u" and u: "u = [] \<or> hd u = 47"
    using hd_dropWhile [of "\<lambda>c. c \<noteq> 47" r] takeWhile_dropWhile_id [of "\<lambda>c. c \<noteq> 47" r] by metis
  have "r @ p = l @ (t @ u @ p)" using w r by simp
  then have "takeWhile (\<lambda>c. c \<notin> {47, 63, 35}) (r @ p) = l @ takeWhile (\<lambda>c. c \<notin> {47, 63, 35}) (t @ u @ p)"
    using ok by (simp only:) (simp add: takeWhile_append)
  moreover have "takeWhile (\<lambda>c. c \<notin> {47, 63, 35}) (t @ u @ p) = [] \<or> hd (takeWhile (\<lambda>c. c \<notin> {47, 63, 35}) (t @ u @ p)) = 58"
    using t u assms(3) by (cases t; cases u; cases p) auto
  ultimately show "like l (takeWhile (\<lambda>c. c \<notin> {47, 63, 35}) (r @ p))" by (simp only: like_append [OF no58])
qed

lemma guarded_target:
  assumes "guard_host url \<in> set exempt_hosts" and "http_target (url @ submit_path) = Some (lit ''http'', h)"
  shows "like (lit ''localhost'') h \<or> like (lit ''127.0.0.1'') h"
proof -
  let ?netloc = "\<lambda>rest. takeWhile (\<lambda>c. c \<notin> {47, 63, 35}) (drop 2 rest)"
  from assms(2) obtain scheme rest where u: "partition_on 58 (url @ submit_path) = (scheme, True, rest)"
    and http: "lower scheme = lit ''http''" and "starts [47, 47] rest" and dial: "dial_name (unquote (?netloc rest)) = Some h"
    by (auto simp: http_target_def split: prod.splits if_splits)
  then obtain r where rest: "rest = 47 # 47 # r" by (auto simp: starts_iff)
  from partition_onD [OF u] rest have U: "url @ submit_path = scheme @ 58 # 47 # 47 # r" and no58: "58 \<notin> set scheme" by auto
  have p: "submit_path = 47 # tl submit_path" "58 \<notin> set submit_path" "hd submit_path = 47"
    by (simp_all add: submit_path_def lit_def)
  define g where "g = guard_host url"
  from U p(2) have "58 \<in> set url" by (metis Un_iff in_set_conv_decomp set_append)
  then obtain a b where url: "url = a @ 58 # b" and a: "58 \<notin> set a" by (meson split_list_first)
  from U url have "a @ 58 # (b @ submit_path) = scheme @ 58 # (47 # 47 # r)" by simp
  with a no58 have a: "a = scheme" and b: "b @ submit_path = 47 # 47 # r" by (metis dropWhile_mark takeWhile_mark list.inject)+
  have len: "length scheme = 4" using arg_cong [OF http, of length] by (simp add: lower_def)
  have short: "length g \<noteq> 4" if "g \<in> set exempt_hosts" for g
    using that by (auto simp: exempt_hosts_def)
  have slash: "47 \<notin> set scheme"
  proof
    assume "47 \<in> set scheme"
    then have "lower_char 47 \<in> set (lower scheme)" by (simp add: lower_def)
    then show False by (simp add: http) (simp add: lit_def lower_char_def is_upper_def)
  qed
  from b consider r' where "b = 47 # 47 # r'" "r = r' @ submit_path" | "b = []" | "b = [47]"
    by (cases b; cases "tl b") auto
  then show ?thesis
  proof cases
    case 1
    then have "behind_scheme url = Some r'" using behind_scheme_first [of scheme] no58 url a by simp
    then have g: "takeWhile (\<lambda>c. c \<noteq> 58) (takeWhile (\<lambda>c. c \<noteq> 47) r') = g" by (simp add: g_def guard_host_def)
    note like = netloc_like [OF g assms(1) [folded g_def] p(3)]
    from like(1) obtain t where t: "?netloc rest = g @ t" "t = [] \<or> hd t = 58" "58 \<notin> set g"
      using 1(2) rest by (auto elim: likeE)
    have "unquote t = [] \<or> hd (unquote t) = 58"
      using t(2) by (cases t) (auto simp: unquote_Cons unquote.simps [of "[]"])
    then have "like g (unquote (?netloc rest))"
      unfolding t(1) unquote_append [OF like(2)] by (rule like_append [OF t(3)])
    from dial_like [OF this like(3,4) dial] have "like g h" .
    moreover have "g = lit ''localhost'' \<or> g = lit ''127.0.0.1''"
      using assms(1) t(3) by (auto simp: exempt_hosts_def g_def lit_def)
    ultimately show ?thesis by auto
  next
    case 2
    with b p show ?thesis by (simp add: submit_path_def lit_def)
  next
    case 3
    then have "guard_host url = takeWhile (\<lambda>c. c \<noteq> 58) (takeWhile (\<lambda>c. c \<noteq> 47) (scheme @ [58, 47]))"
      using behind_scheme_None [OF no58] url a by (simp add: guard_host_def)
    also have "\<dots> = scheme" using slash no58 by (simp add: takeWhile_append takeWhile_eq_all_conv)
    finally show ?thesis using short [OF assms(1)] len by simp
  qed
qed

lemma https_target:
  assumes "starts (lit ''https://'') url" and "http_target (url @ p) = Some (s, h)"
  shows "s = lit ''https''"
proof -
  from assms(1) obtain t where "url = lit ''https://'' @ t" by (auto simp: starts_iff)
  then have "url @ p = lit ''https'' @ 58 # 47 # 47 # t @ p" by (simp add: lit_def)
  moreover have "partition_on 58 (lit ''https'' @ 58 # x) = (lit ''https'', True, x)" for x by (simp add: lit_def)
  moreover have "lower (lit ''https'') = lit ''https''" by (simp add: lower_def lower_char_def lit_def is_upper_def)
  ultimately show ?thesis using assms(2) by (auto simp: http_target_def split: if_splits)
qed

section \<open>Properties\<close>

text \<open>
  C25: where an API key goes. A submission makes one request at most; its body parses back to the document
  and the source, its Authorization header carries the key as a bearer token, and the connection that
  \<open>urllib\<close> opens for its URL is TLS unless the host it dials is \<open>localhost\<close> or \<open>127.0.0.1\<close> up to a
  colon (and no other host name has a colon). Redirects and proxies are not covered.
\<close>

theorem submit_confined:
  assumes "submit_template urlopen document console_url key source = (reqs, result)" and "req \<in> set reqs"
    and "wf_json document" and "wf_str source"
  shows "reqs = [req] \<and> result = submit_answer console_url (urlopen req) \<and>
         loads_bytes (rq_body req) = Inr (JObj [(lit ''document'', document), (lit ''source'', JStr source)]) \<and>
         map_of (rq_headers req) (lit ''Authorization'') = Some (lit ''Bearer '' @ key) \<and>
         (\<forall>scheme h. http_target (rq_url req) = Some (scheme, h) \<longrightarrow>
            scheme = lit ''https'' \<or> takeWhile (\<lambda>c. c \<noteq> 58) h \<in> {lit ''localhost'', lit ''127.0.0.1''})"
proof -
  from assms(1,2) have guard: "\<not> transport_refused console_url"
    and req: "reqs = [req]" "result = submit_answer console_url (urlopen req)" "rq_url req = console_url @ submit_path"
      "rq_body req = dumps_bytes spaced (JObj [(lit ''document'', document), (lit ''source'', JStr source)])"
      "map_of (rq_headers req) (lit ''Authorization'') = Some (lit ''Bearer '' @ key)"
    by (auto simp: submit_template_def Let_def split: if_splits)
  have "wf_json (JObj [(lit ''document'', document), (lit ''source'', JStr source)])"
    using assms(3,4) by simp
  then have "loads_bytes (rq_body req) = Inr (JObj [(lit ''document'', document), (lit ''source'', JStr source)])"
    unfolding req(4) by (intro loads_dumps_bytes) simp_all
  moreover have "scheme = lit ''https'' \<or> takeWhile (\<lambda>c. c \<noteq> 58) h \<in> {lit ''localhost'', lit ''127.0.0.1''}"
    if t: "http_target (rq_url req) = Some (scheme, h)" for scheme h
  proof -
    have "scheme = lit ''http'' \<or> scheme = lit ''https''"
      using t by (auto simp: http_target_def split: prod.splits if_splits)
    then show ?thesis
      using guard t guarded_target [of console_url h] https_target unfolding req(3) transport_refused_def like_def by auto
  qed
  ultimately show ?thesis using req by blast
qed

text \<open>The third exempt name is never the host of the guard: it has a colon.\<close>

lemma ipv6_never_exempt: "guard_host url \<noteq> lit ''::1''"
proof -
  have "58 \<notin> set (guard_host url)" by (auto simp: guard_host_def Let_def dest: set_takeWhileD)
  moreover have "58 \<in> set (lit ''::1'')" by (simp add: lit_def)
  ultimately show ?thesis by metis
qed

lemma demo_guard: "\<not> transport_refused (lit ''http://localhost:3000'')"
  by (simp add: transport_refused_def guard_host_def exempt_hosts_def) (simp add: lit_def starts_def)

theorem submit_confined_witness:
  "\<exists>req. submit_template (\<lambda>_. Response (dumps_bytes spaced (JObj []))) (JObj []) (lit ''http://localhost:3000'')
           (lit ''hx_k'') (lit ''cli'') = ([req], Inr (JObj [])) \<and>
     loads_bytes (rq_body req) = Inr (JObj [(lit ''document'', JObj []), (lit ''source'', JStr (lit ''cli''))])"
proof -
  let ?run = "submit_template (\<lambda>_. Response (dumps_bytes spaced (JObj []))) (JObj []) (lit ''http://localhost:3000'')
      (lit ''hx_k'') (lit ''cli'')"
  obtain req where r: "fst ?run = [req]" using demo_guard by (simp add: submit_template_def)
  then have run: "?run = ([req], snd ?run)" by (metis prod.collapse)
  have "loads_bytes (dumps_bytes spaced (JObj [])) = Inr (JObj [])" by (rule loads_dumps_bytes) simp_all
  with submit_confined [OF run, of req] show ?thesis
    by (intro exI [of _ req]) (use run in \<open>simp add: submit_answer_def\<close>)
qed

end
