(* ===== verification/Extract.thy ===== *)
theory Extract
  imports Template
begin

text \<open>
  \<open>extract.py\<close>: drafting a template from a list of tool names or an MCP \<open>tools/list\<close> answer. The
  reasons of refusals are a datatype with the values their texts interpolate.
\<close>

section \<open>Names\<close>

text \<open>\<open>re.sub(r"(?<=[a-z0-9])(?=[A-Z])", "_", text)\<close>.\<close>

fun snake_case :: "pystr \<Rightarrow> pystr" where
  "snake_case (c # d # s) =
     (if (is_lower c \<or> is_digit c) \<and> is_upper d then c # 95 # snake_case (d # s) else c # snake_case (d # s))"
| "snake_case s = s"

text \<open>\<open>re.sub(r"[^A-Za-z0-9]+", "_", s)\<close>; the flag says that a run is being replaced.\<close>

fun fold_other :: "bool \<Rightarrow> pystr \<Rightarrow> pystr" where
  "fold_other run [] = []"
| "fold_other run (c # s) =
     (if is_alnum c then c # fold_other False s else (if run then [] else [95]) @ fold_other True s)"

definition strip_char :: "nat \<Rightarrow> pystr \<Rightarrow> pystr" where
  "strip_char x s = rev (dropWhile (\<lambda>c. c = x) (rev (dropWhile (\<lambda>c. c = x) s)))"

definition normalize_segment :: "pystr \<Rightarrow> pystr" where
  "normalize_segment s =
     join_with [95] (find_runs id_char (lower (strip_char 95 (fold_other False (snake_case s)))))"

section \<open>Inference\<close>

definition read_prefixes :: "pystr list" where
  "read_prefixes = map lit [''get'', ''list'', ''read'', ''fetch'', ''search'', ''query'', ''find'', ''lookup'',
     ''describe'', ''show'', ''count'', ''check'', ''view'']"

definition write_prefixes :: "pystr list" where
  "write_prefixes = map lit [''create'', ''add'', ''update'', ''set'', ''put'', ''post'', ''delete'', ''remove'',
     ''insert'', ''patch'', ''write'', ''upsert'', ''assign'', ''invite'', ''send'', ''archive'']"

definition execute_prefixes :: "pystr list" where
  "execute_prefixes = map lit [''run'', ''execute'', ''invoke'', ''trigger'', ''start'', ''stop'', ''call'']"

definition refused_verbs :: "pystr list" where
  "refused_verbs = map lit [''refund'', ''transfer'', ''payout'', ''wire'', ''payment'', ''payments'']"

datatype verb_action = ActRead | ActWrite | ActExecute

fun action_name :: "verb_action \<Rightarrow> pystr" where
  "action_name ActRead = lit ''read''"
| "action_name ActWrite = lit ''write''"
| "action_name ActExecute = lit ''execute''"

fun risk_for_action :: "verb_action \<Rightarrow> pystr" where
  "risk_for_action ActRead = lit ''read_public''"
| "risk_for_action ActWrite = lit ''write_internal''"
| "risk_for_action ActExecute = lit ''write_internal''"

definition infer_actions :: "pystr \<Rightarrow> verb_action \<times> bool" where
  "infer_actions name =
     (let head = hd (split_on 95 (normalize_segment name)) in
      if head \<in> set read_prefixes then (ActRead, True)
      else if head \<in> set write_prefixes then (ActWrite, True)
      else if head \<in> set execute_prefixes then (ActExecute, True)
      else (ActRead, False))"

section \<open>Reports\<close>

datatype refusal = EmptySegment | PrivilegedVerb "pystr list" | DuplicateId pystr | NoNameField

record report =
  rp_tools :: "json list"
  refused :: "(pystr \<times> refusal) list"
  inferred_actions :: "pystr list"
  unknown_verbs :: "pystr list"
  normalized :: "(pystr \<times> pystr) list"

definition empty_report :: report where
  "empty_report = \<lparr>rp_tools = [], refused = [], inferred_actions = [], unknown_verbs = [], normalized = []\<rparr>"

definition needs_review :: "report \<Rightarrow> bool" where
  "needs_review r \<longleftrightarrow> refused r \<noteq> [] \<or> unknown_verbs r \<noteq> [] \<or> normalized r \<noteq> []"

definition refuse :: "pystr \<Rightarrow> refusal \<Rightarrow> report \<Rightarrow> report" where
  "refuse raw why r = r\<lparr>refused := refused r @ [(raw, why)]\<rparr>"

definition drafted_tool :: "pystr \<Rightarrow> verb_action \<Rightarrow> json" where
  "drafted_tool tid a =
     JObj [(lit ''id'', JStr tid), (lit ''actions'', JArr [JStr (action_name a)]), (lit ''risk'', JStr (risk_for_action a))]"

text \<open>One name of the loop: the ids seen so far and the report go along.\<close>

definition extract_name :: "pystr \<Rightarrow> pystr \<Rightarrow> pystr list \<times> report \<Rightarrow> pystr list \<times> report" where
  "extract_name ns raw st =
     (case st of (seen, rep) \<Rightarrow>
        (let seg = normalize_segment raw in
         if seg = [] then (seen, refuse raw EmptySegment rep)
         else
           let verbs = filter (\<lambda>w. w \<in> set (split_on 95 seg)) refused_verbs in
           if verbs \<noteq> [] then (seen, refuse raw (PrivilegedVerb (sort verbs)) rep)
           else
             let tid = ns @ [46] @ seg in
             if tid \<in> set seen then (seen, refuse raw (DuplicateId tid) rep)
             else
               let rep1 = (if seg \<noteq> raw then rep\<lparr>normalized := normalized rep @ [(raw, tid)]\<rparr> else rep);
                   (a, inferred) = infer_actions raw;
                   rep2 = (if inferred then rep1\<lparr>inferred_actions := inferred_actions rep1 @ [raw]\<rparr>
                           else rep1\<lparr>unknown_verbs := unknown_verbs rep1 @ [raw]\<rparr>)
               in (seen @ [tid], rep2\<lparr>rp_tools := rp_tools rep2 @ [drafted_tool tid a]\<rparr>)))"

definition extract_from_names :: "pystr list \<Rightarrow> pystr \<Rightarrow> report \<Rightarrow> exn + report" where
  "extract_from_names names namespace rep =
     (let ns = normalize_segment namespace in
      if ns = [] then Inl (ExtractError (NamespaceEmpty namespace))
      else Inr (snd (fold (extract_name ns) names ([], rep))))"

section \<open>MCP answers\<close>

text \<open>\<open>node.get(k, node)\<close> on a dictionary.\<close>

definition node_get :: "string \<Rightarrow> json \<Rightarrow> exn + json" where
  "node_get k j = (case j of JObj kvs \<Rightarrow> Inr (get (lit k) j kvs) | _ \<Rightarrow> Inl AttributeError)"

text \<open>The loop over the entries: the names, and the report of the entries without one.\<close>

definition mcp_entry :: "json \<Rightarrow> pystr list \<times> report \<Rightarrow> pystr list \<times> report" where
  "mcp_entry e st =
     (case st of (names, rep) \<Rightarrow>
        (let skip_entry = (names, refuse (take 60 (dumps spaced e)) NoNameField rep) in
         case e of
           JStr s \<Rightarrow> (names @ [s], rep)
         | JObj kvs \<Rightarrow> (case get (lit ''name'') JNull kvs of JStr s \<Rightarrow> (names @ [s], rep) | _ \<Rightarrow> skip_entry)
         | _ \<Rightarrow> skip_entry))"

definition extract_from_mcp_tools_list :: "json \<Rightarrow> pystr \<Rightarrow> exn + report" where
  "extract_from_mcp_tools_list payload namespace =
     (case (case payload of
              JObj kvs \<Rightarrow> (case node_get ''result'' payload of Inl e \<Rightarrow> Inl e | Inr node \<Rightarrow> node_get ''tools'' node)
            | _ \<Rightarrow> Inr payload) of
        Inl e \<Rightarrow> Inl e
      | Inr (JArr entries) \<Rightarrow>
          (case fold mcp_entry entries ([], empty_report) of
             (names, rep) \<Rightarrow>
               if names = [] \<and> refused rep = [] then Inl (ExtractError ToolsArrayEmpty)
               else extract_from_names names namespace rep)
      | Inr _ \<Rightarrow> Inl (ExtractError NoToolsArray))"

section \<open>Templates\<close>

definition draft :: "report \<Rightarrow> pystr \<Rightarrow> pystr \<Rightarrow> pystr \<Rightarrow> json" where
  "draft rep name version framework =
     JObj [(lit ''template'', JStr template_header), (lit ''name'', JStr name), (lit ''version'', JStr version),
           (lit ''framework'', JObj [(lit ''kind'', JStr framework)]), (lit ''tools'', JArr (rp_tools rep))]"

definition build_template :: "report \<Rightarrow> pystr \<Rightarrow> pystr \<Rightarrow> pystr \<Rightarrow> exn + json" where
  "build_template rep name version framework =
     (if rp_tools rep = [] then Inl (ExtractError NothingExtractable)
      else if framework \<notin> set frameworks then Inl (ExtractError (FrameworkNotAccepted framework))
      else case validate_v1 (draft rep name version framework) of
          Inl e \<Rightarrow> Inl e
        | Inr errs \<Rightarrow> if errs \<noteq> [] then Inl (ExtractError (ExtractedInvalid errs))
                       else Inr (draft rep name version framework))"

section \<open>Normalised names\<close>

lemma snake_case_set: "set (snake_case s) \<subseteq> insert 95 (set s)"
  by (induction s rule: snake_case.induct) auto

lemma fold_other_set: "c \<in> set (fold_other run s) \<Longrightarrow> is_alnum c \<or> c = 95"
  by (induction s arbitrary: run) (auto split: if_splits)

lemma strip_char_set: "set (strip_char x s) \<subseteq> set s"
  by (auto simp: strip_char_def dest!: set_dropWhileD)

lemma lower_id_char: "is_alnum c \<or> c = 95 \<Longrightarrow> id_char (lower_char c)"
  by (auto simp: is_alnum_def id_char_def lower_char_def ascii_classes)

lemma normalize_chars:
  shows normalize_segment_eq: "normalize_segment s = lower (strip_char 95 (fold_other False (snake_case s)))"
    and normalize_segment_chars: "c \<in> set (normalize_segment s) \<Longrightarrow> id_char c"
proof -
  let ?t = "lower (strip_char 95 (fold_other False (snake_case s)))"
  have t: "\<forall>c \<in> set ?t. id_char c"
    using strip_char_set [of 95 "fold_other False (snake_case s)"] fold_other_set lower_id_char
    by (fastforce simp: lower_def)
  then show "normalize_segment s = ?t" by (simp add: normalize_segment_def find_runs_all)
  with t show "c \<in> set (normalize_segment s) \<Longrightarrow> id_char c" by simp
qed

section \<open>What is drafted validates\<close>

lemma id_char_not_dot: "id_char c \<Longrightarrow> c \<noteq> 46"
  by (auto simp: id_char_def ascii_classes)

lemma drafted_id:
  assumes "\<forall>c \<in> set ns. id_char c" and "\<forall>c \<in> set seg. id_char c" and "ns \<noteq> []" and "seg \<noteq> []"
  shows "split_on 46 (ns @ 46 # seg) = [ns, seg]" and "tool_id_re (ns @ 46 # seg)" and "isascii (ns @ 46 # seg)"
proof -
  from assms(1,2) id_char_not_dot have "46 \<notin> set ns" "46 \<notin> set seg" by blast+
  then show s: "split_on 46 (ns @ 46 # seg) = [ns, seg]" by (simp add: split_on_append)
  from assms show "tool_id_re (ns @ 46 # seg)" by (simp add: tool_id_re_def s)
  have "id_char c \<Longrightarrow> c < 128" for c by (auto simp: id_char_def ascii_classes)
  with assms(1,2) show "isascii (ns @ 46 # seg)" by (auto simp: isascii_def)
qed

lemma verbs_refused:
  assumes "filter (\<lambda>w. w \<in> set (split_on 95 seg)) refused_verbs = []"
  shows "seg \<notin> set privileged_suffixes"
proof
  assume "seg \<in> set privileged_suffixes"
  then have v: "seg \<in> set refused_verbs" by (simp add: privileged_suffixes_def refused_verbs_def)
  moreover have "95 \<notin> set seg" using v by (auto simp: refused_verbs_def lit_def)
  then have "seg \<in> set (split_on 95 seg)" by (simp add: split_on_append)
  ultimately show False using assms by (auto simp: filter_empty_conv)
qed

lemma drafted_ok:
  assumes "tool_id_re tid" and "isascii tid" and "last (split_on 46 tid) \<notin> set privileged_suffixes"
  shows "tool_ok JNull (drafted_tool tid a) tid"
proof -
  have "risk_for_action a \<noteq> lit ''move_money''" "risk_for_action a \<in> set risk_enum" "action_name a \<in> set actions_enum"
    by (cases a; simp add: risk_enum_def actions_enum_def)+
  with assms show ?thesis
    by (auto simp: tool_ok_def drafted_tool_def intro!: exI [of _ "[action_name a]"])
qed

lemma harmless_tool: "\<not> claims_authority (drafted_tool tid a)"
  using harmless_keys by (auto simp: drafted_tool_def harmless_def)

text \<open>The invariant of the loop: the tools drafted so far are valid under the ids seen.\<close>

definition drafted :: "pystr list \<Rightarrow> report \<Rightarrow> bool" where
  "drafted seen rep \<longleftrightarrow>
     list_all2 (\<lambda>t s. tool_ok JNull t s \<and> (\<exists>a. t = drafted_tool s a)) (rp_tools rep) seen \<and> distinct seen"

lemma extract_name_drafted:
  assumes "drafted seen rep" and "\<forall>c \<in> set ns. id_char c" and "ns \<noteq> []"
    and "extract_name ns raw (seen, rep) = (seen', rep')"
  shows "drafted seen' rep'"
proof -
  let ?seg = "normalize_segment raw"
  consider (same) "rp_tools rep' = rp_tools rep" "seen' = seen"
    | (new) a where "rp_tools rep' = rp_tools rep @ [drafted_tool (ns @ 46 # ?seg) a]" "seen' = seen @ [ns @ 46 # ?seg]"
        "?seg \<noteq> []" "filter (\<lambda>w. w \<in> set (split_on 95 ?seg)) refused_verbs = []" "ns @ 46 # ?seg \<notin> set seen"
    using assms(4) by (auto simp: extract_name_def Let_def refuse_def split: if_splits prod.splits)
  then show ?thesis
  proof cases
    case same
    with assms(1) show ?thesis by (simp add: drafted_def)
  next
    case new
    have seg: "\<forall>c \<in> set ?seg. id_char c" using normalize_segment_chars by blast
    note ids = drafted_id [OF assms(2) seg assms(3) new(3)]
    have "tool_ok JNull (drafted_tool (ns @ 46 # ?seg) a) (ns @ 46 # ?seg)"
      using drafted_ok [OF ids(2,3)] verbs_refused [OF new(4)] ids(1) by simp
    with new assms(1) show ?thesis by (auto simp: drafted_def intro!: list_all2_appendI)
  qed
qed

lemma extract_loop_drafted:
  assumes "\<forall>c \<in> set ns. id_char c" and "ns \<noteq> []"
  shows "drafted seen rep \<Longrightarrow> drafted (fst (fold (extract_name ns) names (seen, rep))) (snd (fold (extract_name ns) names (seen, rep)))"
proof (induction names arbitrary: seen rep)
  case Nil
  then show ?case by simp
next
  case (Cons raw names)
  obtain seen' rep' where e: "extract_name ns raw (seen, rep) = (seen', rep')" by force
  from extract_name_drafted [OF Cons.prems assms e] Cons.IH e show ?case by simp
qed

lemma extract_from_names_drafted:
  assumes "extract_from_names names namespace rep = Inr rep'" and "rp_tools rep = []"
  shows "\<exists>seen. drafted seen rep'"
proof -
  have "drafted [] rep" using assms(2) by (simp add: drafted_def)
  with assms(1) extract_loop_drafted [of "normalize_segment namespace" "[]" rep names] normalize_segment_chars
  show ?thesis by (auto simp: extract_from_names_def Let_def split: if_splits)
qed

lemma mcp_entry_tools: "rp_tools (snd (fold mcp_entry es (names, rep))) = rp_tools rep"
proof (induction es arbitrary: names rep)
  case (Cons e es)
  obtain names' rep' where e: "mcp_entry e (names, rep) = (names', rep')" by force
  then have "rp_tools rep' = rp_tools rep"
    by (auto simp: mcp_entry_def Let_def refuse_def split: json.splits)
  with Cons e show ?case by simp
qed simp

lemma extract_from_mcp_drafted:
  assumes "extract_from_mcp_tools_list payload namespace = Inr rep"
  shows "\<exists>seen. drafted seen rep"
proof -
  from assms obtain entries names rep1 where f: "fold mcp_entry entries ([], empty_report) = (names, rep1)"
    and e: "extract_from_names names namespace rep1 = Inr rep"
    by (auto simp: extract_from_mcp_tools_list_def split: sum.splits json.splits prod.splits if_splits)
  from mcp_entry_tools [of entries "[]" empty_report] f have "rp_tools rep1 = []" by (simp add: empty_report_def)
  with extract_from_names_drafted [OF e] show ?thesis by blast
qed

lemma drafted_validates:
  assumes "drafted seen rep" and "rp_tools rep \<noteq> []" and "name_re name" and "version_re version"
    and "framework \<in> set frameworks"
  shows "validate_v1 (draft rep name version framework) = Inr []"
proof -
  let ?doc = "[(lit ''template'', JStr template_header), (lit ''name'', JStr name), (lit ''version'', JStr version),
           (lit ''framework'', JObj [(lit ''kind'', JStr framework)]), (lit ''tools'', JArr (rp_tools rep))]"
  have "\<not> claims_authority t" if "t \<in> set (rp_tools rep)" for t
    using assms(1) that harmless_tool by (auto simp: drafted_def in_set_conv_nth list_all2_conv_all_nth)
  then have "\<not> claims_authority (JObj ?doc)" using harmless_keys by (auto simp: harmless_def)
  then have "root_errors ?doc = Inr []"
    unfolding root_errors_Nil using assms(3-5)
    by (simp add: get_def required_top_def top_keys_def in_names_def)
  moreover have "list_all2 (tool_ok JNull) (rp_tools rep) seen" "distinct seen"
    using assms(1) by (auto simp: drafted_def elim: list_all2_mono)
  ultimately show ?thesis
    unfolding validate_Nil draft_def using assms(2) by (fastforce simp: get_def constraint_errors_def)
qed

text \<open>
  C22: the extractor never drafts an invalid template. From a report of \<open>extract_from_names\<close> (on an
  empty report) or \<open>extract_from_mcp_tools_list\<close> that drafted any tool, \<open>build_template\<close> returns,
  for every valid name and version and every accepted framework, a document that validates; the
  branch that calls an invalid draft a bug of the extractor is not taken. No drafted tool has the
  risk \<open>move_money\<close> or \<open>admin\<close>.
\<close>

theorem extracted_template_valid:
  assumes "extract_from_names names namespace empty_report = Inr rep \<or> extract_from_mcp_tools_list payload namespace = Inr rep"
    and "rp_tools rep \<noteq> []" and "name_re name" and "version_re version" and "framework \<in> set frameworks"
  shows "build_template rep name version framework = Inr (draft rep name version framework) \<and>
         validate_v1 (draft rep name version framework) = Inr [] \<and>
         (\<forall>t \<in> set (rp_tools rep). \<exists>tid a. t = drafted_tool tid a \<and>
            risk_for_action a \<notin> {lit ''move_money'', lit ''admin''})"
proof -
  have "\<exists>seen. drafted seen rep"
    using assms(1) extract_from_names_drafted extract_from_mcp_drafted by (auto simp: empty_report_def)
  then obtain seen where d: "drafted seen rep" ..
  from drafted_validates [OF d assms(2-5)] have v: "validate_v1 (draft rep name version framework) = Inr []" .
  moreover from v assms(2,5) have "build_template rep name version framework = Inr (draft rep name version framework)"
    by (simp add: build_template_def)
  moreover have "risk_for_action a \<notin> {lit ''move_money'', lit ''admin''}" for a by (cases a) auto
  ultimately show ?thesis
    using d by (auto simp: drafted_def in_set_conv_nth list_all2_conv_all_nth) metis
qed

lemma demo_segments: "normalize_segment (lit ''m'') = lit ''m''" "normalize_segment (lit ''get'') = lit ''get''"
  by (simp_all add: normalize_segment_eq lit_def is_alnum_def ascii_classes strip_char_def lower_def lower_char_def)

lemma demo_draft:
  obtains rep where "extract_from_names [lit ''get''] (lit ''m'') empty_report = Inr rep" and "rp_tools rep \<noteq> []"
    and "name_re (lit ''a'')" and "version_re (lit ''1.0.0'')" and "lit ''crewai'' \<in> set frameworks"
    and "validate_v1 (draft rep (lit ''a'') (lit ''1.0.0'') (lit ''crewai'')) = Inr []"
proof -
  have w: "split_on 95 (lit ''get'') = [lit ''get'']" by (rule split_on_append) (simp add: lit_def)
  obtain rep where rep: "extract_from_names [lit ''get''] (lit ''m'') empty_report = Inr rep" "rp_tools rep \<noteq> []"
    by (simp add: extract_from_names_def extract_name_def demo_segments refused_verbs_def infer_actions_def
        empty_report_def Let_def w split: prod.splits)
  have name: "name_re (lit ''a'')" by (simp add: name_re_def lit_def ascii_classes)
  have "is_decimal 48" "is_decimal 49" by (simp_all add: is_decimal_def digit_runs_def)
  then have version: "version_re (lit ''1.0.0'')" by (simp add: version_re_def lit_def)
  have kind: "lit ''crewai'' \<in> set frameworks" by (simp add: frameworks_def)
  obtain seen where "drafted seen rep" using extract_from_names_drafted [OF rep(1)] by (auto simp: empty_report_def)
  from that rep name version kind drafted_validates [OF this rep(2) name version kind] show thesis by blast
qed

theorem extracted_template_valid_witness:
  "\<exists>rep. extract_from_names [lit ''get''] (lit ''m'') empty_report = Inr rep \<and>
     build_template rep (lit ''a'') (lit ''1.0.0'') (lit ''crewai'') = Inr (draft rep (lit ''a'') (lit ''1.0.0'') (lit ''crewai''))"
  using extracted_template_valid [of "[lit ''get'']" "lit ''m''"] by (metis demo_draft)

end
