(* ===== verification/Source_Bundle.thy ===== *)
theory Source_Bundle
  imports Errors "HOL-Library.List_Lexorder"
begin

text \<open>
  \<open>source_bundle.py\<close>: packing an uploaded source ZIP into one executable archive without running it.
  Arguments of the model: the interpreter (its standard-library names, \<open>str.isidentifier\<close> and what
  \<open>ast.parse\<close> finds), \<open>zipfile\<close> as a reader of members, the archive writer and SHA-256.
\<close>

section \<open>Limits and names\<close>

definition max_source_bytes :: nat where "max_source_bytes = 32 * 1024 * 1024"
definition max_member_bytes :: nat where "max_member_bytes = 8 * 1024 * 1024"
definition max_entries :: nat where "max_entries = 1024"
definition sdk_version :: pystr where "sdk_version = lit ''0.1.17''"
definition python_version :: pystr where "python_version = lit ''3.10''"

definition sdk_files :: "pystr list" where
  "sdk_files = map lit [''__init__.py'', ''_binary.py'', ''agent.py'', ''auth_ipc.py'', ''egress.py'', ''errors.py'',
     ''ipc.py'', ''mcp_caller.py'', ''pipe_win.py'']"

definition build_record :: pystr where "build_record = lit ''_hawcx_build.json''"
definition main_file :: pystr where "main_file = lit ''__main__.py''"
definition sdk_package :: pystr where "sdk_package = lit ''hawcx_haap''"

definition text_suffixes :: "pystr list" where
  "text_suffixes = map lit ['''', ''.py'', ''.txt'', ''.md'', ''.json'', ''.toml'', ''.yaml'', ''.yml'', ''.csv'',
     ''.ini'', ''.cfg'']"

definition native_suffixes :: "pystr list" where
  "native_suffixes = map lit [''.so'', ''.pyd'', ''.dylib'']"

definition bytecode_suffixes :: "pystr list" where
  "bytecode_suffixes = map lit [''.pyc'', ''.pyo'']"

text \<open>The interpreter: \<open>sys.stdlib_module_names\<close>, \<open>str.isidentifier\<close>, and \<open>ast.parse\<close> with the parts of the
  tree that are looked at. Imports come in the order of \<open>ast.walk\<close>.\<close>

record py_function =
  fn_name :: pystr
  fn_decorated :: bool
  fn_positional :: nat
  fn_defaults :: nat
  fn_kw_defaults :: "bool list"            \<comment> \<open>whether each keyword-only argument has a default\<close>

datatype py_import = Import "pystr list" | ImportFrom "pystr option" nat

record py_module =
  top_functions :: "py_function list"
  imports_in :: "py_import list"

record python =
  stdlib_names :: "pystr list"
  is_identifier :: "pystr \<Rightarrow> bool"
  parse :: "bytes \<Rightarrow> py_module option"

section \<open>One member\<close>

record zip_info =
  filename :: pystr
  orig_filename :: pystr
  external_attr :: "32 word"
  flag_bits :: "16 word"
  compress_type :: nat
  file_size :: nat

definition is_dir :: "zip_info \<Rightarrow> bool" where
  "is_dir i \<longleftrightarrow> filename i \<noteq> [] \<and> last (filename i) = 47"

definition part_char :: "nat \<Rightarrow> bool" where
  "part_char c \<longleftrightarrow> is_alnum c \<or> c = 95 \<or> c = 46 \<or> c = 45"

definition bad_part :: "pystr \<Rightarrow> bool" where
  "bad_part p \<longleftrightarrow> p = [] \<or> p = [46] \<or> p = [46, 46] \<or> \<not> (\<forall>c \<in> set p. part_char c)"

definition trusted_name :: "python \<Rightarrow> pystr list \<Rightarrow> bool" where
  "trusted_name py parts \<longleftrightarrow>
     (let top = lower (hd (split_on 46 (hd parts))) in
      top = sdk_package \<or> top \<in> set (map lower (stdlib_names py)) \<or>
      (\<exists>p \<in> set parts. ends (lit ''.dist-info'') (lower p) \<or> ends (lit ''.egg-info'') (lower p)) \<or>
      lower (hd parts) = build_record)"

definition member_name :: "python \<Rightarrow> zip_info \<Rightarrow> exn + pystr" where
  "member_name py i =
     (let name = (if is_dir i then rstrip_of 47 (filename i) else filename i); parts = split_on 47 name in
      if orig_filename i \<noteq> filename i \<or> name = [] then Inl (BundleError MemberPath)
      else case utf8_encode name of
        None \<Rightarrow> Inl UnicodeError
      | Some encoded \<Rightarrow>
          if length encoded > 240 \<or> (\<exists>p \<in> set parts. bad_part p) then Inl (BundleError MemberPath)
          else if and (drop_bit 16 (external_attr i)) 0xF000 \<notin> {0, if is_dir i then 0x4000 else 0x8000}
          then Inl (BundleError MemberType)
          else if and (flag_bits i) 1 \<noteq> 0 \<or> compress_type i \<notin> {0, 8} then Inl (BundleError MemberCoding)
          else if trusted_name py parts then Inl (BundleError MemberShadowsTrusted)
          else Inr name)"

text \<open>A member: its directory entry, and what reading up to one byte more than the limit gives.\<close>

record zip_member =
  info :: zip_info
  content :: "exn + bytes"

fun read_members ::
  "python \<Rightarrow> zip_member list \<Rightarrow> (pystr \<times> bool) list \<Rightarrow> nat \<Rightarrow> (pystr \<times> bytes) list \<Rightarrow>
   exn + (pystr \<times> bool) list \<times> (pystr \<times> bytes) list"
where
  "read_members py [] seen expanded sources = Inr (seen, sources)"
| "read_members py (m # ms) seen expanded sources =
     chain (member_name py (info m)) (\<lambda>name.
       let key = lower name; seen1 = upd key (is_dir (info m)) seen; suffix = lower (path_suffix name) in
       if has_key key seen then Inl (BundleError NameCollision)
       else if is_dir (info m) then
         (if file_size (info m) \<noteq> 0 then Inl (BundleError DirectoryWithData)
          else read_members py ms seen1 expanded sources)
       else if suffix \<in> set native_suffixes \<or> suffix \<in> set bytecode_suffixes then Inl (BundleError NativeMember)
       else if suffix \<notin> set text_suffixes then Inl (BundleError UnsupportedResource)
       else
         let expanded1 = expanded + file_size (info m) in
         if file_size (info m) > max_member_bytes \<or> expanded1 > max_source_bytes
         then Inl (BundleError ExpandedTooLarge)
         else chain (content m) (\<lambda>data.
           if length data \<noteq> file_size (info m) \<or> length data > max_member_bytes
           then Inl (BundleError MemberSizeMismatch)
           else case utf8_decode data of
             None \<Rightarrow> Inl (BundleError MemberNotUtf8)
           | Some s \<Rightarrow>
               if 0 \<in> set s then Inl (BundleError NulInText)
               else read_members py ms seen1 expanded1 (upd name data sources)))"

text \<open>A path that is a file and a directory.\<close>

definition file_above :: "(pystr \<times> bool) list \<Rightarrow> bool" where
  "file_above seen \<longleftrightarrow>
     (\<exists>(name, _) \<in> set seen. let parts = split_on 47 name in
        \<exists>i \<in> set [1..<length parts]. map_of seen (join_with [47] (take i parts)) = Some False)"

section \<open>The uploaded file\<close>

definition from_le :: "bytes \<Rightarrow> nat" where "from_le bs = from_be (rev bs)"

definition rfind_at :: "bytes \<Rightarrow> nat \<Rightarrow> bytes \<Rightarrow> nat option" where
  "rfind_at pat lo raw =
     (let hits = filter (\<lambda>i. take (length pat) (drop i raw) = pat) [lo..<length raw]
      in if hits = [] then None else Some (last hits))"

text \<open>The end-of-central-directory record, \<open><4H2IH\<close> behind its signature.\<close>

definition check_end_record :: "bytes \<Rightarrow> exn + unit" where
  "check_end_record raw =
     (case rfind_at [0x50, 0x4B, 5, 6] (length raw - 65557) raw of
        None \<Rightarrow> Inl (BundleError ZipEndRecord)
      | Some end_at \<Rightarrow>
          if length raw - end_at < 22 then Inl (BundleError ZipEndRecord)
          else
            let field = (\<lambda>k n. from_le (take n (drop (end_at + 4 + k) raw)));
                disk = field 0 2; cd_disk = field 2 2; count = field 4 2; total = field 6 2;
                cd_size = field 8 4; cd_offset = field 12 4; comment = field 16 2
            in if disk \<noteq> 0 \<or> cd_disk \<noteq> 0 \<or> count \<noteq> total \<or> total > max_entries \<or> cd_size > 1024 * 1024 \<or>
                  cd_offset + cd_size \<noteq> end_at \<or> end_at + 22 + comment \<noteq> length raw
               then Inl (BundleError ZipLayout) else Inr ())"

text \<open>The file at the path: whether it is a symbolic link, and what opening it gives (whether it is
  regular, and its bytes).\<close>

record upload =
  up_path :: pystr
  up_symlink :: bool
  up_opened :: "exn + bool \<times> bytes"

definition read_sources :: "python \<Rightarrow> (bytes \<Rightarrow> exn + zip_member list) \<Rightarrow> upload \<Rightarrow> exn + (pystr \<times> bytes) list" where
  "read_sources py zip_read u =
     (if lower (path_suffix (up_path u)) \<in> set bytecode_suffixes then Inl (BundleError BareBytecode)
      else if up_symlink u then Inl (BundleError ZipSymlink)
      else chain (up_opened u) (\<lambda>(regular, bytes).
        let raw = take (max_source_bytes + 1) bytes in
        if \<not> regular then Inl (BundleError ZipNotRegular)
        else if length raw > max_source_bytes then Inl (BundleError ZipTooLarge)
        else chain (check_end_record raw) (\<lambda>_.
          chain (zip_read raw) (\<lambda>entries.
            if length entries > max_entries then Inl (BundleError ZipTooManyEntries)
            else chain (read_members py entries [] 0 []) (\<lambda>(seen, sources).
              if file_above seen then Inl (BundleError FileAndDirectory) else Inr sources)))))"

section \<open>The entry point\<close>

definition main_text :: "pystr \<Rightarrow> pystr \<Rightarrow> pystr" where
  "main_text module fn =
     lit ''# -*- coding: utf-8 -*-'' @ [10] @ lit ''import '' @ module @ [10] @
     lit ''raise SystemExit('' @ module @ [46] @ fn @ lit ''())'' @ [10]"

definition identifier_parts :: "python \<Rightarrow> pystr \<Rightarrow> bool" where
  "identifier_parts py s \<longleftrightarrow> (\<forall>p \<in> set (split_on 46 s). is_identifier py p \<and> p \<notin> set py_keywords)"

definition callable_bare :: "py_function \<Rightarrow> bool" where
  "callable_bare f \<longleftrightarrow> \<not> fn_decorated f \<and> fn_positional f \<le> fn_defaults f \<and> list_all id (fn_kw_defaults f)"

definition entrypoint :: "python \<Rightarrow> (pystr \<times> bytes) list \<Rightarrow> pystr option \<Rightarrow> exn + (pystr \<times> bytes) list" where
  "entrypoint py sources main =
     (case main of
        None \<Rightarrow> if has_key main_file sources then Inr sources else Inl (BundleError NoEntryPoint)
      | Some spec \<Rightarrow>
          (case partition_on 58 spec of
             (module, sep, fn) \<Rightarrow>
               if length spec > 240 \<or> \<not> sep \<or> module = [] \<or> fn = [] \<or> 46 \<in> set fn \<or>
                  \<not> (identifier_parts py module \<and> identifier_parts py fn)
               then Inl (BundleError BadMainSpec)
               else if has_key main_file sources then Inl (BundleError TwoEntryPoints)
               else
                 let path = map (\<lambda>c. if c = 46 then 47 else c) module;
                     plain_py = path @ lit ''.py''; init_py = path @ lit ''/__init__.py'' in
                 (case (if has_key plain_py sources then map_of sources plain_py else map_of sources init_py) of
                    None \<Rightarrow> Inl (BundleError MainModuleMissing)
                  | Some data \<Rightarrow>
                      (case parse py data of
                         None \<Rightarrow> Inl (BundleError MainSyntax)
                       | Some tree \<Rightarrow>
                           (case find (\<lambda>f. fn_name f = fn) (top_functions tree) of
                              None \<Rightarrow> Inl (BundleError MainNotCallable)
                            | Some f \<Rightarrow>
                                if \<not> callable_bare f then Inl (BundleError MainNotCallable)
                                else (case utf8_encode (main_text module fn) of
                                        None \<Rightarrow> Inl UnicodeError
                                      | Some bytes \<Rightarrow> Inr (upd main_file bytes sources)))))))"

section \<open>The imports\<close>

definition without_suffix :: "pystr \<Rightarrow> pystr \<Rightarrow> pystr" where
  "without_suffix p s = (if ends p s \<and> p \<noteq> [] then take (length s - length p) s else s)"

definition import_names :: "py_import \<Rightarrow> pystr list" where
  "import_names n =
     (case n of
        Import names \<Rightarrow> names
      | ImportFrom module level \<Rightarrow> if level = 0 then (case module of Some m \<Rightarrow> [m] | None \<Rightarrow> []) else [])"

definition check_module :: "pystr list \<Rightarrow> pystr \<Rightarrow> pystr \<Rightarrow> exn + unit" where
  "check_module allowed name module =
     (let pre = sdk_package @ [46] in
      if module = [] then Inr ()
      else if starts pre module \<and> drop (length pre) module @ lit ''.py'' \<notin> set sdk_files
      then Inl (BundleError (SdkModuleOutside name module))
      else if hd (split_on 46 module) \<notin> set allowed then Inl (BundleError (NotVendored name module))
      else Inr ())"

definition check_sources :: "python \<Rightarrow> (pystr \<times> bytes) list \<Rightarrow> exn + unit" where
  "check_sources py sources =
     (let local_modules = map (\<lambda>(name, _). without_suffix (lit ''.py'') (hd (split_on 47 name))) sources;
          allowed = stdlib_names py @ local_modules @ [sdk_package]
      in chain (collect (\<lambda>(name, data).
           if \<not> ends (lit ''.py'') name then Inr []
           else case parse py data of
             None \<Rightarrow> Inl (BundleError (SourceSyntax name))
           | Some tree \<Rightarrow> collect (check_module allowed name) (concat (map import_names (imports_in tree)))) sources)
         (\<lambda>_. Inr ()))"

section \<open>The trusted runtime\<close>

definition metadata_name :: pystr where
  "metadata_name = lit ''hawcx_haap-'' @ sdk_version @ lit ''.dist-info/METADATA''"

definition metadata_text :: pystr where
  "metadata_text = lit ''Metadata-Version: 2.1'' @ [10] @ lit ''Name: hawcx-haap'' @ [10] @ lit ''Version: '' @ sdk_version @ [10]"

definition closure_entry :: "pystr \<times> bytes \<Rightarrow> exn + bytes" where
  "closure_entry e = (case e of (name, data) \<Rightarrow>
     (case utf8_encode name of
        None \<Rightarrow> Inl UnicodeError
      | Some encoded \<Rightarrow>
          if length encoded \<ge> 256 ^ 4 \<or> length data \<ge> 256 ^ 8 then Inl OverflowError
          else Inr (to_be 4 (length encoded) @ encoded @ to_be 8 (length data) @ data)))"

text \<open>The bytes that are hashed: every entry in the order of the names.\<close>

definition closure_bytes :: "(pystr \<times> bytes) list \<Rightarrow> exn + bytes" where
  "closure_bytes files = chain (collect closure_entry (sort_key fst files)) (\<lambda>es. Inr (concat es))"

definition runtime_sources ::
  "(pystr \<Rightarrow> exn + bytes) \<Rightarrow> (bytes \<Rightarrow> pystr) \<Rightarrow> exn + (pystr \<times> bytes) list \<times> pystr"
where
  "runtime_sources sdk_read sha256 =
     chain (collect (\<lambda>name. chain (sdk_read name) (\<lambda>data. Inr (sdk_package @ [47] @ name, data))) sdk_files) (\<lambda>fs.
       let files = fs @ [(metadata_name, ascii_bytes metadata_text)] in
       chain (closure_bytes files) (\<lambda>bytes. Inr (files, sha256 bytes)))"

section \<open>Building\<close>

record bundle_result =
  workload_digest :: pystr
  size_bytes :: nat
  res_sdk_version :: pystr
  sdk_digest :: pystr
  res_python_version :: pystr
  res_entrypoint :: pystr

text \<open>What the outside does: reading the SDK's own files, hashing, writing the archive, and the exception
  that creating or writing the output raises, if any.\<close>

record build_env =
  sdk_read :: "pystr \<Rightarrow> exn + bytes"
  sha256 :: "bytes \<Rightarrow> pystr"
  zip_read :: "bytes \<Rightarrow> exn + zip_member list"
  pack :: "(pystr \<times> bytes) list \<Rightarrow> exn + bytes"
  write_failure :: "exn option"

text \<open>The output file is created exclusively, and removed again when writing it fails.\<close>

definition publish :: "build_env \<Rightarrow> bytes \<Rightarrow> bytes option \<Rightarrow> (exn + unit) \<times> bytes option" where
  "publish env raw output =
     (case output of
        Some old \<Rightarrow> (Inl (OSError (Errno 17)), Some old)
      | None \<Rightarrow> (case write_failure env of Some e \<Rightarrow> (Inl e, None) | None \<Rightarrow> (Inr (), Some raw)))"

definition record_bytes :: "pystr \<Rightarrow> bytes" where
  "record_bytes digest = dumps_bytes compact (JObj
     [(lit ''python_version'', JStr python_version), (lit ''sdk_digest'', JStr digest), (lit ''sdk_version'', JStr sdk_version)])"

definition archive_items :: "python \<Rightarrow> build_env \<Rightarrow> upload \<Rightarrow> pystr option \<Rightarrow> exn + (pystr \<times> bytes) list \<times> pystr" where
  "archive_items py env u main =
     chain (read_sources py (zip_read env) u) (\<lambda>sources.
     chain (entrypoint py sources main) (\<lambda>sources1.
     chain (check_sources py sources1) (\<lambda>_.
     chain (runtime_sources (sdk_read env) (sha256 env)) (\<lambda>(runtime, digest).
     Inr (sort_key fst (upd build_record (record_bytes digest) (update_all runtime sources1)), digest)))))"

fun translated :: "exn \<Rightarrow> exn" where
  "translated (OSError k) = BundleError BuildRefused"
| "translated (ValueError s) = BundleError BuildRefused"
| "translated UnicodeError = BundleError BuildRefused"
| "translated JSONDecodeError = BundleError BuildRefused"
| "translated BadZipFile = BundleError BuildRefused"
| "translated RuntimeError = BundleError BuildRefused"
| "translated e = e"

definition build_source_bundle ::
  "python \<Rightarrow> build_env \<Rightarrow> upload \<Rightarrow> pystr option \<Rightarrow> bytes option \<Rightarrow> (exn + bundle_result) \<times> bytes option"
where
  "build_source_bundle py env u main output =
     (case chain (archive_items py env u main) (\<lambda>(items, digest). chain (pack env items) (\<lambda>raw. Inr (raw, digest))) of
        Inl e \<Rightarrow> (Inl (translated e), output)
      | Inr (raw, digest) \<Rightarrow>
          (case publish env raw output of
             (Inl e, output1) \<Rightarrow> (Inl (translated e), output1)
           | (Inr _, output1) \<Rightarrow>
               (Inr \<lparr>workload_digest = lit ''sha256:'' @ sha256 env raw, size_bytes = length raw,
                     res_sdk_version = sdk_version, sdk_digest = digest, res_python_version = python_version,
                     res_entrypoint = main_file\<rparr>, output1)))"

text \<open>The command: the exit status and what it prints to standard output.\<close>

definition source_bundle_main ::
  "python \<Rightarrow> build_env \<Rightarrow> upload \<Rightarrow> pystr option \<Rightarrow> bytes option \<Rightarrow> (exn + int \<times> pystr) \<times> bytes option"
where
  "source_bundle_main py env u main output =
     (case build_source_bundle py env u main output of
        (Inl (BundleError f), output1) \<Rightarrow> (Inr (1, []), output1)
      | (Inl e, output1) \<Rightarrow> (Inl e, output1)
      | (Inr r, output1) \<Rightarrow>
          (Inr (0, dumps spaced (JObj
             [(lit ''entrypoint'', JStr (res_entrypoint r)), (lit ''python_version'', JStr (res_python_version r)),
              (lit ''sdk_digest'', JStr (sdk_digest r)), (lit ''sdk_version'', JStr (res_sdk_version r)),
              (lit ''size_bytes'', JInt (int (size_bytes r))), (lit ''workload_digest'', JStr (workload_digest r))]) @ [10]), output1))"

section \<open>What is accepted\<close>

lemma member_name_Inr:
  assumes "member_name py i = Inr name"
  shows "name \<noteq> []" and "\<forall>p \<in> set (split_on 47 name). \<not> bad_part p" and "\<not> trusted_name py (split_on 47 name)"
    and "\<exists>encoded. utf8_encode name = Some encoded \<and> length encoded \<le> 240"
  using assms unfolding member_name_def Let_def by (auto split: if_splits option.splits)

text \<open>What a member that is kept looks like.\<close>

definition good_source :: "python \<Rightarrow> pystr \<times> bytes \<Rightarrow> bool" where
  "good_source py e \<longleftrightarrow> (case e of (name, data) \<Rightarrow>
     name \<noteq> [] \<and> (\<exists>encoded. utf8_encode name = Some encoded \<and> length encoded \<le> 240) \<and>
     (\<forall>p \<in> set (split_on 47 name). \<not> bad_part p) \<and> \<not> trusted_name py (split_on 47 name) \<and>
     lower (path_suffix name) \<in> set text_suffixes \<and> length data \<le> max_member_bytes \<and>
     (\<exists>s. utf8_decode data = Some s \<and> 0 \<notin> set s))"

definition total_size :: "(pystr \<times> bytes) list \<Rightarrow> nat" where
  "total_size sources = sum_list (map (\<lambda>e. length (snd e)) sources)"

text \<open>The invariant of the loop over the members.\<close>

definition loop_inv :: "python \<Rightarrow> (pystr \<times> bool) list \<Rightarrow> nat \<Rightarrow> (pystr \<times> bytes) list \<Rightarrow> bool" where
  "loop_inv py seen expanded sources \<longleftrightarrow>
     (\<forall>e \<in> set sources. good_source py e \<and> map_of seen (lower (fst e)) = Some False) \<and>
     distinct (map (\<lambda>e. lower (fst e)) sources) \<and> total_size sources = expanded \<and> expanded \<le> max_source_bytes"

lemma loop_inv_dir:
  "loop_inv py seen x sources \<Longrightarrow> \<not> has_key key seen \<Longrightarrow> loop_inv py (upd key b seen) x sources"
  by (auto simp: loop_inv_def has_key_def)

lemma loop_inv_file:
  assumes "loop_inv py seen x sources" and "\<not> has_key (lower name) seen" and "good_source py (name, data)"
    and "x + length data \<le> max_source_bytes"
  shows "loop_inv py (upd (lower name) False seen) (x + length data) (upd name data sources)"
proof -
  from assms(1,2) have new: "lower name \<notin> (\<lambda>e. lower (fst e)) ` set sources" by (auto simp: loop_inv_def has_key_def)
  then have "name \<notin> fst ` set sources" by auto
  then have u: "upd name data sources = sources @ [(name, data)]" by (rule upd_new)
  from assms new show ?thesis unfolding u by (auto simp: loop_inv_def has_key_def total_size_def)
qed

lemma read_members_inv:
  "read_members py ms seen x sources = Inr (seen', sources') \<Longrightarrow> loop_inv py seen x sources \<Longrightarrow>
     (\<exists>x'. loop_inv py seen' x' sources') \<and> length sources' \<le> length sources + length ms"
proof (induction py ms seen x sources rule: read_members.induct)
  case (1 py seen x sources)
  then show ?case by auto
next
  case (2 py m ms seen x sources)
  from "2.prems"(1) obtain name where name: "member_name py (info m) = Inr name" by (auto simp: chain_Inr)
  note run = "2.prems"(1) [unfolded read_members.simps name chain_simps Let_def]
  let ?seen = "upd (lower name) (is_dir (info m)) seen" and ?x = "x + file_size (info m)"
  from run have fresh: "\<not> has_key (lower name) seen" by (auto split: if_splits)
  show ?case
  proof (cases "is_dir (info m)")
    case True
    with run have ok: "file_size (info m) = 0" and r: "read_members py ms ?seen x sources = Inr (seen', sources')"
      by (auto split: if_splits)
    from "2.IH"(1) [OF refl refl refl fresh True _ r loop_inv_dir [OF "2.prems"(2) fresh]] ok show ?thesis by simp
  next
    case False
    with run obtain data s where c: "content m = Inr data" "length data = file_size (info m)" "length data \<le> max_member_bytes"
      and u: "utf8_decode data = Some s" "0 \<notin> set s" and sf: "lower (path_suffix name) \<in> set text_suffixes"
      "\<not> (lower (path_suffix name) \<in> set native_suffixes \<or> lower (path_suffix name) \<in> set bytecode_suffixes)"
      and sz: "\<not> (file_size (info m) > max_member_bytes \<or> ?x > max_source_bytes)"
      and r: "read_members py ms ?seen ?x (upd name data sources) = Inr (seen', sources')"
      by (auto simp: chain_Inr split: if_splits option.splits)
    have "good_source py (name, data)" using member_name_Inr [OF name] c u sf by (auto simp: good_source_def)
    from loop_inv_file [OF "2.prems"(2) fresh this] sz c have inv: "loop_inv py ?seen ?x (upd name data sources)"
      using False by simp
    have "length (upd name data sources) \<le> Suc (length sources)" by (induction sources) auto
    with "2.IH"(2) [OF refl refl refl fresh False sf(2) _ refl sz _ u(1,2) r inv] sf(1) c show ?thesis by auto
  qed
qed

lemma lower_parts: "split_on 47 (lower s) = map lower (split_on 47 s)"
proof (induction s)
  case Nil
  then show ?case by (simp add: lower_def)
next
  case (Cons c s)
  obtain w ws where ws: "split_on 47 s = w # ws" using split_on_ne [of 47 s] by (cases "split_on 47 s") auto
  have "lower_char c = 47 \<longleftrightarrow> c = 47" by (auto simp: lower_char_def is_upper_def)
  with Cons ws show ?case by (simp add: lower_def)
qed

lemma file_above_Some:
  assumes "\<not> file_above seen" and "map_of seen n = Some False" and "map_of seen (n @ 47 # rest) \<noteq> None"
  shows False
proof -
  note parts = split_on_at [of 47 n rest]
  let ?i = "length (split_on 47 n)"
  have "?i \<in> set [1..<length (split_on 47 (n @ 47 # rest))]"
    using split_on_ne [of 47 n] split_on_ne [of 47 rest] by (simp add: parts Suc_leI)
  moreover have "join_with [47] (take ?i (split_on 47 (n @ 47 # rest))) = n" by (simp add: parts join_split_on)
  moreover obtain b where "(n @ 47 # rest, b) \<in> set seen" using assms(3) by (auto dest: map_of_SomeD)
  ultimately have "file_above seen"
    unfolding file_above_def Let_def
    by (intro bexI [of _ "(n @ 47 # rest, b)"]) (use assms(2) in \<open>auto intro!: bexI [of _ ?i]\<close>)
  with assms(1) show False ..
qed

lemma good_source_bounds:
  assumes g: "good_source py (name, data)"
  shows "(\<forall>p \<in> set (split_on 47 name). p \<notin> {[], [46], [46, 46]} \<and> (\<forall>c \<in> set p. part_char c)) \<and> length name \<le> 240 \<and>
    \<not> trusted_name py (split_on 47 name) \<and> length data \<le> 8 * 1024 * 1024 \<and>
    (\<exists>s. utf8_decode data = Some s \<and> 0 \<notin> set s)"
proof -
  have parts: "\<forall>p \<in> set (split_on 47 name). \<not> bad_part p" using g by (auto simp: good_source_def)
  have "isascii name" unfolding isascii_def
  proof
    fix c
    assume "c \<in> set name"
    then have "c = 47 \<or> part_char c" using split_on_cover [of c name 47] parts by (auto simp: bad_part_def)
    then show "c < 128" by (auto simp: part_char_def is_alnum_def ascii_classes)
  qed
  then have "length name \<le> 240" using g by (auto simp: good_source_def utf8_ascii)
  with g parts show ?thesis by (auto simp: good_source_def bad_part_def max_member_bytes_def)
qed

lemma no_file_above:
  assumes inv: "loop_inv py seen x sources" and above: "\<not> file_above seen"
    and a: "(name, d) \<in> set sources" "(name', d') \<in> set sources"
  shows "\<not> starts (lower name @ [47]) (lower name')"
proof
  assume "starts (lower name @ [47]) (lower name')"
  then obtain rest where r: "lower name' = lower name @ 47 # rest" by (auto simp: starts_iff)
  have "map_of seen (lower (fst e)) = Some False" if "e \<in> set sources" for e
    using inv that by (simp add: loop_inv_def)
  from this [OF a(1)] this [OF a(2)] file_above_Some [OF above, of "lower name" rest] r show False by simp
qed

section \<open>Properties\<close>

text \<open>
  C26: what an upload can bring in. Of the files that are accepted every path is relative and made of plain
  segments other than dots, at most 240 bytes long, outside the SDK and the standard library; no two
  paths agree up to case and none continues another as a directory; every content is UTF-8 text
  without NUL of at most 8 MiB, all together at most 32 MiB in at most 1024 files.
\<close>

theorem sources_confined:
  assumes "read_sources py archive u = Inr sources"
  shows "(\<forall>(name, data) \<in> set sources.
            (\<forall>p \<in> set (split_on 47 name). p \<notin> {[], [46], [46, 46]} \<and> (\<forall>c \<in> set p. part_char c)) \<and> length name \<le> 240 \<and>
            \<not> trusted_name py (split_on 47 name) \<and> length data \<le> 8 * 1024 * 1024 \<and>
            (\<exists>s. utf8_decode data = Some s \<and> 0 \<notin> set s)) \<and>
         distinct (map (\<lambda>(name, _). lower name) sources) \<and>
         (\<forall>(name, _) \<in> set sources. \<forall>(name', _) \<in> set sources. \<not> starts (lower name @ [47]) (lower name')) \<and>
         sum_list (map (\<lambda>(_, data). length data) sources) \<le> 32 * 1024 * 1024 \<and> length sources \<le> 1024"
proof -
  from assms obtain ms seen where run: "read_members py ms [] 0 [] = Inr (seen, sources)" and len: "length ms \<le> max_entries"
    and above: "\<not> file_above seen"
    by (auto simp: read_sources_def Let_def chain_Inr split: if_splits prod.splits)
  have "loop_inv py [] 0 []" by (simp add: loop_inv_def total_size_def)
  from read_members_inv [OF run this] obtain x where inv: "loop_inv py seen x sources" and n: "length sources \<le> length ms" by auto
  have "good_source py e" if "e \<in> set sources" for e using inv that by (simp add: loop_inv_def)
  then have "\<forall>(name, data) \<in> set sources.
            (\<forall>p \<in> set (split_on 47 name). p \<notin> {[], [46], [46, 46]} \<and> (\<forall>c \<in> set p. part_char c)) \<and> length name \<le> 240 \<and>
            \<not> trusted_name py (split_on 47 name) \<and> length data \<le> 8 * 1024 * 1024 \<and>
            (\<exists>s. utf8_decode data = Some s \<and> 0 \<notin> set s)"
    using good_source_bounds by blast
  moreover note no_file_above [OF inv above]
  moreover have "distinct (map (\<lambda>(name, _). lower name) sources)"
    using inv by (simp add: loop_inv_def case_prod_unfold)
  moreover have "sum_list (map (\<lambda>(_, data). length data) sources) \<le> 32 * 1024 * 1024"
    using inv by (simp add: loop_inv_def total_size_def max_source_bytes_def case_prod_unfold)
  moreover have "length sources \<le> 1024" using n len by (simp add: max_entries_def)
  ultimately show ?thesis by blast
qed

text \<open>The names that are added to the upload are no member's name.\<close>

lemma trusted_names:
  "trusted_name py (split_on 47 build_record)" "trusted_name py (split_on 47 metadata_name)"
  "f \<in> set sdk_files \<Longrightarrow> trusted_name py (split_on 47 (sdk_package @ [47] @ f))"
proof -
  show "trusted_name py (split_on 47 build_record)"
    by (simp add: trusted_name_def build_record_def) (simp add: lit_def lower_def lower_char_def is_upper_def)
  show "trusted_name py (split_on 47 metadata_name)"
  proof -
    have "split_on 47 metadata_name = [lit ''hawcx_haap-0.1.17.dist-info'', lit ''METADATA'']"
      by (simp add: metadata_name_def sdk_version_def) (simp add: lit_def)
    moreover have "ends (lit ''.dist-info'') (lower (lit ''hawcx_haap-0.1.17.dist-info''))"
      by (simp add: ends_def lower_def lit_def lower_char_def is_upper_def)
    ultimately show ?thesis by (simp add: trusted_name_def)
  qed
  have "47 \<notin> set sdk_package" by (simp add: sdk_package_def lit_def)
  then have "split_on 47 (sdk_package @ [47] @ f) = sdk_package # split_on 47 f" by (simp add: split_on_append)
  moreover have "hd (split_on 46 sdk_package) = sdk_package" "lower sdk_package = sdk_package"
    by (simp_all add: sdk_package_def lit_def lower_def lower_char_def is_upper_def)
  ultimately show "trusted_name py (split_on 47 (sdk_package @ [47] @ f))" by (simp add: trusted_name_def)
qed

lemma entrypoint_Inr:
  assumes "entrypoint py sources main = Inr sources1"
  shows "sources1 = sources \<or> main_file \<notin> fst ` set sources \<and> (\<exists>data. sources1 = upd main_file data sources)"
    and "main_file \<in> fst ` set sources1"
proof -
  have key: "has_key main_file sources \<longleftrightarrow> main_file \<in> fst ` set sources"
    by (auto simp: has_key_def map_of_eq_None_iff)
  show "sources1 = sources \<or> main_file \<notin> fst ` set sources \<and> (\<exists>data. sources1 = upd main_file data sources)"
    using assms unfolding entrypoint_def key by (auto simp: Let_def split: option.splits if_splits prod.splits)
  show "main_file \<in> fst ` set sources1"
    using assms unfolding entrypoint_def key by (auto simp: Let_def split: option.splits if_splits prod.splits)
qed

lemma runtime_sources_Inr:
  assumes "runtime_sources rd sha = Inr (files, digest)"
  shows "map fst files = map (\<lambda>f. sdk_package @ [47] @ f) sdk_files @ [metadata_name]"
    and "(sdk_package @ [47] @ f, data) \<in> set files \<Longrightarrow> f \<in> set sdk_files \<Longrightarrow> rd f = Inr data"
    and "\<exists>b. closure_bytes files = Inr b \<and> digest = sha b"
proof -
  from assms obtain fs where fs: "list_all2 (\<lambda>name y. chain (rd name) (\<lambda>data. Inr (sdk_package @ [47] @ name, data)) = Inr y) sdk_files fs"
    and files: "files = fs @ [(metadata_name, ascii_bytes metadata_text)]"
    and d: "\<exists>b. closure_bytes files = Inr b \<and> digest = sha b"
    by (auto simp: runtime_sources_def chain_Inr collect_Inr Let_def)
  have "map fst fs = map (\<lambda>f. sdk_package @ [47] @ f) sdk_files"
    using fs by (induction rule: list_all2_induct) (auto simp: chain_Inr)
  then show "map fst files = map (\<lambda>f. sdk_package @ [47] @ f) sdk_files @ [metadata_name]" by (simp add: files)
  show "\<exists>b. closure_bytes files = Inr b \<and> digest = sha b" by (rule d)
  have meta: "metadata_name \<noteq> sdk_package @ [47] @ f"
    by (simp add: metadata_name_def sdk_package_def lit_def)
  have "\<forall>(n, data) \<in> set fs. \<forall>f. n = sdk_package @ [47] @ f \<longrightarrow> rd f = Inr data"
    using fs by (induction rule: list_all2_induct) (auto simp: chain_Inr)
  then show "rd f = Inr data" if "(sdk_package @ [47] @ f, data) \<in> set files" "f \<in> set sdk_files"
    using that meta by (auto simp: files)
qed

lemma distinct_runtime: "distinct (map (\<lambda>f. sdk_package @ [47] @ f) sdk_files @ [metadata_name])"
  by (simp add: sdk_files_def metadata_name_def sdk_package_def sdk_version_def) (simp add: lit_def)

lemma added_names: "build_record \<noteq> metadata_name \<and> build_record \<noteq> sdk_package @ [47] @ f"
  by (simp add: build_record_def sdk_package_def metadata_name_def) (simp add: lit_def)

text \<open>What the archive holds, and where each entry comes from.\<close>

lemma archive_items_Inr:
  assumes "archive_items py env u main = Inr (items, digest)"
  shows "\<exists>sources sources1 runtime. read_sources py (zip_read env) u = Inr sources \<and>
     entrypoint py sources main = Inr sources1 \<and> check_sources py sources1 = Inr () \<and>
     runtime_sources (sdk_read env) (sha256 env) = Inr (runtime, digest) \<and>
     items = sort_key fst (upd build_record (record_bytes digest) (update_all runtime sources1))"
  using assms by (auto simp: archive_items_def chain_Inr split: prod.splits)

lemma map_of_sorted: "distinct (map fst xs) \<Longrightarrow> map_of (sort_key fst xs) = map_of xs"
proof -
  assume d: "distinct (map fst xs)"
  then have "distinct (map fst (sort_key fst xs))" by (simp add: distinct_map)
  with d show ?thesis by (simp add: map_of_inject_set)
qed

lemma map_of_reversed: "distinct (map fst xs) \<Longrightarrow> map_of (rev xs) = map_of xs"
  by (simp add: map_of_inject_set distinct_map)

lemma read_sources_good:
  assumes "read_sources py archive u = Inr sources"
  shows "distinct (map fst sources)" and "e \<in> set sources \<Longrightarrow> \<not> trusted_name py (split_on 47 (fst e))"
proof -
  from assms obtain ms seen where run: "read_members py ms [] 0 [] = Inr (seen, sources)"
    by (auto simp: read_sources_def Let_def chain_Inr split: if_splits prod.splits)
  have "loop_inv py [] 0 []" by (simp add: loop_inv_def total_size_def)
  from read_members_inv [OF run this] obtain x where inv: "loop_inv py seen x sources" by auto
  then have "distinct (map lower (map fst sources))" by (simp add: loop_inv_def comp_def)
  then show "distinct (map fst sources)" by (simp only: distinct_map)
  show "e \<in> set sources \<Longrightarrow> \<not> trusted_name py (split_on 47 (fst e))"
    using inv by (cases e) (auto simp: loop_inv_def good_source_def)
qed

text \<open>A packed archive, looked up by name: the build record, then the runtime, then the upload with
  its entry point.\<close>

lemma packed_items:
  assumes src: "read_sources py zr u = Inr sources" and ent: "entrypoint py sources main = Inr sources1"
    and run: "runtime_sources rd sha = Inr (runtime, digest)"
    and items: "items = sort_key fst (upd build_record (record_bytes digest) (update_all runtime sources1))"
  shows "sorted (map fst items)" "distinct (map fst items)"
    "map_of items n = (if n = build_record then Some (record_bytes digest)
       else case map_of runtime n of Some d \<Rightarrow> Some d | None \<Rightarrow> map_of sources1 n)"
    "fst ` set items = fst ` set sources \<union> {main_file, build_record, metadata_name} \<union>
       (\<lambda>f. sdk_package @ [47] @ f) ` set sdk_files"
proof -
  let ?all = "upd build_record (record_bytes digest) (update_all runtime sources1)"
  note keys = runtime_sources_Inr(1) [OF run]
  have "distinct (map fst sources1)"
    using entrypoint_Inr(1) [OF ent] read_sources_good(1) [OF src] by auto
  then have dist: "distinct (map fst ?all)" by (simp add: distinct_update_all)
  then show "sorted (map fst items)" "distinct (map fst items)" by (simp_all add: items distinct_map)
  have "map_of (rev runtime) = map_of runtime"
    by (rule map_of_reversed) (simp only: keys distinct_runtime)
  then show "map_of items n = (if n = build_record then Some (record_bytes digest)
       else case map_of runtime n of Some d \<Rightarrow> Some d | None \<Rightarrow> map_of sources1 n)"
    by (simp add: items map_of_sorted [OF dist] map_of_update_all map_add_def split: option.splits)
  have "fst ` set sources1 = fst ` set sources \<union> {main_file}"
    using entrypoint_Inr(1) [OF ent]
  proof (elim disjE conjE exE)
    show ?thesis if "sources1 = sources" using that entrypoint_Inr(2) [OF ent] by auto
    show ?thesis if "sources1 = upd main_file data sources" for data using that by simp
  qed
  moreover have "fst ` set runtime = insert metadata_name ((\<lambda>f. sdk_package @ [47] @ f) ` set sdk_files)"
    using arg_cong [OF keys, of set] by auto
  ultimately show "fst ` set items = fst ` set sources \<union> {main_file, build_record, metadata_name} \<union>
       (\<lambda>f. sdk_package @ [47] @ f) ` set sdk_files"
    by (auto simp: items keys_update_all)
qed

lemma packed_sdk_file:
  assumes run: "runtime_sources rd sha = Inr (runtime, digest)" and f: "f \<in> set sdk_files"
  obtains data where "map_of runtime (sdk_package @ [47] @ f) = Some data" "rd f = Inr data"
    "sdk_package @ [47] @ f \<noteq> build_record"
proof -
  let ?n = "sdk_package @ [47] @ f"
  have "?n \<in> set (map fst runtime)"
    unfolding runtime_sources_Inr(1) [OF run] set_append set_map by (rule UnI1) (rule imageI [OF f])
  then have "map_of runtime ?n \<noteq> None" unfolding map_of_eq_None_iff by simp
  then obtain data where data: "map_of runtime ?n = Some data" by blast
  moreover have "rd f = Inr data" by (rule runtime_sources_Inr(2) [OF run map_of_SomeD [OF data] f])
  moreover have "?n \<noteq> build_record" using added_names [of f] by (elim conjE) (rule not_sym)
  ultimately show thesis by (rule that)
qed

lemma packed_upload:
  assumes src: "read_sources py zr u = Inr sources" and ent: "entrypoint py sources main = Inr sources1"
    and run: "runtime_sources rd sha = Inr (runtime, digest)" and s: "(n, data) \<in> set sources"
  shows "n \<noteq> build_record" "map_of runtime n = None" "map_of sources1 n = Some data"
proof -
  have nt: "\<not> trusted_name py (split_on 47 n)" using read_sources_good(2) [OF src s] by simp
  then show "n \<noteq> build_record" using trusted_names(1) by metis
  have "n \<notin> set (map fst runtime)"
  proof
    assume "n \<in> set (map fst runtime)"
    then consider f where "f \<in> set sdk_files" "n = sdk_package @ [47] @ f" | "n = metadata_name"
      unfolding runtime_sources_Inr(1) [OF run] by auto
    then show False using nt trusted_names(2,3) by cases metis+
  qed
  then show "map_of runtime n = None" by (simp add: map_of_eq_None_iff)
  have "map_of sources n = Some data" using s read_sources_good(1) [OF src] by simp
  moreover have "sources1 = sources \<or> (\<exists>d. sources1 = upd main_file d sources) \<and> n \<noteq> main_file"
    using entrypoint_Inr(1) [OF ent] s by force
  ultimately show "map_of sources1 n = Some data" by auto
qed

text \<open>
  C27: what a finished bundle is. It was written to a path that did not exist, its digest and size are those of
  the bytes written, and these pack a sorted archive in which every file of the runtime closure is
  the SDK's own, the build record carries the digest of that closure, every uploaded file is there
  unchanged, and the only other entries are the entry point and the SDK's metadata.
\<close>

theorem bundle_contents:
  assumes "build_source_bundle py env u main output = (Inr r, output1)"
  shows "\<exists>sources items raw. read_sources py (zip_read env) u = Inr sources \<and> pack env items = Inr raw \<and>
           output = None \<and> output1 = Some raw \<and> size_bytes r = length raw \<and>
           workload_digest r = lit ''sha256:'' @ sha256 env raw \<and>
           sorted (map fst items) \<and> distinct (map fst items) \<and>
           (\<forall>f \<in> set sdk_files. \<exists>data. map_of items (sdk_package @ [47] @ f) = Some data \<and> sdk_read env f = Inr data) \<and>
           map_of items build_record = Some (record_bytes (sdk_digest r)) \<and>
           (\<forall>(name, data) \<in> set sources. map_of items name = Some data) \<and> main_file \<in> fst ` set items \<and>
           fst ` set items = fst ` set sources \<union> {main_file, build_record, metadata_name} \<union>
             (\<lambda>f. sdk_package @ [47] @ f) ` set sdk_files"
proof -
  from assms obtain items raw digest where a: "archive_items py env u main = Inr (items, digest)"
    and raw: "pack env items = Inr raw" and out: "publish env raw output = (Inr (), output1)"
    and r: "workload_digest r = lit ''sha256:'' @ sha256 env raw" "size_bytes r = length raw" "sdk_digest r = digest"
    unfolding build_source_bundle_def
    by (auto simp: chain_Inr split: sum.splits prod.splits)
  from archive_items_Inr [OF a] obtain sources sources1 runtime where src: "read_sources py (zip_read env) u = Inr sources"
    and ent: "entrypoint py sources main = Inr sources1" and run: "runtime_sources (sdk_read env) (sha256 env) = Inr (runtime, digest)"
    and items: "items = sort_key fst (upd build_record (record_bytes digest) (update_all runtime sources1))" by blast
  note pack = packed_items [OF src ent run items]
  have sdk: "\<exists>data. map_of items (sdk_package @ [47] @ f) = Some data \<and> sdk_read env f = Inr data" if "f \<in> set sdk_files" for f
    by (rule packed_sdk_file [OF run that]) (simp add: pack(3))
  have up: "map_of items n = Some data" if "(n, data) \<in> set sources" for n data
    using packed_upload [OF src ent run that] by (simp add: pack(3))
  have "output = None \<and> output1 = Some raw" using out by (auto simp: publish_def split: option.splits)
  moreover have "map_of items build_record = Some (record_bytes (sdk_digest r))" by (simp add: pack(3) r(3))
  moreover have "main_file \<in> fst ` set items" using pack(4) by simp
  ultimately show ?thesis using src raw r(1,2) sdk up pack(1,2,4)
    by (intro exI [of _ sources] exI [of _ items] exI [of _ raw]) auto
qed

text \<open>
  Building never replaces and never leaves a partial file. When the output exists already it is kept
  and the build fails; whatever makes a build fail, the output path is left as it was; and the
  exception is a \<open>BundleError\<close> except for those that the handler does not name, such as \<open>zlib.error\<close>.
\<close>

theorem build_leaves_output:
  assumes "build_source_bundle py env u main output = (result, output1)"
  shows "(\<forall>old. output = Some old \<longrightarrow> output1 = Some old \<and> (\<exists>e. result = Inl e)) \<and>
         (\<forall>e. result = Inl e \<longrightarrow> output1 = output \<and>
            (\<exists>raised. e = translated raised \<and> (is_os_error raised \<or> raised \<in> {UnicodeError, BadZipFile, RuntimeError} \<longrightarrow>
               e = BundleError BuildRefused)))"
proof -
  have tr: "is_os_error x \<or> x \<in> {UnicodeError, BadZipFile, RuntimeError} \<Longrightarrow> translated x = BundleError BuildRefused" for x
    by (cases x) auto
  let ?run = "chain (archive_items py env u main) (\<lambda>(items, digest). chain (pack env items) (\<lambda>raw. Inr (raw, digest)))"
  have out: "(output \<noteq> None \<longrightarrow> output1 = output \<and> (\<exists>e. result = Inl e)) \<and>
      (\<forall>e. result = Inl e \<longrightarrow> output1 = output \<and> (\<exists>raised. e = translated raised))"
  proof (cases ?run)
    case (Inl e)
    with assms have "result = Inl (translated e)" "output1 = output" by (auto simp: build_source_bundle_def)
    then show ?thesis by auto
  next
    case (Inr p)
    obtain raw digest where p: "p = (raw, digest)" by fastforce
    obtain pr po where pub: "publish env raw output = (pr, po)" by fastforce
    then have po: "(output \<noteq> None \<longrightarrow> po = output \<and> (\<exists>e. pr = Inl e)) \<and> (\<forall>e. pr = Inl e \<longrightarrow> po = output)"
      by (auto simp: publish_def split: option.splits)
    show ?thesis
    proof (cases pr)
      case (Inl e)
      with assms Inr p pub have "result = Inl (translated e)" "output1 = po" by (auto simp: build_source_bundle_def)
      with po Inl show ?thesis by auto
    next
      case (Inr v)
      with assms \<open>?run = Inr p\<close> p pub have "\<exists>r. result = Inr r" by (auto simp: build_source_bundle_def)
      with po Inr show ?thesis by auto
    qed
  qed
  show ?thesis
  proof (intro conjI allI impI)
    fix old
    assume "output = Some old"
    with out show "output1 = Some old" "\<exists>e. result = Inl e" by auto
  next
    fix e
    assume "result = Inl e"
    with out show "output1 = output" by blast
    from out \<open>result = Inl e\<close> obtain raised where e: "e = translated raised" by blast
    show "\<exists>raised. e = translated raised \<and> (is_os_error raised \<or> raised \<in> {UnicodeError, BadZipFile, RuntimeError} \<longrightarrow>
        e = BundleError BuildRefused)"
      by (rule exI [of _ raised]) (use e tr in blast)
  qed
qed

text \<open>Every frame of the closure says how long it is.\<close>

lemma utf8_encode_inj: "scalars s \<Longrightarrow> scalars t \<Longrightarrow> utf8_encode s = utf8_encode t \<Longrightarrow> s = t"
  using utf8_roundtrip [of s] utf8_roundtrip [of t] by auto

lemma closure_entry_prefix:
  assumes "closure_entry (n, d) = Inr w" and "closure_entry (n', d') = Inr w'" and "w @ x = w' @ x'"
    and "scalars n" and "scalars n'"
  shows "n = n'" and "d = d'" and "x = x'"
proof -
  from assms(1) obtain e where e: "utf8_encode n = Some e" "length e < 256 ^ 4" "length d < 256 ^ 8"
    "w = to_be 4 (length e) @ e @ to_be 8 (length d) @ d"
    by (auto simp: closure_entry_def not_le split: option.splits if_splits)
  from assms(2) obtain e' where e': "utf8_encode n' = Some e'" "length e' < 256 ^ 4" "length d' < 256 ^ 8"
    "w' = to_be 4 (length e') @ e' @ to_be 8 (length d') @ d'"
    by (auto simp: closure_entry_def not_le split: option.splits if_splits)
  have split: "a = c \<and> b = d" if "a @ b = c @ d" "length a = length c" for a b c d :: bytes
    using that by simp
  from assms(3) have eq: "to_be 4 (length e) @ e @ to_be 8 (length d) @ d @ x =
      to_be 4 (length e') @ e' @ to_be 8 (length d') @ d' @ x'" by (simp add: e(4) e'(4))
  from split [OF this] have "to_be 4 (length e) = to_be 4 (length e')"
    and r1: "e @ to_be 8 (length d) @ d @ x = e' @ to_be 8 (length d') @ d' @ x'" by (simp_all only: length_to_be)
  then have "length e = length e'" using to_be_inject [OF e(2) e'(2)] by blast
  from split [OF r1 this] have ee: "e = e'" and r2: "to_be 8 (length d) @ d @ x = to_be 8 (length d') @ d' @ x'" by blast+
  from split [OF r2] have "to_be 8 (length d) = to_be 8 (length d')" and r3: "d @ x = d' @ x'" by (simp_all only: length_to_be)
  then have "length d = length d'" using to_be_inject [OF e(3) e'(3)] by blast
  from split [OF r3 this] show "d = d'" "x = x'" by blast+
  show "n = n'" using utf8_encode_inj [OF assms(4,5)] e(1) e'(1) ee by simp
qed

lemma closure_entry_ne: "closure_entry e = Inr w \<Longrightarrow> w \<noteq> []"
proof -
  assume "closure_entry e = Inr w"
  then have "4 \<le> length w"
    by (auto simp: closure_entry_def split: prod.splits option.splits if_splits)
  then show "w \<noteq> []" by auto
qed

lemma closure_entries_inject:
  assumes "list_all2 (\<lambda>x y. closure_entry x = Inr y) fs ws" and "list_all2 (\<lambda>x y. closure_entry x = Inr y) gs vs"
    and "concat ws = concat vs" and "\<forall>(n, _) \<in> set fs. scalars n" and "\<forall>(n, _) \<in> set gs. scalars n"
  shows "fs = gs"
  using assms
proof (induction arbitrary: gs vs rule: list_all2_induct)
  case Nil
  then show ?case by (cases gs) (auto simp: list_all2_Cons1 dest: closure_entry_ne)
next
  case (Cons f fs w ws)
  from closure_entry_ne [OF Cons.hyps(1)] Cons.prems(2) have "vs \<noteq> []" by auto
  with Cons.prems(1) obtain g gs' v vs' where g: "gs = g # gs'" "vs = v # vs'" "closure_entry g = Inr v"
    "list_all2 (\<lambda>x y. closure_entry x = Inr y) gs' vs'"
    by (cases gs; cases vs) simp_all
  from Cons.prems(2) g have eq: "w @ concat ws = v @ concat vs'" by simp
  obtain n d where f: "f = (n, d)" by fastforce
  obtain n' d' where g': "g = (n', d')" by fastforce
  have s: "scalars n" "scalars n'" using Cons.prems(3,4) f g g' by auto
  note p = closure_entry_prefix [OF Cons.hyps(1) [unfolded f] g(3) [unfolded g'] eq s]
  have "fs = gs'" using Cons.IH [OF g(4) p(3)] Cons.prems(3,4) g by simp
  with p f g g' show ?case by simp
qed

text \<open>
  The closure hash is taken over an unambiguous text. Two sets of runtime files with the same hashed
  bytes are the same files with the same contents: no bytes move between a name and a content or
  from one file to the next.
\<close>

theorem closure_unambiguous:
  assumes "closure_bytes fs = Inr b" and "closure_bytes gs = Inr b"
    and "\<forall>(n, _) \<in> set fs. scalars n" and "\<forall>(n, _) \<in> set gs. scalars n"
  shows "sort_key fst fs = sort_key fst gs \<and> set fs = set gs"
proof -
  from assms(1,2) obtain ws vs where "list_all2 (\<lambda>x y. closure_entry x = Inr y) (sort_key fst fs) ws"
    "list_all2 (\<lambda>x y. closure_entry x = Inr y) (sort_key fst gs) vs" "concat ws = concat vs"
    by (auto simp: closure_bytes_def chain_Inr collect_Inr)
  from closure_entries_inject [OF this] assms(3,4) have "sort_key fst fs = sort_key fst gs" by simp
  then show ?thesis by (metis set_sort)
qed

section \<open>A concrete build\<close>

definition demo_python :: python where
  "demo_python = \<lparr>stdlib_names = [lit ''os''], is_identifier = \<lambda>_. True,
     parse = \<lambda>_. Some \<lparr>top_functions = [], imports_in = []\<rparr>\<rparr>"

definition demo_member :: zip_member where
  "demo_member = \<lparr>info = \<lparr>filename = main_file, orig_filename = main_file, external_attr = 0, flag_bits = 0,
     compress_type = 8, file_size = 1\<rparr>, content = Inr [120]\<rparr>"

text \<open>An end record of an archive whose directory the reader supplies.\<close>

definition demo_zip :: bytes where
  "demo_zip = [0x50, 0x4B, 5, 6] @ replicate 18 0"

definition demo_upload :: upload where
  "demo_upload = \<lparr>up_path = lit ''a.zip'', up_symlink = False, up_opened = Inr (True, demo_zip)\<rparr>"

definition demo_build :: build_env where
  "demo_build = \<lparr>sdk_read = \<lambda>_. Inr [], sha256 = \<lambda>_. lit ''00'', zip_read = \<lambda>_. Inr [demo_member],
     pack = \<lambda>items. Inr [1], write_failure = None\<rparr>"

lemma demo_member_name: "member_name demo_python (info demo_member) = Inr main_file"
proof -
  have "utf8_encode main_file = Some (ascii_bytes main_file)" by (rule utf8_ascii) (simp add: main_file_def)
  moreover have "split_on 47 main_file = [main_file]" by (rule split_on_append) (simp add: main_file_def lit_def)
  moreover have "last main_file \<noteq> 47" "main_file \<noteq> []" "length main_file = 11" by (simp_all add: main_file_def lit_def)
  moreover have "\<not> bad_part main_file"
    by (simp add: bad_part_def main_file_def) (simp add: lit_def part_char_def is_alnum_def ascii_classes)
  moreover have "\<not> trusted_name demo_python [main_file]"
    by (simp add: trusted_name_def demo_python_def main_file_def sdk_package_def build_record_def)
      (simp add: lit_def lower_def lower_char_def is_upper_def ends_def)
  ultimately show ?thesis by (simp add: member_name_def demo_member_def is_dir_def Let_def)
qed

lemma demo_sources: "read_sources demo_python (zip_read demo_build) demo_upload = Inr [(main_file, [120])]"
proof -
  have "rfind_at [0x50, 0x4B, 5, 6] 0 demo_zip = Some 0"
    by code_simp
  moreover have "length demo_zip = 22" by (simp add: demo_zip_def)
  moreover have "from_le (take n (drop (4 + k) demo_zip)) = 0" for n k
  proof -
    have "from_be (replicate m 0) = 0" for m by (induction m) (simp_all add: from_be_def)
    moreover have "drop (4 + k) demo_zip = replicate (18 - k) 0" by (simp only: demo_zip_def drop_append) simp
    ultimately show ?thesis by (simp add: from_le_def)
  qed
  ultimately have e: "check_end_record demo_zip = Inr ()"
    by (simp add: check_end_record_def Let_def)
  have sfx: "lower (path_suffix main_file) = lit ''.py''"
    by (simp add: path_suffix_def main_file_def lit_def Let_def lower_def lower_char_def is_upper_def)
  have "utf8_decode [120] = Some [120]"
    using utf8_decode_ascii [of "[120]"] by (simp add: ascii_bytes_def)
  then have "read_members demo_python [demo_member] [] 0 [] = Inr ([(lower main_file, False)], [(main_file, [120])])"
    unfolding read_members.simps demo_member_name chain_simps Let_def sfx
    by (simp add: has_key_def demo_member_def is_dir_def native_suffixes_def bytecode_suffixes_def text_suffixes_def
        max_member_bytes_def max_source_bytes_def) (simp add: main_file_def lit_def)
  moreover have "\<not> file_above [(lower main_file, False)]"
    by (simp add: file_above_def lower_parts) (simp add: main_file_def lit_def)
  moreover have "lower (path_suffix (lit ''a.zip'')) \<notin> set bytecode_suffixes"
    by (simp add: path_suffix_def lit_def Let_def lower_def lower_char_def is_upper_def bytecode_suffixes_def)
  ultimately show ?thesis
    using e by (simp add: read_sources_def demo_upload_def demo_build_def demo_zip_def max_source_bytes_def max_entries_def Let_def)
qed

theorem sources_confined_witness:
  "\<exists>sources. read_sources demo_python (zip_read demo_build) demo_upload = Inr sources \<and> length sources \<le> 1024 \<and>
     (\<forall>(name, _) \<in> set sources. length name \<le> 240)"
  using sources_confined [OF demo_sources] demo_sources by (intro exI [of _ "[(main_file, [120])]"]) auto

lemma closure_entry_small:
  assumes "isascii n \<and> length n < 100 \<and> length d < 100"
  shows "\<exists>w. closure_entry (n, d) = Inr w"
proof -
  have "(100 :: nat) \<le> 256 ^ 4" "(100 :: nat) \<le> 256 ^ 8" by simp_all
  with assms have "\<not> (length n \<ge> 256 ^ 4 \<or> length d \<ge> 256 ^ 8)" by linarith
  with assms show ?thesis by (simp add: closure_entry_def utf8_ascii)
qed

lemma demo_built: "\<exists>r. build_source_bundle demo_python demo_build demo_upload None None = (Inr r, Some [1])"
proof -
  have "entrypoint demo_python [(main_file, [120])] None = Inr [(main_file, [120])]"
    by (simp add: entrypoint_def has_key_def)
  moreover have "check_sources demo_python [(main_file, [120])] = Inr ()"
    by (simp add: check_sources_def demo_python_def)
  moreover have "\<exists>rt. runtime_sources (sdk_read demo_build) (sha256 demo_build) = Inr (rt, lit ''00'')"
  proof -
    let ?fs = "map (\<lambda>f. (sdk_package @ [47] @ f, [])) sdk_files @ [(metadata_name, ascii_bytes metadata_text)]"
    have "isascii n \<and> length n < 100 \<and> length d < 100" if "(n, d) \<in> set ?fs" for n and d :: bytes
      using that by (auto simp: sdk_files_def sdk_package_def metadata_name_def sdk_version_def metadata_text_def)
    then have "\<exists>w. closure_entry e = Inr w" if "e \<in> set ?fs" for e
      using that closure_entry_small by (metis surj_pair)
    then have "\<forall>e \<in> set (sort_key fst ?fs). closure_entry e = Inr (SOME w. closure_entry e = Inr w)"
      by (metis (mono_tags, lifting) set_sort someI_ex)
    from collect_map [OF this] obtain b where "closure_bytes ?fs = Inr b" by (auto simp: closure_bytes_def)
    moreover have "collect (\<lambda>name. chain (sdk_read demo_build name) (\<lambda>data. Inr (sdk_package @ [47] @ name, data))) sdk_files =
        Inr (map (\<lambda>f. (sdk_package @ [47] @ f, [])) sdk_files)"
      by (rule collect_map) (simp add: demo_build_def)
    ultimately show ?thesis by (simp add: runtime_sources_def Let_def demo_build_def)
  qed
  ultimately obtain items where "archive_items demo_python demo_build demo_upload None = Inr (items, lit ''00'')"
    by (auto simp: archive_items_def demo_sources)
  then show ?thesis by (simp add: build_source_bundle_def) (simp add: demo_build_def publish_def)
qed

theorem bundle_contents_witness:
  "\<exists>r items. build_source_bundle demo_python demo_build demo_upload None None = (Inr r, Some [1]) \<and>
     size_bytes r = 1 \<and> map_of items main_file = Some [120] \<and> pack demo_build items = Inr [1]"
proof -
  from demo_built obtain r where run: "build_source_bundle demo_python demo_build demo_upload None None = (Inr r, Some [1])" ..
  from bundle_contents [OF run] obtain sources items raw where src: "read_sources demo_python (zip_read demo_build) demo_upload = Inr sources"
    and b: "pack demo_build items = Inr raw" "Some [1] = Some raw" "size_bytes r = length raw"
      "\<forall>(name, data) \<in> set sources. map_of items name = Some data"
    by - (elim exE conjE, rule that, assumption+)
  from src have "sources = [(main_file, [120])]" by (simp add: demo_sources)
  moreover from b(2) have "raw = [1]" by simp
  ultimately show ?thesis using b run by (intro exI [of _ r] exI [of _ items]) simp
qed

theorem build_leaves_output_witness:
  "\<exists>e. build_source_bundle demo_python demo_build demo_upload None (Some [7]) = (Inl e, Some [7])"
  using build_leaves_output [of demo_python demo_build demo_upload None "Some [7]"
      "fst (build_source_bundle demo_python demo_build demo_upload None (Some [7]))"
      "snd (build_source_bundle demo_python demo_build demo_upload None (Some [7]))"]
  by (metis prod.collapse)

theorem closure_unambiguous_witness:
  "\<exists>b. closure_bytes [(lit ''a'', [1, 2])] = Inr b \<and> closure_bytes [(lit ''a'', [1]), (lit ''b'', [2])] \<noteq> Inr b"
proof -
  have a: "scalars (lit ''a'')" "scalars (lit ''b'')" by (simp_all add: isascii_scalars)
  obtain b where b: "closure_bytes [(lit ''a'', [1, 2])] = Inr b"
    by (auto simp: closure_bytes_def closure_entry_def utf8_ascii)
  show ?thesis
  proof (intro exI conjI notI)
    show "closure_bytes [(lit ''a'', [1, 2])] = Inr b" by (rule b)
    assume "closure_bytes [(lit ''a'', [1]), (lit ''b'', [2])] = Inr b"
    from closure_unambiguous [OF b this] a show False by auto
  qed
qed

end
