(* ===== verification/Runtime_Bundle.thy ===== *)
theory Runtime_Bundle
  imports Source_Bundle "HOL-Library.Sublist"
begin

text \<open>
  \<open>bundle.py\<close>: packing an agent project into one executable archive whose digest is reproducible.

  A directory tree is the list of its entries below the root, in the order of their paths; a path is
  the list of its components. Arguments: what \<open>pip\<close> makes of the staged tree, the archive writer,
  SHA-256, the clock and the mode of new files. Symbolic links and failing file operations other
  than those the code handles are not modelled.
\<close>

section \<open>Trees\<close>

type_synonym path = "pystr list"

text \<open>Mode and modification time, with the bytes of a file.\<close>

datatype node = Dir nat nat | File bytes nat nat

type_synonym tree = "(path \<times> node) list"

fun is_file_node :: "node \<Rightarrow> bool" where
  "is_file_node (File b m t) = True"
| "is_file_node (Dir m t) = False"

definition is_directory :: "tree \<Rightarrow> path \<Rightarrow> bool" where
  "is_directory T p \<longleftrightarrow> (case map_of T p of Some (Dir m t) \<Rightarrow> True | _ \<Rightarrow> False)"

definition is_file :: "tree \<Rightarrow> path \<Rightarrow> bool" where
  "is_file T p \<longleftrightarrow> (case map_of T p of Some (File b m t) \<Rightarrow> True | _ \<Rightarrow> False)"

fun put :: "path \<Rightarrow> node \<Rightarrow> tree \<Rightarrow> tree" where
  "put p n [] = [(p, n)]"
| "put p n ((q, m) # T) =
     (if p = q then (p, n) # T else if p < q then (p, n) # (q, m) # T else (q, m) # put p n T)"

definition remove :: "path \<Rightarrow> tree \<Rightarrow> tree" where
  "remove p T = filter (\<lambda>(q, n). q \<noteq> p) T"

text \<open>\<open>any(path.iterdir())\<close>: in a tree, a directory is empty when no path lies below it.\<close>

definition has_child :: "tree \<Rightarrow> path \<Rightarrow> bool" where
  "has_child T p \<longleftrightarrow> (\<exists>(q, n) \<in> set T. strict_prefix p q)"

definition posix :: "path \<Rightarrow> pystr" where
  "posix p = join_with [47] p"

section \<open>Staging\<close>

definition ignored_names :: "pystr list" where
  "ignored_names = map lit [''__pycache__'', ''.git'', ''.hg'', ''.svn'', ''.venv'', ''venv'', ''.tox'', ''.mypy_cache'',
     ''.pytest_cache'', ''.ruff_cache'', ''dist'', ''build'']"

definition ignored_ends :: "pystr list" where
  "ignored_ends = map lit [''.pyc'', ''.pyo'', ''.pyz'', ''.egg-info'']"

definition stage_ignored :: "pystr \<Rightarrow> bool" where
  "stage_ignored c \<longleftrightarrow> c \<in> set ignored_names \<or> (\<exists>e \<in> set ignored_ends. ends e c)"

text \<open>\<open>shutil.copytree\<close> with these patterns leaves out a name at any depth, with all below it.\<close>

definition copied :: "tree \<Rightarrow> tree" where
  "copied T = filter (\<lambda>(p, n). \<forall>c \<in> set p. \<not> stage_ignored c) T"

record bundle_env =
  be_now :: nat
  be_mode :: nat
  be_zip :: "(path \<times> node) list \<Rightarrow> bytes"
  be_sha :: "bytes \<Rightarrow> pystr"

definition main_path :: path where "main_path = [main_file]"

definition write_entry_point :: "python \<Rightarrow> bundle_env \<Rightarrow> tree \<Rightarrow> pystr \<Rightarrow> exn + tree" where
  "write_entry_point py e T main =
     (case partition_on 58 main of
        (module, sep, fn) \<Rightarrow>
          if \<not> sep \<or> module = [] \<or> fn = [] then Inl (BundleError BadMainSpec)
          else case find (\<lambda>p. \<not> is_identifier py p) (split_on 46 module @ split_on 46 fn) of
            Some p \<Rightarrow> Inl (BundleError (MainNotIdentifier p))
          | None \<Rightarrow>
              if map_of T main_path \<noteq> None then Inl (BundleError MainExists)
              else case utf8_encode (main_text module fn) of
                None \<Rightarrow> Inl UnicodeError
              | Some bs \<Rightarrow> Inr (put main_path (File bs (be_mode e) (be_now e)) T))"

text \<open>What \<open>pip\<close> does with the requirements file: it cannot be started, or ends with an exit code
  and leaves a tree.\<close>

datatype requirement = MissingFile | Requirements "tree \<Rightarrow> (int \<times> tree) option"

definition stage_dependencies :: "(tree \<Rightarrow> (int \<times> tree) option) \<Rightarrow> tree \<Rightarrow> exn + tree" where
  "stage_dependencies pip T =
     (case pip T of
        None \<Rightarrow> Inl (BundleError PipFailed)
      | Some (code, T') \<Rightarrow> if code \<noteq> 0 then Inl (BundleError PipFailed) else Inr T')"

section \<open>Generated launchers\<close>

definition launcher_dirs :: "pystr list" where
  "launcher_dirs = map lit [''bin'', ''Scripts'']"

text \<open>\<open>posixpath.normpath\<close>.\<close>

definition norm_step :: "bool \<Rightarrow> pystr list \<Rightarrow> pystr \<Rightarrow> pystr list" where
  "norm_step rooted acc c =
     (if c = [] \<or> c = [46] then acc
      else if c \<noteq> [46, 46] \<or> \<not> rooted \<and> acc = [] \<or> acc \<noteq> [] \<and> last acc = [46, 46] then acc @ [c]
      else if acc \<noteq> [] then butlast acc else acc)"

definition normpath :: "pystr \<Rightarrow> pystr" where
  "normpath p =
     (if p = [] then [46]
      else
        let rooted = starts [47] p;
            slashes = (if \<not> rooted then [] else if starts [47, 47] p \<and> \<not> starts [47, 47, 47] p then [47, 47] else [47]);
            r = slashes @ join_with [47] (foldl (norm_step rooted) [] (split_on 47 p))
        in if r = [] then [46] else r)"

fun strip_up :: "pystr \<Rightarrow> pystr" where
  "strip_up (a # b # c # p) = (if a = 46 \<and> b = 46 \<and> c = 47 then strip_up p else a # b # c # p)"
| "strip_up p = p"

definition record_row_target :: "pystr \<Rightarrow> pystr" where
  "record_row_target row_path = strip_up (normpath (map (\<lambda>c. if c = 92 then 47 else c) row_path))"

text \<open>Reading a text file turns every line break into a line feed; \<open>splitlines(keepends=True)\<close>.\<close>

fun universal_newlines :: "pystr \<Rightarrow> pystr" where
  "universal_newlines [] = []"
| "universal_newlines (c # s) =
     (if c = 13 then 10 # universal_newlines (if take 1 s = [10] then drop 1 s else s)
      else c # universal_newlines s)"

fun kept_lines :: "pystr \<Rightarrow> pystr list" where
  "kept_lines [] = []"
| "kept_lines (c # s) =
     (if is_break c then [c] # kept_lines s
      else case kept_lines s of [] \<Rightarrow> [[c]] | l # ls \<Rightarrow> (c # l) # ls)"

definition row_target :: "pystr \<Rightarrow> pystr" where
  "row_target row = record_row_target (takeWhile (\<lambda>c. c \<noteq> 44) row)"

definition is_record :: "path \<Rightarrow> bool" where
  "is_record p \<longleftrightarrow> (case p of [d, f] \<Rightarrow> ends (lit ''.dist-info'') d \<and> f = lit ''RECORD'' | _ \<Rightarrow> False)"

definition rewrite_record :: "nat \<Rightarrow> pystr list \<Rightarrow> path \<times> node \<Rightarrow> exn + path \<times> node" where
  "rewrite_record now gone entry =
     (case entry of (p, n) \<Rightarrow>
        if \<not> is_record p then Inr (p, n)
        else case n of
          Dir m t \<Rightarrow> Inl (OSError (Errno 21))
        | File b m t \<Rightarrow>
            (case utf8_decode b of
               None \<Rightarrow> Inl UnicodeError
             | Some s \<Rightarrow>
                 let rows = kept_lines (universal_newlines s);
                     kept = filter (\<lambda>r. row_target r \<notin> set gone) rows
                 in if length kept = length rows then Inr (p, n)
                    else case utf8_encode (concat kept) of
                      None \<Rightarrow> Inl UnicodeError
                    | Some b' \<Rightarrow> Inr (p, File b' m now)))"

text \<open>The loop over one launcher directory, its paths in reverse order, and over both.\<close>

fun drop_paths :: "path list \<Rightarrow> path list \<Rightarrow> tree \<times> pystr list \<Rightarrow> tree \<times> pystr list" where
  "drop_paths pre [] st = st"
| "drop_paths pre (p # ps) (T, removed) =
     (if p \<in> set pre then drop_paths pre ps (T, removed)
      else if is_directory T p
      then drop_paths pre ps (if has_child T p then T else remove p T, removed)
      else drop_paths pre ps (remove p T, removed @ [posix p]))"

definition drop_root :: "path list \<Rightarrow> pystr \<Rightarrow> tree \<times> pystr list \<Rightarrow> tree \<times> pystr list" where
  "drop_root pre name st =
     (case st of (T, removed) \<Rightarrow>
        if \<not> is_directory T [name] then (T, removed)
        else
          (case drop_paths pre (rev (filter (strict_prefix [name]) (sort (map fst T)))) (T, removed) of
             (T', removed') \<Rightarrow>
               (if [name] \<notin> set pre \<and> \<not> has_child T' [name] then remove [name] T' else T', removed')))"

definition drop_generated_launchers :: "nat \<Rightarrow> path list \<Rightarrow> tree \<Rightarrow> exn + tree \<times> pystr list" where
  "drop_generated_launchers now pre T =
     (case foldl (\<lambda>st name. drop_root pre name st) (T, []) launcher_dirs of
        (T', removed) \<Rightarrow>
          if removed = [] then Inr (T', [])
          else chain (collect (rewrite_record now removed) T') (\<lambda>T''. Inr (T'', removed)))"

section \<open>The archive\<close>

definition native_offenders :: "tree \<Rightarrow> (pystr \<times> pystr) list" where
  "native_offenders T =
     map (\<lambda>(p, n). (hd p, posix p))
       (filter (\<lambda>(p, n). is_file_node n \<and> lower (path_suffix (last p)) \<in> set native_suffixes) T)"

definition refuse_native_extensions :: "tree \<Rightarrow> exn + unit" where
  "refuse_native_extensions T =
     (if native_offenders T = [] then Inr () else Inl (BundleError (NativeExtension (native_offenders T))))"

definition zip_epoch :: nat where "zip_epoch = 315532800 + 2 * 86400"

fun retimed :: "node \<Rightarrow> node" where
  "retimed (Dir m t) = Dir m zip_epoch"
| "retimed (File b m t) = File b m zip_epoch"

definition normalize_mtimes :: "tree \<Rightarrow> tree" where
  "normalize_mtimes T = map (\<lambda>(p, n). (p, retimed n)) T"

definition is_pycache :: "path \<Rightarrow> bool" where
  "is_pycache p \<longleftrightarrow> lit ''__pycache__'' \<in> set p \<or> path_suffix (last p) \<in> set bytecode_suffixes"

text \<open>\<open>zipapp.create_archive\<close> with \<open>main=None\<close>: the shebang line, then the members.\<close>

definition archive_members :: "tree \<Rightarrow> (path \<times> node) list" where
  "archive_members T = filter (\<lambda>(p, n). \<not> is_pycache p) T"

definition create_archive :: "bundle_env \<Rightarrow> pystr \<Rightarrow> tree \<Rightarrow> exn + bytes" where
  "create_archive e interpreter T =
     (if \<not> is_file T main_path then Inl (BundleError ZipappRefused)
      else if interpreter = [] then Inr (be_zip e (archive_members T))
      else case utf8_encode ([35, 33] @ interpreter @ [10]) of
        None \<Rightarrow> Inl UnicodeError
      | Some line \<Rightarrow> Inr (line @ be_zip e (archive_members T)))"

definition sha256_file :: "bundle_env \<Rightarrow> bytes \<Rightarrow> pystr" where
  "sha256_file e data = lit ''sha256:'' @ be_sha e data"

text \<open>The temporary staging tree: the project, the entry point, the dependencies.\<close>

definition stage_project :: "python \<Rightarrow> bundle_env \<Rightarrow> pystr option \<Rightarrow> tree \<Rightarrow> exn + tree" where
  "stage_project py e main source =
     (case main of None \<Rightarrow> Inr (copied source) | Some spec \<Rightarrow> write_entry_point py e (copied source) spec)"

definition stage_requirement :: "bundle_env \<Rightarrow> requirement option \<Rightarrow> tree \<Rightarrow> exn + tree" where
  "stage_requirement e req staging =
     (case req of
        None \<Rightarrow> Inr staging
      | Some MissingFile \<Rightarrow> Inl (BundleError NoRequirementsFile)
      | Some (Requirements pip) \<Rightarrow>
          chain (stage_dependencies pip staging) (\<lambda>T.
          chain (drop_generated_launchers (be_now e) (map fst staging) T) (\<lambda>(T', removed). Inr T')))"

text \<open>\<open>build_bundle\<close>: the digest, and the bytes of the output file, which was \<open>old\<close>. A source that is
  no directory is \<open>None\<close>.\<close>

definition build_bundle ::
  "python \<Rightarrow> bundle_env \<Rightarrow> tree option \<Rightarrow> pystr option \<Rightarrow> requirement option \<Rightarrow> pystr \<Rightarrow> bytes option
     \<Rightarrow> (exn + pystr) \<times> bytes option" where
  "build_bundle py e source main req interpreter old =
     (case (case source of
              None \<Rightarrow> Inl (BundleError NotADirectory)
            | Some src \<Rightarrow>
                if main = None \<and> \<not> is_file src main_path then Inl (BundleError NoMainFile)
                else
                  chain (stage_project py e main src) (\<lambda>staging.
                  chain (stage_requirement e req staging) (\<lambda>T.
                  chain (refuse_native_extensions T) (\<lambda>u.
                  create_archive e interpreter (normalize_mtimes T))))) of
        Inl x \<Rightarrow> (Inl x, old)
      | Inr data \<Rightarrow> (Inr (sha256_file e data), Some data))"


section \<open>What the launcher pass removes\<close>

text \<open>A tree has no path twice, and nothing below a file.\<close>

definition tree_ok :: "tree \<Rightarrow> bool" where
  "tree_ok T \<longleftrightarrow> sorted_wrt (<) (map fst T) \<and>
     (\<forall>(p, n) \<in> set T. is_file_node n \<longrightarrow> \<not> (\<exists>(q, m) \<in> set T. strict_prefix p q))"

text \<open>A path stays if it was there before \<open>pip\<close> ran, or leads to one that was.\<close>

definition keeps :: "path list \<Rightarrow> tree \<Rightarrow> path \<Rightarrow> bool" where
  "keeps pre T p \<longleftrightarrow> (\<exists>q \<in> set (map fst T). q \<in> set pre \<and> prefix p q)"

definition in_launchers :: "tree \<Rightarrow> path \<Rightarrow> bool" where
  "in_launchers T p \<longleftrightarrow> (\<exists>name \<in> set launcher_dirs. is_directory T [name] \<and> prefix [name] p)"

definition generated :: "path list \<Rightarrow> tree \<Rightarrow> path list" where
  "generated pre T = map fst (filter (\<lambda>(p, n). is_file_node n \<and> in_launchers T p \<and> p \<notin> set pre) T)"

lemma keepsI: "(q, n) \<in> set T \<Longrightarrow> q \<in> set pre \<Longrightarrow> prefix p q \<Longrightarrow> keeps pre T p"
  unfolding keeps_def by force

lemma keepsE:
  assumes "keeps pre T p"
  obtains q n where "(q, n) \<in> set T" and "q \<in> set pre" and "prefix p q"
  using assms unfolding keeps_def by auto

lemma strict_prefix_less: "strict_prefix p q \<Longrightarrow> p < (q :: path)"
proof -
  assume "strict_prefix p q"
  then obtain c cs where "q = p @ c # cs" by (elim strict_prefixE')
  then show "p < q" by (simp add: list_less_def lexord_append_rightI)
qed

lemma tree_distinct: "tree_ok T \<Longrightarrow> distinct (map fst T)"
  unfolding tree_ok_def using strict_sorted_iff by blast

lemma tree_ok_filter: "tree_ok T \<Longrightarrow> tree_ok (filter P T)"
  unfolding tree_ok_def by (auto simp: sorted_wrt_map intro: sorted_wrt_filter)

lemma map_of_filter_key: "P p \<Longrightarrow> map_of (filter (\<lambda>(q, n). P q) T) p = map_of T p"
  by (induction T) auto

lemma is_directory_filter: "P p \<Longrightarrow> is_directory (filter (\<lambda>(q, n). P q) T) p = is_directory T p"
  by (simp add: is_directory_def map_of_filter_key)

lemma file_below:
  assumes "tree_ok T" and "p \<in> fst ` set T" and "\<not> is_directory T p"
  shows "\<not> (\<exists>(q, m) \<in> set T. strict_prefix p q)"
proof -
  from assms(2) obtain n where n: "(p, n) \<in> set T" by auto
  then have "map_of T p = Some n" using tree_distinct [OF assms(1)] by simp
  with assms(3) have "is_file_node n" by (cases n) (auto simp: is_directory_def)
  with n assms(1) show ?thesis unfolding tree_ok_def by blast
qed

lemma remove_filter:
  "\<not> K p \<Longrightarrow> remove p (filter (\<lambda>(q, n). q \<notin> D \<or> K q) T) = filter (\<lambda>(q, n). q \<notin> insert p D \<or> K q) T"
  unfolding remove_def filter_filter by (rule filter_cong) auto

lemma keep_filter:
  "K p \<Longrightarrow> filter (\<lambda>(q, n). q \<notin> D \<or> K q) T = filter (\<lambda>(q, n). q \<notin> insert p D \<or> K q) T"
  by (rule filter_cong) auto

lemma drop_paths_filter:
  assumes ok: "tree_ok T" and "sorted_wrt (\<lambda>p q. q < p) ps" and "D \<inter> set ps = {}"
    and "D \<union> set ps = {q \<in> fst ` set T. strict_prefix r q}"
  shows "drop_paths pre ps (filter (\<lambda>(q, n). q \<notin> D \<or> keeps pre T q) T, R) =
     (filter (\<lambda>(q, n). q \<notin> D \<union> set ps \<or> keeps pre T q) T,
      R @ map posix (filter (\<lambda>p. p \<notin> set pre \<and> \<not> is_directory T p) ps))"
  using assms(2-)
proof (induction ps arbitrary: D R)
  case Nil
  then show ?case by simp
next
  case (Cons p ps)
  let ?T = "filter (\<lambda>(q, n). q \<notin> D \<or> keeps pre T q) T"
  have p: "p \<in> fst ` set T" "strict_prefix r p" "p \<notin> D" "p \<notin> set ps" using Cons.prems by auto
  have below: "q \<in> D" if "q \<in> fst ` set T" "strict_prefix p q" for q
  proof -
    have "strict_prefix r q" using p(2) that(2) by (rule prefix_order.less_trans)
    with that(1) Cons.prems(3) have "q \<in> D \<union> set (p # ps)" by blast
    moreover have "p < q" using that(2) by (rule strict_prefix_less)
    ultimately show ?thesis using Cons.prems(1) by auto
  qed
  have IH: "drop_paths pre ps (filter (\<lambda>(q, n). q \<notin> insert p D \<or> keeps pre T q) T, R') =
      (filter (\<lambda>(q, n). q \<notin> D \<union> set (p # ps) \<or> keeps pre T q) T,
       R' @ map posix (filter (\<lambda>p. p \<notin> set pre \<and> \<not> is_directory T p) ps))" for R'
    using Cons.IH [of "insert p D" R'] Cons.prems p(4) by simp
  have dir: "is_directory ?T p = is_directory T p" using p(3) by (simp add: is_directory_filter)
  show ?case
  proof (cases "p \<in> set pre")
    case True
    with p(1) have "keeps pre T p" by (auto simp: keeps_def)
    with keep_filter [of "keeps pre T" p D T] True IH [of R] show ?thesis by simp
  next
    case new: False
    have child: "has_child ?T p \<longleftrightarrow> keeps pre T p"
    proof
      assume "has_child ?T p"
      then obtain q where q: "q \<in> fst ` set T" "strict_prefix p q" "q \<notin> D \<or> keeps pre T q"
        unfolding has_child_def by force
      with below have "keeps pre T q" by blast
      then obtain s n where "(s, n) \<in> set T" "s \<in> set pre" "prefix q s" by (rule keepsE)
      with q(2) show "keeps pre T p" by (intro keepsI) (auto simp: strict_prefix_def)
    next
      assume "keeps pre T p"
      then obtain s n where s: "(s, n) \<in> set T" "s \<in> set pre" "prefix p s" by (rule keepsE)
      with new have "strict_prefix p s" by (auto simp: strict_prefix_def)
      moreover from s have "keeps pre T s" by (intro keepsI) auto
      ultimately show "has_child ?T p" using s(1) by (auto simp: has_child_def)
    qed
    show ?thesis
    proof (cases "is_directory T p")
      case True
      have "(if has_child ?T p then ?T else remove p ?T) = filter (\<lambda>(q, n). q \<notin> insert p D \<or> keeps pre T q) T"
        using child keep_filter [of "keeps pre T" p D T] remove_filter [of "keeps pre T" p D T]
        by (cases "keeps pre T p") simp_all
      moreover have "drop_paths pre (p # ps) (?T, R) =
          drop_paths pre ps (if has_child ?T p then ?T else remove p ?T, R)"
        unfolding drop_paths.simps dir using True new by (simp only: if_False if_True)
      ultimately have "drop_paths pre (p # ps) (?T, R) =
          drop_paths pre ps (filter (\<lambda>(q, n). q \<notin> insert p D \<or> keeps pre T q) T, R)" by (simp only:)
      then show ?thesis unfolding IH using True by simp
    next
      case False
      then have "\<not> keeps pre T p"
        using file_below [OF ok p(1) False] new by (auto simp: keeps_def strict_prefix_def)
      with False new have "drop_paths pre (p # ps) (?T, R) =
          drop_paths pre ps (filter (\<lambda>(q, n). q \<notin> insert p D \<or> keeps pre T q) T, R @ [posix p])"
        unfolding drop_paths.simps dir using remove_filter [of "keeps pre T" p D T]
        by (simp only: if_False if_True not_False_eq_True)
      then show ?thesis unfolding IH using False new by simp
    qed
  qed
qed


lemma drop_root_filter:
  assumes ok: "tree_ok T"
  shows "drop_root pre name (T, R) =
     (filter (\<lambda>(q, n). \<not> (is_directory T [name] \<and> prefix [name] q) \<or> keeps pre T q) T,
      R @ (if is_directory T [name]
           then map posix (filter (\<lambda>p. p \<notin> set pre \<and> \<not> is_directory T p) (rev (filter (strict_prefix [name]) (map fst T))))
           else []))"
proof (cases "is_directory T [name]")
  case False
  then show ?thesis by (simp add: drop_root_def)
next
  case True
  let ?K = "keeps pre T"
  define ps where "ps = rev (filter (strict_prefix [name]) (map fst T))"
  define T1 where "T1 = filter (\<lambda>(q, n). q \<notin> set ps \<or> ?K q) T"
  have sorted: "sort (map fst T) = map fst T"
    using ok sorted_sort_id strict_sorted_iff unfolding tree_ok_def by blast
  have "sorted_wrt (\<lambda>p q. q < p) ps"
    using ok unfolding tree_ok_def ps_def sorted_wrt_rev by (rule conjE) (rule sorted_wrt_filter)
  then have run: "drop_paths pre ps (T, R) = (T1, R @ map posix (filter (\<lambda>p. p \<notin> set pre \<and> \<not> is_directory T p) ps))"
    using drop_paths_filter [OF ok, of ps "{}" "[name]" pre R] by (auto simp: T1_def ps_def)
  have root: "[name] \<in> fst ` set T"
    using True by (force simp: is_directory_def split: option.splits dest: map_of_SomeD)
  have child: "has_child T1 [name] \<longleftrightarrow> ?K [name]" if "[name] \<notin> set pre"
  proof
    assume "has_child T1 [name]"
    then obtain q n where q: "(q, n) \<in> set T" "strict_prefix [name] q" "q \<notin> set ps \<or> ?K q"
      unfolding has_child_def T1_def by auto
    moreover from q(1,2) have "q \<in> set ps" unfolding ps_def by force
    ultimately have "?K q" by blast
    then obtain s n where "(s, n) \<in> set T" "s \<in> set pre" "prefix q s" by (rule keepsE)
    with q(2) show "?K [name]" by (intro keepsI) (auto simp: strict_prefix_def)
  next
    assume "?K [name]"
    then obtain s n where s: "(s, n) \<in> set T" "s \<in> set pre" "prefix [name] s" by (rule keepsE)
    then have "?K s" by (intro keepsI) auto
    moreover from s that have "strict_prefix [name] s" by (auto simp: strict_prefix_def)
    ultimately show "has_child T1 [name]" using s(1) unfolding has_child_def T1_def by auto
  qed
  have mem: "q \<in> set ps \<longleftrightarrow> q \<noteq> [name] \<and> prefix [name] q" if "(q, n) \<in> set T" for q n
    using that by (force simp: strict_prefix_def ps_def)
  have "(if [name] \<notin> set pre \<and> \<not> has_child T1 [name] then remove [name] T1 else T1) =
      filter (\<lambda>(q, n). \<not> prefix [name] q \<or> ?K q) T"
  proof (cases "?K [name]")
    case True
    with child have "(if [name] \<notin> set pre \<and> \<not> has_child T1 [name] then remove [name] T1 else T1) = T1" by auto
    also have "\<dots> = filter (\<lambda>(q, n). \<not> prefix [name] q \<or> ?K q) T"
      unfolding T1_def by (rule filter_cong [OF refl]) (use True mem in auto)
    finally show ?thesis .
  next
    case False
    with root have "[name] \<notin> set pre" by (auto simp: keeps_def)
    with False child have "(if [name] \<notin> set pre \<and> \<not> has_child T1 [name] then remove [name] T1 else T1) =
        remove [name] T1" by simp
    also have "\<dots> = filter (\<lambda>(q, n). \<not> prefix [name] q \<or> ?K q) T"
      unfolding remove_def T1_def filter_filter by (rule filter_cong [OF refl]) (use False mem in auto)
    finally show ?thesis .
  qed
  then show ?thesis using True run by (simp add: drop_root_def sorted flip: ps_def)
qed

lemma keeps_filter:
  "(\<And>q. q \<in> set pre \<Longrightarrow> q \<in> fst ` set T \<Longrightarrow> P q) \<Longrightarrow> keeps pre (filter (\<lambda>(q, n). P q) T) p = keeps pre T p"
  by (force simp: keeps_def)

lemma keeps_self: "q \<in> set pre \<Longrightarrow> q \<in> fst ` set T \<Longrightarrow> keeps pre T q"
  by (auto simp: keeps_def)

text \<open>Both directories.\<close>

lemma drop_roots_filter:
  assumes ok: "tree_ok T"
  obtains removed where "foldl (\<lambda>st name. drop_root pre name st) (T, []) launcher_dirs =
      (filter (\<lambda>(q, n). \<not> in_launchers T q \<or> keeps pre T q) T, removed)"
    and "set removed = posix ` set (generated pre T)"
proof -
  let ?b = "lit ''bin''" and ?s = "lit ''Scripts''"
  let ?P = "\<lambda>q. \<not> (is_directory T [?b] \<and> prefix [?b] q) \<or> keeps pre T q"
  let ?T1 = "filter (\<lambda>(q, n). ?P q) T"
  let ?f = "\<lambda>U name. map posix (filter (\<lambda>p. p \<notin> set pre \<and> \<not> is_directory U p)
     (rev (filter (strict_prefix [name]) (map fst U))))"
  have keep: "keeps pre ?T1 q = keeps pre T q" for q
    by (rule keeps_filter) (simp add: keeps_self)
  have dir: "is_directory ?T1 (?s # q) = is_directory T (?s # q)" for q
    by (rule is_directory_filter) simp
  have "foldl (\<lambda>st name. drop_root pre name st) (T, []) launcher_dirs = drop_root pre ?s (drop_root pre ?b (T, []))"
    by (simp add: launcher_dirs_def)
  also have "\<dots> = (filter (\<lambda>(q, n). \<not> (is_directory T [?s] \<and> prefix [?s] q) \<or> keeps pre T q) ?T1,
      (if is_directory T [?b] then ?f T ?b else []) @ (if is_directory T [?s] then ?f ?T1 ?s else []))"
    unfolding drop_root_filter [OF ok] drop_root_filter [OF tree_ok_filter [OF ok]] keep dir by simp
  also have "filter (\<lambda>(q, n). \<not> (is_directory T [?s] \<and> prefix [?s] q) \<or> keeps pre T q) ?T1 =
      filter (\<lambda>(q, n). \<not> in_launchers T q \<or> keeps pre T q) T"
    unfolding filter_filter by (rule filter_cong [OF refl]) (auto simp: in_launchers_def launcher_dirs_def)
  finally have run: "foldl (\<lambda>st name. drop_root pre name st) (T, []) launcher_dirs =
      (filter (\<lambda>(q, n). \<not> in_launchers T q \<or> keeps pre T q) T,
       (if is_directory T [?b] then ?f T ?b else []) @ (if is_directory T [?s] then ?f ?T1 ?s else []))" .
  have kind: "is_directory T p \<longleftrightarrow> \<not> is_file_node n" if "(p, n) \<in> set T" for p n
    using that tree_distinct [OF ok] by (cases n) (auto simp: is_directory_def)
  have elem: "x \<in> set (filter (\<lambda>p. p \<notin> set pre \<and> \<not> is_directory U p) (rev (filter (strict_prefix [name]) (map fst U))))
      \<longleftrightarrow> (\<exists>n. (x, n) \<in> set U) \<and> strict_prefix [name] x \<and> x \<notin> set pre \<and> \<not> is_directory U x" for x U name
    by force
  have gen: "set (?f T name) = posix ` {p. \<exists>n. (p, n) \<in> set T \<and> is_file_node n \<and> prefix [name] p \<and> p \<notin> set pre}"
    if "is_directory T [name]" for name
  proof -
    have "(\<exists>n. (x, n) \<in> set T) \<and> strict_prefix [name] x \<and> x \<notin> set pre \<and> \<not> is_directory T x \<longleftrightarrow>
        (\<exists>n. (x, n) \<in> set T \<and> is_file_node n \<and> prefix [name] x \<and> x \<notin> set pre)" for x
      using that kind unfolding strict_prefix_def by blast
    with elem [of _ T name] show ?thesis unfolding set_map by (intro arg_cong [of _ _ "image posix"]) blast
  qed
  have "(\<exists>n. (x, n) \<in> set ?T1) \<and> strict_prefix [?s] x \<and> x \<notin> set pre \<and> \<not> is_directory ?T1 x \<longleftrightarrow>
      (\<exists>n. (x, n) \<in> set T) \<and> strict_prefix [?s] x \<and> x \<notin> set pre \<and> \<not> is_directory T x" for x
  proof (cases x)
    case (Cons c q)
    have d: "\<not> is_directory ?T1 x \<longleftrightarrow> \<not> is_directory T x" if "c = ?s" unfolding Cons that dir ..
    show ?thesis
    proof (cases "c = ?s")
      case True
      then have "(\<exists>n. (x, n) \<in> set ?T1) \<longleftrightarrow> (\<exists>n. (x, n) \<in> set T)" by (auto simp: Cons)
      with d [OF True] show ?thesis by (simp only:)
    qed (simp add: Cons strict_prefix_def)
  qed simp
  with elem [of _ ?T1 ?s] elem [of _ T ?s] have "set (?f ?T1 ?s) = set (?f T ?s)"
    unfolding set_map by (intro arg_cong [of _ _ "image posix"]) blast
  moreover have "set (generated pre T) =
      (if is_directory T [?b] then {p. \<exists>n. (p, n) \<in> set T \<and> is_file_node n \<and> prefix [?b] p \<and> p \<notin> set pre} else {}) \<union>
      (if is_directory T [?s] then {p. \<exists>n. (p, n) \<in> set T \<and> is_file_node n \<and> prefix [?s] p \<and> p \<notin> set pre} else {})"
    by (auto simp: generated_def in_launchers_def launcher_dirs_def image_iff)
  ultimately have "set ((if is_directory T [?b] then ?f T ?b else []) @ (if is_directory T [?s] then ?f ?T1 ?s else []))
      = posix ` set (generated pre T)"
    using gen [of ?b] gen [of ?s] by (simp only: set_append image_Un if_distrib [of set] if_distrib [of "image posix"]
        list.set image_empty split: if_split) simp
  with run that show thesis by blast
qed

section \<open>Lines of a text\<close>

text \<open>A line, with its break at the end or, for the last one, perhaps without.\<close>

definition whole_line :: "pystr \<Rightarrow> bool" where
  "whole_line l \<longleftrightarrow> (\<exists>w c. l = w @ [c] \<and> is_break c \<and> (\<forall>d \<in> set w. \<not> is_break d))"

definition last_line :: "pystr \<Rightarrow> bool" where
  "last_line l \<longleftrightarrow> l \<noteq> [] \<and> (\<forall>d \<in> set l. \<not> is_break d)"

fun lines_ok :: "pystr list \<Rightarrow> bool" where
  "lines_ok [] = True"
| "lines_ok (l # ls) = (whole_line l \<and> lines_ok ls \<or> last_line l \<and> ls = [])"

lemma whole_line_simps: "is_break c \<Longrightarrow> whole_line [c]" "\<not> is_break c \<Longrightarrow> whole_line l \<Longrightarrow> whole_line (c # l)"
proof -
  show "is_break c \<Longrightarrow> whole_line [c]" by (simp add: whole_line_def)
  assume "\<not> is_break c" "whole_line l"
  then obtain w d where "l = w @ [d]" "is_break d" "\<forall>x \<in> set (c # w). \<not> is_break x" by (auto simp: whole_line_def)
  then show "whole_line (c # l)" unfolding whole_line_def by (intro exI [of _ "c # w"]) auto
qed

lemma lines_ok_kept: "lines_ok (kept_lines s)"
proof (induction s)
  case Nil
  then show ?case by simp
next
  case (Cons c s)
  then show ?case
    by (cases "kept_lines s") (auto simp: whole_line_simps last_line_def)
qed

lemma kept_lines_whole: "whole_line l \<Longrightarrow> kept_lines (l @ s) = l # kept_lines s"
proof -
  assume "whole_line l"
  then obtain w c where l: "l = w @ [c]" "is_break c" "\<forall>d \<in> set w. \<not> is_break d" by (auto simp: whole_line_def)
  from l(2,3) have "kept_lines (w @ c # s) = (w @ [c]) # kept_lines s" by (induction w) auto
  with l(1) show ?thesis by simp
qed

lemma kept_lines_last: "last_line l \<Longrightarrow> kept_lines l = [l]"
proof (induction l)
  case (Cons c l)
  then show ?case by (cases "l = []") (auto simp: last_line_def)
qed (simp add: last_line_def)

lemma kept_lines_concat: "lines_ok ls \<Longrightarrow> kept_lines (concat ls) = ls"
  by (induction ls) (auto simp: kept_lines_whole kept_lines_last)

lemma lines_ok_filter: "lines_ok ls \<Longrightarrow> lines_ok (filter P ls)"
  by (induction ls) auto

lemma concat_kept: "concat (kept_lines s) = s"
  by (induction s) (auto split: list.splits)

lemma universal_id: "13 \<notin> set s \<Longrightarrow> universal_newlines s = s"
  by (induction s) auto

lemma universal_no_cr: "13 \<notin> set (universal_newlines s)"
  by (induction s rule: universal_newlines.induct) auto

lemma universal_set: "c \<in> set (universal_newlines s) \<Longrightarrow> c = 10 \<or> c \<in> set s"
proof (induction s rule: universal_newlines.induct)
  case (2 d s)
  then show ?case by (cases s) (auto split: if_splits)
qed simp

lemma universal_scalars: "scalars s \<Longrightarrow> scalars (universal_newlines s)"
  using universal_set by (auto simp: scalars_def is_surrogate_def) fastforce+


section \<open>The launcher pass, exactly\<close>

definition record_rows :: "pystr \<Rightarrow> pystr list" where
  "record_rows s = kept_lines (universal_newlines s)"

text \<open>A RECORD before and after: just the rows that refer to one of these paths are gone, the others are
  the same in the same order; and a RECORD with no such row is untouched.\<close>

definition record_pruned :: "pystr list \<Rightarrow> node \<Rightarrow> node \<Rightarrow> bool" where
  "record_pruned gone n m \<longleftrightarrow>
     (\<exists>b b' md t t' s s'. n = File b md t \<and> m = File b' md t' \<and> utf8_decode b = Some s \<and> utf8_decode b' = Some s' \<and>
        record_rows s' = filter (\<lambda>row. row_target row \<notin> set gone) (record_rows s) \<and>
        ((\<forall>row \<in> set (record_rows s). row_target row \<notin> set gone) \<longrightarrow> m = n))"

lemma record_rows_kept:
  "record_rows (concat (filter P (record_rows s))) = filter P (record_rows s)"
proof -
  let ?ls = "filter P (record_rows s)"
  have "set (concat ?ls) \<subseteq> set (concat (record_rows s))" by auto
  also have "\<dots> = set (universal_newlines s)" by (simp add: record_rows_def concat_kept)
  finally have "13 \<notin> set (concat ?ls)" using universal_no_cr by blast
  moreover have "lines_ok ?ls" unfolding record_rows_def by (intro lines_ok_filter lines_ok_kept)
  ultimately have "kept_lines (universal_newlines (concat ?ls)) = ?ls"
    by (simp only: universal_id not_False_eq_True kept_lines_concat)
  then show ?thesis by (simp only: record_rows_def)
qed

lemma scalars_concat_rows:
  assumes "scalars s"
  shows "scalars (concat (filter P (record_rows s)))"
proof -
  have "set (concat (filter P (record_rows s))) \<subseteq> set (concat (record_rows s))" by auto
  also have "\<dots> = set (universal_newlines s)" by (simp add: record_rows_def concat_kept)
  finally show ?thesis using universal_scalars [OF assms] unfolding scalars_def by blast
qed

lemma rewrite_record_Inr:
  assumes "rewrite_record now gone (p, n) = Inr (q, m)"
  shows "q = p" and "\<not> is_record p \<Longrightarrow> m = n" and "is_record p \<Longrightarrow> record_pruned gone n m"
proof -
  let ?P = "\<lambda>r. row_target r \<notin> set gone"
  show "q = p" "\<not> is_record p \<Longrightarrow> m = n"
    using assms by (auto simp: rewrite_record_def Let_def split: if_splits node.splits option.splits)
  assume "is_record p"
  with assms obtain b md t where n: "n = File b md t"
    by (cases n) (auto simp: rewrite_record_def)
  with assms \<open>is_record p\<close> obtain s where s: "utf8_decode b = Some s"
    by (cases "utf8_decode b") (auto simp: rewrite_record_def)
  from assms \<open>is_record p\<close> n s have m: "(if length (filter ?P (record_rows s)) = length (record_rows s) then Inr (p, n)
      else case utf8_encode (concat (filter ?P (record_rows s))) of
        None \<Rightarrow> Inl UnicodeError | Some b' \<Rightarrow> Inr (p, File b' md now)) = Inr (q, m)"
    by (auto simp: rewrite_record_def Let_def record_rows_def split: if_splits)
  show "record_pruned gone n m"
  proof (cases "length (filter ?P (record_rows s)) = length (record_rows s)")
    case True
    then have "\<forall>row \<in> set (record_rows s). ?P row" by (metis filter_id_conv length_filter_less nat_less_le)
    then have "filter ?P (record_rows s) = record_rows s" by simp
    with True m n s show ?thesis by (auto simp: record_pruned_def)
  next
    case False
    let ?kept = "concat (filter ?P (record_rows s))"
    obtain b' where b: "utf8_encode ?kept = Some b'" "utf8_decode b' = Some ?kept"
      using utf8_roundtrip [OF scalars_concat_rows [OF utf8_decode_scalars [OF s]]] by blast
    have "\<not> (\<forall>row \<in> set (record_rows s). ?P row)" using False by (metis filter_True)
    moreover have "m = File b' md now" using False m b by simp
    ultimately show ?thesis
      using n s b(2) record_rows_kept [of ?P s] unfolding record_pruned_def by blast
  qed
qed

lemma collect_records:
  assumes "collect (rewrite_record now gone) T = Inr T'"
  shows "map fst T' = map fst T"
    and "list_all2 (\<lambda>(p, n) (q, m). q = p \<and> (\<not> is_record p \<longrightarrow> m = n) \<and> (is_record p \<longrightarrow> record_pruned gone n m)) T T'"
proof -
  from assms have "list_all2 (\<lambda>x y. rewrite_record now gone x = Inr y) T T'" by (simp add: collect_Inr)
  then show 2: "list_all2 (\<lambda>(p, n) (q, m). q = p \<and> (\<not> is_record p \<longrightarrow> m = n) \<and> (is_record p \<longrightarrow> record_pruned gone n m)) T T'"
    by (rule list_all2_mono) (auto dest: rewrite_record_Inr)
  then show "map fst T' = map fst T" by (induction rule: list_all2_induct) auto
qed

lemma rewritten_from:
  assumes c: "collect (rewrite_record now R) U = Inr T" and p: "(p, n) \<in> set T"
  shows "\<exists>n'. (p, n') \<in> set U \<and> (\<not> is_record p \<longrightarrow> n = n') \<and> (is_record p \<longrightarrow> record_pruned R n' n)"
proof -
  note all = collect_records(2) [OF c]
  obtain k where k: "k < length T" "T ! k = (p, n)" using p by (meson in_set_conv_nth)
  obtain p' n' where u: "U ! k = (p', n')" by force
  with k have "p = p' \<and> (\<not> is_record p \<longrightarrow> n = n') \<and> (is_record p \<longrightarrow> record_pruned R n' n)"
    using list_all2_nthD2 [OF all k(1)] by auto
  moreover have "(p', n') \<in> set U" using u k(1) list_all2_lengthD [OF all] by (metis nth_mem)
  ultimately show ?thesis by blast
qed

lemma rewritten_stay:
  assumes c: "collect (rewrite_record now R) U = Inr T" and p: "(p, n) \<in> set U" "\<not> is_record p"
  shows "(p, n) \<in> set T"
proof -
  note all = collect_records(2) [OF c]
  obtain k where k: "k < length U" "U ! k = (p, n)" using p(1) by (meson in_set_conv_nth)
  then have "k < length T" "T ! k = (p, n)"
    using list_all2_lengthD [OF all] list_all2_nthD [OF all k(1)] p(2) by (auto split: prod.splits)
  then show ?thesis by (metis nth_mem)
qed

text \<open>
  C29: what the launcher pass does to the tree that \<open>pip\<close> left. The paths it reports are exactly the files
  below \<open>bin\<close> and \<open>Scripts\<close> that were not there before \<open>pip\<close> ran; exactly those go, with the
  directories that lead to no earlier path. Everything but a RECORD keeps its bytes, so a project that
  ships its own \<open>bin\<close> keeps it whole. A RECORD loses exactly the rows that refer to a removed path:
  its other rows stay as they are, in their order, and without such a row it is not touched.
\<close>

theorem launchers_dropped:
  assumes "tree_ok T" and "drop_generated_launchers now pre T = Inr (T', removed)"
  shows "set removed = posix ` set (generated pre T) \<and>
    map fst T' = filter (\<lambda>p. \<not> in_launchers T p \<or> keeps pre T p) (map fst T) \<and>
    (\<forall>(p, n) \<in> set T'. \<not> is_record p \<longrightarrow> (p, n) \<in> set T) \<and>
    (\<forall>(p, n) \<in> set T. p \<in> set pre \<and> \<not> is_record p \<longrightarrow> (p, n) \<in> set T') \<and>
    (removed = [] \<longrightarrow> set T' \<subseteq> set T) \<and>
    (removed \<noteq> [] \<longrightarrow> (\<forall>(p, m) \<in> set T'. is_record p \<longrightarrow> (\<exists>n. (p, n) \<in> set T \<and> record_pruned removed n m)))"
proof -
  let ?Q = "\<lambda>p. \<not> in_launchers T p \<or> keeps pre T p"
  let ?U = "filter (\<lambda>(p, n). ?Q p) T"
  obtain R where fold: "foldl (\<lambda>st name. drop_root pre name st) (T, []) launcher_dirs = (?U, R)"
    and R: "set R = posix ` set (generated pre T)"
    by (rule drop_roots_filter [OF assms(1)])
  from fold assms(2) have rem: "removed = R"
    and T': "R = [] \<and> T' = ?U \<or> R \<noteq> [] \<and> collect (rewrite_record now R) ?U = Inr T'"
    by (auto simp: drop_generated_launchers_def chain_Inr split: if_splits)
  have keys: "map fst ?U = filter ?Q (map fst T)"
    by (simp add: filter_map comp_def split_def)
  have kept: "(p, n) \<in> set ?U" if "(p, n) \<in> set T" "p \<in> set pre" for p n
    using that by (auto intro: keepsI)
  have sub: "(p, n) \<in> set T" if "(p, n) \<in> set ?U" for p n using that by simp
  from T' show ?thesis
  proof (elim disjE conjE)
    assume "R = []" and "T' = ?U"
    with keys rem R have "set removed = posix ` set (generated pre T)" "map fst T' = filter ?Q (map fst T)" "removed = []"
      by simp_all
    moreover have "set T' \<subseteq> set T" using \<open>T' = ?U\<close> by auto
    moreover have "\<forall>(p, n) \<in> set T. p \<in> set pre \<longrightarrow> (p, n) \<in> set T'" using kept \<open>T' = ?U\<close> by blast
    ultimately show ?thesis by blast
  next
    assume "R \<noteq> []" and c: "collect (rewrite_record now R) ?U = Inr T'"
    have "map fst T' = filter ?Q (map fst T)" using keys collect_records(1) [OF c] by (simp only:)
    moreover have "\<forall>(p, n) \<in> set T'. \<not> is_record p \<longrightarrow> (p, n) \<in> set T" using rewritten_from [OF c] sub by blast
    moreover have "\<forall>(p, n) \<in> set T. p \<in> set pre \<and> \<not> is_record p \<longrightarrow> (p, n) \<in> set T'" using kept rewritten_stay [OF c] by blast
    moreover have "\<forall>(p, m) \<in> set T'. is_record p \<longrightarrow> (\<exists>n. (p, n) \<in> set T \<and> record_pruned R n m)"
      using rewritten_from [OF c] sub by blast
    ultimately show ?thesis using rem R \<open>R \<noteq> []\<close> by blast
  qed
qed

section \<open>Two builds\<close>

text \<open>What may differ between two runs of \<open>pip\<close>: times, the bytes of the launchers it generates, and in a
  RECORD the rows that name these.\<close>

definition rows_alike :: "pystr set \<Rightarrow> bytes \<Rightarrow> bytes \<Rightarrow> bool" where
  "rows_alike gone b1 b2 \<longleftrightarrow>
     (\<exists>s1 s2. utf8_decode b1 = Some s1 \<and> utf8_decode b2 = Some s2 \<and>
        list_all2 (\<lambda>r1 r2. r1 = r2 \<or> row_target r1 \<in> gone \<and> row_target r2 \<in> gone) (record_rows s1) (record_rows s2) \<and>
        (\<exists>r \<in> set (record_rows s1). row_target r \<in> gone))"

fun node_alike :: "path list \<Rightarrow> pystr set \<Rightarrow> path \<Rightarrow> node \<Rightarrow> node \<Rightarrow> bool" where
  "node_alike launchers gone p (Dir m1 t1) (Dir m2 t2) = (m1 = m2)"
| "node_alike launchers gone p (File b1 m1 t1) (File b2 m2 t2) =
     (m1 = m2 \<and> (b1 = b2 \<or> p \<in> set launchers \<or> is_record p \<and> rows_alike gone b1 b2))"
| "node_alike launchers gone p _ _ = False"

definition alike :: "path list \<Rightarrow> tree \<Rightarrow> tree \<Rightarrow> bool" where
  "alike pre T1 T2 \<longleftrightarrow>
     list_all2 (\<lambda>(p, n) (q, m). p = q \<and> node_alike (generated pre T1) (posix ` set (generated pre T1)) p n m) T1 T2"

definition runs_alike :: "path list \<Rightarrow> (int \<times> tree) option \<Rightarrow> (int \<times> tree) option \<Rightarrow> bool" where
  "runs_alike pre r1 r2 \<longleftrightarrow>
     (case (r1, r2) of
        (None, None) \<Rightarrow> True
      | (Some (c1, T1), Some (c2, T2)) \<Rightarrow> c1 = c2 \<and> tree_ok T1 \<and> alike pre T1 T2
      | _ \<Rightarrow> False)"

text \<open>Equality up to times.\<close>

lemma normalize_simps [simp]:
  "normalize_mtimes [] = []" "normalize_mtimes ((p, n) # T) = (p, retimed n) # normalize_mtimes T"
  by (simp_all add: normalize_mtimes_def)

lemma normalize_eq:
  "normalize_mtimes T1 = normalize_mtimes T2 \<longleftrightarrow> list_all2 (\<lambda>(p, n) (q, m). p = q \<and> retimed n = retimed m) T1 T2"
proof (induction T1 arbitrary: T2)
  case Nil
  show ?case by (cases T2) auto
next
  case (Cons x T1)
  obtain p n where x: "x = (p, n)" by force
  show ?case
  proof (cases T2)
    case Nil
    then show ?thesis by (simp add: x)
  next
    case (Cons y T)
    then show ?thesis by (cases y) (simp add: x Cons.IH [of T])
  qed
qed

lemma retimed_file: "retimed n = retimed m \<Longrightarrow> is_file_node n = is_file_node m"
  by (cases n; cases m) auto

lemma normalize_keys: "map fst (normalize_mtimes T) = map fst T"
  by (simp add: normalize_mtimes_def split_def comp_def)

lemma same_keys: "normalize_mtimes T1 = normalize_mtimes T2 \<Longrightarrow> map fst T1 = map fst T2"
  by (metis normalize_keys)

lemma normalize_filter: "normalize_mtimes (filter (\<lambda>(p, n). P p) T) = filter (\<lambda>(p, n). P p) (normalize_mtimes T)"
  by (induction T) auto

lemma normalize_put: "normalize_mtimes (put p n T) = put p (retimed n) (normalize_mtimes T)"
  by (induction T) auto

lemma map_of_none_keys: "map_of T p = None \<longleftrightarrow> p \<notin> set (map fst T)"
  by (auto simp: map_of_eq_None_iff)

lemma stage_project_alike:
  assumes "normalize_mtimes S1 = normalize_mtimes S2"
  shows "(\<exists>x. stage_project py e main S1 = Inl x \<and> stage_project py (e\<lparr>be_now := t\<rparr>) main S2 = Inl x) \<or>
    (\<exists>U1 U2. stage_project py e main S1 = Inr U1 \<and> stage_project py (e\<lparr>be_now := t\<rparr>) main S2 = Inr U2 \<and>
       normalize_mtimes U1 = normalize_mtimes U2)"
proof -
  have c: "normalize_mtimes (copied S1) = normalize_mtimes (copied S2)"
    unfolding copied_def normalize_filter assms ..
  have k: "map_of (copied S1) main_path = None \<longleftrightarrow> map_of (copied S2) main_path = None"
    unfolding map_of_none_keys using same_keys [OF c] by simp
  show ?thesis
  proof (cases main)
    case None
    with c show ?thesis by (simp add: stage_project_def)
  next
    case (Some spec)
    obtain m sep f where "partition_on 58 spec = (m, sep, f)" by (cases "partition_on 58 spec")
    with Some c k show ?thesis
      unfolding stage_project_def write_entry_point_def
      by (simp add: normalize_put split: option.split) auto
  qed
qed

lemma retimed_kind [simp]: "is_file_node (retimed n) = is_file_node n"
  by (cases n) auto

lemma offenders_normalized: "native_offenders (normalize_mtimes T) = native_offenders T"
  unfolding native_offenders_def normalize_mtimes_def filter_map map_map comp_def split_def
  by (simp only: retimed_kind fst_conv snd_conv)


lemma alike_keys: "alike pre T1 T2 \<Longrightarrow> map fst T1 = map fst T2"
  unfolding alike_def by (induction rule: list_all2_induct) auto

lemma alike_nodes:
  assumes "alike pre T1 T2"
  shows "list_all2 (\<lambda>(p, n) (q, m). p = q \<and> is_file_node n = is_file_node m) T1 T2"
  using assms unfolding alike_def
  by (rule list_all2_mono) (auto elim: node_alike.elims)

lemma directory_alike:
  "list_all2 (\<lambda>(p, n) (q, m). p = q \<and> is_file_node n = is_file_node m) T1 T2 \<Longrightarrow>
     is_directory T1 p = is_directory T2 p"
proof (induction rule: list_all2_induct)
  case (Cons x xs y ys)
  obtain q n m where "x = (q, n)" "y = (q, m)" "is_file_node n = is_file_node m" using Cons(1) by auto
  then show ?case using Cons.IH by (cases n; cases m) (auto simp: is_directory_def)
qed (simp add: is_directory_def)

lemma alike_same:
  assumes "alike pre T1 T2"
  shows "in_launchers T1 = in_launchers T2" and "keeps pre T1 = keeps pre T2" and "generated pre T1 = generated pre T2"
    and "tree_ok T1 \<Longrightarrow> tree_ok T2"
proof -
  note nodes = alike_nodes [OF assms]
  note keys = alike_keys [OF assms]
  show l: "in_launchers T1 = in_launchers T2"
    unfolding in_launchers_def by (simp add: directory_alike [OF nodes])
  show "keeps pre T1 = keeps pre T2" unfolding keeps_def keys ..
  from nodes have g: "map fst (filter (\<lambda>(p, n). is_file_node n \<and> Q p) T1) = map fst (filter (\<lambda>(p, n). is_file_node n \<and> Q p) T2)" for Q
    by (induction rule: list_all2_induct) auto
  show "generated pre T1 = generated pre T2"
    unfolding generated_def l by (rule g)
  assume ok: "tree_ok T1"
  have backwards: "\<exists>n'. (p, n') \<in> set T1 \<and> is_file_node n' = is_file_node n" if "(p, n) \<in> set T2" for p n
    using nodes that by (induction rule: list_all2_induct) auto
  have "\<not> (\<exists>(q, m) \<in> set T2. strict_prefix p q)" if "(p, n) \<in> set T2" "is_file_node n" for p n
  proof -
    from backwards [OF that(1)] that(2) obtain n' where "(p, n') \<in> set T1" "is_file_node n'" by blast
    with ok have "\<not> (\<exists>(q, m) \<in> set T1. strict_prefix p q)" unfolding tree_ok_def by blast
    with backwards show ?thesis by blast
  qed
  moreover have "sorted_wrt (<) (map fst T2)" using ok keys by (simp only: tree_ok_def)
  ultimately show "tree_ok T2" unfolding tree_ok_def by blast
qed

lemma filter_gone:
  "list_all2 (\<lambda>x y. x = y \<or> t x \<in> G \<and> t y \<in> G) xs ys \<Longrightarrow> filter (\<lambda>r. t r \<notin> G) xs = filter (\<lambda>r. t r \<notin> G) ys"
  by (induction rule: list_all2_induct) auto

lemma rewrite_alike:
  assumes "node_alike launchers gone p n m" and "p \<notin> set launchers" and "set R1 = gone" and "set R2 = gone"
  shows "(\<exists>x. rewrite_record t1 R1 (p, n) = Inl x \<and> rewrite_record t2 R2 (p, m) = Inl x) \<or>
    (\<exists>n' m'. rewrite_record t1 R1 (p, n) = Inr (p, n') \<and> rewrite_record t2 R2 (p, m) = Inr (p, m') \<and> retimed n' = retimed m')"
proof (cases "is_record p")
  case False
  with assms(1,2) show ?thesis by (cases n; cases m) (auto simp: rewrite_record_def)
next
  case rec: True
  show ?thesis
  proof (cases n)
    case (Dir md t)
    with assms(1) rec show ?thesis by (cases m) (auto simp: rewrite_record_def)
  next
    case (File b1 md u1)
    with assms(1,2) obtain b2 u2 where m: "m = File b2 md u2" and b: "b1 = b2 \<or> rows_alike gone b1 b2"
      by (cases m) auto
    show ?thesis
    proof (cases "b1 = b2")
      case True
      show ?thesis
        unfolding rewrite_record_def File m True assms(3,4) Let_def using rec by (simp split: option.split)
    next
      case False
      let ?k = "\<lambda>s. filter (\<lambda>r. row_target r \<notin> gone) (record_rows s)"
      from b False obtain s1 s2 where s: "utf8_decode b1 = Some s1" "utf8_decode b2 = Some s2"
        and l: "list_all2 (\<lambda>r1 r2. r1 = r2 \<or> row_target r1 \<in> gone \<and> row_target r2 \<in> gone) (record_rows s1) (record_rows s2)"
        and "\<exists>r \<in> set (record_rows s1). row_target r \<in> gone"
        by (auto simp: rows_alike_def)
      then have "length (?k s1) < length (record_rows s1)" by (auto intro: length_filter_less)
      moreover have k: "?k s1 = ?k s2" by (rule filter_gone [OF l])
      moreover have "length (record_rows s1) = length (record_rows s2)" by (rule list_all2_lengthD [OF l])
      ultimately have "length (?k s1) \<noteq> length (record_rows s1)" "length (?k s2) \<noteq> length (record_rows s2)" by simp_all
      then show ?thesis
        unfolding rewrite_record_def File m assms(3,4) Let_def record_rows_def [symmetric]
        using rec s k by (simp add: record_rows_def [symmetric] split: option.split)
    qed
  qed
qed

lemma collect_alike:
  assumes "list_all2 (\<lambda>x y. (\<exists>e. f x = Inl e \<and> g y = Inl e) \<or> (\<exists>p n m. f x = Inr (p, n) \<and> g y = Inr (p, m) \<and> retimed n = retimed m)) xs ys"
  shows "(\<exists>e. collect f xs = Inl e \<and> collect g ys = Inl e) \<or>
    (\<exists>us vs. collect f xs = Inr us \<and> collect g ys = Inr vs \<and> normalize_mtimes us = normalize_mtimes vs)"
  using assms
proof (induction rule: list_all2_induct)
  case (Cons x xs y ys)
  from Cons(1) show ?case
  proof (elim disjE exE conjE)
    fix p n m
    assume "f x = Inr (p, n)" "g y = Inr (p, m)" "retimed n = retimed m"
    with Cons.IH show ?thesis by auto
  qed auto
qed simp

lemma all2_filter_keys:
  "list_all2 (\<lambda>(p, n) (q, m). p = q \<and> R p n m) xs ys \<Longrightarrow>
     list_all2 (\<lambda>(p, n) (q, m). p = q \<and> Q p \<and> R p n m) (filter (\<lambda>(p, n). Q p) xs) (filter (\<lambda>(p, n). Q p) ys)"
  by (induction rule: list_all2_induct) auto

lemma create_archive_now: "create_archive (e\<lparr>be_now := t\<rparr>) ip T = create_archive e ip T"
  by (simp add: create_archive_def split: option.split)

lemma drop_alike:
  assumes ok: "tree_ok T1" and al: "alike pre T1 T2"
  shows "(\<exists>e. drop_generated_launchers t1 pre T1 = Inl e \<and> drop_generated_launchers t2 pre T2 = Inl e) \<or>
    (\<exists>U1 U2 R1 R2. drop_generated_launchers t1 pre T1 = Inr (U1, R1) \<and> drop_generated_launchers t2 pre T2 = Inr (U2, R2) \<and>
       normalize_mtimes U1 = normalize_mtimes U2)"
proof -
  let ?Q = "\<lambda>p. \<not> in_launchers T1 p \<or> keeps pre T1 p"
  define V1 where "V1 = filter (\<lambda>(p, n). ?Q p) T1"
  define V2 where "V2 = filter (\<lambda>(p, n). ?Q p) T2"
  let ?G = "generated pre T1"
  obtain R1 where 1: "foldl (\<lambda>st name. drop_root pre name st) (T1, []) launcher_dirs = (V1, R1)"
    and R1: "set R1 = posix ` set ?G"
    unfolding V1_def by (rule drop_roots_filter [OF ok])
  obtain R2 where 2: "foldl (\<lambda>st name. drop_root pre name st) (T2, []) launcher_dirs = (V2, R2)"
    and R2: "set R2 = posix ` set ?G"
    unfolding V2_def alike_same(1-3) [OF al] by (rule drop_roots_filter [OF alike_same(4) [OF al ok]])
  have not_gen: "p \<notin> set ?G" if "?Q p" for p
  proof
    assume "p \<in> set ?G"
    then obtain n where n: "(p, n) \<in> set T1" "is_file_node n" "in_launchers T1 p" "p \<notin> set pre"
      by (auto simp: generated_def)
    with that have "keeps pre T1 p" by blast
    then obtain q m where "(q, m) \<in> set T1" "q \<in> set pre" "prefix p q" by (rule keepsE)
    with n(4) have "strict_prefix p q" by (auto simp: strict_prefix_def)
    with ok n(1,2) \<open>(q, m) \<in> set T1\<close> show False unfolding tree_ok_def by blast
  qed
  have V: "list_all2 (\<lambda>(p, n) (q, m). p = q \<and> p \<notin> set ?G \<and> node_alike ?G (posix ` set ?G) p n m) V1 V2"
    using all2_filter_keys [OF al [unfolded alike_def], of ?Q] unfolding V1_def V2_def
    by (rule list_all2_mono) (use not_gen in auto)
  show ?thesis
  proof (cases "R1 = []")
    case True
    with R1 R2 have "R2 = []" "?G = []" by auto
    have "retimed n = retimed m" if "node_alike ?G (posix ` set ?G) p n m" for p n m
      using that \<open>?G = []\<close> by (cases n; cases m) (auto simp: rows_alike_def)
    with V have "list_all2 (\<lambda>(p, n) (q, m). p = q \<and> retimed n = retimed m) V1 V2"
      by (auto elim!: list_all2_mono)
    then have "normalize_mtimes V1 = normalize_mtimes V2" by (simp add: normalize_eq)
    with 1 2 True \<open>R2 = []\<close> show ?thesis by (simp add: drop_generated_launchers_def)
  next
    case False
    with R1 R2 have "R2 \<noteq> []" by auto
    let ?P = "\<lambda>x y. (\<exists>e. rewrite_record t1 R1 x = Inl e \<and> rewrite_record t2 R2 y = Inl e) \<or>
        (\<exists>p n m. rewrite_record t1 R1 x = Inr (p, n) \<and> rewrite_record t2 R2 y = Inr (p, m) \<and> retimed n = retimed m)"
    have step: "?P (p, n) (q, m)" if "p = q \<and> p \<notin> set ?G \<and> node_alike ?G (posix ` set ?G) p n m" for p n q m
      using that rewrite_alike [of ?G "posix ` set ?G" p n m R1 R2 t1 t2] R1 R2 by blast
    from V have "list_all2 ?P V1 V2"
    proof (induction rule: list_all2_induct)
      case (Cons x xs y ys)
      obtain p n q m where xy: "x = (p, n)" "y = (q, m)" by (cases x; cases y)
      from Cons(1) have "p = q \<and> p \<notin> set ?G \<and> node_alike ?G (posix ` set ?G) p n m" unfolding xy prod.case .
      from step [OF this] have "?P x y" unfolding xy .
      with Cons.IH show ?case by simp
    qed simp
    from collect_alike [OF this] 1 2 False \<open>R2 \<noteq> []\<close> show ?thesis
      by (auto simp: drop_generated_launchers_def)
  qed
qed

lemma main_alike:
  assumes "normalize_mtimes S1 = normalize_mtimes S2"
  shows "is_file S1 main_path = is_file S2 main_path"
  using assms unfolding normalize_eq
proof (induction rule: list_all2_induct)
  case (Cons x xs y ys)
  obtain q n m where "x = (q, n)" "y = (q, m)" "retimed n = retimed m" using Cons(1) by auto
  then show ?case using Cons.IH by (cases n; cases m) (auto simp: is_file_def)
qed (simp add: is_file_def)

text \<open>The end of a build, from the staged tree on.\<close>

definition seal :: "bundle_env \<Rightarrow> pystr \<Rightarrow> tree \<Rightarrow> exn + bytes" where
  "seal e interpreter T = chain (refuse_native_extensions T) (\<lambda>u. create_archive e interpreter (normalize_mtimes T))"

lemma seal_alike:
  assumes "normalize_mtimes T1 = normalize_mtimes T2"
  shows "seal e interpreter T1 = seal (e\<lparr>be_now := t\<rparr>) interpreter T2"
proof -
  have "refuse_native_extensions T1 = refuse_native_extensions T2"
    unfolding refuse_native_extensions_def using assms offenders_normalized by metis
  with assms show ?thesis by (simp add: seal_def create_archive_now)
qed

lemma sealed_requirement_alike:
  assumes n: "normalize_mtimes U1 = normalize_mtimes U2" and runs: "runs_alike (map fst U1) (pip1 U1) (pip2 U2)"
  shows "chain (stage_requirement e (Some (Requirements pip1)) U1) (seal e interpreter) =
    chain (stage_requirement (e\<lparr>be_now := t\<rparr>) (Some (Requirements pip2)) U2) (seal (e\<lparr>be_now := t\<rparr>) interpreter)"
proof (cases "pip1 U1")
  case None
  with runs have "pip2 U2 = None" by (auto simp: runs_alike_def split: option.splits)
  with None show ?thesis by (simp add: stage_requirement_def stage_dependencies_def)
next
  case (Some r)
  with runs obtain c T1 T2 where p: "pip1 U1 = Some (c, T1)" "pip2 U2 = Some (c, T2)"
    and ok: "tree_ok T1" and al: "alike (map fst U1) T1 T2"
    by (cases r; cases "pip2 U2") (auto simp: runs_alike_def)
  show ?thesis
  proof (cases "c = 0")
    case False
    with p show ?thesis by (simp add: stage_requirement_def stage_dependencies_def)
  next
    case zero: True
    have st: "stage_requirement e (Some (Requirements pip1)) U1 =
          chain (drop_generated_launchers (be_now e) (map fst U1) T1) (\<lambda>(T', removed). Inr T')"
      "stage_requirement (e\<lparr>be_now := t\<rparr>) (Some (Requirements pip2)) U2 =
          chain (drop_generated_launchers t (map fst U1) T2) (\<lambda>(T', removed). Inr T')"
      using p zero same_keys [OF n] by (simp_all add: stage_requirement_def stage_dependencies_def)
    from drop_alike [OF ok al, of "be_now e" t] show ?thesis
    proof (elim disjE exE conjE)
      fix V1 V2 R1 R2
      assume "drop_generated_launchers (be_now e) (map fst U1) T1 = Inr (V1, R1)"
        and "drop_generated_launchers t (map fst U1) T2 = Inr (V2, R2)" and "normalize_mtimes V1 = normalize_mtimes V2"
      then show ?thesis unfolding st using seal_alike [of V1 V2] by (simp only: chain_simps prod.case)
    qed (simp add: st)
  qed
qed

text \<open>
  C30: a bundle can be rebuilt. Take two builds of the same project on one machine, at different times,
  whose files differ in their times only, and two runs of \<open>pip\<close> that end alike up to times, the
  bytes of the launchers it generates and the RECORD rows that name them. Then the builds fail alike
  or give the same digest, of the same bytes.
\<close>

theorem bundle_repeatable:
  assumes S: "normalize_mtimes S1 = normalize_mtimes S2"
    and runs: "\<And>U1 U2. stage_project py e main S1 = Inr U1 \<Longrightarrow> stage_project py (e\<lparr>be_now := t\<rparr>) main S2 = Inr U2 \<Longrightarrow>
      runs_alike (map fst U1) (pip1 U1) (pip2 U2)"
    and b1: "build_bundle py e (Some S1) main (Some (Requirements pip1)) interpreter old1 = (r1, out1)"
    and b2: "build_bundle py (e\<lparr>be_now := t\<rparr>) (Some S2) main (Some (Requirements pip2)) interpreter old2 = (r2, out2)"
  shows "r1 = r2 \<and> (\<forall>d. r1 = Inr d \<longrightarrow> out1 = out2)"
proof -
  let ?e = "e\<lparr>be_now := t\<rparr>"
  let ?build = "\<lambda>e S pip. if main = None \<and> \<not> is_file S main_path then Inl (BundleError NoMainFile)
     else chain (stage_project py e main S) (\<lambda>staging.
       chain (stage_requirement e (Some (Requirements pip)) staging) (seal e interpreter))"
  have "?build e S1 pip1 = ?build ?e S2 pip2"
    using stage_project_alike [OF S, of py e main t] sealed_requirement_alike runs
    by (auto simp: main_alike [OF S])
  with b1 b2 show ?thesis
    unfolding build_bundle_def option.case sha256_file_def seal_def by (auto split: sum.splits)
qed

text \<open>
  What a bundle holds. A build that returns wrote the shebang line and an archive, and returns the
  digest of these bytes. The archive has a \<open>__main__.py\<close>, no compiled extension and no bytecode, and
  every member carries the fixed time; without requirements its members are exactly the staged
  project files. A build that fails leaves the output as it was.
\<close>

theorem bundle_members:
  assumes "build_bundle py e (Some S) main req interpreter old = (r, out)"
  shows "case r of
      Inl x \<Rightarrow> out = old
    | Inr d \<Rightarrow> \<exists>U line es. stage_project py e main S = Inr U \<and> out = Some (line @ be_zip e es) \<and>
        d = sha256_file e (line @ be_zip e es) \<and>
        (\<exists>b m. map_of es main_path = Some (File b m zip_epoch)) \<and>
        (\<forall>(p, n) \<in> set es. retimed n = n \<and> \<not> is_pycache p \<and>
           (is_file_node n \<longrightarrow> lower (path_suffix (last p)) \<notin> set native_suffixes)) \<and>
        (req = None \<longrightarrow> es = archive_members (normalize_mtimes U))"
proof (cases r)
  case (Inl x)
  with assms show ?thesis by (auto simp: build_bundle_def split: sum.splits)
next
  case (Inr d)
  with assms obtain U T data where U: "stage_project py e main S = Inr U" and T: "stage_requirement e req U = Inr T"
    and native: "native_offenders T = []" and data: "create_archive e interpreter (normalize_mtimes T) = Inr data"
    and out: "out = Some data" "d = sha256_file e data"
    by (auto simp: build_bundle_def chain_Inr refuse_native_extensions_def split: sum.splits if_splits)
  let ?es = "archive_members (normalize_mtimes T)"
  from data obtain line where line: "data = line @ be_zip e ?es" and main: "is_file (normalize_mtimes T) main_path"
    by (auto simp: create_archive_def split: if_splits option.splits)
  have times: "retimed n = n" if "(p, n) \<in> set (normalize_mtimes T)" for p n
  proof -
    from that obtain n' where "n = retimed n'" by (auto simp: normalize_mtimes_def)
    then show ?thesis by (cases n') simp_all
  qed
  have "\<not> is_pycache main_path" by code_simp
  then have look: "map_of ?es main_path = map_of (normalize_mtimes T) main_path"
    unfolding archive_members_def by (rule map_of_filter_key)
  from main obtain b m t where f: "map_of (normalize_mtimes T) main_path = Some (File b m t)"
    by (auto simp: is_file_def split: option.splits node.splits)
  with times have "t = zip_epoch" by (fastforce dest: map_of_SomeD)
  with f look have "\<exists>b m. map_of ?es main_path = Some (File b m zip_epoch)" by simp
  moreover have "lower (path_suffix (last p)) \<notin> set native_suffixes" if "(p, n) \<in> set ?es" "is_file_node n" for p n
  proof -
    from that have "(p, n) \<in> set (normalize_mtimes T)" by (simp add: archive_members_def)
    moreover have "native_offenders (normalize_mtimes T) = []" using native by (simp add: offenders_normalized)
    ultimately show ?thesis using that(2) by (auto simp: native_offenders_def filter_empty_conv)
  qed
  moreover have "retimed n = n \<and> \<not> is_pycache p" if "(p, n) \<in> set ?es" for p n
    using that times by (auto simp: archive_members_def)
  moreover have "req = None \<longrightarrow> ?es = archive_members (normalize_mtimes U)"
    using T by (auto simp: stage_requirement_def)
  ultimately have "stage_project py e main S = Inr U \<and> out = Some (line @ be_zip e ?es) \<and>
        d = sha256_file e (line @ be_zip e ?es) \<and>
        (\<exists>b m. map_of ?es main_path = Some (File b m zip_epoch)) \<and>
        (\<forall>(p, n) \<in> set ?es. retimed n = n \<and> \<not> is_pycache p \<and>
           (is_file_node n \<longrightarrow> lower (path_suffix (last p)) \<notin> set native_suffixes)) \<and>
        (req = None \<longrightarrow> ?es = archive_members (normalize_mtimes U))"
    using U out line by blast
  then show ?thesis unfolding Inr sum.case by (intro exI)
qed

section \<open>A project with its own launcher and a distribution that generates one\<close>

definition demo_record :: "nat \<Rightarrow> pystr" where
  "demo_record c = lit ''h.py,'' @ [10] @ lit ''../../bin/h,'' @ [c, 10]"

definition demo_project :: "nat \<Rightarrow> tree" where
  "demo_project t = [(main_path, File [112] 0 t), ([lit ''bin''], Dir 0 t), ([lit ''bin'', lit ''own''], File [7] 0 t)]"

definition demo_installed :: "nat \<Rightarrow> nat \<Rightarrow> tree" where
  "demo_installed t c =
     [(main_path, File [112] 0 t), ([lit ''bin''], Dir 0 c), ([lit ''bin'', lit ''h''], File [of_nat c] 0 c),
      ([lit ''bin'', lit ''own''], File [7] 0 t), ([lit ''h.dist-info''], Dir 0 c),
      ([lit ''h.dist-info'', lit ''RECORD''], File (ascii_bytes (demo_record c)) 0 c)]"

definition demo_clean :: "nat \<Rightarrow> nat \<Rightarrow> nat \<Rightarrow> tree" where
  "demo_clean t c now =
     [(main_path, File [112] 0 t), ([lit ''bin''], Dir 0 c), ([lit ''bin'', lit ''own''], File [7] 0 t),
      ([lit ''h.dist-info''], Dir 0 c), ([lit ''h.dist-info'', lit ''RECORD''], File (ascii_bytes (lit ''h.py,'' @ [10])) 0 now)]"

abbreviation demo_before :: "path list" where
  "demo_before \<equiv> [main_path, [lit ''bin''], [lit ''bin'', lit ''own'']]"

lemma demo_rows:
  assumes "c = 50 \<or> c = 51"
  shows "record_rows (demo_record c) = [lit ''h.py,'' @ [10], lit ''../../bin/h,'' @ [c, 10]]"
    and "row_target (lit ''h.py,'' @ [10]) = lit ''h.py''" and "row_target (lit ''../../bin/h,'' @ [c, 10]) = lit ''bin/h''"
  using assms by (auto simp: demo_record_def record_rows_def is_break_def row_target_def record_row_target_def
      normpath_def norm_step_def lit_def starts_def)

lemma drop_lit: "drop n (lit s) = lit (drop n s)"
  by (simp add: lit_def drop_map)

lemma demo_decoded: "c < 128 \<Longrightarrow> utf8_decode (ascii_bytes (demo_record c)) = Some (demo_record c)"
  by (rule utf8_decode_ascii) (simp add: demo_record_def)

definition demo_dropped :: "nat \<Rightarrow> nat \<Rightarrow> bool" where
  "demo_dropped t c \<longleftrightarrow> foldl (\<lambda>st name. drop_root demo_before name st) (demo_installed t c, []) launcher_dirs =
     (filter (\<lambda>(p, n). p \<noteq> [lit ''bin'', lit ''h'']) (demo_installed t c), [lit ''bin/h''])"

lemma demo_fold: "demo_dropped 5 50" "demo_dropped 6 51"
  by code_simp+

lemma demo_generated: "generated demo_before (demo_installed t c) = [[lit ''bin'', lit ''h'']]"
  by (simp add: generated_def demo_installed_def in_launchers_def is_directory_def launcher_dirs_def main_path_def main_file_def)

lemma demo_tree_ok: "tree_ok (demo_installed 5 50)"
  by code_simp

lemma demo_drop:
  assumes "c = 50 \<or> c = 51" and "demo_dropped t c"
  shows "drop_generated_launchers now demo_before (demo_installed t c) = Inr (demo_clean t c now, [lit ''bin/h''])"
proof -
  have c: "c < 128" using assms(1) by auto
  have "rewrite_record now [lit ''bin/h''] ([lit ''h.dist-info'', lit ''RECORD''], File (ascii_bytes (demo_record c)) 0 c) =
      Inr ([lit ''h.dist-info'', lit ''RECORD''], File (ascii_bytes (lit ''h.py,'' @ [10])) 0 now)"
    using demo_rows [OF assms(1)] utf8_ascii [of "lit ''h.py,'' @ [10]"]
    by (simp add: rewrite_record_def is_record_def ends_def demo_decoded [OF c] Let_def drop_lit flip: record_rows_def)
  moreover have "\<not> is_record main_path" "\<not> is_record [a]" "\<not> is_record [lit ''bin'', a]" for a
    by (simp_all add: is_record_def main_path_def ends_def)
  ultimately show ?thesis
    unfolding drop_generated_launchers_def assms(2) [unfolded demo_dropped_def]
    by (simp add: demo_installed_def demo_clean_def rewrite_record_def [of _ _ "(main_path, _)"]
      rewrite_record_def [of _ _ "([_], _)"] rewrite_record_def [of _ _ "([lit ''bin'', _], _)"] main_path_def)
qed


theorem launchers_dropped_witness:
  "\<exists>T' removed. drop_generated_launchers 9 demo_before (demo_installed 5 50) = Inr (T', removed) \<and>
     set removed = {lit ''bin/h''} \<and> ([lit ''bin'', lit ''own''], File [7] 0 5) \<in> set T' \<and>
     (\<forall>(p, m) \<in> set T'. is_record p \<longrightarrow>
        (\<exists>n. (p, n) \<in> set (demo_installed 5 50) \<and> record_pruned removed n m))"
proof -
  obtain T' removed where run: "drop_generated_launchers 9 demo_before (demo_installed 5 50) = Inr (T', removed)"
    using demo_drop [OF _ demo_fold(1)] by auto
  note l = launchers_dropped [OF demo_tree_ok run]
  from l have d: "set removed = posix ` set (generated demo_before (demo_installed 5 50))"
    by (elim conjE)
  from l have own: "\<forall>(p, n) \<in> set (demo_installed 5 50). p \<in> set demo_before \<and> \<not> is_record p \<longrightarrow> (p, n) \<in> set T'"
    by (elim conjE)
  from l have records: "removed \<noteq> [] \<longrightarrow> (\<forall>(p, m) \<in> set T'. is_record p \<longrightarrow>
      (\<exists>n. (p, n) \<in> set (demo_installed 5 50) \<and> record_pruned removed n m))"
    by (elim conjE)
  have "posix [lit ''bin'', lit ''h''] = lit ''bin/h''" by (simp add: posix_def lit_def)
  with d have rem: "set removed = {lit ''bin/h''}" by (simp add: demo_generated)
  then have "removed \<noteq> []" by force
  with records have "\<forall>(p, m) \<in> set T'. is_record p \<longrightarrow>
      (\<exists>n. (p, n) \<in> set (demo_installed 5 50) \<and> record_pruned removed n m)" by blast
  moreover have "\<not> is_record [lit ''bin'', lit ''own'']" by (simp add: is_record_def ends_def)
  with own have "([lit ''bin'', lit ''own''], File [7] 0 5) \<in> set T'" by (simp add: demo_installed_def)
  ultimately show ?thesis using run rem by blast
qed

definition demo_env :: bundle_env where
  "demo_env = \<lparr>be_now = 0, be_mode = 420,
     be_zip = (\<lambda>es. concat (map (\<lambda>(p, n). case n of File b m t \<Rightarrow> b | Dir m t \<Rightarrow> []) es)), be_sha = (\<lambda>b. lit ''0'')\<rparr>"

lemma demo_staged: "stage_project demo_python (demo_env\<lparr>be_now := u\<rparr>) None (demo_project t) = Inr (demo_project t)"
  "map fst (demo_project t) = demo_before"
proof -
  have "\<not> stage_ignored c" if "c \<in> set [main_file, lit ''bin'', lit ''own'']" for c
    using that by (auto simp: stage_ignored_def ignored_names_def ignored_ends_def ends_def main_file_def drop_lit)
  then show "stage_project demo_python (demo_env\<lparr>be_now := u\<rparr>) None (demo_project t) = Inr (demo_project t)"
    by (simp add: stage_project_def copied_def demo_project_def main_path_def)
qed (simp add: demo_project_def)

lemma demo_not_native: "native_offenders (demo_clean t c now) = []"
proof -
  have "\<forall>p \<in> set [main_file, lit ''own'', lit ''RECORD'']. lower (path_suffix p) \<notin> set native_suffixes" by code_simp
  then show ?thesis by (simp add: native_offenders_def demo_clean_def main_path_def)
qed

lemma demo_builds:
  assumes "c = 50 \<or> c = 51" and "demo_dropped t c"
  shows "\<exists>d out. build_bundle demo_python (demo_env\<lparr>be_now := u\<rparr>) (Some (demo_project t)) None
      (Some (Requirements (\<lambda>U. Some (0, demo_installed t c)))) [] None = (Inr d, Some out)"
  using demo_drop [OF assms, of u]
  by (simp add: build_bundle_def demo_staged stage_requirement_def stage_dependencies_def refuse_native_extensions_def
      demo_not_native create_archive_def)
    (simp add: is_file_def demo_project_def demo_clean_def)

lemma demo_alike: "alike demo_before (demo_installed 5 50) (demo_installed 6 51)"
proof -
  have r: "is_record [lit ''h.dist-info'', lit ''RECORD'']" by (simp add: is_record_def ends_def drop_lit)
  have "posix [lit ''bin'', lit ''h''] = lit ''bin/h''" by (simp add: posix_def lit_def)
  then have "rows_alike {posix [lit ''bin'', lit ''h'']} (ascii_bytes (demo_record 50)) (ascii_bytes (demo_record 51))"
    by (simp add: rows_alike_def demo_decoded demo_rows)
  with r show ?thesis unfolding alike_def demo_generated by (simp add: demo_installed_def)
qed

theorem bundle_repeatable_witness:
  "\<exists>d out. build_bundle demo_python demo_env (Some (demo_project 5)) None
       (Some (Requirements (\<lambda>U. Some (0, demo_installed 5 50)))) [] None = (Inr d, Some out) \<and>
     build_bundle demo_python (demo_env\<lparr>be_now := 9\<rparr>) (Some (demo_project 6)) None
       (Some (Requirements (\<lambda>U. Some (0, demo_installed 6 51)))) [] None = (Inr d, Some out)"
proof -
  have now: "demo_env\<lparr>be_now := 0\<rparr> = demo_env" by (simp add: demo_env_def)
  let ?b1 = "build_bundle demo_python demo_env (Some (demo_project 5)) None
       (Some (Requirements (\<lambda>U. Some (0, demo_installed 5 50)))) [] None"
  let ?b2 = "build_bundle demo_python (demo_env\<lparr>be_now := 9\<rparr>) (Some (demo_project 6)) None
       (Some (Requirements (\<lambda>U. Some (0, demo_installed 6 51)))) [] None"
  obtain d1 o1 where 1: "?b1 = (Inr d1, Some o1)" using demo_builds [OF _ demo_fold(1), of 0] unfolding now by auto
  obtain d2 o2 where 2: "?b2 = (Inr d2, Some o2)" using demo_builds [OF _ demo_fold(2), of 9] by auto
  have "Inr d1 = (Inr d2 :: exn + pystr) \<and> (\<forall>d. Inr d1 = (Inr d :: exn + pystr) \<longrightarrow> Some o1 = Some o2)"
  proof (rule bundle_repeatable [OF _ _ 1 2])
    show "normalize_mtimes (demo_project 5) = normalize_mtimes (demo_project 6)" by (simp add: demo_project_def)
  next
    fix U1 U2
    assume "stage_project demo_python demo_env None (demo_project 5) = Inr U1"
    then have "map fst U1 = demo_before" using demo_staged(1) [of 0 5] demo_staged(2) [of 5] by (simp add: now)
    then show "runs_alike (map fst U1) (Some (0, demo_installed 5 50)) (Some (0, demo_installed 6 51))"
      using demo_alike demo_tree_ok by (simp add: runs_alike_def)
  qed
  with 1 2 show ?thesis by auto
qed

theorem bundle_members_witness:
  "\<exists>d out line es. build_bundle demo_python demo_env (Some (demo_project 5)) None None [] None = (Inr d, Some out) \<and>
     out = line @ be_zip demo_env es \<and> es = archive_members (normalize_mtimes (demo_project 5))"
proof -
  have "native_offenders (demo_project 5) = []" by code_simp
  moreover have "is_file (normalize_mtimes (demo_project 5)) main_path" "is_file (demo_project 5) main_path"
    by (simp_all add: is_file_def demo_project_def)
  ultimately obtain d out where run: "build_bundle demo_python demo_env (Some (demo_project 5)) None None [] None = (Inr d, out)"
    using demo_staged(1) [of "be_now demo_env" 5]
    by (auto simp: build_bundle_def stage_requirement_def refuse_native_extensions_def create_archive_def)
  from bundle_members [OF run] demo_staged(1) [of "be_now demo_env" 5] run show ?thesis by auto
qed

end
