(* ===== verification/Cli.thy ===== *)
theory Cli
  imports Wrap Submit Extract Runtime_Bundle
begin

text \<open>
  \<open>cli.py\<close>: the six commands of \<open>hawcx\<close> and \<open>main\<close>, as actions on the files, the two output streams and
  the requests that were posted. A command is given with its arguments parsed (\<open>argparse\<close> and
  \<open>build_parser\<close> are not modelled). A path is the text of its \<open>pathlib.Path\<close>; links and \<open>..\<close> are not
  resolved. Arguments (\<open>cli_env\<close>): PyYAML, \<open>str\<close> of exceptions, of refusals and of decoded values that
  are no strings, the clock, the variables, \<open>urlopen\<close>, and what a bundle is built from.
\<close>

section \<open>The world of a command\<close>

datatype fs_entry = AFile bytes | ADir

record cli =
  fs :: "pystr \<Rightarrow> fs_entry option"
  stdin_text :: "exn + pystr"
  write_fault :: "pystr \<Rightarrow> os_kind option"
  printed :: pystr
  complained :: pystr
  posted :: "submit_request list"

record cli_env =
  ce_yaml :: "(pystr \<Rightarrow> json option) option"
  ce_fmt :: "json \<Rightarrow> pystr"
  ce_now :: pystr
  ce_shown :: "exn \<Rightarrow> pystr"
  ce_why :: "refusal \<Rightarrow> pystr"
  ce_vars :: env
  ce_urlopen :: "submit_request \<Rightarrow> answer"
  ce_python :: python
  ce_bundle :: bundle_env
  ce_name :: "pystr \<Rightarrow> pystr"
  ce_tree :: "pystr \<Rightarrow> tree option"
  ce_pip :: "pystr \<Rightarrow> tree \<Rightarrow> (int \<times> tree) option"

text \<open>The commands with their arguments.\<close>

datatype command =
    Validate pystr
  | Wrap pystr "pystr option" bool bool                  \<comment> \<open>template, output, force, stamp_time\<close>
  | Init pystr pystr bool                                \<comment> \<open>template, out_dir, force\<close>
  | Submit pystr pystr pystr                             \<comment> \<open>template, org, source\<close>
  | Extract "pystr list" pystr pystr pystr pystr pystr   \<comment> \<open>names, tools, namespace, name, version, framework\<close>
  | Bundle pystr "pystr option" "pystr option" "pystr option" bool
                                                         \<comment> \<open>source, output, main, requirement, force\<close>

text \<open>\<open>print\<close> to either stream.\<close>

definition say :: "pystr \<Rightarrow> (exn, cli, unit) act" where
  "say s w = (Inr (), w\<lparr>printed := printed w @ s @ [10]\<rparr>)"

definition warn :: "pystr \<Rightarrow> (exn, cli, unit) act" where
  "warn s w = (Inr (), w\<lparr>complained := complained w @ s @ [10]\<rparr>)"

fun each :: "('a \<Rightarrow> (exn, cli, unit) act) \<Rightarrow> 'a list \<Rightarrow> (exn, cli, unit) act" where
  "each f [] = ret ()"
| "each f (x # xs) = andthen (f x) (\<lambda>_. each f xs)"

definition lines_of :: "string list \<Rightarrow> pystr" where
  "lines_of ls = join_with [10] (map lit ls)"

text \<open>\<open>str(pathlib.Path(p))\<close>, and \<open>Path(d) / name\<close> of a plain name.\<close>

definition path_str :: "pystr \<Rightarrow> pystr" where
  "path_str p =
     (let slashes = (if \<not> starts [47] p then [] else if starts [47, 47] p \<and> \<not> starts [47, 47, 47] p then [47, 47] else [47]);
          r = slashes @ join_with [47] (filter (\<lambda>c. c \<noteq> [] \<and> c \<noteq> [46]) (split_on 47 p))
      in if r = [] then [46] else r)"

definition path_in :: "pystr \<Rightarrow> string \<Rightarrow> pystr" where
  "path_in d name =
     (let p = path_str d in
      if p = [46] then lit name else if last p = 47 then p @ lit name else p @ [47] @ lit name)"

definition exists_path :: "pystr \<Rightarrow> cli \<Rightarrow> bool" where
  "exists_path p w \<longleftrightarrow> fs w p \<noteq> None"

text \<open>\<open>mkdir\<close> of the parents and \<open>write_text\<close>; a text that cannot be encoded leaves an empty file.\<close>

definition write_bytes :: "pystr \<Rightarrow> bytes \<Rightarrow> (exn, cli, unit) act" where
  "write_bytes p data w =
     (case write_fault w p of
        Some k \<Rightarrow> (Inl (OSError k), w)
      | None \<Rightarrow>
          if fs w p = Some ADir then (Inl (OSError (Errno 21)), w)
          else (Inr (), w\<lparr>fs := (fs w)(p \<mapsto> AFile data)\<rparr>))"

definition write_text :: "pystr \<Rightarrow> pystr \<Rightarrow> (exn, cli, unit) act" where
  "write_text p s =
     (case utf8_encode s of
        Some data \<Rightarrow> write_bytes p data
      | None \<Rightarrow> andthen (write_bytes p []) (\<lambda>_. throw UnicodeError))"

section \<open>Reading a template\<close>

definition read_source :: "pystr \<Rightarrow> (exn, cli, pystr \<times> pystr) act" where
  "read_source p w =
     (if p = [45] then (chain (stdin_text w) (\<lambda>s. Inr (s, lit ''<stdin>'')), w)
      else case fs w (path_str p) of
        Some (AFile data) \<Rightarrow>
          (case utf8_decode data of
             None \<Rightarrow> (Inl UnicodeError, w)
           | Some s \<Rightarrow> (Inr (universal_newlines s, path_str p), w))
      | _ \<Rightarrow> (Inl (TemplateError NoTemplateFile []), w))"

definition loaded :: "cli_env \<Rightarrow> pystr \<Rightarrow> exn + json" where
  "loaded e s = load_template (ce_yaml e) (SourceText s)"

text \<open>\<open>f"{code:28} {path}"\<close> of a string.\<close>

definition padded :: "pystr \<Rightarrow> pystr" where
  "padded s = s @ replicate (28 - length s) 32"

definition code_line :: "pystr \<times> pystr \<Rightarrow> (exn, cli, unit) act" where
  "code_line cp = warn (lit ''  '' @ padded (fst cp) @ [32] @ snd cp)"

definition authority_hint :: pystr where
  "authority_hint = [10] @ lines_of [
     ''  A template is a DESCRIPTION. Authority attaches at publish/assign'',
     ''  and is enforced by HAAP. Remove the authority-claiming key ''] @ [0x2014] @ lines_of ['' it is'',
     ''  rejected rather than stripped, so that a claim can never be quietly'',
     ''  turned into a valid submission.'']"

definition cmd_validate :: "cli_env \<Rightarrow> pystr \<Rightarrow> (exn, cli, nat) act" where
  "cmd_validate e template =
     andthen (read_source template) (\<lambda>(s, hint).
     case loaded e s of
       Inr doc \<Rightarrow> andthen (say (hint @ lit '': OK'')) (\<lambda>_. ret 0)
     | Inl (TemplateError f errors) \<Rightarrow>
         if errors \<noteq> []
         then andthen (warn (hint @ lit '': INVALID '' @ [0x2014, 32] @ dec (length errors) @ lit '' error(s)'')) (\<lambda>_.
              andthen (each code_line errors) (\<lambda>_.
              andthen (if \<exists>(c, p) \<in> set errors. c = lit ''E_AUTHORITY_CLAIM'' then warn authority_hint else ret ()) (\<lambda>_.
              ret 1)))
         else andthen (warn (ce_shown e (TemplateError f errors))) (\<lambda>_. ret 1)
     | Inl x \<Rightarrow> throw x)"

section \<open>Generating\<close>

definition tool_count :: "json \<Rightarrow> nat" where
  "tool_count doc = (case item ''tools'' doc of Inr (JArr ts) \<Rightarrow> length ts | _ \<Rightarrow> 0)"

definition generation_failed :: "exn \<Rightarrow> bool" where
  "generation_failed x = (case x of TemplateError f errors \<Rightarrow> True | GenerationError f \<Rightarrow> True | _ \<Rightarrow> False)"

definition wrote_wrappers :: "pystr \<Rightarrow> json \<Rightarrow> pystr \<Rightarrow> pystr" where
  "wrote_wrappers p doc hint = p @ lit '': wrote '' @ dec (tool_count doc) @ lit '' tool wrapper(s) from '' @ hint"

text \<open>\<open>sys.stdout.write(source)\<close>.\<close>

definition emit :: "pystr \<Rightarrow> (exn, cli, nat) act" where
  "emit source w = (Inr 0, w\<lparr>printed := printed w @ source\<rparr>)"

definition write_module :: "pystr \<Rightarrow> bool \<Rightarrow> pystr \<Rightarrow> pystr \<Rightarrow> (exn, cli, nat) act" where
  "write_module p force source message w =
     (if exists_path p w \<and> \<not> force
      then andthen (warn (p @ lit '': exists '' @ [0x2014] @ lit '' pass --force to overwrite'')) (\<lambda>_. ret 1) w
      else andthen (write_text p source) (\<lambda>_. andthen (say message) (\<lambda>_. ret 0)) w)"

definition cmd_wrap :: "cli_env \<Rightarrow> pystr \<Rightarrow> pystr option \<Rightarrow> bool \<Rightarrow> bool \<Rightarrow> (exn, cli, nat) act" where
  "cmd_wrap e template output force stamp_time =
     andthen (read_source template) (\<lambda>(s, hint).
     case chain (loaded e s) (\<lambda>doc.
          chain (generate_module (ce_fmt e) doc hint (if stamp_time then Some (ce_now e) else None)) (\<lambda>source.
          Inr (doc, source))) of
       Inl x \<Rightarrow> if generation_failed x then andthen (warn (ce_shown e x)) (\<lambda>_. ret 1) else throw x
     | Inr (doc, source) \<Rightarrow>
         (case output of
            None \<Rightarrow> emit source
          | Some p \<Rightarrow>
              if p = [45] then emit source
              else write_module (path_str p) force source (wrote_wrappers (path_str p) doc hint)))"

definition kept_hint :: pystr where
  "kept_hint = lines_of [
     ''  A tool the template declares but your config does not will show'',
     ''  up as a KeyError in TOOLS, not as a silent gap: compare it against'',
     ''  the regenerated hawcx_tools.py to see what the template now declares.'']"

definition fill_hint :: pystr where
  "fill_hint = lines_of [
     ''  Every FILL_ME in it must be replaced. Until then importing'',
     ''  config.py raises and names every value still unfilled -- a'',
     ''  placeholder stops the deployment here instead of reaching the'',
     ''  Assembler as a real target.'',
     ''  `PRINCIPAL_ALLOWLIST` has no default: it is the fail-closed gate'',
     ''  on `acting_for_user`. Set the permitted principals from operator'',
     ''  config, or [] to forbid runtime principal switching entirely.'']"

definition init_config :: "pystr \<Rightarrow> pystr \<Rightarrow> (exn, cli, nat) act" where
  "init_config config_path config_src w =
     (if exists_path config_path w
      then andthen (say (config_path @ lit '': exists -- KEPT (config.py is yours; `hawcx init` never overwrites it)'')) (\<lambda>_.
           andthen (warn kept_hint) (\<lambda>_. ret 0)) w
      else andthen (write_text config_path config_src) (\<lambda>_.
           andthen (say (config_path @ lit '': wrote config skeleton'')) (\<lambda>_.
           andthen (warn fill_hint) (\<lambda>_. ret 0))) w)"

definition write_project :: "pystr \<Rightarrow> pystr \<Rightarrow> bool \<Rightarrow> pystr \<Rightarrow> pystr \<Rightarrow> pystr \<Rightarrow> (exn, cli, nat) act" where
  "write_project tools_path config_path force tools_src config_src message w =
     (if exists_path tools_path w \<and> \<not> force
      then andthen (warn (tools_path @ lit '': exists -- pass --force to regenerate'')) (\<lambda>_. ret 1) w
      else andthen (write_text tools_path tools_src) (\<lambda>_.
           andthen (say message) (\<lambda>_. init_config config_path config_src)) w)"

definition cmd_init :: "cli_env \<Rightarrow> pystr \<Rightarrow> pystr \<Rightarrow> bool \<Rightarrow> (exn, cli, nat) act" where
  "cmd_init e template out_dir force =
     andthen (read_source template) (\<lambda>(s, hint).
     case chain (loaded e s) (\<lambda>doc.
          chain (generate_module (ce_fmt e) doc hint None) (\<lambda>tools_src.
          chain (generate_config (ce_fmt e) doc hint) (\<lambda>config_src. Inr (doc, tools_src, config_src)))) of
       Inl x \<Rightarrow> if generation_failed x then andthen (warn (ce_shown e x)) (\<lambda>_. ret 1) else throw x
     | Inr (doc, tools_src, config_src) \<Rightarrow>
         (let tools_path = path_in out_dir ''hawcx_tools.py''; config_path = path_in out_dir ''config.py'' in
          write_project tools_path config_path force tools_src config_src (wrote_wrappers tools_path doc hint)))"

section \<open>Submitting\<close>

text \<open>\<open>f"{x:28}"\<close>: text goes left, numbers right, other values have no format.\<close>

definition padded_json :: "json \<Rightarrow> exn + pystr" where
  "padded_json j =
     (let right = (\<lambda>t. replicate (28 - length t) 32 @ t) in
      case j of
        JStr s \<Rightarrow> Inr (padded s)
      | JInt i \<Rightarrow> Inr (right (dec_int i))
      | JBool b \<Rightarrow> Inr (right (dec (of_bool b)))
      | JFloat r \<Rightarrow> Inr (right r)
      | _ \<Rightarrow> Inl (TypeError BadToolArgument))"

definition error_line :: "json \<Rightarrow> (exn, cli, unit) act" where
  "error_line j =
     (case j of
        JObj kvs \<Rightarrow>
          andthen (lift (padded_json (get (lit ''code'') (JStr [63]) kvs))) (\<lambda>c.
          warn (lit ''  '' @ c @ [32] @ py_str (get (lit ''path'') (JStr [63]) kvs)))
      | _ \<Rightarrow> throw AttributeError)"

definition error_lines :: "json \<Rightarrow> (exn, cli, unit) act" where
  "error_lines errors =
     (case errors of
        JArr js \<Rightarrow> each error_line js
      | JObj kvs \<Rightarrow> each (\<lambda>k. throw AttributeError) kvs
      | JStr s \<Rightarrow> each (\<lambda>c. throw AttributeError) s
      | _ \<Rightarrow> throw (TypeError BadToolArgument))"

definition post :: "cli_env \<Rightarrow> json \<Rightarrow> pystr \<Rightarrow> pystr \<Rightarrow> (exn, cli, pystr \<times> json) act" where
  "post e doc org source w =
     (case resolve_credentials (ce_vars e) org of
        Inl x \<Rightarrow> (Inl x, w)
      | Inr (console_url, api_key) \<Rightarrow>
          (case submit_template (ce_urlopen e) doc console_url api_key source of
             (reqs, r) \<Rightarrow> (chain r (\<lambda>result. Inr (console_url, result)), w\<lparr>posted := posted w @ reqs\<rparr>)))"

definition report_submitted :: "pystr \<Rightarrow> pystr \<times> json \<Rightarrow> (exn, cli, nat) act" where
  "report_submitted org sent =
     (case sent of
        (console_url, JObj kvs) \<Rightarrow>
          (let f = (\<lambda>k. py_str (get (lit k) JNull kvs)) in
           andthen (say (lit ''submitted '' @ f ''name'' @ lit '' v'' @ f ''version'' @ lit '' ('' @ f ''toolCount'' @
             lit '' tool(s)) -- status '' @ f ''status'' @ lit '', id '' @ f ''id'')) (\<lambda>_.
           andthen (warn (lit ''  via '' @ console_url @ lit '' using the API key configured for '' @ py_repr org @
             lit ''; the destination org is the one bound to that key.'')) (\<lambda>_. ret 0)))
      | _ \<Rightarrow> throw AttributeError)"

definition cmd_submit :: "cli_env \<Rightarrow> pystr \<Rightarrow> pystr \<Rightarrow> pystr \<Rightarrow> (exn, cli, nat) act" where
  "cmd_submit e template org source =
     andthen (read_source template) (\<lambda>(s, hint).
     case loaded e s of
       Inl (TemplateError f errors) \<Rightarrow>
         andthen (warn (hint @ lit '': INVALID -- not submitted'')) (\<lambda>_.
         andthen (each code_line errors) (\<lambda>_.
         andthen (if errors = [] then warn (lit ''  '' @ ce_shown e (TemplateError f errors)) else ret ()) (\<lambda>_. ret 1)))
     | Inl x \<Rightarrow> throw x
     | Inr doc \<Rightarrow>
         (\<lambda>w. case post e doc org source w of
            (Inr sent, w') \<Rightarrow> report_submitted org sent w'
          | (Inl (SubmitError f errors status), w') \<Rightarrow>
              andthen (warn (lit ''submit failed: '' @ ce_shown e (SubmitError f errors status))) (\<lambda>_.
              andthen (error_lines errors) (\<lambda>_. ret 1)) w'
          | (Inl x, w') \<Rightarrow> (Inl x, w')))"


section \<open>Extracting\<close>

definition refused_line :: "cli_env \<Rightarrow> pystr \<times> refusal \<Rightarrow> (exn, cli, unit) act" where
  "refused_line e r = warn (lit ''  '' @ fst r @ lit '': '' @ ce_why e (snd r))"

definition renamed_line :: "pystr \<times> pystr \<Rightarrow> (exn, cli, unit) act" where
  "renamed_line r = warn (lit ''  '' @ fst r @ lit '' -> '' @ snd r)"

definition draft_notice :: pystr where
  "draft_notice = [10] @ lit ''This is a DRAFT. `risk` is derived from the inferred action and is '' @
     lit ''deliberately mild; endpoints are absent by design (they come from the org '' @
     lit ''tool registry at runtime). Review, then `hawcx validate`.''"

definition report_review :: "cli_env \<Rightarrow> report \<Rightarrow> (exn, cli, nat) act" where
  "report_review e rep =
     andthen (if refused rep \<noteq> []
              then andthen (warn ([10] @ lit ''REFUSED -- add these by hand:'')) (\<lambda>_. each (refused_line e) (refused rep))
              else ret ()) (\<lambda>_.
     andthen (if unknown_verbs rep \<noteq> []
              then warn ([10] @ lit ''No recognised verb -- actions DEFAULTED to ['read'], check each: ''
                     @ join_with (lit '', '') (unknown_verbs rep))
              else ret ()) (\<lambda>_.
     andthen (if normalized rep \<noteq> []
              then andthen (warn ([10] @ lit ''Renamed to satisfy the id grammar:'')) (\<lambda>_. each renamed_line (normalized rep))
              else ret ()) (\<lambda>_.
     andthen (warn draft_notice) (\<lambda>_. ret 0))))"

text \<open>The report of the \<open>try\<close> block: \<open>Inl\<close> is an early return.\<close>

definition extracted :: "cli_env \<Rightarrow> pystr list \<Rightarrow> pystr \<Rightarrow> pystr \<Rightarrow> (exn, cli, pystr + report) act" where
  "extracted e names tools namespace =
     (if names \<noteq> [] then lift (chain (extract_from_names names namespace empty_report) (\<lambda>rep. Inr (Inr rep)))
      else andthen (read_source tools) (\<lambda>(s, hint).
        case loads s of
          None \<Rightarrow> ret (Inl (hint @ lit '': not valid JSON: '' @ ce_shown e JSONDecodeError))
        | Some payload \<Rightarrow> lift (chain (extract_from_mcp_tools_list payload namespace) (\<lambda>rep. Inr (Inr rep)))))"

definition cmd_extract ::
  "cli_env \<Rightarrow> pystr list \<Rightarrow> pystr \<Rightarrow> pystr \<Rightarrow> pystr \<Rightarrow> pystr \<Rightarrow> pystr \<Rightarrow> (exn, cli, nat) act" where
  "cmd_extract e names tools namespace name version framework w =
     (case andthen (extracted e names tools namespace) (\<lambda>r.
             case r of
               Inl complaint \<Rightarrow> ret (Inl complaint)
             | Inr rep \<Rightarrow> lift (chain (build_template rep name version framework) (\<lambda>doc. Inr (Inr (rep, doc))))) w of
        (Inl (ExtractError f), w') \<Rightarrow>
          andthen (warn (lit ''extract failed: '' @ ce_shown e (ExtractError f))) (\<lambda>_. ret 1) w'
      | (Inl x, w') \<Rightarrow> (Inl x, w')
      | (Inr (Inl complaint), w') \<Rightarrow> andthen (warn complaint) (\<lambda>_. ret 1) w'
      | (Inr (Inr (rep, doc)), w') \<Rightarrow> andthen (say (pretty 0 doc)) (\<lambda>_. report_review e rep) w')"

section \<open>Bundling\<close>

definition bundle_notice :: "pystr \<Rightarrow> nat \<Rightarrow> pystr" where
  "bundle_notice out n = lines_of [''  ''] @ out @ lit '' ('' @ dec n @ lit '' bytes)'' @ [10] @ lines_of [
     ''  Put that digest in the class manifest's `allowed_workload_selectors` and point'',
     ''  the supervisor's agent_bin at this file. The exec target IS the workload: the'',
     ''  code-identity gate measures these exact bytes, so a rebuild that changes them'',
     ''  needs a manifest update.'']"

definition old_bytes :: "pystr \<Rightarrow> cli \<Rightarrow> bytes option" where
  "old_bytes p w = (case fs w p of Some (AFile data) \<Rightarrow> Some data | _ \<Rightarrow> None)"

definition is_regular :: "pystr \<Rightarrow> cli \<Rightarrow> bool" where
  "is_regular p w \<longleftrightarrow> (case fs w p of Some (AFile data) \<Rightarrow> True | _ \<Rightarrow> False)"

text \<open>\<open>x if args.x else y\<close>: an empty argument counts as absent.\<close>

definition nonempty_arg :: "pystr option \<Rightarrow> pystr option" where
  "nonempty_arg a = (case a of Some [] \<Rightarrow> None | _ \<Rightarrow> a)"

text \<open>The requirements file that is used, \<open>Inl\<close> the complaint about a missing one.\<close>

definition chosen_requirement :: "pystr \<Rightarrow> pystr option \<Rightarrow> cli \<Rightarrow> pystr + pystr option" where
  "chosen_requirement source requirement w =
     (let req = (case nonempty_arg requirement of Some r \<Rightarrow> path_str r | None \<Rightarrow> path_in source ''requirements.txt'') in
      if is_regular req w then Inr (Some req)
      else if nonempty_arg requirement \<noteq> None then Inl (req @ lit '': no such requirements file'')
      else Inr None)"

definition bundle_output :: "cli_env \<Rightarrow> pystr \<Rightarrow> pystr option \<Rightarrow> pystr" where
  "bundle_output e source output =
     path_str (case nonempty_arg output of Some o' \<Rightarrow> o' | None \<Rightarrow> ce_name e (path_str source) @ lit ''.pyz'')"

definition cmd_bundle ::
  "cli_env \<Rightarrow> pystr \<Rightarrow> pystr option \<Rightarrow> pystr option \<Rightarrow> pystr option \<Rightarrow> bool \<Rightarrow> (exn, cli, nat) act" where
  "cmd_bundle e source output main requirement force w =
     (let out = bundle_output e source output in
      if exists_path out w \<and> \<not> force
      then andthen (warn (out @ lit '': exists -- pass --force to overwrite'')) (\<lambda>_. ret 1) w
      else case chosen_requirement source requirement w of
        Inl complaint \<Rightarrow> andthen (warn complaint) (\<lambda>_. ret 1) w
      | Inr req \<Rightarrow>
          (case build_bundle (ce_python e) (ce_bundle e) (ce_tree e (path_str source)) main
                  (map_option (\<lambda>r. Requirements (ce_pip e r)) req) (lit ''/usr/bin/env python3'') (old_bytes out w) of
             (Inl (BundleError f), _) \<Rightarrow> andthen (warn (ce_shown e (BundleError f))) (\<lambda>_. ret 1) w
           | (Inl x, _) \<Rightarrow> (Inl x, w)
           | (Inr digest, None) \<Rightarrow> (Inl (OSError NotFound), w)
           | (Inr digest, Some data) \<Rightarrow>
               andthen (write_bytes out data) (\<lambda>_.
               andthen (say digest) (\<lambda>_.
               andthen (warn (bundle_notice out (length data))) (\<lambda>_. ret 0))) w))"

section \<open>main\<close>

definition run_command :: "cli_env \<Rightarrow> command \<Rightarrow> (exn, cli, nat) act" where
  "run_command e c =
     (case c of
        Validate template \<Rightarrow> cmd_validate e template
      | Wrap template output force stamp_time \<Rightarrow> cmd_wrap e template output force stamp_time
      | Init template out_dir force \<Rightarrow> cmd_init e template out_dir force
      | Submit template org source \<Rightarrow> cmd_submit e template org source
      | Extract names tools namespace name version framework \<Rightarrow> cmd_extract e names tools namespace name version framework
      | Bundle source output main requirement force \<Rightarrow> cmd_bundle e source output main requirement force)"

definition cli_main :: "cli_env \<Rightarrow> command \<Rightarrow> (exn, cli, nat) act" where
  "cli_main e c =
     catch (run_command e c) (\<lambda>x.
       case x of TemplateError f errors \<Rightarrow> andthen (warn (ce_shown e x)) (\<lambda>_. ret 1) | _ \<Rightarrow> throw x)"


section \<open>What a step leaves alone\<close>

named_theorems quiet \<open>steps that leave an observed part of the world as it is\<close>

definition unchanged :: "(cli \<Rightarrow> 'o) \<Rightarrow> (exn, cli, 'a) act \<Rightarrow> bool" where
  "unchanged obs m \<longleftrightarrow> (\<forall>w. obs (snd (m w)) = obs w)"

lemma unchangedD: "unchanged obs m \<Longrightarrow> m w = (r, w') \<Longrightarrow> obs w' = obs w"
  by (metis snd_conv unchanged_def)

lemma unchanged_base [quiet]:
  "unchanged obs (ret x)" "unchanged obs (throw y)" "unchanged obs (lift r)"
  by (simp_all add: unchanged_def ret_def throw_def lift_def)

lemma unchanged_andthen [quiet]:
  "unchanged obs m \<Longrightarrow> (\<And>x. unchanged obs (f x)) \<Longrightarrow> unchanged obs (andthen m f)"
  by (auto simp: unchanged_def andthen_def split: prod.split sum.split) (metis snd_conv)+

lemma unchanged_each [quiet]: "(\<And>x. unchanged obs (f x)) \<Longrightarrow> unchanged obs (each f xs)"
  by (induction xs) (auto intro: quiet)

lemma unchanged_if [quiet]: "unchanged obs m \<Longrightarrow> unchanged obs n \<Longrightarrow> unchanged obs (if b then m else n)"
  by simp

lemma unchanged_say [quiet]:
  "unchanged fs (say s)" "unchanged fs (warn s)" "unchanged posted (say s)" "unchanged posted (warn s)"
  "unchanged printed (warn s)"
  by (simp_all add: unchanged_def say_def warn_def)

lemma read_source_quiet [quiet]: "unchanged obs (read_source p)"
  by (auto simp: unchanged_def read_source_def split: option.split fs_entry.split)

lemma unchanged_write [quiet]: "unchanged posted (write_bytes p data)" "unchanged posted (write_text p s)"
proof -
  show b: "unchanged posted (write_bytes p data)" for data
    by (auto simp: unchanged_def write_bytes_def split: option.split)
  then show "unchanged posted (write_text p s)" unfolding write_text_def by (cases "utf8_encode s") (auto intro: quiet)
qed

lemma unchanged_lines [quiet]:
  "unchanged fs (code_line c)" "unchanged posted (code_line c)" "unchanged fs (error_line j)" "unchanged posted (error_line j)"
  "unchanged fs (error_lines j)" "unchanged posted (error_lines j)"
  unfolding code_line_def error_line_def error_lines_def by (auto split: json.split intro!: quiet)

lemma unchanged_report [quiet]:
  "unchanged fs (report_submitted org sent)" "unchanged posted (report_submitted org sent)"
  "unchanged fs (report_review e rep)" "unchanged posted (report_review e rep)" "unchanged printed (report_review e rep)"
  unfolding report_submitted_def report_review_def refused_line_def renamed_line_def
  by (auto simp: Let_def split: prod.split json.split intro!: quiet)

lemma write_bytes_at:
  "fs (snd (write_bytes p data w)) q = (if q = p then fs (snd (write_bytes p data w)) q else fs w q)"
  by (auto simp: write_bytes_def split: option.split)

lemma write_text_at: "q \<noteq> p \<Longrightarrow> fs (snd (write_text p s w)) q = fs w q"
  using write_bytes_at [of p _ w q]
  by (auto simp: write_text_def andthen_def throw_def split: option.split prod.split sum.split) (metis snd_conv)+

lemma then_keeps:
  assumes "unchanged fs m"
  shows "fs (snd (andthen m f w)) = (case m w of (Inl x, w') \<Rightarrow> fs w | (Inr y, w') \<Rightarrow> fs (snd (f y w')))"
  using assms by (auto simp: andthen_def unchanged_def split: prod.split sum.split) (metis snd_conv)

lemma after_keeps:
  assumes "\<And>x. unchanged fs (f x)"
  shows "fs (snd (andthen m f w)) = fs (snd (m w))"
  using assms by (auto simp: andthen_def unchanged_def split: prod.split sum.split)


section \<open>Files\<close>

text \<open>The paths a command may write, and the one that \<open>--force\<close> lets it replace.\<close>

definition targets :: "cli_env \<Rightarrow> command \<Rightarrow> pystr set" where
  "targets e c =
     (case c of
        Wrap template (Some p) force stamp \<Rightarrow> {path_str p}
      | Init template out_dir force \<Rightarrow> {path_in out_dir ''hawcx_tools.py'', path_in out_dir ''config.py''}
      | Bundle source output main req force \<Rightarrow> {bundle_output e source output}
      | _ \<Rightarrow> {})"

definition replaceable :: "cli_env \<Rightarrow> command \<Rightarrow> pystr set" where
  "replaceable e c =
     (case c of
        Wrap template (Some p) True stamp \<Rightarrow> {path_str p}
      | Init template out_dir True \<Rightarrow> {path_in out_dir ''hawcx_tools.py''}
      | Bundle source output main req True \<Rightarrow> {bundle_output e source output}
      | _ \<Rightarrow> {})"

definition confined :: "cli_env \<Rightarrow> command \<Rightarrow> (exn, cli, 'a) act \<Rightarrow> bool" where
  "confined e c m \<longleftrightarrow>
     (\<forall>w p. fs (snd (m w)) p = fs w p \<or> p \<in> targets e c \<and> (fs w p = None \<or> p \<in> replaceable e c))"

lemma confined_quiet: "unchanged fs m \<Longrightarrow> confined e c m"
  by (simp add: confined_def unchanged_def)

lemma confined_after_read:
  assumes "\<And>x. confined e c (f x)"
  shows "confined e c (andthen (read_source p) f)"
  unfolding confined_def
proof (intro allI)
  fix w q
  obtain r w' where r: "read_source p w = (r, w')" by force
  then have "w' = w" using unchangedD [OF read_source_quiet [of id p] r] by simp
  with r assms show "fs (snd (andthen (read_source p) f w)) q = fs w q \<or>
      q \<in> targets e c \<and> (fs w q = None \<or> q \<in> replaceable e c)"
    by (cases r) (auto simp: andthen_def confined_def)
qed

lemma confined_leaves:
  "confined e c (throw x)" "confined e c (andthen (warn s) (\<lambda>_. ret n))" "confined e c (emit s)"
  by (intro confined_quiet quiet)+ (simp add: unchanged_def emit_def)

lemma write_module_at:
  "fs (snd (write_module p force source message w)) q = fs w q \<or> q = p \<and> (fs w q = None \<or> force)"
proof (cases "exists_path p w \<and> \<not> force")
  case True
  have "unchanged fs (andthen (warn s) (\<lambda>_. ret (1 :: nat)))" for s by (intro quiet)
  with True show ?thesis by (simp add: write_module_def unchanged_def)
next
  case False
  have "fs (snd (write_module p force source message w)) = fs (snd (write_text p source w))"
    unfolding write_module_def if_not_P [OF False] by (rule after_keeps) (intro quiet)
  with False show ?thesis using write_text_at [of q p source w] by (auto simp: exists_path_def)
qed

lemma write_module_confined:
  "confined e (Wrap template (Some p) force stamp) (write_module (path_str p) force source message)"
  unfolding confined_def
proof (intro allI)
  fix w q
  show "fs (snd (write_module (path_str p) force source message w)) q = fs w q \<or>
      q \<in> targets e (Wrap template (Some p) force stamp) \<and>
      (fs w q = None \<or> q \<in> replaceable e (Wrap template (Some p) force stamp))"
    using write_module_at [of "path_str p" force source message w q] by (auto simp: targets_def replaceable_def)
qed

lemma wrap_confined: "confined e (Wrap template output force stamp) (cmd_wrap e template output force stamp)"
  unfolding cmd_wrap_def
  by (intro confined_after_read)
    (auto split: sum.split prod.split option.split intro!: confined_leaves write_module_confined)

lemma path_in_distinct: "path_in d ''hawcx_tools.py'' \<noteq> path_in d ''config.py''"
  by (simp add: path_in_def Let_def)

lemma init_config_confined:
  "fs (snd (init_config p src w)) q = fs w q \<or> q = p \<and> fs w q = None"
proof (cases "exists_path p w")
  case True
  have "unchanged fs (andthen (say s) (\<lambda>_. andthen (warn kept_hint) (\<lambda>_. ret (0 :: nat))))" for s
    by (intro quiet)
  with True show ?thesis by (simp add: init_config_def unchanged_def)
next
  case False
  let ?f = "\<lambda>_. andthen (say (p @ lit '': wrote config skeleton'')) (\<lambda>_. andthen (warn fill_hint) (\<lambda>_. ret (0 :: nat)))"
  have "unchanged fs (?f x)" for x by (intro quiet)
  then have "fs (snd (init_config p src w)) = fs (snd (write_text p src w))"
    using False after_keeps [of ?f "write_text p src" w] by (simp add: init_config_def)
  with False show ?thesis using write_text_at [of q p src w] by (auto simp: exists_path_def)
qed

lemma write_project_at:
  assumes "t \<noteq> k"
  shows "fs (snd (write_project t k force src cfg message w)) q = fs w q \<or>
    q = t \<and> (fs w q = None \<or> force) \<or> q = k \<and> fs w q = None"
proof (cases "exists_path t w \<and> \<not> force")
  case True
  have "unchanged fs (andthen (warn s) (\<lambda>_. ret (1 :: nat)))" for s by (intro quiet)
  with True show ?thesis by (simp add: write_project_def unchanged_def)
next
  case False
  obtain r w1 where w1: "write_text t src w = (r, w1)" by force
  have at: "fs w1 p = fs w p" if "p \<noteq> t" for p using write_text_at [OF that, of src w] w1 by simp
  show ?thesis
  proof (cases r)
    case (Inl x)
    with False w1 have "snd (write_project t k force src cfg message w) = w1"
      unfolding write_project_def if_not_P [OF False] andthen_def by simp
    with False at [of q] show ?thesis by (auto simp: exists_path_def)
  next
    case (Inr u)
    let ?w2 = "w1\<lparr>printed := printed w1 @ message @ [10]\<rparr>"
    have "write_project t k force src cfg message w = init_config k cfg ?w2"
      using Inr w1 by (simp add: write_project_def if_not_P [OF False] andthen_def say_def)
    with False at [of q] at [of k] assms init_config_confined [of k cfg ?w2 q] show ?thesis
      by (cases "q = t") (auto simp: exists_path_def)
  qed
qed

lemma init_confined: "confined e (Init template out_dir force) (cmd_init e template out_dir force)"
proof -
  let ?c = "Init template out_dir force"
  have writing: "confined e ?c (write_project (path_in out_dir ''hawcx_tools.py'') (path_in out_dir ''config.py'')
      force src cfg message)" for src cfg message
    unfolding confined_def
  proof (intro allI)
    fix w q
    show "fs (snd (write_project (path_in out_dir ''hawcx_tools.py'') (path_in out_dir ''config.py'')
        force src cfg message w)) q = fs w q \<or> q \<in> targets e ?c \<and> (fs w q = None \<or> q \<in> replaceable e ?c)"
      using write_project_at [OF path_in_distinct, of out_dir force src cfg message w q]
      by (auto simp: targets_def replaceable_def)
  qed
  show ?thesis
    unfolding cmd_init_def
    by (intro confined_after_read)
      (auto simp: Let_def split: sum.split prod.split intro!: confined_leaves writing)
qed

lemma submit_confined_files: "confined e c (cmd_submit e template org src)"
proof -
  have "unchanged fs (\<lambda>w. case post e doc org src w of
            (Inr sent, w') \<Rightarrow> report_submitted org sent w'
          | (Inl (SubmitError f errors status), w') \<Rightarrow>
              andthen (warn (lit ''submit failed: '' @ ce_shown e (SubmitError f errors status))) (\<lambda>_.
              andthen (error_lines errors) (\<lambda>_. ret 1)) w'
          | (Inl x, w') \<Rightarrow> (Inl x, w'))" for doc
  proof -
    have p: "unchanged fs (post e doc org src)"
      by (auto simp: unchanged_def post_def split: sum.split prod.split)
    have r: "unchanged fs (report_submitted org sent)" "unchanged fs (andthen (warn s) (\<lambda>_. andthen (error_lines errors) (\<lambda>_. ret (1 :: nat))))"
      for sent s errors by (intro quiet)+
    show ?thesis
      unfolding unchanged_def using p r by (auto simp: unchanged_def split: prod.split sum.split exn.split) (metis snd_conv)+
  qed
  then show ?thesis
    unfolding cmd_submit_def
    by (intro confined_quiet quiet) (auto split: sum.split exn.split prod.split intro!: quiet)
qed


lemma validate_quiet [quiet]: "unchanged fs (cmd_validate e template)" "unchanged posted (cmd_validate e template)"
  unfolding cmd_validate_def by (intro quiet; auto split: sum.split exn.split prod.split intro!: quiet)+

lemma extracted_quiet: "unchanged obs (extracted e names tools namespace)"
  unfolding extracted_def by (intro quiet; auto split: option.split prod.split intro!: quiet)

lemma extract_quiet [quiet]:
  "unchanged fs (cmd_extract e names tools namespace name version framework)"
  "unchanged posted (cmd_extract e names tools namespace name version framework)"
proof -
  let ?m = "andthen (extracted e names tools namespace) (\<lambda>r.
             case r of
               Inl complaint \<Rightarrow> ret (Inl complaint)
             | Inr rep \<Rightarrow> lift (chain (build_template rep name version framework) (\<lambda>doc. Inr (Inr (rep, doc)))))"
  have m: "unchanged obs ?m" for obs :: "cli \<Rightarrow> 'o"
    by (intro quiet extracted_quiet) (auto split: sum.split intro!: quiet)
  have "unchanged obs (cmd_extract e names tools namespace name version framework)"
    if q: "\<And>s. unchanged obs (andthen (warn s) (\<lambda>_. ret (1 :: nat)))"
      "\<And>s rep. unchanged obs (andthen (say s) (\<lambda>_. report_review e rep))" for obs :: "cli \<Rightarrow> 'o"
    unfolding unchanged_def
  proof
    fix w
    obtain r w' where r: "?m w = (r, w')" by force
    with m have w': "obs w' = obs w" by (rule unchangedD)
    from q have warn: "obs (snd (andthen (warn s) (\<lambda>_. ret (1 :: nat)) w')) = obs w"
      and say: "obs (snd (andthen (say s) (\<lambda>_. report_review e rep) w')) = obs w" for s rep
      unfolding unchanged_def using w' by simp_all
    show "obs (snd (cmd_extract e names tools namespace name version framework w)) = obs w"
      unfolding cmd_extract_def r using w' warn say
      by (cases r) (auto split: exn.split sum.split prod.split)
  qed
  note this [of fs] this [of posted]
  then show "unchanged fs (cmd_extract e names tools namespace name version framework)"
    "unchanged posted (cmd_extract e names tools namespace name version framework)"
    by (auto intro: quiet)
qed

lemma bundle_confined: "confined e (Bundle src output main req force) (cmd_bundle e src output main req force)"
  unfolding confined_def
proof (intro allI)
  fix w :: cli and q
  let ?c = "Bundle src output main req force"
  let ?p = "bundle_output e src output"
  let ?goal = "\<lambda>w' :: cli. fs w' q = fs w q \<or> q \<in> targets e ?c \<and> (fs w q = None \<or> q \<in> replaceable e ?c)"
  have warned: "?goal (snd (andthen (warn s) (\<lambda>_. ret (1 :: nat)) w))" for s
    by (simp add: andthen_def warn_def ret_def)
  show "?goal (snd (cmd_bundle e src output main req force w))"
  proof (cases "exists_path ?p w \<and> \<not> force")
    case True
    then show ?thesis unfolding cmd_bundle_def Let_def if_P [OF True] using warned by simp
  next
    case False
    have wrote: "?goal (snd (andthen (write_bytes ?p data) (\<lambda>_. andthen (say s) (\<lambda>_. andthen (warn t) (\<lambda>_. ret (0 :: nat)))) w))"
      for data s t
    proof -
      have "fs (snd (andthen (write_bytes ?p data) (\<lambda>_. andthen (say s) (\<lambda>_. andthen (warn t) (\<lambda>_. ret (0 :: nat)))) w))
          = fs (snd (write_bytes ?p data w))"
        by (rule after_keeps) (intro quiet)
      moreover have "fs (snd (write_bytes ?p data w)) q = fs w q \<or> q = ?p"
        by (simp add: write_bytes_def split: option.split)
      moreover have "?p \<in> targets e ?c" "fs w ?p = None \<or> ?p \<in> replaceable e ?c"
        using False by (auto simp: targets_def replaceable_def exists_path_def)
      ultimately show ?thesis by auto
    qed
    show ?thesis
      unfolding cmd_bundle_def Let_def if_not_P [OF False]
      using warned wrote by (auto split: sum.split option.split exn.split prod.split)
  qed
qed

text \<open>
  C31: no command of the CLI destroys a file it was not told to. Whatever a run does and however it ends,
  it changes files at its own targets only, and there it replaces a file only when \<open>--force\<close> was
  given; the \<open>config.py\<close> of \<open>init\<close> is never replaced. \<open>validate\<close>, \<open>extract\<close> and \<open>submit\<close> write nothing.
\<close>

theorem cli_never_clobbers:
  assumes "cli_main e c w = (r, w')"
  shows "(fs w' p = fs w p \<or> p \<in> targets e c \<and> (fs w p = None \<or> p \<in> replaceable e c)) \<and>
    (case c of Init template out_dir force \<Rightarrow>
        fs w (path_in out_dir ''config.py'') \<in> {None, fs w' (path_in out_dir ''config.py'')} | _ \<Rightarrow> True)"
proof -
  have run: "confined e c (run_command e c)"
    by (cases c) (auto simp: run_command_def intro: confined_quiet quiet wrap_confined init_confined
        submit_confined_files bundle_confined)
  have "unchanged fs (case x of TemplateError f errors \<Rightarrow> andthen (warn (ce_shown e x)) (\<lambda>_. ret (1 :: nat)) | _ \<Rightarrow> throw x)" for x
    by (auto split: exn.split intro!: quiet)
  then have "fs (snd (cli_main e c w)) = fs (snd (run_command e c w))"
    unfolding cli_main_def catch_def by (auto simp: unchanged_def split: prod.split sum.split)
  then have files: "fs w' p = fs w p \<or> p \<in> targets e c \<and> (fs w p = None \<or> p \<in> replaceable e c)" for p
    using run assms unfolding confined_def by (metis snd_conv)
  have "case c of Init template out_dir force \<Rightarrow>
      fs w (path_in out_dir ''config.py'') \<in> {None, fs w' (path_in out_dir ''config.py'')} | _ \<Rightarrow> True"
  proof (cases c)
    case (Init template out_dir force)
    have "path_in out_dir ''config.py'' \<notin> replaceable e c"
      using path_in_distinct [of out_dir] by (cases force) (auto simp: Init replaceable_def)
    with files [of "path_in out_dir ''config.py''"] Init show ?thesis by auto
  qed simp_all
  with files [of p] show ?thesis ..
qed


section \<open>Requests\<close>

lemma unchanged_fun_if [quiet]:
  "unchanged obs m \<Longrightarrow> unchanged obs n \<Longrightarrow> unchanged obs (\<lambda>w. if P w then m w else n w)"
  by (simp add: unchanged_def)

lemma writers_post_nothing:
  "unchanged posted (cmd_wrap e template output force stamp)" "unchanged posted (cmd_init e template out_dir force)"
  "unchanged posted (cmd_bundle e src output' main req force)"
proof -
  have emit: "unchanged posted (emit s)" for s by (simp add: unchanged_def emit_def)
  have module: "unchanged posted (write_module p f s m)" for p f s m
    unfolding write_module_def [abs_def] by (intro quiet)
  have "unchanged posted (init_config p s)" for p s
    unfolding init_config_def [abs_def] by (intro quiet)
  then have project: "unchanged posted (write_project t k f s cfg m)" for t k f s cfg m
    unfolding write_project_def [abs_def] by (intro quiet)
  show "unchanged posted (cmd_wrap e template output force stamp)"
    unfolding cmd_wrap_def
    by (intro quiet) (auto split: sum.split prod.split option.split intro!: quiet emit module)
  show "unchanged posted (cmd_init e template out_dir force)"
    unfolding cmd_init_def
    by (intro quiet) (auto simp: Let_def split: sum.split prod.split intro!: quiet project)
  have warned: "posted (snd (andthen (warn s) (\<lambda>_. ret (1 :: nat)) w)) = posted w" for s w
    by (simp add: andthen_def warn_def ret_def)
  have "unchanged posted (andthen (write_bytes p d) (\<lambda>_. andthen (say s) (\<lambda>_. andthen (warn t) (\<lambda>_. ret (0 :: nat)))))"
    for p d s t by (intro quiet)
  then show "unchanged posted (cmd_bundle e src output' main req force)"
    unfolding unchanged_def cmd_bundle_def Let_def using warned
    by (auto split: sum.split option.split exn.split prod.split)
qed

lemma submit_posts:
  assumes "posted (snd (cmd_submit e template org source w)) \<noteq> posted w"
  obtains s hint doc where "fst (read_source template w) = Inr (s, hint)" and "loaded e s = Inr doc"
    and "posted (snd (cmd_submit e template org source w)) = posted (snd (post e doc org source w))"
proof -
  obtain x w1 where x: "read_source template w = (x, w1)" by force
  with read_source_quiet [of id template] have w1: "w1 = w" by (metis id_apply unchangedD)
  show thesis
  proof (cases x)
    case (Inl y)
    with assms x w1 show ?thesis by (simp add: cmd_submit_def andthen_def)
  next
    case (Inr sh)
    obtain s hint where sh: "sh = (s, hint)" by force
    show ?thesis
    proof (cases "loaded e s")
      case (Inl y)
      have "unchanged posted (andthen (warn a) (\<lambda>_. andthen (each code_line errors) (\<lambda>_.
          andthen (if b then warn d else ret ()) (\<lambda>_. ret (1 :: nat)))))" for a errors b d
        by (intro quiet)
      with assms x w1 Inr sh Inl show ?thesis
        by (cases y) (auto simp: cmd_submit_def andthen_def [of "read_source template"] throw_def unchanged_def)
    next
      case (Inr doc)
      have q: "unchanged posted (report_submitted org sent)"
        "unchanged posted (andthen (warn t) (\<lambda>_. andthen (error_lines errors) (\<lambda>_. ret (1 :: nat))))" for sent t errors
        by (intro quiet)+
      have "posted (snd (cmd_submit e template org source w)) = posted (snd (post e doc org source w))"
        using x w1 \<open>x = Inr sh\<close> sh Inr q
        by (auto simp: cmd_submit_def andthen_def [of "read_source template"] unchanged_def
            split: prod.split sum.split exn.split)
      with x \<open>x = Inr sh\<close> sh Inr show ?thesis by (intro that) simp_all
    qed
  qed
qed

lemma credentials_hx: "resolve_credentials env org = Inr (url, key) \<Longrightarrow> starts (lit ''hx_'') key"
  by (auto simp: resolve_credentials_def Let_def split: if_splits)

lemma post_checked:
  assumes "posted (snd (post e doc org source w)) \<noteq> posted w"
  obtains url key req where "resolve_credentials (ce_vars e) org = Inr (url, key)" and "\<not> transport_refused url"
    and "posted (snd (post e doc org source w)) = posted w @ [req]" and "rq_url req = url @ submit_path"
    and "rq_body req = dumps_bytes spaced (JObj [(lit ''document'', doc), (lit ''source'', JStr source)])"
    and "map_of (rq_headers req) (lit ''Authorization'') = Some (lit ''Bearer '' @ key)"
proof (cases "resolve_credentials (ce_vars e) org")
  case (Inl x)
  with assms show thesis by (simp add: post_def)
next
  case (Inr uk)
  obtain url key where uk: "uk = (url, key)" by force
  with Inr assms show thesis
    by (cases "transport_refused url") (auto simp: post_def submit_template_def Let_def intro!: that)
qed

text \<open>
  C32: what leaves the machine. A run of the CLI posts a request only as \<open>submit\<close>, at most one, and only
  when the template was read and validates, both credentials of the organisation are set, the key is
  a Hawcx key and the transport guard lets the URL pass; the request carries the document as it was
  parsed and goes to the template endpoint of that console.
\<close>

theorem cli_posts_checked:
  assumes "cli_main e c w = (r, w')" and "posted w' \<noteq> posted w"
  shows "\<exists>template org source s hint doc url key req. c = Submit template org source \<and>
    fst (read_source template w) = Inr (s, hint) \<and> parse_template (ce_yaml e) s = Inr doc \<and> validate_v1 doc = Inr [] \<and>
    resolve_credentials (ce_vars e) org = Inr (url, key) \<and> starts (lit ''hx_'') key \<and> \<not> transport_refused url \<and>
    posted w' = posted w @ [req] \<and> rq_url req = url @ submit_path \<and>
    rq_body req = dumps_bytes spaced (JObj [(lit ''document'', doc), (lit ''source'', JStr source)]) \<and>
    map_of (rq_headers req) (lit ''Authorization'') = Some (lit ''Bearer '' @ key)"
proof -
  have "unchanged posted (case x of TemplateError f errors \<Rightarrow> andthen (warn (ce_shown e x)) (\<lambda>_. ret (1 :: nat)) | _ \<Rightarrow> throw x)" for x
    by (auto split: exn.split intro!: quiet)
  then have "posted (snd (cli_main e c w)) = posted (snd (run_command e c w))"
    unfolding cli_main_def catch_def by (auto simp: unchanged_def split: prod.split sum.split)
  with assms have changed: "posted w' = posted (snd (run_command e c w))" "posted (snd (run_command e c w)) \<noteq> posted w"
    by simp_all
  obtain template org source where c: "c = Submit template org source"
  proof (cases c)
    case (Submit template org source)
    then show thesis by (rule that)
  qed (use changed(2) writers_post_nothing quiet in \<open>auto simp: run_command_def unchanged_def\<close>)
  from changed c have "posted (snd (cmd_submit e template org source w)) \<noteq> posted w" by (simp add: run_command_def)
  then obtain s hint doc where read: "fst (read_source template w) = Inr (s, hint)" and load: "loaded e s = Inr doc"
    and p: "posted (snd (cmd_submit e template org source w)) = posted (snd (post e doc org source w))"
    by (rule submit_posts)
  from load have "parse_template (ce_yaml e) s = Inr doc" "validate_v1 doc = Inr []"
    by (auto simp: loaded_def load_template_def split: sum.splits if_splits)
  moreover from p changed c have "posted (snd (post e doc org source w)) \<noteq> posted w" by (simp add: run_command_def)
  then obtain url key req where cred: "resolve_credentials (ce_vars e) org = Inr (url, key)" "\<not> transport_refused url"
    and req: "posted (snd (post e doc org source w)) = posted w @ [req]" "rq_url req = url @ submit_path"
    "rq_body req = dumps_bytes spaced (JObj [(lit ''document'', doc), (lit ''source'', JStr source)])"
    "map_of (rq_headers req) (lit ''Authorization'') = Some (lit ''Bearer '' @ key)"
    by (rule post_checked)
  moreover from changed c p req have "posted w' = posted w @ [req]" by (simp add: run_command_def)
  ultimately show ?thesis using c read credentials_hx [OF cred(1)] by blast
qed

section \<open>A draft can be read\<close>

lemma plain_line: "c \<in> set (line_at d) \<Longrightarrow> c = 10 \<or> 32 \<le> c \<and> c < 127"
  by (auto simp: line_at_def)

lemma plain_chars: "plain s \<Longrightarrow> c \<in> set s \<Longrightarrow> c = 10 \<or> 32 \<le> c \<and> c < 127"
  by (auto simp: plain_def)

lemma set_join: "c \<in> set (join_with sep ws) \<Longrightarrow> c \<in> set sep \<or> (\<exists>w \<in> set ws. c \<in> set w)"
  by (induction sep ws rule: join_with.induct) auto

lemma pretty_chars: "wf_json j \<Longrightarrow> c \<in> set (pretty d j) \<Longrightarrow> c = 10 \<or> 32 \<le> c \<and> c < 127"
proof (induction j arbitrary: d)
  case (JArr js)
  then show ?case by (auto split: if_splits dest!: set_join dest: plain_line)
next
  case (JObj kvs)
  have "c = 10 \<or> 32 \<le> c \<and> c < 127" if "(k, v) \<in> set kvs" "c \<in> set (quote k @ [58, 32] @ pretty (Suc d) v)" for k v
  proof -
    from that(2) consider "c \<in> set (quote k)" | "c \<in> {58, 32}" | "c \<in> set (pretty (Suc d) v)" by auto
    then show ?thesis
    proof cases
      case 3
      then show ?thesis using JObj.IH [of "(k, v)" v "Suc d"] JObj.prems(1) that(1) by auto
    qed (use plain_chars [OF plain_quote] in auto)
  qed
  with JObj.prems(2) show ?case by (auto split: if_splits dest!: set_join dest: plain_line)
qed (use plain_chars [OF plain_dumps [OF plain_seps(3,4)]] in \<open>simp_all only: pretty.simps\<close>)


lemma decimal_wf: "is_decimal c \<Longrightarrow> c < 0x110000 \<and> \<not> is_high c"
  by (auto simp: is_decimal_def digit_runs_def is_high_def)

lemma draft_wf:
  assumes "drafted seen rep" and "validate_v1 (draft rep name version framework) = Inr []"
  shows "wf_json (draft rep name version framework)"
proof -
  from assms(2) obtain doc ts ss where doc: "draft rep name version framework = JObj doc" "root_errors doc = Inr []"
    "get (lit ''tools'') JNull doc = JArr ts" "list_all2 (tool_ok (get (lit ''constraints'') JNull doc)) ts ss"
    unfolding validate_Nil by blast
  from doc(1) have fields: "get (lit ''name'') JNull doc = JStr name" "get (lit ''version'') JNull doc = JStr version"
    "ts = rp_tools rep"
    using doc(3) by (auto simp: draft_def get_def)
  with doc(2) have re: "name_re name" "version_re version" and fw: "framework \<in> set frameworks"
    using doc(1) by (auto simp: root_errors_Nil draft_def get_def in_names_def split: if_splits)
  have "wf_str name"
    using re(1) by (intro ascii_wf_str) (auto simp: name_re_def isascii_def ascii_classes split: list.splits)
  moreover have "wf_str version"
  proof (rule no_high, rule ballI)
    fix c
    assume "c \<in> set version"
    then have "c = 46 \<or> (\<exists>w \<in> set (split_on 46 version). c \<in> set w)" by (rule split_on_cover)
    with re(2) have "c = 46 \<or> is_decimal c" by (auto simp: version_re_def Let_def)
    then show "c < 0x110000 \<and> \<not> is_high c" using decimal_wf by (auto simp: is_high_def)
  qed
  moreover have "wf_str framework" using fw by (auto simp: frameworks_def)
  moreover have "wf_json t" if "t \<in> set (rp_tools rep)" for t
  proof -
    from assms(1) that obtain s a where "t = drafted_tool s a" "tool_ok JNull t s"
      by (auto simp: drafted_def list_all2_conv_all_nth in_set_conv_nth)
    then have "isascii s" by (auto simp: tool_ok_def drafted_tool_def)
    with \<open>t = drafted_tool s a\<close> show ?thesis
      by (cases a) (simp_all add: drafted_tool_def ascii_wf_str)
  qed
  ultimately show ?thesis by (simp add: draft_def template_header_def)
qed


lemma main_success:
  assumes "cli_main e c w = (Inr 0, w')"
  shows "run_command e c w = (Inr 0, w')"
  using assms
  by (auto simp: cli_main_def catch_def andthen_def warn_def ret_def throw_def split: prod.splits sum.splits exn.splits)

lemma extracted_report:
  assumes "extracted e names tools namespace w = (Inr (Inr rep), w1)"
  shows "\<exists>seen. drafted seen rep"
proof (cases "names = []")
  case False
  with assms have "extract_from_names names namespace empty_report = Inr rep"
    by (auto simp: extracted_def lift_def chain_Inr)
  then show ?thesis by (rule extract_from_names_drafted) (simp add: empty_report_def)
next
  case True
  with assms obtain payload where "extract_from_mcp_tools_list payload namespace = Inr rep"
    by (auto simp: extracted_def andthen_def lift_def ret_def chain_Inr split: prod.splits sum.splits option.splits)
  then show ?thesis by (rule extract_from_mcp_drafted)
qed

lemma extract_success:
  assumes "cmd_extract e names tools namespace name version framework w = (Inr 0, w')"
  obtains rep seen where "drafted seen rep" and "validate_v1 (draft rep name version framework) = Inr []"
    and "printed w' = printed w @ pretty 0 (draft rep name version framework) @ [10]"
proof -
  let ?m = "andthen (extracted e names tools namespace) (\<lambda>r.
             case r of
               Inl complaint \<Rightarrow> ret (Inl complaint)
             | Inr rep \<Rightarrow> lift (chain (build_template rep name version framework) (\<lambda>doc. Inr (Inr (rep, doc)))))"
  obtain r w1 where r: "?m w = (r, w1)" by force
  from assms have run: "cmd_extract e names tools namespace name version framework w = (Inr 0, w')" .
  obtain rep doc where rd: "r = Inr (Inr (rep, doc))"
    and rest: "andthen (say (pretty 0 doc)) (\<lambda>_. report_review e rep) w1 = (Inr 0, w')"
    using run unfolding cmd_extract_def r
    by (auto simp: andthen_def [of "warn _"] warn_def ret_def split: sum.splits exn.splits)
  from r rd obtain w2 where ex: "extracted e names tools namespace w = (Inr (Inr rep), w1)"
    and build: "build_template rep name version framework = Inr doc"
    by (auto simp: andthen_def lift_def ret_def chain_Inr split: prod.splits sum.splits)
  from build have doc: "doc = draft rep name version framework" "validate_v1 doc = Inr []"
    by (auto simp: build_template_def split: if_splits sum.splits)
  have "printed w1 = printed w" using extracted_quiet [of printed] ex by (rule unchangedD)
  moreover have "printed w' = printed w1 @ pretty 0 doc @ [10]"
    using rest unchangedD [OF unchanged_report(5) [of e rep]] by (auto simp: andthen_def say_def)
  ultimately show thesis using extracted_report [OF ex] doc that by auto
qed

text \<open>A printed draft is read back by every command, from the standard input and from a file.\<close>

lemma draft_loads:
  assumes "drafted seen rep" and valid: "validate_v1 (draft rep name version framework) = Inr []"
    and t: "t = pretty 0 (draft rep name version framework) @ [10]"
  shows "loaded e t = Inr (draft rep name version framework)" and "utf8_decode (ascii_bytes t) = Some t"
    and "universal_newlines t = t"
proof -
  let ?doc = "draft rep name version framework"
  have wf: "wf_json ?doc" by (rule draft_wf [OF assms(1) valid])
  have chars: "c = 10 \<or> 32 \<le> c \<and> c < 127" if "c \<in> set t" for c
    using that pretty_chars [OF wf] by (auto simp: t)
  then have "isascii t" by (fastforce simp: isascii_def)
  then show "utf8_decode (ascii_bytes t) = Some t" by (rule utf8_decode_ascii)
  have "13 \<notin> set t" using chars by fastforce
  then show "universal_newlines t = t" by (rule universal_id)
  obtain u where u: "pretty 0 ?doc = 123 # u" by (auto simp: draft_def)
  then have "starts [123] (lstrip t)" by (simp add: t lstrip_def is_space_def starts_def)
  moreover have "loads t = Some ?doc"
  proof -
    have "scan_value (2 * length t + 1) (pretty 0 ?doc @ [10]) = Some (?doc, [10])"
      by (rule reads_value [OF reads_as_pretty [OF wf]]) (simp_all add: t stops_def is_digit_def)
    moreover have "skip t = t" unfolding t by (rule reads_first [OF reads_as_pretty [OF wf]])
    ultimately show ?thesis by (simp add: loads_def t skip_def is_ws_def)
  qed
  ultimately show "loaded e t = Inr ?doc"
    using valid by (simp add: loaded_def load_template_def parse_template_def)
qed

text \<open>
  C33: what \<open>extract\<close> prints can be fed back. When a run of \<open>hawcx extract\<close> exits with 0, what it added to
  the standard output, stored in a file, is a template that \<open>hawcx validate\<close> accepts with exit
  status 0, for every report and whatever YAML library is installed.
\<close>

theorem extract_then_validate:
  assumes "cli_main e (Extract names tools namespace name version framework) w = (Inr 0, w')"
    and "fs v (path_str p) = Some (AFile (ascii_bytes (drop (length (printed w)) (printed w'))))" and "p \<noteq> [45]"
  shows "cli_main e' (Validate p) v = (Inr 0, v\<lparr>printed := printed v @ path_str p @ lit '': OK'' @ [10]\<rparr>)"
proof -
  from main_success [OF assms(1)] have "cmd_extract e names tools namespace name version framework w = (Inr 0, w')"
    by (simp add: run_command_def)
  then obtain rep seen where rep: "drafted seen rep" and valid: "validate_v1 (draft rep name version framework) = Inr []"
    and out: "printed w' = printed w @ pretty 0 (draft rep name version framework) @ [10]"
    by (rule extract_success)
  let ?t = "pretty 0 (draft rep name version framework) @ [10]"
  note t = draft_loads [OF rep valid refl]
  have "fs v (path_str p) = Some (AFile (ascii_bytes ?t))" using assms(2) out by simp
  with assms(3) t(2,3) have "read_source p v = (Inr (?t, path_str p), v)" by (simp add: read_source_def)
  with t(1) show ?thesis
    by (simp add: cli_main_def run_command_def cmd_validate_def catch_def andthen_def say_def ret_def)
qed

section \<open>Witnesses\<close>

lemma each_done: "(\<And>x w. \<exists>w'. f x w = (Inr (), w')) \<Longrightarrow> \<exists>w'. each f xs w = (Inr (), w')"
proof (induction xs arbitrary: w)
  case (Cons x xs)
  obtain w1 where "f x w = (Inr (), w1)" using Cons.prems by blast
  with Cons show ?case by (simp add: andthen_def)
qed (simp add: ret_def)

lemma then_done:
  "\<exists>w'. m w = (Inr (), w') \<Longrightarrow> (\<And>w'. \<exists>w''. f () w' = (Inr x, w'')) \<Longrightarrow> \<exists>w''. andthen m f w = (Inr x, w'')"
  by (auto simp: andthen_def)

lemma report_done: "\<exists>w'. report_review e rep w = (Inr 0, w')"
proof -
  have w: "\<exists>w'. warn s w = (Inr (), w')" for s w by (simp add: warn_def)
  have r: "\<exists>w'. ret x w = (Inr x, w')" for x :: 'b and w by (simp add: ret_def)
  have l: "\<exists>w'. refused_line e x w = (Inr (), w')" "\<exists>w'. renamed_line y w = (Inr (), w')" for x y w
    by (simp_all add: refused_line_def renamed_line_def warn_def)
  show ?thesis
    unfolding report_review_def by (intro then_done w r; auto intro!: then_done w each_done l r)
qed

text \<open>A directory with one file, a draft at the standard input, and the credentials of an organisation.\<close>

definition demo_world :: "pystr \<Rightarrow> cli" where
  "demo_world s = \<lparr>fs = [lit ''o'' \<mapsto> AFile [7]], stdin_text = Inr s, write_fault = \<lambda>_. None, printed = [],
     complained = [], posted = []\<rparr>"

definition demo_cli_env :: cli_env where
  "demo_cli_env = \<lparr>ce_yaml = None, ce_fmt = \<lambda>_. [], ce_now = [], ce_shown = \<lambda>_. [], ce_why = \<lambda>_. [],
     ce_vars = \<lambda>k. Some (if starts (lit ''HAWCX_C'') k then lit ''http://localhost'' else lit ''hx_k''),
     ce_urlopen = \<lambda>_. Response (dumps_bytes spaced (JObj [])),
     ce_python = \<lparr>stdlib_names = [], is_identifier = \<lambda>_. True, parse = \<lambda>_. None\<rparr>,
     ce_bundle = \<lparr>be_now = 0, be_mode = 0, be_zip = \<lambda>_. [], be_sha = \<lambda>_. []\<rparr>, ce_name = \<lambda>p. p,
     ce_tree = \<lambda>_. None, ce_pip = \<lambda>_ _. None\<rparr>"

lemma extract_runs:
  assumes "extracted e names tools namespace w = (Inr (Inr rep), w1)" and "build_template rep name version framework = Inr doc"
  shows "\<exists>w'. cli_main e (Extract names tools namespace name version framework) w = (Inr 0, w')"
proof -
  have "cmd_extract e names tools namespace name version framework w = andthen (say (pretty 0 doc)) (\<lambda>_. report_review e rep) w1"
    using assms by (simp add: cmd_extract_def andthen_def [of "extracted e names tools namespace"] lift_def chain_def)
  moreover have "\<exists>w'. andthen (say (pretty 0 doc)) (\<lambda>_. report_review e rep) w1 = (Inr 0, w')"
    by (rule then_done) (simp_all add: say_def report_done)
  ultimately show ?thesis by (auto simp: cli_main_def run_command_def catch_def)
qed

theorem cli_never_clobbers_witness:
  "\<exists>w'. cli_main demo_cli_env (Bundle (lit ''p'') (Some (lit ''o'')) None None False) (demo_world []) = (Inr 1, w') \<and>
     fs w' (lit ''o'') = Some (AFile [7])"
proof -
  let ?c = "Bundle (lit ''p'') (Some (lit ''o'')) None None False"
  have out: "bundle_output demo_cli_env (lit ''p'') (Some (lit ''o'')) = lit ''o''"
    by (simp add: bundle_output_def nonempty_arg_def path_str_def lit_def starts_def)
  obtain w' where run: "cli_main demo_cli_env ?c (demo_world []) = (Inr 1, w')"
    by (simp add: cli_main_def run_command_def cmd_bundle_def Let_def out exists_path_def demo_world_def catch_def
        andthen_def warn_def ret_def)
  from cli_never_clobbers [OF run, of "lit ''o''"] have "fs w' (lit ''o'') = fs (demo_world []) (lit ''o'')"
    by (auto simp: replaceable_def demo_world_def)
  with run show ?thesis by (simp add: demo_world_def)
qed

theorem cli_posts_checked_witness:
  "\<exists>s w' req. cli_main demo_cli_env (Submit [45] (lit ''o'') (lit ''cli'')) (demo_world s) = (Inr 0, w') \<and>
     posted w' = [req] \<and> rq_url req = lit ''http://localhost'' @ submit_path"
proof -
  obtain rep where rep: "extract_from_names [lit ''get''] (lit ''m'') empty_report = Inr rep"
    and valid: "validate_v1 (draft rep (lit ''a'') (lit ''1.0.0'') (lit ''crewai'')) = Inr []"
    by (rule demo_draft)
  obtain seen where d: "drafted seen rep" using extract_from_names_drafted [OF rep] by (auto simp: empty_report_def)
  let ?s = "pretty 0 (draft rep (lit ''a'') (lit ''1.0.0'') (lit ''crewai'')) @ [10]"
  have cred: "resolve_credentials (ce_vars demo_cli_env) (lit ''o'') = Inr (lit ''http://localhost'', lit ''hx_k'')"
    by (simp add: resolve_credentials_def env_for_org_def value_text_def demo_cli_env_def rstrip_of_def lit_def starts_def Let_def)
  have guard: "\<not> transport_refused (lit ''http://localhost'')"
    by (simp add: transport_refused_def guard_host_def exempt_hosts_def) (simp add: lit_def starts_def)
  obtain w' where run: "cli_main demo_cli_env (Submit [45] (lit ''o'') (lit ''cli'')) (demo_world ?s) = (Inr 0, w')"
    and p: "posted w' \<noteq> posted (demo_world ?s)"
  proof -
    have "loads_bytes (dumps_bytes spaced (JObj [])) = Inr (JObj [])" by (rule loads_dumps_bytes) simp_all
    then have "submit_answer url (ce_urlopen demo_cli_env req) = Inr (JObj [])" for url req
      by (simp add: submit_answer_def demo_cli_env_def)
    moreover have "read_source [45] (demo_world ?s) = (Inr (?s, lit ''<stdin>''), demo_world ?s)"
      by (simp add: read_source_def demo_world_def)
    ultimately show thesis
      using draft_loads(1) [OF d valid refl, of demo_cli_env] cred guard
      by (intro that) (simp_all add: cli_main_def run_command_def cmd_submit_def catch_def andthen_def say_def warn_def
          ret_def post_def submit_template_def report_submitted_def Let_def, simp add: demo_world_def)
  qed
  from cli_posts_checked [OF run p] cred run show ?thesis by (fastforce simp: demo_world_def)
qed

theorem extract_then_validate_witness:
  "\<exists>w' v. cli_main demo_cli_env (Extract [lit ''get''] [] (lit ''m'') (lit ''a'') (lit ''1.0.0'') (lit ''crewai'')) (demo_world []) =
       (Inr 0, w') \<and>
     cli_main demo_cli_env (Validate (lit ''t'')) v = (Inr 0, v\<lparr>printed := printed v @ lit ''t: OK'' @ [10]\<rparr>)"
proof -
  let ?c = "Extract [lit ''get''] [] (lit ''m'') (lit ''a'') (lit ''1.0.0'') (lit ''crewai'')"
  obtain rep where rep: "extract_from_names [lit ''get''] (lit ''m'') empty_report = Inr rep" "rp_tools rep \<noteq> []"
    and ok: "lit ''crewai'' \<in> set frameworks" "validate_v1 (draft rep (lit ''a'') (lit ''1.0.0'') (lit ''crewai'')) = Inr []"
    by (rule demo_draft)
  let ?d = "draft rep (lit ''a'') (lit ''1.0.0'') (lit ''crewai'')"
  have "extracted demo_cli_env [lit ''get''] [] (lit ''m'') w = (Inr (Inr rep), w)" for w
    using rep(1) by (simp add: extracted_def lift_def chain_def)
  moreover have "build_template rep (lit ''a'') (lit ''1.0.0'') (lit ''crewai'') = Inr ?d"
    using rep(2) ok by (simp add: build_template_def)
  ultimately obtain w' where run: "cli_main demo_cli_env ?c (demo_world []) = (Inr 0, w')"
    using extract_runs by metis
  let ?v = "(demo_world [])\<lparr>fs := [lit ''t'' \<mapsto> AFile (ascii_bytes (drop (length (printed (demo_world []))) (printed w')))]\<rparr>"
  have t: "path_str (lit ''t'') = lit ''t''" "lit ''t'' \<noteq> [45]" by (simp_all add: path_str_def lit_def starts_def)
  have "cli_main demo_cli_env (Validate (lit ''t'')) ?v = (Inr 0, ?v\<lparr>printed := printed ?v @ path_str (lit ''t'') @ lit '': OK'' @ [10]\<rparr>)"
    by (rule extract_then_validate [OF run]) (simp_all add: t)
  then have "cli_main demo_cli_env (Validate (lit ''t'')) ?v = (Inr 0, ?v\<lparr>printed := printed ?v @ lit ''t: OK'' @ [10]\<rparr>)"
    unfolding t(1) by (simp add: lit_def)
  with run show ?thesis by blast
qed

end
