(* ===== verification/Pod_Manifest.thy ===== *)
theory Pod_Manifest
  imports Template
begin

text \<open>
  \<open>deploy/agent-pod/ci/validate_manifest.py\<close>: the structural check of a rendered agent pod.
  A YAML document is a JSON value, as in \<^theory_text>\<open>Template\<close>; the parser is an argument. Each step of
  \<open>main\<close> is one operation below and \<open>validate\<close> runs them in the order of the source. A call of
  \<open>fail\<close> is \<open>Refusal\<close> with the values its message prints; an exception that \<open>main\<close> lets
  through is \<open>Raised\<close>; both end the process with status 1.

  The theorems say what a manifest that passes has, and that the check never looks at the
  init containers of the pod.
\<close>

section \<open>Outcomes\<close>

datatype pod_fault =
    StatefulSets "json list"
  | Replicas json
  | NoServiceName
  | Services json nat
  | NotHeadless json
  | ClaimTemplates
  | HostNamespace pystr json
  | SharedProcesses
  | TokenMounted
  | Containers "json list"
  | UidOutside pystr json
  | SharedUid json
  | MissingKeys "pystr list"
  | PostureDrift json json
  | ExpectedUidDiffers
  | PeerUidDiffers pystr
  | AgentMounts "json list"
  | VolumeNotMemory pystr json

datatype pod_exit = Usage | Refusal pod_fault | Raised exn

definition raising :: "exn + 'a \<Rightarrow> pod_exit + 'a" where
  "raising r = (case r of Inl e \<Rightarrow> Inl (Raised e) | Inr x \<Rightarrow> Inr x)"

lemma raising_Inr [simp]: "raising r = Inr x \<longleftrightarrow> r = Inr x"
  by (cases r) (simp_all add: raising_def)

lemma raising_known [simp]: "raising (Inr x) = Inr x" "raising (Inl e) = Inl (Raised e)"
  by (simp_all add: raising_def)

definition unless :: "bool \<Rightarrow> pod_fault \<Rightarrow> pod_exit + unit" where
  "unless ok f = (if ok then Inr () else Inl (Refusal f))"

lemma unless_Inr [simp]: "unless ok f = Inr u \<longleftrightarrow> ok"
  by (simp add: unless_def)

lemma unless_True [simp]: "unless True f = Inr ()"
  by (simp add: unless_def)

section \<open>Reading a document\<close>

text \<open>\<open>d.get(k, dflt)\<close> and \<open>d[k]\<close>.\<close>

definition dget :: "string \<Rightarrow> json \<Rightarrow> json \<Rightarrow> pod_exit + json" where
  "dget k dflt j = raising (item_or k dflt j)"

definition sub :: "string \<Rightarrow> json \<Rightarrow> pod_exit + json" where
  "sub k j = raising (item k j)"

text \<open>\<open>{c["name"]: c for c in j}\<close>. The keys are only ever compared with strings, so that keys
  that are numbers need no Python equality here.\<close>

definition named_entry :: "json \<Rightarrow> pod_exit + json \<times> json" where
  "named_entry c = chain (sub ''name'' c) (\<lambda>n.
     if unhashable n then Inl (Raised (TypeError Unhashable)) else Inr (n, c))"

definition by_name :: "json \<Rightarrow> pod_exit + (json \<times> json) list" where
  "by_name j = chain (raising (elements j)) (\<lambda>cs.
     chain (collect named_entry cs) (\<lambda>ps. Inr (update_all ps [])))"

definition entry :: "string \<Rightarrow> (json \<times> json) list \<Rightarrow> pod_exit + json" where
  "entry k d = (case map_of d (JStr (lit k)) of
     None \<Rightarrow> Inl (Raised (KeyError (lit k))) | Some v \<Rightarrow> Inr v)"

text \<open>The integer that a number is equal to, if any, and \<open>==\<close> of two values. A float is its
  \<open>repr\<close>, so that two floats with no integer value are equal when their texts are, but for \<open>nan\<close>.\<close>

definition number :: "builtins \<Rightarrow> json \<Rightarrow> int option" where
  "number b j = (case j of
     JInt i \<Rightarrow> Some i
   | JBool t \<Rightarrow> Some (of_bool t)
   | JFloat r \<Rightarrow> (case int_of_float b r of
       Inl e \<Rightarrow> None | Inr i \<Rightarrow> if float_equals b r i then Some i else None)
   | _ \<Rightarrow> None)"

definition eq_numbers :: "builtins \<Rightarrow> json \<Rightarrow> json \<Rightarrow> bool" where
  "eq_numbers b x y = (case (number b x, number b y) of
     (Some i, Some k) \<Rightarrow> i = k
   | (None, None) \<Rightarrow> (case (x, y) of (JFloat r, JFloat s) \<Rightarrow> r = s \<and> r \<noteq> lit ''nan'' | _ \<Rightarrow> False)
   | _ \<Rightarrow> False)"

fun py_eq :: "builtins \<Rightarrow> json \<Rightarrow> json \<Rightarrow> bool"
  and eq_items :: "builtins \<Rightarrow> json list \<Rightarrow> json list \<Rightarrow> bool"
  and eq_members :: "builtins \<Rightarrow> (pystr \<times> json) list \<Rightarrow> (pystr \<times> json) list \<Rightarrow> bool" where
  "py_eq b JNull y = (y = JNull)"
| "py_eq b (JStr s) y = (y = JStr s)"
| "py_eq b (JArr xs) y = (case y of JArr ys \<Rightarrow> eq_items b xs ys | _ \<Rightarrow> False)"
| "py_eq b (JObj d) y = (case y of JObj d' \<Rightarrow> length d = length d' \<and> eq_members b d d' | _ \<Rightarrow> False)"
| "py_eq b (JBool t) y = eq_numbers b (JBool t) y"
| "py_eq b (JInt i) y = eq_numbers b (JInt i) y"
| "py_eq b (JFloat r) y = eq_numbers b (JFloat r) y"
| "eq_items b [] ys = (ys = [])"
| "eq_items b (x # xs) ys = (case ys of [] \<Rightarrow> False | y # ys' \<Rightarrow> py_eq b x y \<and> eq_items b xs ys')"
| "eq_members b [] d = True"
| "eq_members b ((k, v) # kvs) d =
     ((case map_of d k of None \<Rightarrow> False | Some w \<Rightarrow> py_eq b v w) \<and> eq_members b kvs d)"

section \<open>The steps of main\<close>

definition required_preflight_keys :: "string list" where
  "required_preflight_keys =
     [''HAAP_AGENT_EXPECTED_UID'', ''HAAP_AGENT_NS_ISOLATION'', ''HAAP_PRODUCTION_MODE'',
      ''HAAP_REQUIRED_ISOLATION_POSTURE'', ''HAAP_SHARED_INFRA_UIDS'',
      ''HAAP_TQS_PEER_AUTHENTICATOR_UID'', ''HAAP_TQS_PEER_JIT_UID'']"

definition in_uid_band :: "builtins \<Rightarrow> json \<Rightarrow> bool" where
  "in_uid_band b j = (case number b j of Some i \<Rightarrow> 100000 \<le> i \<and> i < 200000 | None \<Rightarrow> False)"

text \<open>\<open>[d for d in docs if d.get(k) == s]\<close>.\<close>

fun of_kind :: "string \<Rightarrow> json list \<Rightarrow> pod_exit + json list" where
  "of_kind s [] = Inr []"
| "of_kind s (d # ds) = chain (dget ''kind'' JNull d) (\<lambda>k. chain (of_kind s ds) (\<lambda>rest.
     Inr (if k = JStr (lit s) then d # rest else rest)))"

definition stateful_set :: "json list \<Rightarrow> pod_exit + json" where
  "stateful_set docs =
     chain (of_kind ''StatefulSet'' docs) (\<lambda>stsl.
     chain (collect (dget ''kind'' JNull) docs) (\<lambda>kinds.
     chain (unless (length stsl = 1) (StatefulSets kinds)) (\<lambda>_. sub ''spec'' (hd stsl))))"

text \<open>The condition on a service is evaluated left to right, and its second half only for a
  \<open>Service\<close>.\<close>

fun services_named :: "builtins \<Rightarrow> json \<Rightarrow> json list \<Rightarrow> pod_exit + json list" where
  "services_named b n [] = Inr []"
| "services_named b n (d # ds) =
     chain (dget ''kind'' JNull d) (\<lambda>k.
     chain (if k = JStr (lit ''Service'')
            then chain (dget ''metadata'' (JObj []) d) (\<lambda>m.
                 chain (dget ''name'' JNull m) (\<lambda>x. Inr (py_eq b x n)))
            else Inr False) (\<lambda>hit.
     chain (services_named b n ds) (\<lambda>rest. Inr (if hit then d # rest else rest))))"

definition check_service :: "builtins \<Rightarrow> json list \<Rightarrow> json \<Rightarrow> pod_exit + unit" where
  "check_service b docs sts_spec =
     chain (dget ''serviceName'' JNull sts_spec) (\<lambda>n.
     chain (unless (truthy n) NoServiceName) (\<lambda>_.
     chain (services_named b n docs) (\<lambda>svcs.
     chain (unless (length svcs = 1) (Services n (length svcs))) (\<lambda>_.
     chain (sub ''spec'' (hd svcs)) (\<lambda>s.
     chain (dget ''clusterIP'' JNull s) (\<lambda>ip.
     unless (ip = JStr (lit ''None'')) (NotHeadless n)))))))"

fun check_namespaces :: "string list \<Rightarrow> json \<Rightarrow> pod_exit + unit" where
  "check_namespaces [] spec = Inr ()"
| "check_namespaces (ns # rest) spec =
     chain (dget ns (JBool False) spec) (\<lambda>v.
     chain (unless (\<not> truthy v) (HostNamespace (lit ns) v)) (\<lambda>_. check_namespaces rest spec))"

definition check_sharing :: "json \<Rightarrow> pod_exit + unit" where
  "check_sharing spec =
     chain (check_namespaces [''hostPID'', ''hostIPC'', ''hostNetwork''] spec) (\<lambda>_.
     chain (dget ''shareProcessNamespace'' (JBool False) spec) (\<lambda>v.
     chain (unless (\<not> truthy v) SharedProcesses) (\<lambda>_.
     chain (dget ''automountServiceAccountToken'' (JBool True) spec) (\<lambda>t.
     unless (\<not> truthy t) TokenMounted))))"

definition run_as_user :: "string \<Rightarrow> (json \<times> json) list \<Rightarrow> pod_exit + json" where
  "run_as_user c containers =
     chain (entry c containers) (\<lambda>j. chain (sub ''securityContext'' j) (sub ''runAsUser''))"

definition principals :: "builtins \<Rightarrow> (json \<times> json) list \<Rightarrow> pod_exit + json \<times> json" where
  "principals b containers =
     chain (run_as_user ''keeper'' containers) (\<lambda>cred.
     chain (run_as_user ''agent'' containers) (\<lambda>llm.
     chain (unless (in_uid_band b cred) (UidOutside (lit ''keeper/cred'') cred)) (\<lambda>_.
     chain (unless (in_uid_band b llm) (UidOutside (lit ''agent/llm'') llm)) (\<lambda>_.
     chain (unless (\<not> py_eq b cred llm) (SharedUid cred)) (\<lambda>_. Inr (cred, llm))))))"

definition env_value :: "string \<Rightarrow> (json \<times> json) list \<Rightarrow> pod_exit + json" where
  "env_value k env = chain (entry k env) (sub ''value'')"

fun check_peers :: "string list \<Rightarrow> json \<Rightarrow> (json \<times> json) list \<Rightarrow> pod_exit + unit" where
  "check_peers [] cred env = Inr ()"
| "check_peers (k # ks) cred env =
     chain (env_value k env) (\<lambda>v.
     chain (unless (v = JStr (py_str cred)) (PeerUidDiffers (lit k))) (\<lambda>_. check_peers ks cred env))"

definition check_keeper_env ::
  "json \<Rightarrow> (json \<times> json) list \<Rightarrow> json \<Rightarrow> json \<Rightarrow> pod_exit + json \<times> json" where
  "check_keeper_env spec containers cred llm =
     chain (entry ''keeper'' containers) (\<lambda>keeper.
     chain (dget ''env'' (JArr []) keeper) (\<lambda>e.
     chain (by_name e) (\<lambda>env.
     let missing = filter (\<lambda>k. JStr (lit k) \<notin> fst ` set env) required_preflight_keys in
     chain (unless (missing = []) (MissingKeys (map lit missing))) (\<lambda>_.
     chain (env_value ''HAAP_REQUIRED_ISOLATION_POSTURE'' env) (\<lambda>posture.
     chain (dget ''runtimeClassName'' JNull spec) (\<lambda>rtc.
     chain (unless ((posture = JStr (lit ''microvm'')) = truthy rtc) (PostureDrift posture rtc)) (\<lambda>_.
     chain (env_value ''HAAP_AGENT_EXPECTED_UID'' env) (\<lambda>u.
     chain (unless (u = JStr (py_str llm)) ExpectedUidDiffers) (\<lambda>_.
     chain (check_peers [''HAAP_TQS_PEER_AUTHENTICATOR_UID'', ''HAAP_TQS_PEER_JIT_UID''] cred env) (\<lambda>_.
     Inr (posture, rtc)))))))))))"

definition check_agent_mounts :: "(json \<times> json) list \<Rightarrow> pod_exit + unit" where
  "check_agent_mounts containers =
     chain (entry ''agent'' containers) (\<lambda>agent.
     chain (dget ''volumeMounts'' (JArr []) agent) (\<lambda>m.
     chain (by_name m) (\<lambda>mounts.
     unless (fst ` set mounts = {JStr (lit ''haap-ipc'')}) (AgentMounts (map fst mounts)))))"

fun check_volumes :: "string list \<Rightarrow> (json \<times> json) list \<Rightarrow> pod_exit + unit" where
  "check_volumes [] vols = Inr ()"
| "check_volumes (n # ns) vols =
     chain (dget ''emptyDir'' (JObj []) (case map_of vols (JStr (lit n)) of None \<Rightarrow> JObj [] | Some v \<Rightarrow> v)) (\<lambda>e.
     chain (dget ''medium'' JNull e) (\<lambda>med.
     chain (unless (med = JStr (lit ''Memory'')) (VolumeNotMemory (lit n) med)) (\<lambda>_. check_volumes ns vols)))"

section \<open>main\<close>

type_synonym pod_summary = "json \<times> json \<times> json \<times> json"   \<comment> \<open>posture, cred, llm, rtc\<close>

definition check_pod :: "builtins \<Rightarrow> json \<Rightarrow> pod_exit + pod_summary" where
  "check_pod b spec =
     chain (check_sharing spec) (\<lambda>_.
     chain (sub ''containers'' spec) (\<lambda>cs.
     chain (by_name cs) (\<lambda>containers.
     chain (unless (fst ` set containers = {JStr (lit ''keeper''), JStr (lit ''agent'')})
              (Containers (map fst containers))) (\<lambda>_.
     chain (principals b containers) (\<lambda>(cred, llm).
     chain (check_keeper_env spec containers cred llm) (\<lambda>(posture, rtc).
     chain (check_agent_mounts containers) (\<lambda>_.
     chain (sub ''volumes'' spec) (\<lambda>vs.
     chain (by_name vs) (\<lambda>vols.
     chain (check_volumes [''haap-ipc'', ''haap-keeper-internal''] vols) (\<lambda>_.
     Inr (posture, cred, llm, rtc)))))))))))"

definition check_manifest :: "builtins \<Rightarrow> json list \<Rightarrow> pod_exit + pod_summary" where
  "check_manifest b all =
     (let docs = filter truthy all in
      chain (stateful_set docs) (\<lambda>sts_spec.
      chain (dget ''replicas'' JNull sts_spec) (\<lambda>r.
      chain (unless (py_eq b r (JInt 1)) (Replicas r)) (\<lambda>_.
      chain (check_service b docs sts_spec) (\<lambda>_.
      chain (dget ''volumeClaimTemplates'' JNull sts_spec) (\<lambda>v.
      chain (unless (\<not> truthy v) ClaimTemplates) (\<lambda>_.
      chain (sub ''template'' sts_spec) (\<lambda>t. chain (sub ''spec'' t) (check_pod b)))))))))"

definition validate_main ::
  "builtins \<Rightarrow> (pystr \<Rightarrow> exn + json list) \<Rightarrow> pystr list \<Rightarrow> pod_exit + pod_summary" where
  "validate_main b load argv =
     (if length argv \<noteq> 2 then Inl Usage else chain (raising (load (argv ! 1))) (check_manifest b))"

section \<open>What a manifest that passes has\<close>

text \<open>\<open>at [k, ...] j\<close> is the value at a path of member names.\<close>

fun at :: "string list \<Rightarrow> json \<Rightarrow> json option" where
  "at [] j = Some j"
| "at (k # ks) j = (case j of
     JObj kvs \<Rightarrow> (case map_of kvs (lit k) of None \<Rightarrow> None | Some v \<Rightarrow> at ks v) | _ \<Rightarrow> None)"

definition off :: "string list \<Rightarrow> json \<Rightarrow> bool" where
  "off ks j = (case at ks j of None \<Rightarrow> True | Some v \<Rightarrow> \<not> truthy v)"

text \<open>Of several entries with one name, the last one.\<close>

definition last_named :: "string \<Rightarrow> json list \<Rightarrow> json option" where
  "last_named n cs = find (\<lambda>c. at [''name''] c = Some (JStr (lit n))) (rev cs)"

definition env_at :: "string \<Rightarrow> json list \<Rightarrow> json option" where
  "env_at k env = Option.bind (last_named k env) (at [''value''])"

definition isolated_principals :: "builtins \<Rightarrow> json \<Rightarrow> json \<Rightarrow> json \<Rightarrow> json \<Rightarrow> bool" where
  "isolated_principals b keeper agent cred llm \<longleftrightarrow>
     at [''securityContext'', ''runAsUser''] keeper = Some cred \<and>
     at [''securityContext'', ''runAsUser''] agent = Some llm \<and>
     (\<exists>i k. number b cred = Some i \<and> number b llm = Some k \<and> i \<noteq> k \<and>
        100000 \<le> i \<and> i < 200000 \<and> 100000 \<le> k \<and> k < 200000)"

definition keeper_env_ok :: "json list \<Rightarrow> json \<Rightarrow> json \<Rightarrow> json \<Rightarrow> json \<Rightarrow> bool" where
  "keeper_env_ok env posture cred llm rtc \<longleftrightarrow>
     (\<forall>k \<in> set required_preflight_keys. last_named k env \<noteq> None) \<and>
     env_at ''HAAP_REQUIRED_ISOLATION_POSTURE'' env = Some posture \<and>
     (posture = JStr (lit ''microvm'') \<longleftrightarrow> truthy rtc) \<and>
     env_at ''HAAP_AGENT_EXPECTED_UID'' env = Some (JStr (py_str llm)) \<and>
     env_at ''HAAP_TQS_PEER_AUTHENTICATOR_UID'' env = Some (JStr (py_str cred)) \<and>
     env_at ''HAAP_TQS_PEER_JIT_UID'' env = Some (JStr (py_str cred))"

definition isolated_pod :: "builtins \<Rightarrow> json \<Rightarrow> pod_summary \<Rightarrow> bool" where
  "isolated_pod b spec r \<longleftrightarrow> (case r of (posture, cred, llm, rtc) \<Rightarrow>
     (\<forall>k \<in> {''hostPID'', ''hostIPC'', ''hostNetwork'', ''shareProcessNamespace''}. off [k] spec) \<and>
     (\<exists>t. at [''automountServiceAccountToken''] spec = Some t \<and> \<not> truthy t) \<and>
     rtc = (case at [''runtimeClassName''] spec of None \<Rightarrow> JNull | Some v \<Rightarrow> v) \<and>
     (\<exists>cs keeper agent env mounts vols.
        at [''containers''] spec = Some (JArr cs) \<and>
        (\<forall>c \<in> set cs. at [''name''] c \<in> {Some (JStr (lit ''keeper'')), Some (JStr (lit ''agent''))}) \<and>
        last_named ''keeper'' cs = Some keeper \<and> last_named ''agent'' cs = Some agent \<and>
        isolated_principals b keeper agent cred llm \<and>
        at [''env''] keeper = Some (JArr env) \<and> keeper_env_ok env posture cred llm rtc \<and>
        at [''volumeMounts''] agent = Some (JArr mounts) \<and> mounts \<noteq> [] \<and>
        (\<forall>m \<in> set mounts. at [''name''] m = Some (JStr (lit ''haap-ipc''))) \<and>
        at [''volumes''] spec = Some (JArr vols) \<and>
        (\<forall>n \<in> {''haap-ipc'', ''haap-keeper-internal''}. \<exists>v. last_named n vols = Some v \<and>
           at [''emptyDir'', ''medium''] v = Some (JStr (lit ''Memory'')))))"

section \<open>Inversions of the steps\<close>

lemma dget_Inr: "dget k dflt j = Inr v \<longleftrightarrow> (\<exists>kvs. j = JObj kvs \<and> v = get (lit k) dflt kvs)"
  by (cases j) (auto simp: dget_def item_or_def)

declare at.simps(2) [simp del]

lemma at_object: "at (k # ks) j = Some v \<longleftrightarrow> (\<exists>kvs w. j = JObj kvs \<and> map_of kvs (lit k) = Some w \<and> at ks w = Some v)"
  by (cases j) (auto simp: at.simps(2) split: option.splits)

lemma sub_Inr: "sub k j = Inr v \<longleftrightarrow> at [k] j = Some v"
  by (cases j) (auto simp: sub_def item_def at.simps(2) split: option.splits)

lemma dget_at: "dget k dflt j = Inr v \<Longrightarrow> v = (case at [k] j of None \<Rightarrow> dflt | Some w \<Rightarrow> w)"
  by (auto simp: dget_Inr get_def at.simps(2) split: option.splits)

lemma at_Cons: "at (k # ks) j = Option.bind (at [k] j) (at ks)"
  by (cases j) (auto simp: at.simps(2) split: option.splits)

lemma named_entry_Inr: "named_entry c = Inr p \<Longrightarrow> snd p = c \<and> at [''name''] c = Some (fst p)"
  by (auto simp: named_entry_def chain_Inr sub_Inr split: if_splits)

lemma map_of_named:
  "list_all2 (\<lambda>c p. named_entry c = Inr p) cs ps \<Longrightarrow>
     map_of ps n = find (\<lambda>c. at [''name''] c = Some n) cs"
  by (induction rule: list_all2_induct) (auto dest!: named_entry_Inr)

lemma by_name_Inr:
  assumes "by_name j = Inr d"
  obtains cs ps where "elements j = Inr cs" "list_all2 (\<lambda>c p. named_entry c = Inr p) cs ps"
    "fst ` set d = fst ` set ps" "map_of d = map_of (rev ps)"
  using assms by (auto simp: by_name_def chain_Inr collect_Inr keys_update_all map_of_update_all)

lemma named_object: "named_entry c = Inr p \<Longrightarrow> \<exists>kvs. c = JObj kvs"
  by (auto simp: named_entry_def chain_Inr sub_Inr at_object)

lemma by_name_array:
  assumes d: "by_name j = Inr d" and ne: "d \<noteq> []"
  obtains cs where "j = JArr cs" "cs \<noteq> []"
    "\<forall>c \<in> set cs. \<exists>n \<in> fst ` set d. at [''name''] c = Some n"
    "\<And>n. map_of d (JStr (lit n)) = last_named n cs"
proof -
  obtain cs ps where e: "elements j = Inr cs" and l: "list_all2 (\<lambda>c p. named_entry c = Inr p) cs ps"
      and k: "fst ` set d = fst ` set ps" and m: "map_of d = map_of (rev ps)"
    by (rule by_name_Inr [OF d])
  from k ne have "ps \<noteq> []" by auto
  with l have cs: "cs \<noteq> []" by auto
  then have "\<exists>p. named_entry (hd cs) = Inr p" using l by (cases cs) (auto simp: list_all2_Cons1)
  then have "\<exists>kvs. hd cs = JObj kvs" using named_object by blast
  with e cs have j: "j = JArr cs"
    by (cases j; cases cs) (auto simp: elements_def map_eq_Cons_conv split: prod.splits)
  have in_d: "\<forall>c \<in> set cs. \<exists>n \<in> fst ` set d. at [''name''] c = Some n"
  proof
    fix c
    assume "c \<in> set cs"
    then obtain i where "i < length cs" "cs ! i = c" by (auto simp: in_set_conv_nth)
    then have "ps ! i \<in> set ps" "named_entry c = Inr (ps ! i)"
      using list_all2_nthD [OF l, of i] list_all2_lengthD [OF l] by auto
    then have "fst (ps ! i) \<in> fst ` set d" "at [''name''] c = Some (fst (ps ! i))"
      using k named_entry_Inr by auto
    then show "\<exists>n \<in> fst ` set d. at [''name''] c = Some n" by blast
  qed
  have "map_of d (JStr (lit n)) = last_named n cs" for n
    using map_of_named [of "rev cs" "rev ps"] l m by (simp add: last_named_def)
  with j cs in_d show thesis by (rule that)
qed

lemma entry_Inr: "entry k d = Inr v \<longleftrightarrow> map_of d (JStr (lit k)) = Some v"
  by (simp add: entry_def split: option.splits)

lemma of_kind_Inr: "of_kind s ds = Inr xs \<Longrightarrow> xs = filter (\<lambda>d. at [''kind''] d = Some (JStr (lit s))) ds"
  by (induction ds arbitrary: xs) (auto simp: chain_Inr dest!: dget_at split: option.splits)

lemma services_named_Inr:
  assumes n: "truthy n"
  shows "services_named b n ds = Inr xs \<Longrightarrow>
    xs = filter (\<lambda>d. at [''kind''] d = Some (JStr (lit ''Service'')) \<and>
           (\<exists>x. at [''metadata'', ''name''] d = Some x \<and> py_eq b x n)) ds"
proof (induction ds arbitrary: xs)
  case Nil
  then show ?case by simp
next
  case (Cons d ds)
  from Cons.prems obtain k hit rest where k: "dget ''kind'' JNull d = Inr k"
      and hit: "(if k = JStr (lit ''Service'')
            then chain (dget ''metadata'' (JObj []) d) (\<lambda>m.
                 chain (dget ''name'' JNull m) (\<lambda>x. Inr (py_eq b x n)))
            else Inr False) = Inr hit"
      and rest: "services_named b n ds = Inr rest" and xs: "xs = (if hit then d # rest else rest)"
    by (auto simp: chain_Inr)
  have none: "\<not> py_eq b JNull n" using n by auto
  have "hit \<longleftrightarrow> at [''kind''] d = Some (JStr (lit ''Service'')) \<and>
           (\<exists>x. at [''metadata'', ''name''] d = Some x \<and> py_eq b x n)"
  proof (cases "k = JStr (lit ''Service'')")
    case True
    with hit obtain m x where "dget ''metadata'' (JObj []) d = Inr m" "dget ''name'' JNull m = Inr x"
      "hit = py_eq b x n" by (auto simp: chain_Inr)
    with True none dget_at [OF k] show ?thesis
      by (auto simp: dget_Inr get_def at.simps(2) split: option.splits)
  next
    case False
    with hit dget_at [OF k] show ?thesis by (auto split: option.splits)
  qed
  with Cons.IH [OF rest] xs show ?case by simp
qed

lemma py_eq_one: "py_eq b r (JInt i) \<Longrightarrow> number b r = Some i"
  by (cases r) (auto simp: eq_numbers_def number_def split: option.splits)

lemma differing_numbers: "\<not> py_eq b x y \<Longrightarrow> number b x = Some i \<Longrightarrow> number b y = Some k \<Longrightarrow> i \<noteq> k"
  by (cases x) (auto simp: eq_numbers_def number_def split: option.splits)

lemma off_dget: "dget k (JBool False) j = Inr v \<Longrightarrow> \<not> truthy v \<Longrightarrow> off [k] j"
  "dget k JNull j = Inr v \<Longrightarrow> \<not> truthy v \<Longrightarrow> off [k] j"
  by (auto simp: off_def dest!: dget_at split: option.splits)

lemma check_namespaces_Inr: "check_namespaces ks j = Inr u \<Longrightarrow> \<forall>k \<in> set ks. off [k] j"
  by (induction ks) (auto simp: chain_Inr intro: off_dget)

lemma check_sharing_Inr:
  assumes "check_sharing spec = Inr u"
  shows "\<forall>k \<in> {''hostPID'', ''hostIPC'', ''hostNetwork'', ''shareProcessNamespace''}. off [k] spec"
    "\<exists>t. at [''automountServiceAccountToken''] spec = Some t \<and> \<not> truthy t"
proof -
  from assms obtain v t where ns: "check_namespaces [''hostPID'', ''hostIPC'', ''hostNetwork''] spec = Inr ()"
      and v: "dget ''shareProcessNamespace'' (JBool False) spec = Inr v" "\<not> truthy v"
      and t: "dget ''automountServiceAccountToken'' (JBool True) spec = Inr t" "\<not> truthy t"
    by (auto simp: check_sharing_def chain_Inr simp del: check_namespaces.simps)
  show "\<forall>k \<in> {''hostPID'', ''hostIPC'', ''hostNetwork'', ''shareProcessNamespace''}. off [k] spec"
    using check_namespaces_Inr [OF ns] off_dget(1) [OF v] by simp
  show "\<exists>t. at [''automountServiceAccountToken''] spec = Some t \<and> \<not> truthy t"
    using dget_at [OF t(1)] t(2) by (simp split: option.splits)
qed

lemma env_value_Inr:
  "env_value k d = Inr v \<Longrightarrow> (\<And>n. map_of d (JStr (lit n)) = last_named n env) \<Longrightarrow> env_at k env = Some v"
  by (auto simp: env_value_def env_at_def chain_Inr entry_Inr sub_Inr)

lemma check_peers_Inr:
  "check_peers ks cred d = Inr u \<Longrightarrow> k \<in> set ks \<Longrightarrow> env_value k d = Inr (JStr (py_str cred))"
  by (induction ks) (auto simp: chain_Inr)

lemma run_as_user_Inr:
  "run_as_user c d = Inr u \<Longrightarrow> (\<And>n. map_of d (JStr (lit n)) = last_named n cs) \<Longrightarrow>
     \<exists>j. last_named c cs = Some j \<and> at [''securityContext'', ''runAsUser''] j = Some u"
  by (auto simp: run_as_user_def chain_Inr entry_Inr sub_Inr at_Cons [of "''securityContext''" "[''runAsUser'']"])

lemma in_uid_band_number: "in_uid_band b j \<longleftrightarrow> (\<exists>i. number b j = Some i \<and> 100000 \<le> i \<and> i < 200000)"
  by (auto simp: in_uid_band_def split: option.splits)

lemma check_volumes_Inr:
  assumes "check_volumes ns d = Inr u" "n \<in> set ns" "\<And>n. map_of d (JStr (lit n)) = last_named n vols"
  shows "\<exists>v. last_named n vols = Some v \<and> at [''emptyDir'', ''medium''] v = Some (JStr (lit ''Memory''))"
  using assms(1,2)
proof (induction ns)
  case (Cons m ns)
  then show ?case using assms(3)
    by (auto simp: chain_Inr dget_Inr get_def at_object split: option.splits)
qed simp

section \<open>Soundness\<close>

lemma principals_Inr:
  assumes "principals b d = Inr (cred, llm)" "\<And>n. map_of d (JStr (lit n)) = last_named n cs"
    "last_named ''keeper'' cs = Some keeper" "last_named ''agent'' cs = Some agent"
  shows "isolated_principals b keeper agent cred llm"
proof -
  have u: "run_as_user ''keeper'' d = Inr cred" "run_as_user ''agent'' d = Inr llm"
      and band: "in_uid_band b cred" "in_uid_band b llm" and ne: "\<not> py_eq b cred llm"
    using assms(1) by (auto simp: principals_def chain_Inr)
  show ?thesis
    using run_as_user_Inr [OF u(1) assms(2)] run_as_user_Inr [OF u(2) assms(2)] assms(3,4) band
      differing_numbers [OF ne]
    by (auto simp: isolated_principals_def in_uid_band_number)
qed

lemma check_keeper_env_Inr:
  assumes "check_keeper_env spec d cred llm = Inr (posture, rtc)" "map_of d (JStr (lit ''keeper'')) = Some keeper"
  obtains env where "at [''env''] keeper = Some (JArr env)" "keeper_env_ok env posture cred llm rtc"
    "rtc = (case at [''runtimeClassName''] spec of None \<Rightarrow> JNull | Some v \<Rightarrow> v)"
proof -
  from assms obtain e ed where e: "dget ''env'' (JArr []) keeper = Inr e" and ed: "by_name e = Inr ed"
      and keys: "filter (\<lambda>k. JStr (lit k) \<notin> fst ` set ed) required_preflight_keys = []"
      and p: "env_value ''HAAP_REQUIRED_ISOLATION_POSTURE'' ed = Inr posture"
      and r: "dget ''runtimeClassName'' JNull spec = Inr rtc" "(posture = JStr (lit ''microvm'')) = truthy rtc"
      and u: "env_value ''HAAP_AGENT_EXPECTED_UID'' ed = Inr (JStr (py_str llm))"
      and peers: "check_peers [''HAAP_TQS_PEER_AUTHENTICATOR_UID'', ''HAAP_TQS_PEER_JIT_UID''] cred ed = Inr ()"
    by (auto simp: check_keeper_env_def chain_Inr entry_Inr Let_def simp del: check_peers.simps)
  have "ed \<noteq> []" using p by (auto simp: env_value_def chain_Inr entry_Inr)
  then obtain env where je: "e = JArr env" "env \<noteq> []" and m: "\<And>n. map_of ed (JStr (lit n)) = last_named n env"
    by (rule by_name_array [OF ed]) auto
  have a: "at [''env''] keeper = Some (JArr env)"
    using dget_at [OF e] je by (auto split: option.splits)
  have "\<forall>k \<in> set required_preflight_keys. last_named k env \<noteq> None"
    using keys by (auto simp: filter_empty_conv m [symmetric] map_of_eq_None_iff)
  then have "keeper_env_ok env posture cred llm rtc"
    using env_value_Inr [OF p m] env_value_Inr [OF u m] r(2)
      env_value_Inr [OF check_peers_Inr [OF peers] m]
    by (simp add: keeper_env_ok_def)
  with a show thesis using dget_at [OF r(1)] by (rule that)
qed

lemma check_agent_mounts_Inr:
  assumes "check_agent_mounts d = Inr u" "map_of d (JStr (lit ''agent'')) = Some agent"
  obtains mounts where "at [''volumeMounts''] agent = Some (JArr mounts)" "mounts \<noteq> []"
    "\<forall>m \<in> set mounts. at [''name''] m = Some (JStr (lit ''haap-ipc''))"
proof -
  from assms obtain e ed where e: "dget ''volumeMounts'' (JArr []) agent = Inr e" and ed: "by_name e = Inr ed"
      and keys: "fst ` set ed = {JStr (lit ''haap-ipc'')}"
    by (auto simp: check_agent_mounts_def chain_Inr entry_Inr)
  from keys have "ed \<noteq> []" by auto
  then obtain ms where je: "e = JArr ms" "ms \<noteq> []"
      and n: "\<forall>c \<in> set ms. \<exists>n \<in> fst ` set ed. at [''name''] c = Some n"
    by (rule by_name_array [OF ed]) auto
  have "at [''volumeMounts''] agent = Some (JArr ms)"
    using dget_at [OF e] je by (auto split: option.splits)
  with je(2) n keys show thesis by (auto intro: that)
qed

lemma check_pod_isolated:
  assumes "check_pod b spec = Inr r"
  shows "isolated_pod b spec r"
proof -
  obtain posture cred llm rtc where r: "r = (posture, cred, llm, rtc)" by (cases r) auto
  from assms obtain j d vj vd where sh: "check_sharing spec = Inr ()"
      and cj: "at [''containers''] spec = Some j" and d: "by_name j = Inr d"
      and keys: "fst ` set d = {JStr (lit ''keeper''), JStr (lit ''agent'')}"
      and pr: "principals b d = Inr (cred, llm)"
      and ke: "check_keeper_env spec d cred llm = Inr (posture, rtc)"
      and am: "check_agent_mounts d = Inr ()"
      and vj: "at [''volumes''] spec = Some vj" and vd: "by_name vj = Inr vd"
      and vs: "check_volumes [''haap-ipc'', ''haap-keeper-internal''] vd = Inr ()"
    by (auto simp: check_pod_def chain_Inr sub_Inr r simp del: check_volumes.simps)
  from keys have "d \<noteq> []" by auto
  then obtain cs where cs: "j = JArr cs" and names: "\<forall>c \<in> set cs. \<exists>n \<in> fst ` set d. at [''name''] c = Some n"
      and m: "\<And>n. map_of d (JStr (lit n)) = last_named n cs"
    by (rule by_name_array [OF d]) auto
  have "JStr (lit ''keeper'') \<in> fst ` set d" "JStr (lit ''agent'') \<in> fst ` set d" using keys by auto
  then obtain keeper agent where k: "last_named ''keeper'' cs = Some keeper" and a: "last_named ''agent'' cs = Some agent"
    by (metis m map_of_eq_None_iff not_None_eq)
  obtain env where env: "at [''env''] keeper = Some (JArr env)" "keeper_env_ok env posture cred llm rtc"
      "rtc = (case at [''runtimeClassName''] spec of None \<Rightarrow> JNull | Some v \<Rightarrow> v)"
    by (rule check_keeper_env_Inr [OF ke]) (auto simp: m k)
  obtain mounts where mounts: "at [''volumeMounts''] agent = Some (JArr mounts)" "mounts \<noteq> []"
      "\<forall>m \<in> set mounts. at [''name''] m = Some (JStr (lit ''haap-ipc''))"
    by (rule check_agent_mounts_Inr [OF am]) (auto simp: m a)
  have "vd \<noteq> []" using vs by (auto simp: chain_Inr dget_Inr get_def)
  then obtain vols where vols: "vj = JArr vols" and mv: "\<And>n. map_of vd (JStr (lit n)) = last_named n vols"
    by (rule by_name_array [OF vd]) auto
  have ip: "isolated_principals b keeper agent cred llm" by (rule principals_Inr [OF pr m k a])
  have nm: "\<forall>c \<in> set cs. at [''name''] c \<in> {Some (JStr (lit ''keeper'')), Some (JStr (lit ''agent''))}"
    using names keys by auto
  have mem: "\<forall>n \<in> {''haap-ipc'', ''haap-keeper-internal''}. \<exists>v. last_named n vols = Some v \<and>
           at [''emptyDir'', ''medium''] v = Some (JStr (lit ''Memory''))"
    using check_volumes_Inr [OF vs _ mv] by simp
  show ?thesis
    unfolding isolated_pod_def r prod.case
    using check_sharing_Inr [OF sh] env(3) cj [unfolded cs] nm k a ip env(1,2) mounts vj [unfolded vols] mem
    by blast
qed

text \<open>C37: a manifest that passes has the shape the header of the script promises: one StatefulSet of
  one replica with its headless service and no volume claims, whose pod shares no namespace of
  the host, runs exactly the two principals under distinct UIDs of the reserved band, tells the
  keeper the UIDs that the containers really have, mounts only the IPC volume into the agent and
  keeps both socket volumes in memory.\<close>

theorem passing_manifest_isolates:
  assumes "validate_main b load argv = Inr r"
  shows "\<exists>all docs sts svc spec n one. load (argv ! 1) = Inr all \<and> docs = filter truthy all \<and>
    filter (\<lambda>d. at [''kind''] d = Some (JStr (lit ''StatefulSet''))) docs = [sts] \<and>
    at [''spec'', ''replicas''] sts = Some one \<and> number b one = Some 1 \<and>
    at [''spec'', ''serviceName''] sts = Some n \<and>
    filter (\<lambda>d. at [''kind''] d = Some (JStr (lit ''Service'')) \<and>
      (\<exists>x. at [''metadata'', ''name''] d = Some x \<and> py_eq b x n)) docs = [svc] \<and>
    at [''spec'', ''clusterIP''] svc = Some (JStr (lit ''None'')) \<and>
    off [''spec'', ''volumeClaimTemplates''] sts \<and>
    at [''spec'', ''template'', ''spec''] sts = Some spec \<and> isolated_pod b spec r"
proof -
  from assms obtain all where l: "load (argv ! 1) = Inr all" and c: "check_manifest b all = Inr r"
    by (auto simp: validate_main_def chain_Inr split: if_splits)
  define docs where "docs = filter truthy all"
  from c obtain st one v t spec where st: "stateful_set docs = Inr st" and o: "dget ''replicas'' JNull st = Inr one"
      and p: "py_eq b one (JInt 1)" and sv: "check_service b docs st = Inr ()"
      and v: "dget ''volumeClaimTemplates'' JNull st = Inr v" "\<not> truthy v"
      and t: "at [''template''] st = Some t" "at [''spec''] t = Some spec" and pod: "check_pod b spec = Inr r"
    by (auto simp: check_manifest_def chain_Inr sub_Inr Let_def docs_def)
  from st obtain sts where sts: "of_kind ''StatefulSet'' docs = Inr [sts]" and s: "at [''spec''] sts = Some st"
    by (auto simp: stateful_set_def chain_Inr sub_Inr length_Suc_conv)
  from sv obtain n svc s2 ip where n: "dget ''serviceName'' JNull st = Inr n" "truthy n"
      and svc: "services_named b n docs = Inr [svc]" and s2: "at [''spec''] svc = Some s2"
      and ip: "dget ''clusterIP'' JNull s2 = Inr (JStr (lit ''None''))"
    by (auto simp: check_service_def chain_Inr sub_Inr length_Suc_conv)
  have below: "at (''spec'' # ks) sts = at ks st" for ks by (subst at_Cons) (simp add: s)
  have n_at: "at [''serviceName''] st = Some n" using dget_at [OF n(1)] n(2) by (auto split: option.splits)
  have ip_at: "at [''spec'', ''clusterIP''] svc = Some (JStr (lit ''None''))"
    using dget_at [OF ip] by (subst at_Cons) (auto simp: s2 split: option.splits)
  have one: "number b one = Some 1" by (rule py_eq_one [OF p])
  then have one_at: "at [''replicas''] st = Some one"
    using dget_at [OF o] by (auto simp: number_def split: option.splits)
  have off: "off [''spec'', ''volumeClaimTemplates''] sts"
    using off_dget(2) [OF v] by (simp add: off_def below)
  have sp: "at [''spec'', ''template'', ''spec''] sts = Some spec"
    unfolding below by (subst at_Cons) (simp add: t)
  note parts = l docs_def of_kind_Inr [OF sts, symmetric] trans [OF below one_at] one trans [OF below n_at]
    services_named_Inr [OF n(2) svc, symmetric] ip_at off sp check_pod_isolated [OF pod]
  show ?thesis by (intro exI conjI) (rule parts)+
qed

section \<open>What the check does not look at\<close>

text \<open>The init containers of the pod are run with its volumes and before its containers, and no
  value of them changes the verdict.\<close>

lemma dget_other: "k \<noteq> k' \<Longrightarrow> dget k dflt (JObj (upd (lit k') v kvs)) = dget k dflt (JObj kvs)"
  by (simp add: dget_def item_or_def get_def)

lemma sub_other: "k \<noteq> k' \<Longrightarrow> sub k (JObj (upd (lit k') v kvs)) = sub k (JObj kvs)"
  by (simp add: sub_def item_def)

lemma init_containers_unchecked:
  "check_pod b (JObj (upd (lit ''initContainers'') v spec)) = check_pod b (JObj spec)"
  by (simp add: check_pod_def check_sharing_def check_keeper_env_def dget_other sub_other)

section \<open>The check at a concrete manifest\<close>

definition obj :: "(string \<times> json) list \<Rightarrow> json" where
  "obj ms = JObj (map (\<lambda>(k, v). (lit k, v)) ms)"

definition str :: "string \<Rightarrow> json" where "str s = JStr (lit s)"

definition plain_builtins :: builtins where
  "plain_builtins = \<lparr>dict_of = \<lambda>_. Inl ConvType, int_of_float = \<lambda>_. Inl ConvValue, float_equals = \<lambda>_ _. False\<rparr>"

definition demo_container :: "string \<Rightarrow> int \<Rightarrow> json list \<Rightarrow> string list \<Rightarrow> json" where
  "demo_container n uid env mounts = obj
     [(''name'', str n), (''securityContext'', obj [(''runAsUser'', JInt uid)]), (''env'', JArr env),
      (''volumeMounts'', JArr (map (\<lambda>m. obj [(''name'', str m)]) mounts))]"

definition demo_setting :: "string \<Rightarrow> pystr \<Rightarrow> json" where
  "demo_setting k v = obj [(''name'', str k), (''value'', JStr v)]"

definition demo_keeper_env :: "json list" where
  "demo_keeper_env =
     [demo_setting ''HAAP_PRODUCTION_MODE'' (lit ''true''),
      demo_setting ''HAAP_REQUIRED_ISOLATION_POSTURE'' (lit ''microvm''),
      demo_setting ''HAAP_AGENT_EXPECTED_UID'' (dec_int 100002),
      demo_setting ''HAAP_SHARED_INFRA_UIDS'' (lit ''65532''),
      demo_setting ''HAAP_AGENT_NS_ISOLATION'' (lit ''true''),
      demo_setting ''HAAP_TQS_PEER_AUTHENTICATOR_UID'' (dec_int 100001),
      demo_setting ''HAAP_TQS_PEER_JIT_UID'' (dec_int 100001)]"

definition demo_volume :: "string \<Rightarrow> json" where
  "demo_volume n = obj [(''name'', str n), (''emptyDir'', obj [(''medium'', str ''Memory'')])]"

definition demo_pod :: json where
  "demo_pod = obj
     [(''hostPID'', JBool False), (''automountServiceAccountToken'', JBool False),
      (''runtimeClassName'', str ''kata''),
      (''containers'', JArr [demo_container ''keeper'' 100001 demo_keeper_env [''haap-ipc'', ''haap-keeper-internal''],
        demo_container ''agent'' 100002 [] [''haap-ipc'']]),
      (''volumes'', JArr [demo_volume ''haap-ipc'', demo_volume ''haap-keeper-internal''])]"

definition demo_manifest :: "json list" where
  "demo_manifest =
     [JNull,
      obj [(''kind'', str ''Service''), (''metadata'', obj [(''name'', str ''agent-1'')]),
           (''spec'', obj [(''clusterIP'', str ''None'')])],
      obj [(''kind'', str ''StatefulSet''),
           (''spec'', obj [(''replicas'', JInt 1), (''serviceName'', str ''agent-1''),
              (''template'', obj [(''spec'', demo_pod)])])]]"

definition demo_summary :: pod_summary where
  "demo_summary = (str ''microvm'', JInt 100001, JInt 100002, str ''kata'')"

definition demo_argv :: "pystr list" where "demo_argv = map lit [''validate_manifest.py'', ''pod.yaml'']"

lemmas demo_values = obj_def str_def demo_container_def demo_setting_def demo_volume_def

lemmas reads = dget_def item_or_def sub_def item_def get_def entry_def

definition demo_env_names :: "(json \<times> json) list" where
  "demo_env_names = map (\<lambda>e. (str (fst e), demo_setting (fst e) (snd e)))
     [(''HAAP_PRODUCTION_MODE'', lit ''true''), (''HAAP_REQUIRED_ISOLATION_POSTURE'', lit ''microvm''),
      (''HAAP_AGENT_EXPECTED_UID'', dec_int 100002), (''HAAP_SHARED_INFRA_UIDS'', lit ''65532''),
      (''HAAP_AGENT_NS_ISOLATION'', lit ''true''), (''HAAP_TQS_PEER_AUTHENTICATOR_UID'', dec_int 100001),
      (''HAAP_TQS_PEER_JIT_UID'', dec_int 100001)]"

lemma demo_names: "by_name (JArr demo_keeper_env) = Inr demo_env_names"
  by (simp add: demo_env_names_def demo_keeper_env_def by_name_def named_entry_def elements_def update_all_def reads demo_values)


lemma demo_pod_passes: "check_pod plain_builtins demo_pod = Inr demo_summary"
proof -
  let ?k = "demo_container ''keeper'' 100001 demo_keeper_env [''haap-ipc'', ''haap-keeper-internal'']"
  let ?a = "demo_container ''agent'' 100002 [] [''haap-ipc'']"
  let ?cs = "[(str ''keeper'', ?k), (str ''agent'', ?a)]"
  have cs: "by_name (JArr [?k, ?a]) = Inr ?cs"
    by (simp add: by_name_def named_entry_def elements_def update_all_def reads demo_values)
  have vols: "by_name (JArr [demo_volume ''haap-ipc'', demo_volume ''haap-keeper-internal'']) =
      Inr [(str ''haap-ipc'', demo_volume ''haap-ipc''), (str ''haap-keeper-internal'', demo_volume ''haap-keeper-internal'')]"
    by (simp add: by_name_def named_entry_def elements_def update_all_def reads demo_values)
  have mounts: "check_agent_mounts ?cs = Inr ()"
    by (simp add: check_agent_mounts_def by_name_def named_entry_def elements_def update_all_def reads demo_values)
  have who: "principals plain_builtins ?cs = Inr (JInt 100001, JInt 100002)"
    by (simp add: principals_def run_as_user_def in_uid_band_def number_def eq_numbers_def unless_def reads demo_values)
  have env: "check_keeper_env demo_pod ?cs (JInt 100001) (JInt 100002) = Inr (str ''microvm'', str ''kata'')"
  proof -
    have "entry ''keeper'' ?cs = Inr ?k" "dget ''env'' (JArr []) ?k = Inr (JArr demo_keeper_env)"
      "dget ''runtimeClassName'' JNull demo_pod = Inr (str ''kata'')"
      by (simp_all add: reads demo_values demo_pod_def)
    moreover have "filter (\<lambda>k. JStr (lit k) \<notin> fst ` set demo_env_names) required_preflight_keys = []"
      by (simp add: required_preflight_keys_def demo_env_names_def str_def)
    moreover have "env_value ''HAAP_REQUIRED_ISOLATION_POSTURE'' demo_env_names = Inr (str ''microvm'')"
      "env_value ''HAAP_AGENT_EXPECTED_UID'' demo_env_names = Inr (JStr (dec_int 100002))"
      "env_value ''HAAP_TQS_PEER_AUTHENTICATOR_UID'' demo_env_names = Inr (JStr (dec_int 100001))"
      "env_value ''HAAP_TQS_PEER_JIT_UID'' demo_env_names = Inr (JStr (dec_int 100001))"
      by (simp_all add: demo_env_names_def env_value_def reads demo_values)
    ultimately show ?thesis
      by (simp add: check_keeper_env_def demo_names py_str_def str_def unless_def)
  qed
  have sh: "check_sharing demo_pod = Inr ()"
    by (simp add: check_sharing_def reads demo_pod_def demo_values)
  have ev: "sub ''containers'' demo_pod = Inr (JArr [?k, ?a])"
    "sub ''volumes'' demo_pod = Inr (JArr [demo_volume ''haap-ipc'', demo_volume ''haap-keeper-internal''])"
    by (simp_all add: reads demo_pod_def obj_def)
  show ?thesis
    using cs vols mounts who env sh ev
    by (simp add: check_pod_def demo_summary_def) (simp add: reads unless_def demo_values)
qed

lemma demo_passes:
  "validate_main plain_builtins (\<lambda>p. if p = lit ''pod.yaml'' then Inr demo_manifest else Inl (OSError NotFound))
     demo_argv = Inr demo_summary"
proof -
  let ?svc = "demo_manifest ! 1" and ?sts = "demo_manifest ! 2"
  have docs: "filter truthy demo_manifest = [?svc, ?sts]"
    by (simp add: demo_manifest_def obj_def numeral_2_eq_2)
  define st where "st = obj [(''replicas'', JInt 1), (''serviceName'', str ''agent-1''),
    (''template'', obj [(''spec'', demo_pod)])]"
  have st: "stateful_set [?svc, ?sts] = Inr st"
    by (simp add: demo_manifest_def numeral_2_eq_2 stateful_set_def reads obj_def str_def st_def)
  have t: "sub ''template'' st = Inr (obj [(''spec'', demo_pod)])"
    and r: "dget ''replicas'' JNull st = Inr (JInt 1)" "dget ''volumeClaimTemplates'' JNull st = Inr JNull"
    and n: "dget ''serviceName'' JNull st = Inr (str ''agent-1'')"
    by (simp_all add: st_def reads obj_def)
  have c: "check_service plain_builtins [?svc, ?sts] st = Inr ()"
    by (simp add: check_service_def n) (simp add: demo_manifest_def numeral_2_eq_2 reads obj_def str_def)
  have "sub ''spec'' (obj [(''spec'', demo_pod)]) = Inr demo_pod" by (simp add: reads obj_def)
  then show ?thesis
    using docs st t r c demo_pod_passes
    by (simp add: validate_main_def demo_argv_def check_manifest_def eq_numbers_def number_def)
qed

text \<open>The theorem at this manifest.\<close>

theorem passing_manifest_isolates_witness:
  "\<exists>all sts spec. all = demo_manifest \<and> at [''spec'', ''template'', ''spec''] sts = Some spec \<and>
     sts \<in> set all \<and> isolated_pod plain_builtins spec demo_summary"
proof -
  obtain all docs sts spec where
    l: "(if demo_argv ! 1 = lit ''pod.yaml'' then Inr demo_manifest else Inl (OSError NotFound)) = Inr all"
    and d: "docs = filter truthy all" "filter (\<lambda>d. at [''kind''] d = Some (JStr (lit ''StatefulSet''))) docs = [sts]"
    and s: "at [''spec'', ''template'', ''spec''] sts = Some spec" "isolated_pod plain_builtins spec demo_summary"
    using passing_manifest_isolates [OF demo_passes] by blast
  have "sts \<in> set docs" using arg_cong [OF d(2), of set] by auto
  then have "sts \<in> set all" by (simp add: d(1))
  moreover have "all = demo_manifest" using l by (simp add: demo_argv_def)
  ultimately show ?thesis using s by blast
qed

end
