(* ===== verification/Release_Checks.thy ===== *)
theory Release_Checks
  imports Template
begin

text \<open>
  The checks of the release workflow: \<open>scripts/check-image-orch-target.py\<close>,
  \<open>scripts/check-runtime-archive.py\<close> and \<open>scripts/check-runtime-bundle.py\<close>, and the two places of the
  package that find the native binary, \<open>_binary.py\<close> and the build hook \<open>python/hatch_build.py\<close>.
  The registry, the tar and zip readers, the file system and the processes that are run are
  arguments. A registry answer is UTF-8 text.

  The check of an image is compared with what the registry answers: which manifest is the one of the
  platform, which layers it lists, and which names their entries have.
\<close>

unbundle bit_operations_syntax

section \<open>check-image-orch-target.py\<close>

definition orch_name :: pystr where "orch_name = lit ''haap-unseal-orch''"
definition bin_dir :: pystr where "bin_dir = lit ''usr/local/bin''"

definition accept_types :: pystr where
  "accept_types = join_with (lit '', '') (map lit
     [''application/vnd.oci.image.index.v1+json'', ''application/vnd.oci.image.manifest.v1+json'',
      ''application/vnd.docker.distribution.manifest.list.v2+json'',
      ''application/vnd.docker.distribution.manifest.v2+json''])"

text \<open>\<open>s.rpartition(c)\<close>: with no \<open>c\<close> the whole of \<open>s\<close> is the last part.\<close>

definition rpartition_on :: "nat \<Rightarrow> pystr \<Rightarrow> pystr \<times> bool \<times> pystr" where
  "rpartition_on c s = (case partition_on c (rev s) of
     (b, True, a) \<Rightarrow> (rev a, True, rev b) | (_, False, _) \<Rightarrow> ([], False, s))"

datatype entry_kind = Symlink pystr | Regular nat | OtherType pystr

record tar_entry =
  te_name :: pystr
  te_kind :: entry_kind

record image_env =
  ie_getenv :: "pystr \<Rightarrow> pystr option"
  ie_gh_token :: "exn + pystr"
  ie_http_get :: "pystr \<Rightarrow> (pystr \<times> pystr) list \<Rightarrow> exn + bytes"
  ie_untar :: "bytes \<Rightarrow> exn + tar_entry list"

definition nonempty_env :: "image_env \<Rightarrow> string \<Rightarrow> pystr option" where
  "nonempty_env e k = (case ie_getenv e (lit k) of None \<Rightarrow> None | Some v \<Rightarrow> if v = [] then None else Some v)"

definition registry_token :: "image_env \<Rightarrow> pystr \<Rightarrow> pystr \<Rightarrow> exn + json" where
  "registry_token e registry repo =
     chain (case nonempty_env e ''GHCR_TOKEN'' of
              Some p \<Rightarrow> Inr p
            | None \<Rightarrow> (case nonempty_env e ''GITHUB_TOKEN'' of
                Some p \<Rightarrow> Inr p | None \<Rightarrow> chain (ie_gh_token e) (\<lambda>out. Inr (strip out)))) (\<lambda>pat.
     case utf8_encode (lit ''x:'' @ pat) of
       None \<Rightarrow> Inl UnicodeError
     | Some cred \<Rightarrow>
         chain (ie_http_get e (lit ''https://'' @ registry @ lit ''/token?scope=repository:'' @ repo
                  @ lit '':pull&service='' @ registry)
                [(lit ''Authorization'', lit ''Basic '' @ b64encode cred)]) (\<lambda>data.
         chain (json_of_bytes data) (item ''token'')))"

definition parse_ref :: "pystr \<Rightarrow> exn + pystr \<times> pystr \<times> pystr" where
  "parse_ref ref = (case partition_on 47 ref of
     (registry, True, rest) \<Rightarrow>
       (case rpartition_on 58 rest of (repo, _, tag) \<Rightarrow>
          Inr (if tag = [] then (registry, rest, lit ''latest'') else (registry, repo, tag)))
   | _ \<Rightarrow> Inl (ValueError ref))"

definition blob_raw ::
  "image_env \<Rightarrow> pystr \<Rightarrow> pystr \<Rightarrow> json \<Rightarrow> pystr \<Rightarrow> pystr \<Rightarrow> exn + bytes" where
  "blob_raw e registry repo token d kind =
     ie_http_get e (lit ''https://'' @ registry @ lit ''/v2/'' @ repo @ lit ''/'' @ kind @ lit ''/'' @ d)
       ([(lit ''Authorization'', lit ''Bearer '' @ py_str token)]
        @ (if kind = lit ''manifests'' then [(lit ''Accept'', accept_types)] else []))"

definition manifest_of ::
  "image_env \<Rightarrow> pystr \<Rightarrow> pystr \<Rightarrow> json \<Rightarrow> pystr \<Rightarrow> exn + json" where
  "manifest_of e registry repo token d =
     chain (blob_raw e registry repo token d (lit ''manifests'')) json_of_bytes"

definition on_platform :: "pystr \<Rightarrow> json \<Rightarrow> exn + bool" where
  "on_platform arch m =
     chain (item_or ''platform'' (JObj []) m) (\<lambda>p. chain (item_or ''os'' JNull p) (\<lambda>os.
     if os \<noteq> JStr (lit ''linux'') then Inr False
     else chain (item_or ''platform'' (JObj []) m) (\<lambda>p. chain (item_or ''architecture'' JNull p) (\<lambda>a.
     Inr (a = JStr arch)))))"

fun picks :: "pystr \<Rightarrow> json list \<Rightarrow> exn + json list" where
  "picks arch [] = Inr []"
| "picks arch (m # ms) = chain (on_platform arch m) (\<lambda>hit. chain (picks arch ms) (\<lambda>rest.
     Inr (if hit then m # rest else rest)))"

text \<open>\<open>"manifests" in man\<close>; every other value than an object ends in a \<open>TypeError\<close>, here or at
  the subscript that follows.\<close>

definition is_index :: "json \<Rightarrow> exn + bool" where
  "is_index man = (case man of JObj kvs \<Rightarrow> Inr (has_key (lit ''manifests'') kvs)
     | _ \<Rightarrow> Inl (TypeError BadToolArgument))"

definition image_manifest ::
  "image_env \<Rightarrow> pystr \<Rightarrow> pystr \<Rightarrow> json \<Rightarrow> pystr \<Rightarrow> pystr \<Rightarrow> exn + json option" where
  "image_manifest e registry repo token tag arch =
     chain (manifest_of e registry repo token tag) (\<lambda>man.
     chain (is_index man) (\<lambda>index.
     if index then
       chain (item ''manifests'' man) (\<lambda>ms. chain (elements ms) (\<lambda>xs. chain (picks arch xs) (\<lambda>ps.
       case ps of
         [] \<Rightarrow> Inr None
       | p # _ \<Rightarrow> chain (item ''digest'' p) (\<lambda>d.
           chain (manifest_of e registry repo token (py_str d)) (\<lambda>m. Inr (Some m))))))
     else Inr (Some man)))"

definition entry_text :: "entry_kind \<Rightarrow> pystr" where
  "entry_text k = (case k of Symlink t \<Rightarrow> lit ''symlink -> '' @ t
     | Regular n \<Rightarrow> lit ''file, '' @ dec n @ lit '' bytes'' | OtherType t \<Rightarrow> t)"

definition note_entry :: "(pystr \<times> pystr) list \<Rightarrow> tar_entry \<Rightarrow> (pystr \<times> pystr) list" where
  "note_entry found ti = (case rpartition_on 47 (te_name ti) of (head, _, name) \<Rightarrow>
     if head \<noteq> bin_dir \<or> name = [] then found else upd name (entry_text (te_kind ti)) found)"

definition walk_layer :: "(pystr \<times> pystr) list \<Rightarrow> tar_entry list \<Rightarrow> (pystr \<times> pystr) list" where
  "walk_layer = foldl note_entry"

definition read_layer ::
  "image_env \<Rightarrow> pystr \<Rightarrow> pystr \<Rightarrow> json \<Rightarrow> json \<Rightarrow> exn + tar_entry list" where
  "read_layer e registry repo token layer =
     chain (item ''digest'' layer) (\<lambda>d.
     chain (blob_raw e registry repo token (py_str d) (lit ''blobs'')) (ie_untar e))"

fun walk_layers ::
  "(json \<Rightarrow> exn + tar_entry list) \<Rightarrow> json list \<Rightarrow> (pystr \<times> pystr) list \<Rightarrow> exn + (pystr \<times> pystr) list" where
  "walk_layers rd [] found = Inr found"
| "walk_layers rd (l # ls) found = chain (rd l) (\<lambda>es. walk_layers rd ls (walk_layer found es))"

text \<open>What is printed: that the index has no such platform, or the directory and the verdict.\<close>

datatype image_report = NoSuchPlatform | Listed "(pystr \<times> pystr) list" bool

definition image_check :: "image_env \<Rightarrow> pystr \<Rightarrow> pystr \<Rightarrow> exn + int \<times> image_report" where
  "image_check e ref arch =
     chain (parse_ref ref) (\<lambda>(registry, repo, tag).
     chain (registry_token e registry repo) (\<lambda>token.
     chain (image_manifest e registry repo token tag arch) (\<lambda>m.
     case m of
       None \<Rightarrow> Inr (1, NoSuchPlatform)
     | Some man \<Rightarrow>
         chain (item ''layers'' man) (\<lambda>ls. chain (elements ls) (\<lambda>layers.
         chain (walk_layers (read_layer e registry repo token) layers []) (\<lambda>found.
         let ok = has_key orch_name found in
         Inr (if ok then 0 else 1, Listed (map (\<lambda>k. (k, the (map_of found k))) (sort (map fst found))) ok)))))))"

section \<open>What the registry says\<close>

definition orch_path :: pystr where "orch_path = bin_dir @ [47] @ orch_name"

text \<open>The answers that the check rests on, as statements about the documents, not about the steps of
  the check: the token that a GET with the first of three secrets is answered with; a GET of a
  manifest or a blob; that a member of an index is of the platform; the
  manifest of the platform, which is the first such member of an index, or the document itself if
  it is no index; and the entries of a layer.\<close>

definition pull_secret :: "image_env \<Rightarrow> pystr \<Rightarrow> bool" where
  "pull_secret e pat \<longleftrightarrow>
     (let unset = (\<lambda>v. ie_getenv e (lit v) = None \<or> ie_getenv e (lit v) = Some []) in
        pat \<noteq> [] \<and> ie_getenv e (lit ''GHCR_TOKEN'') = Some pat \<or>
        unset ''GHCR_TOKEN'' \<and> pat \<noteq> [] \<and> ie_getenv e (lit ''GITHUB_TOKEN'') = Some pat \<or>
        unset ''GHCR_TOKEN'' \<and> unset ''GITHUB_TOKEN'' \<and> (\<exists>out. ie_gh_token e = Inr out \<and> pat = strip out))"

definition pull_token :: "image_env \<Rightarrow> pystr \<Rightarrow> pystr \<Rightarrow> json \<Rightarrow> bool" where
  "pull_token e registry repo token \<longleftrightarrow>
     (\<exists>pat cred data kvs. pull_secret e pat \<and> utf8_encode (lit ''x:'' @ pat) = Some cred \<and>
        ie_http_get e (lit ''https://'' @ registry @ lit ''/token?scope=repository:'' @ repo @ lit '':pull&service='' @ registry)
          [(lit ''Authorization'', lit ''Basic '' @ b64encode cred)] = Inr data \<and>
        json_of_bytes data = Inr (JObj kvs) \<and> map_of kvs (lit ''token'') = Some token)"

definition registry_gives :: "image_env \<Rightarrow> pystr \<Rightarrow> pystr \<Rightarrow> json \<Rightarrow> string \<Rightarrow> pystr \<Rightarrow> bytes \<Rightarrow> bool" where
  "registry_gives e registry repo token kind d data \<longleftrightarrow>
     ie_http_get e (lit ''https://'' @ registry @ lit ''/v2/'' @ repo @ lit ''/'' @ lit kind @ lit ''/'' @ d)
       ((lit ''Authorization'', lit ''Bearer '' @ py_str token)
        # (if kind = ''manifests'' then [(lit ''Accept'', accept_types)] else [])) = Inr data"

definition manifest_doc :: "image_env \<Rightarrow> pystr \<Rightarrow> pystr \<Rightarrow> json \<Rightarrow> pystr \<Rightarrow> json \<Rightarrow> bool" where
  "manifest_doc e registry repo token d doc \<longleftrightarrow>
     (\<exists>data. registry_gives e registry repo token ''manifests'' d data \<and> json_of_bytes data = Inr doc)"

definition for_linux :: "pystr \<Rightarrow> json \<Rightarrow> bool" where
  "for_linux arch m \<longleftrightarrow>
     (\<exists>kvs p. m = JObj kvs \<and> map_of kvs (lit ''platform'') = Some (JObj p) \<and>
        map_of p (lit ''os'') = Some (JStr (lit ''linux'')) \<and> map_of p (lit ''architecture'') = Some (JStr arch))"

definition no_platform :: "image_env \<Rightarrow> pystr \<Rightarrow> pystr \<Rightarrow> json \<Rightarrow> pystr \<Rightarrow> pystr \<Rightarrow> bool" where
  "no_platform e registry repo token tag arch \<longleftrightarrow>
     (\<exists>kvs ms xs. manifest_doc e registry repo token tag (JObj kvs) \<and> map_of kvs (lit ''manifests'') = Some ms \<and>
        elements ms = Inr xs \<and> (\<forall>m \<in> set xs. \<not> for_linux arch m))"

definition platform_manifest :: "image_env \<Rightarrow> pystr \<Rightarrow> pystr \<Rightarrow> json \<Rightarrow> pystr \<Rightarrow> pystr \<Rightarrow> json \<Rightarrow> bool" where
  "platform_manifest e registry repo token tag arch man \<longleftrightarrow>
     (\<exists>kvs. manifest_doc e registry repo token tag (JObj kvs) \<and>
        (case map_of kvs (lit ''manifests'') of
           None \<Rightarrow> man = JObj kvs
         | Some ms \<Rightarrow> \<exists>pre m post d. elements ms = Inr (pre @ JObj m # post) \<and>
             (\<forall>x \<in> set pre. \<not> for_linux arch x) \<and> for_linux arch (JObj m) \<and>
             map_of m (lit ''digest'') = Some d \<and> manifest_doc e registry repo token (py_str d) man))"

definition layer_entries :: "image_env \<Rightarrow> pystr \<Rightarrow> pystr \<Rightarrow> json \<Rightarrow> json \<Rightarrow> tar_entry list \<Rightarrow> bool" where
  "layer_entries e registry repo token layer es \<longleftrightarrow>
     (\<exists>kvs d data. layer = JObj kvs \<and> map_of kvs (lit ''digest'') = Some d \<and>
        registry_gives e registry repo token ''blobs'' (py_str d) data \<and> ie_untar e data = Inr es)"

lemma item_object: "item k j = Inr v \<longleftrightarrow> (\<exists>kvs. j = JObj kvs \<and> map_of kvs (lit k) = Some v)"
  by (cases j) (auto simp: item_def split: option.splits)

lemma item_or_Inr: "item_or k d j = Inr v \<longleftrightarrow> (\<exists>kvs. j = JObj kvs \<and> v = get (lit k) d kvs)"
  by (cases j) (auto simp: item_or_def)

lemma on_platform_Inr: "on_platform arch m = Inr hit \<Longrightarrow> hit \<longleftrightarrow> for_linux arch m"
  by (auto simp: on_platform_def chain_Inr item_or_Inr for_linux_def get_def split: if_splits option.splits)

lemma picks_Inr: "picks arch ms = Inr ps \<Longrightarrow> ps = filter (for_linux arch) ms"
  by (induction ms arbitrary: ps) (auto simp: chain_Inr dest!: on_platform_Inr)

lemma nonempty_env_iff:
  "nonempty_env e k = Some p \<longleftrightarrow> p \<noteq> [] \<and> ie_getenv e (lit k) = Some p"
  "nonempty_env e k = None \<longleftrightarrow> ie_getenv e (lit k) = None \<or> ie_getenv e (lit k) = Some []"
  by (auto simp: nonempty_env_def split: option.splits if_splits)

lemma registry_token_pull:
  assumes "registry_token e registry repo = Inr token"
  shows "pull_token e registry repo token"
proof -
  obtain pat where pat: "(case nonempty_env e ''GHCR_TOKEN'' of Some p \<Rightarrow> Inr p
      | None \<Rightarrow> (case nonempty_env e ''GITHUB_TOKEN'' of
          Some p \<Rightarrow> Inr p | None \<Rightarrow> chain (ie_gh_token e) (\<lambda>out. Inr (strip out)))) = Inr pat"
    using assms unfolding registry_token_def chain_Inr by blast
  then have "pull_secret e pat"
    by (auto simp: pull_secret_def nonempty_env_iff chain_Inr split: option.splits)
  with assms pat show ?thesis
    unfolding pull_token_def by (auto simp: registry_token_def item_object chain_Inr split: option.splits)
qed

lemma blob_raw_gives: "blob_raw e registry repo token d (lit kind) = Inr data \<longleftrightarrow> registry_gives e registry repo token kind d data"
  by (auto simp: blob_raw_def registry_gives_def)

lemma manifest_of_doc: "manifest_of e registry repo token d = Inr doc \<longleftrightarrow> manifest_doc e registry repo token d doc"
  by (auto simp: manifest_of_def manifest_doc_def chain_Inr blob_raw_gives)

lemma read_layer_entries: "read_layer e registry repo token l = Inr es \<longleftrightarrow> layer_entries e registry repo token l es"
  by (auto simp: read_layer_def layer_entries_def chain_Inr item_object blob_raw_gives)

lemma image_manifest_cases:
  assumes "image_manifest e registry repo token tag arch = Inr res"
  obtains (plain) kvs where "manifest_doc e registry repo token tag (JObj kvs)" "map_of kvs (lit ''manifests'') = None"
      "res = Some (JObj kvs)"
  | (index) kvs ms xs ps where "manifest_doc e registry repo token tag (JObj kvs)" "map_of kvs (lit ''manifests'') = Some ms"
      "elements ms = Inr xs" "ps = filter (for_linux arch) xs"
      "(case ps of [] \<Rightarrow> Inr None
        | p # _ \<Rightarrow> chain (item ''digest'' p) (\<lambda>d. chain (manifest_of e registry repo token (py_str d)) (\<lambda>m. Inr (Some m))))
       = Inr res"
proof -
  obtain doc where m: "manifest_of e registry repo token tag = Inr doc"
    using assms by (cases "manifest_of e registry repo token tag") (auto simp: image_manifest_def)
  obtain kvs where d: "doc = JObj kvs" using assms m by (cases doc) (auto simp: image_manifest_def is_index_def)
  have doc: "manifest_doc e registry repo token tag (JObj kvs)" using m d by (simp add: manifest_of_doc)
  show thesis
  proof (cases "map_of kvs (lit ''manifests'')")
    case None
    with assms m d doc show thesis by (intro plain) (auto simp: image_manifest_def is_index_def has_key_def)
  next
    case (Some ms)
    with assms m d obtain xs ps where "elements ms = Inr xs" "picks arch xs = Inr ps"
      "(case ps of [] \<Rightarrow> Inr None
        | p # _ \<Rightarrow> chain (item ''digest'' p) (\<lambda>d. chain (manifest_of e registry repo token (py_str d)) (\<lambda>m. Inr (Some m))))
       = Inr res"
      by (cases "elements ms"; cases "picks arch (projr (elements ms))")
        (auto simp: image_manifest_def is_index_def has_key_def item_Inr)
    with doc Some picks_Inr show thesis by (intro index) auto
  qed
qed

lemma image_manifest_None:
  assumes "image_manifest e registry repo token tag arch = Inr None"
  shows "no_platform e registry repo token tag arch"
  using assms
proof (cases rule: image_manifest_cases)
  case (index kvs ms xs ps)
  then have "filter (for_linux arch) xs = []" by (auto simp: chain_Inr split: list.splits)
  with index(1-3) show ?thesis unfolding no_platform_def by (metis filter_empty_conv)
qed simp

lemma image_manifest_Some:
  assumes "image_manifest e registry repo token tag arch = Inr (Some man)"
  shows "platform_manifest e registry repo token tag arch man"
  using assms
proof (cases rule: image_manifest_cases)
  case (plain kvs)
  then show ?thesis unfolding platform_manifest_def by (intro exI [of _ kvs]) simp
next
  case (index kvs ms xs ps)
  then obtain p rest d where p: "filter (for_linux arch) xs = p # rest" and d: "item ''digest'' p = Inr d"
    "manifest_doc e registry repo token (py_str d) man"
    by (auto simp: chain_Inr manifest_of_doc split: list.splits)
  from p obtain us vs where xs: "xs = us @ p # vs" "\<forall>u \<in> set us. \<not> for_linux arch u" "for_linux arch p"
    by (auto simp: filter_eq_Cons_iff)
  from d obtain m where m: "p = JObj m" "map_of m (lit ''digest'') = Some d" by (auto simp: item_object)
  with index(1-3) xs d show ?thesis
    unfolding platform_manifest_def by (intro exI [of _ kvs]) auto
qed

lemma partition_on_split: "c \<notin> set a \<Longrightarrow> partition_on c (a @ c # b) = (a, True, b)"
  by (induction a) auto

lemma partition_on_none: "partition_on c s = (a, False, b) \<Longrightarrow> c \<notin> set s"
  by (induction s arbitrary: a) (auto split: if_splits prod.splits)

lemma partition_on_iff: "partition_on c s = (a, True, b) \<longleftrightarrow> s = a @ c # b \<and> c \<notin> set a"
  using partition_onD partition_on_split by blast

lemma rpartition_on_parts: "c \<notin> set b \<Longrightarrow> rpartition_on c (a @ c # b) = (a, True, b)"
  by (simp add: rpartition_on_def partition_on_split)

lemma rpartition_on_none: "c \<notin> set s \<Longrightarrow> rpartition_on c s = ([], False, s)"
  by (cases "partition_on c (rev s)")
    (auto simp: rpartition_on_def dest!: partition_onD intro: ccontr split: prod.splits bool.splits, metis in_set_conv_decomp set_rev)

lemma rpartition_on_cases:
  obtains a b where "s = a @ c # b" "c \<notin> set b" "rpartition_on c s = (a, True, b)"
  | "c \<notin> set s" "rpartition_on c s = ([], False, s)"
proof (cases "c \<in> set s")
  case True
  then obtain a b where "s = a @ c # b" "c \<notin> set b" by (metis split_list_last)
  then show thesis using rpartition_on_parts that(1) by blast
next
  case False
  then show thesis using rpartition_on_none that(2) by blast
qed

definition bin_entry :: "pystr \<Rightarrow> pystr" where "bin_entry n = bin_dir @ [47] @ n"

definition bin_name :: "pystr \<Rightarrow> bool" where "bin_name n \<longleftrightarrow> n \<noteq> [] \<and> 47 \<notin> set n"

lemma note_entry_lookup:
  assumes "bin_name n"
  shows "map_of (note_entry found t) n =
    (if te_name t = bin_entry n then Some (entry_text (te_kind t)) else map_of found n)"
proof (cases rule: rpartition_on_cases [of "te_name t" 47])
  case (1 a b)
  have "a = bin_dir \<and> b = n \<longleftrightarrow> te_name t = bin_entry n"
    using 1(1,2) assms by (auto simp: bin_entry_def bin_name_def append_eq_append_conv2 append_eq_Cons_conv Cons_eq_append_conv)
  with 1 assms show ?thesis by (auto simp: note_entry_def bin_name_def)
next
  case 2
  then have "te_name t \<noteq> bin_entry n" by (auto simp: bin_entry_def)
  moreover have "bin_dir \<noteq> []" by (simp add: bin_dir_def)
  ultimately show ?thesis by (simp add: note_entry_def 2)
qed

lemma walk_layer_lookup:
  assumes "bin_name n"
  shows "map_of (walk_layer found es) n =
    (case find (\<lambda>t. te_name t = bin_entry n) (rev es) of
       None \<Rightarrow> map_of found n | Some t \<Rightarrow> Some (entry_text (te_kind t)))"
  by (induction es rule: rev_induct) (simp_all add: walk_layer_def note_entry_lookup [OF assms])

lemma walk_layers_Inr:
  "walk_layers rd js found = Inr out \<longleftrightarrow>
     (\<exists>layers. collect rd js = Inr layers \<and> out = walk_layer found (concat layers))"
  by (induction js arbitrary: found) (auto simp: chain_Inr walk_layer_def)

lemma map_find_None: "find P (rev (concat ls)) = None \<longleftrightarrow> (\<forall>l \<in> set ls. \<forall>t \<in> set l. \<not> P t)"
  by (auto simp: find_None_iff)

lemma listing_lookup:
  "map_of (map (\<lambda>k. (k, the (map_of d k))) (sort (map fst d))) n = map_of (d :: (pystr \<times> 'v) list) n"
proof -
  have "map_of (map (\<lambda>k. (k, the (map_of d k))) ks) n = (if n \<in> set ks then Some (the (map_of d n)) else None)" for ks
    by (induction ks) auto
  moreover have "n \<in> set (sort (map fst d)) \<longleftrightarrow> map_of d n \<noteq> None" by (simp add: map_of_eq_None_iff)
  ultimately show ?thesis by auto
qed

lemma walked_layers:
  assumes "d = walk_layer [] (concat layers)"
  shows "bin_name n \<Longrightarrow> map_of d n =
      map_option (\<lambda>t. entry_text (te_kind t)) (find (\<lambda>t. te_name t = bin_entry n) (rev (concat layers)))"
    and "has_key orch_name d \<longleftrightarrow> (\<exists>l \<in> set layers. \<exists>t \<in> set l. te_name t = lit ''usr/local/bin/haap-unseal-orch'')"
proof -
  show look: "map_of d n = map_option (\<lambda>t. entry_text (te_kind t)) (find (\<lambda>t. te_name t = bin_entry n) (rev (concat layers)))"
    if "bin_name n" for n
    using walk_layer_lookup [OF that, of "[]" "concat layers"] by (simp add: assms split: option.split)
  have "bin_name orch_name" "bin_entry orch_name = lit ''usr/local/bin/haap-unseal-orch''"
    by (simp_all add: bin_name_def bin_entry_def bin_dir_def orch_name_def lit_def)
  then show "has_key orch_name d \<longleftrightarrow> (\<exists>l \<in> set layers. \<exists>t \<in> set l. te_name t = lit ''usr/local/bin/haap-unseal-orch'')"
    using map_find_None [of "\<lambda>t. te_name t = lit ''usr/local/bin/haap-unseal-orch''" layers]
    by (auto simp: has_key_def look)
qed

lemma tagged_reference:
  assumes "47 \<notin> set registry" "58 \<notin> set tag" "tag \<noteq> []"
  shows "parse_ref (registry @ 47 # repo @ 58 # tag) = Inr (registry, repo, tag)"
  using assms by (simp add: parse_ref_def partition_on_split rpartition_on_parts)

text \<open>C38: the check of an image says what the registry answers about it. For a reference with a tag: the
  check fails for want of a platform exactly on an index with no member for linux and the
  architecture; otherwise it reads the manifest of the first such member (or the document itself,
  if that is no index), fetches every layer that the manifest lists, reports for each name in the
  directory the last entry of the layers, and succeeds exactly when some entry of some layer is
  named \<open>usr/local/bin/haap-unseal-orch\<close>, spelled just so. It does not look further:
  \<open>whiteout_unseen\<close> and \<open>dotted_name_unseen\<close> are below.\<close>

theorem image_check_decides:
  assumes "image_check e (registry @ 47 # repo @ 58 # tag) arch = Inr (code, rep)"
    and "47 \<notin> set registry" and "58 \<notin> set tag" and "tag \<noteq> []"
  shows "\<exists>token. pull_token e registry repo token \<and>
    (no_platform e registry repo token tag arch \<and> code = 1 \<and> rep = NoSuchPlatform \<or>
     (\<exists>man ls js layers found. platform_manifest e registry repo token tag arch (JObj man) \<and>
        map_of man (lit ''layers'') = Some ls \<and> elements ls = Inr js \<and>
        list_all2 (layer_entries e registry repo token) js layers \<and>
        rep = Listed found (code = 0) \<and> code \<in> {0, 1} \<and>
        (\<forall>n. bin_name n \<longrightarrow> map_of found n =
           map_option (\<lambda>t. entry_text (te_kind t)) (find (\<lambda>t. te_name t = bin_entry n) (rev (concat layers)))) \<and>
        (code = 0 \<longleftrightarrow> (\<exists>l \<in> set layers. \<exists>t \<in> set l. te_name t = lit ''usr/local/bin/haap-unseal-orch''))))"
proof -
  note ref = tagged_reference [OF assms(2-4), of repo]
  obtain token m where t: "registry_token e registry repo = Inr token"
      and m: "image_manifest e registry repo token tag arch = Inr m"
    using assms(1) ref by (auto simp: image_check_def chain_Inr)
  note pull = registry_token_pull [OF t]
  show ?thesis
  proof (cases m)
    case None
    with assms(1) ref t m have 1: "code = 1" "rep = NoSuchPlatform" by (simp_all add: image_check_def)
    have 2: "no_platform e registry repo token tag arch" using image_manifest_None m None by simp
    show ?thesis by (intro exI [of _ token] conjI disjI1) (fact pull 1 2)+
  next
    case (Some doc)
    obtain ls js d where ls: "item ''layers'' doc = Inr ls" "elements ls = Inr js"
        and w: "walk_layers (read_layer e registry repo token) js [] = Inr d"
        and code: "code = (if has_key orch_name d then 0 else 1)"
        and rep: "rep = Listed (map (\<lambda>k. (k, the (map_of d k))) (sort (map fst d))) (has_key orch_name d)"
      using assms(1) ref t m Some by (auto simp: image_check_def chain_Inr Let_def)
    from ls obtain man where man: "doc = JObj man" "map_of man (lit ''layers'') = Some ls" by (auto simp: item_object)
    from w obtain layers where c: "collect (read_layer e registry repo token) js = Inr layers"
        and d: "d = walk_layer [] (concat layers)" by (auto simp: walk_layers_Inr)
    from c have l2: "list_all2 (layer_entries e registry repo token) js layers"
      by (simp add: collect_Inr read_layer_entries)
    note look = walked_layers(1) [OF d] and named = walked_layers(2) [OF d]
    let ?found = "map (\<lambda>k. (k, the (map_of d k))) (sort (map fst d))"
    have 1: "rep = Listed ?found (code = 0)" by (simp add: rep code)
    have 2: "\<forall>n. bin_name n \<longrightarrow> map_of ?found n =
          map_option (\<lambda>t. entry_text (te_kind t)) (find (\<lambda>t. te_name t = bin_entry n) (rev (concat layers)))"
      using look by (simp add: listing_lookup)
    have 3: "code \<in> {0, 1}" by (simp add: code)
    have 4: "code = 0 \<longleftrightarrow> (\<exists>l \<in> set layers. \<exists>t \<in> set l. te_name t = lit ''usr/local/bin/haap-unseal-orch'')"
      using named by (simp add: code)
    have 5: "platform_manifest e registry repo token tag arch (JObj man)"
      using image_manifest_Some m Some man(1) by blast
    show ?thesis
      by (intro exI [of _ token] exI [of _ man] exI [of _ ls] exI [of _ js] exI [of _ layers] exI [of _ ?found]
          conjI disjI2) (fact pull 1 2 3 4 5 man(2) ls(2) l2)+
  qed
qed

text \<open>No later layer takes a name away again, be it by a whiteout, as a \<open>RUN rm\<close> leaves one.\<close>

lemma later_layers_keep:
  assumes "bin_name n" and "has_key n found"
  shows "has_key n (walk_layer found es)"
  using assms by (auto simp: has_key_def walk_layer_lookup split: option.split)

lemma whiteout_unseen:
  "has_key orch_name (walk_layer []
     [\<lparr>te_name = orch_path, te_kind = Symlink (lit ''hawcx-manager'')\<rparr>,
      \<lparr>te_name = bin_entry (lit ''.wh.'' @ orch_name), te_kind = Regular 0\<rparr>])"
  by code_simp

text \<open>A tar entry may spell the path with a leading \<open>./\<close>; the check passes over it.\<close>

lemma dotted_name_unseen:
  "walk_layer [] [\<lparr>te_name = lit ''./'' @ orch_path, te_kind = Symlink (lit ''hawcx-manager'')\<rparr>] = []"
  by code_simp

text \<open>A reference without a tag is not read as \<open>latest\<close>: the whole path becomes the tag of an
  empty repository name.\<close>

lemma untagged_reference:
  assumes "47 \<notin> set registry" "58 \<notin> set path" "path \<noteq> []"
  shows "parse_ref (registry @ 47 # path) = Inr (registry, [], path)"
  using assms by (simp add: parse_ref_def partition_on_split rpartition_on_none)

section \<open>check-runtime-archive.py\<close>

text \<open>A package is the list of its entries: name, whether it is a regular file, and what reading it
  gives. \<open>read\<close> of a zip archive finds the last entry of a name, which here is the only one.\<close>

type_synonym package_entry = "pystr \<times> bool \<times> (exn + bytes)"

datatype package = Wheel "package_entry list" | Tarball "package_entry list"

record archive_env =
  ae_staged :: "pystr \<Rightarrow> (exn + bytes) option"        \<comment> \<open>the files of the staging directory\<close>
  ae_zip :: "exn + package_entry list"
  ae_tar :: "exn + package_entry list"

definition exe_suffix :: "(pystr \<Rightarrow> (exn + bytes) option) \<Rightarrow> pystr" where
  "exe_suffix staged = (if staged (lit ''hawcx-manager.exe'') \<noteq> None then lit ''.exe'' else [])"

definition read_staged :: "(pystr \<Rightarrow> (exn + bytes) option) \<Rightarrow> pystr \<Rightarrow> exn + bytes" where
  "read_staged staged n = (case staged n of None \<Rightarrow> Inl (OSError NotFound) | Some r \<Rightarrow> r)"

definition open_package :: "archive_env \<Rightarrow> pystr \<Rightarrow> exn + package" where
  "open_package e archive =
     (if path_suffix archive = lit ''.whl'' then chain (ae_zip e) (\<lambda>es. Inr (Wheel es))
      else chain (ae_tar e) (\<lambda>es. Inr (Tarball es)))"

definition runtime_entry :: "package \<Rightarrow> pystr \<Rightarrow> exn + bytes" where
  "runtime_entry p name = (case p of
     Wheel es \<Rightarrow>
       (if length (filter (\<lambda>m. m = name) (map fst es)) \<noteq> 1
        then Inl (ValueError (lit ''missing or duplicate runtime entry: '' @ name))
        else case map_of (rev es) name of None \<Rightarrow> Inl (KeyError name) | Some (_, r) \<Rightarrow> r)
   | Tarball es \<Rightarrow>
       (case filter (\<lambda>m. fst m = name) es of
          [(_, True, r)] \<Rightarrow> r
        | _ \<Rightarrow> Inl (ValueError (lit ''missing, duplicate, or non-file runtime entry: '' @ name))))"

definition runtime_roles :: "pystr list" where
  "runtime_roles = map lit [''hawcx-manager'', ''haap-unseal-orch'']"

fun check_roles :: "package \<Rightarrow> bytes \<Rightarrow> pystr list \<Rightarrow> exn + unit" where
  "check_roles p expected [] = Inr ()"
| "check_roles p expected (name # names) = chain (runtime_entry p name) (\<lambda>data.
     if data \<noteq> expected then Inl (ValueError (lit ''packaged runtime bytes differ: '' @ name))
     else check_roles p expected names)"

definition verify_archive :: "archive_env \<Rightarrow> pystr \<Rightarrow> pystr \<Rightarrow> exn + unit" where
  "verify_archive e archive prefix =
     (let ext = exe_suffix (ae_staged e) in
      chain (read_staged (ae_staged e) (lit ''hawcx-manager'' @ ext)) (\<lambda>expected.
      if expected = [] then Inl (ValueError (lit ''empty staged runtime''))
      else chain (open_package e archive) (\<lambda>p.
        check_roles p expected (map (\<lambda>role. prefix @ role @ ext) runtime_roles))))"

definition package_entries :: "package \<Rightarrow> package_entry list" where
  "package_entries p = (case p of Wheel es \<Rightarrow> es | Tarball es \<Rightarrow> es)"

definition is_tarball :: "package \<Rightarrow> bool" where
  "is_tarball p = (case p of Tarball _ \<Rightarrow> True | Wheel _ \<Rightarrow> False)"

lemma filter_map_fst: "filter (\<lambda>m. m = n) (map fst es) = map fst (filter (\<lambda>e. fst e = n) es)"
  by (induction es) auto

lemma map_of_single: "filter (\<lambda>e. fst e = n) es = [x] \<Longrightarrow> map_of es n = Some (snd x)"
  by (induction es) (auto split: if_splits)

lemma runtime_entry_Inr:
  "runtime_entry p name = Inr data \<longleftrightarrow>
     (\<exists>regular. filter (\<lambda>m. fst m = name) (package_entries p) = [(name, regular, Inr data)] \<and>
        (is_tarball p \<longrightarrow> regular))"
proof (cases p)
  case (Wheel es)
  show ?thesis
  proof (cases "filter (\<lambda>m. fst m = name) es" rule: remdups_adj.cases)
    case (2 m)
    then have "fst m = name" by (auto simp: filter_eq_Cons_iff)
    moreover have "filter (\<lambda>m. fst m = name) (rev es) = [m]" using 2 by (simp add: rev_filter [symmetric])
    ultimately show ?thesis using 2 Wheel map_of_single [of name "rev es" m]
      by (cases m) (auto simp: runtime_entry_def filter_map_fst package_entries_def is_tarball_def)
  qed (auto simp: runtime_entry_def filter_map_fst package_entries_def Wheel)
next
  case (Tarball es)
  show ?thesis
  proof (cases "filter (\<lambda>m. fst m = name) es" rule: remdups_adj.cases)
    case (2 m)
    then have "fst m = name" by (auto simp: filter_eq_Cons_iff)
    then show ?thesis using 2 Tarball
      by (cases m) (auto simp: runtime_entry_def package_entries_def is_tarball_def split: bool.splits)
  qed (auto simp: runtime_entry_def package_entries_def Tarball split: bool.splits prod.splits)
qed

lemma check_roles_Inr:
  "check_roles p expected names = Inr () \<longleftrightarrow> (\<forall>n \<in> set names. runtime_entry p n = Inr expected)"
  by (induction names) (auto simp: chain_Inr)

text \<open>The check of a package succeeds exactly when the staged runtime has bytes, the package opens,
  and each of the two roles is one entry of it, a regular file in a tarball, with those bytes.\<close>

theorem archive_check_exact:
  "verify_archive e archive prefix = Inr () \<longleftrightarrow>
    (\<exists>expected p. read_staged (ae_staged e) (lit ''hawcx-manager'' @ exe_suffix (ae_staged e)) = Inr expected \<and>
       expected \<noteq> [] \<and> open_package e archive = Inr p \<and>
       (\<forall>role \<in> set runtime_roles. \<exists>regular.
          let name = prefix @ role @ exe_suffix (ae_staged e) in
          filter (\<lambda>m. fst m = name) (package_entries p) = [(name, regular, Inr expected)] \<and>
          (is_tarball p \<longrightarrow> regular)))"
  by (auto simp: verify_archive_def Let_def chain_Inr check_roles_Inr runtime_entry_Inr)

section \<open>check-runtime-bundle.py\<close>

record run_result =
  rr_code :: int
  rr_out :: pystr
  rr_err :: pystr

text \<open>\<open>subprocess.run\<close>: the program, its arguments, and the environment when one is given (a fresh
  empty directory is then the working directory). A digest is printed and not compared.\<close>

record bundle_check_env =
  bc_staged :: "pystr \<Rightarrow> (exn + bytes) option"
  bc_environ :: "(pystr \<times> pystr) list"
  bc_run :: "pystr \<Rightarrow> pystr list \<Rightarrow> (pystr \<times> pystr) list option \<Rightarrow> exn + run_result"

datatype bundle_verdict = CrossUnverified | NativeVerified

definition probe_environ :: "(pystr \<times> pystr) list \<Rightarrow> (pystr \<times> pystr) list" where
  "probe_environ env = upd (lit ''RUST_LOG'') (lit ''info'') (filter (\<lambda>(k, v). \<not> starts (lit ''HAAP_'') k) env)"

definition verify_bundle :: "bundle_check_env \<Rightarrow> pystr \<Rightarrow> bool \<Rightarrow> exn + bundle_verdict" where
  "verify_bundle e version cross =
     (let ext = exe_suffix (bc_staged e);
          manager = lit ''hawcx-manager'' @ ext;
          orch = orch_name @ ext;
          differs = Inl (ValueError (lit ''missing, empty, or nonidentical multicall orchestrator artifact'')) in
      chain (read_staged (bc_staged e) manager) (\<lambda>data.
      if data = [] then differs
      else chain (read_staged (bc_staged e) orch) (\<lambda>data'.
        if data' \<noteq> data then differs
        else if cross then Inr CrossUnverified
        else chain (bc_run e manager [lit ''--version''] None) (\<lambda>r.
          if rr_code r \<noteq> 0 then Inl (CalledProcessError (rr_code r))
          else if strip (rr_out r) \<noteq> lit ''hawcx-manager '' @ version
          then Inl (ValueError (lit ''wrong runtime version: '' @ py_repr (rr_out r)))
          else chain (bc_run e orch [] (Some (probe_environ (bc_environ e)))) (\<lambda>r.
            let output = rr_out r @ rr_err r in
            if rr_code r = 0 \<or> contains (lit ''USAGE'') output \<or> \<not> contains (lit ''haap.audit.security'') output
            then Inl (ValueError (lit ''orchestrator role did not reach fail-closed startup: '' @ py_repr output))
            else Inr NativeVerified)))))"

text \<open>Both verdicts rest on byte identity; the native one also on the version and on a refusal to
  start in an environment with no customer setting.\<close>

lemma bundle_check_sound:
  assumes "verify_bundle e version cross = Inr v"
  shows "\<exists>data ext. data \<noteq> [] \<and> read_staged (bc_staged e) (lit ''hawcx-manager'' @ ext) = Inr data \<and>
      read_staged (bc_staged e) (orch_name @ ext) = Inr data \<and> (v = CrossUnverified \<longleftrightarrow> cross) \<and>
      (\<not> cross \<longrightarrow> (\<exists>env r. bc_run e (orch_name @ ext) [] (Some env) = Inr r \<and> rr_code r \<noteq> 0 \<and>
         contains (lit ''haap.audit.security'') (rr_out r @ rr_err r) \<and>
         (\<forall>(k, v) \<in> set env. \<not> starts (lit ''HAAP_'') k)))"
proof -
  have "\<forall>(k, v) \<in> set (probe_environ (bc_environ e)). \<not> starts (lit ''HAAP_'') k"
  proof -
    have "fst ` set (probe_environ (bc_environ e)) \<subseteq> {lit ''RUST_LOG''} \<union> {k. \<not> starts (lit ''HAAP_'') k}"
      unfolding probe_environ_def keys_upd by auto
    moreover have "\<not> starts (lit ''HAAP_'') (lit ''RUST_LOG'')" by code_simp
    ultimately show ?thesis by force
  qed
  with assms show ?thesis
    unfolding verify_bundle_def Let_def chain_Inr
    by (auto simp: chain_Inr Let_def split: if_splits)
qed

section \<open>The binary in the installed package and in the wheel\<close>

text \<open>\<open>os.path.join\<close> of two parts, the second one relative.\<close>

definition os_join :: "nat \<Rightarrow> pystr \<Rightarrow> pystr \<Rightarrow> pystr" where
  "os_join sep a b = (if a = [] \<or> last a = sep then a @ b else a @ [sep] @ b)"

record install =
  in_platform :: pystr
  in_sep :: nat
  in_package_dir :: pystr                        \<comment> \<open>of \<open>_binary.py\<close>\<close>
  in_isfile :: "pystr \<Rightarrow> bool"
  in_mode :: "pystr \<Rightarrow> exn + int"

definition on_windows :: "install \<Rightarrow> bool" where
  "on_windows i \<longleftrightarrow> in_platform i = lit ''win32''"

definition binary_name :: "install \<Rightarrow> pystr" where
  "binary_name i = (if on_windows i then lit ''hawcx-manager.exe'' else lit ''hawcx-manager'')"

text \<open>The result, and the calls of \<open>chmod\<close>: what they raise is ignored.\<close>

definition get_binary_path :: "install \<Rightarrow> (exn + pystr) \<times> (pystr \<times> int) list" where
  "get_binary_path i =
     (let binary = os_join (in_sep i) (os_join (in_sep i) (in_package_dir i) (lit ''_bin'')) (binary_name i) in
      if \<not> in_isfile i binary then (Inl RuntimeError, [])
      else if on_windows i then (Inr binary, [])
      else (case in_mode i binary of
          Inl e \<Rightarrow> if is_os_error e then (Inr binary, []) else (Inl e, [])
        | Inr mode \<Rightarrow>
            if mode AND 73 = 0 then (Inr binary, [(binary, mode OR 73)]) else (Inr binary, [])))"

text \<open>A path that is returned is a file, and the mode of a file is only ever widened by the three
  execute bits, when it has none of them.\<close>

lemma binary_path_sound:
  assumes "get_binary_path i = (r, calls)"
  shows "r = Inr path \<Longrightarrow> in_isfile i path"
    "(path, mode) \<in> set calls \<Longrightarrow> r = Inr path \<and> \<not> on_windows i \<and>
       (\<exists>m. in_mode i path = Inr m \<and> m AND 73 = 0 \<and> mode = m OR 73 \<and> mode AND 73 = 73)"
  using assms
  by (auto simp: get_binary_path_def Let_def bit.conj_disj_distrib2 split: if_splits sum.splits)

text \<open>The build hook: nothing is added to the build unless the directory holds a visible entry.\<close>

definition hook_bin_dir :: "nat \<Rightarrow> pystr \<Rightarrow> pystr" where
  "hook_bin_dir sep root = os_join sep root (join_with [sep] (map lit [''src'', ''hawcx_haap'', ''_bin'']))"

definition initialize ::
  "nat \<Rightarrow> pystr \<Rightarrow> (pystr \<Rightarrow> (exn + pystr list) option) \<Rightarrow> (pystr \<times> json) list \<Rightarrow> exn + (pystr \<times> json) list" where
  "initialize sep root listdir build_data =
     (let bin = hook_bin_dir sep root in
      case listdir bin of
        None \<Rightarrow> Inr build_data
      | Some r \<Rightarrow> chain r (\<lambda>names.
          if filter (\<lambda>n. \<not> starts (lit ''.'') n) names = [] then Inr build_data
          else (case get (lit ''force_include'') (JObj []) build_data of
              JObj d \<Rightarrow> Inr (upd (lit ''force_include'') (JObj (upd bin (JStr (lit ''hawcx_haap/_bin'')) d)) build_data)
            | _ \<Rightarrow> Inl (TypeError BadToolArgument))))"

lemma initialize_only_includes:
  assumes "initialize sep root listdir build_data = Inr out" "k \<noteq> lit ''force_include''"
  shows "map_of out k = map_of build_data k"
  using assms by (auto simp: initialize_def Let_def chain_Inr split: option.splits if_splits json.splits)

section \<open>The check of an image, run\<close>

definition demo_doc :: "pystr \<Rightarrow> json option" where
  "demo_doc url =
     (if url = lit ''https://r.io/token?scope=repository:sdk:pull&service=r.io'' then Some (JObj [(lit ''token'', JStr (lit ''t''))])
      else if url = lit ''https://r.io/v2/sdk/manifests/v1''
      then Some (JObj [(lit ''layers'', JArr [JObj [(lit ''digest'', JStr (lit ''d1''))]])])
      else None)"

definition demo_image :: image_env where
  "demo_image = \<lparr>ie_getenv = \<lambda>k. if k = lit ''GHCR_TOKEN'' then Some (lit ''p'') else None,
     ie_gh_token = Inl (OSError NotFound),
     ie_http_get = \<lambda>url hdrs. (case demo_doc url of Some j \<Rightarrow> Inr (dumps_bytes compact j) | None \<Rightarrow> Inr []),
     ie_untar = \<lambda>bs. Inr [\<lparr>te_name = orch_path, te_kind = Symlink (lit ''hawcx-manager'')\<rparr>]\<rparr>"

lemma demo_json: "wf_json j \<Longrightarrow> json_of_bytes (dumps_bytes compact j) = Inr j"
  by (simp add: json_of_bytes_def loads_dumps_bytes)

lemma demo_ref: "parse_ref (lit ''r.io/sdk:v1'') = Inr (lit ''r.io'', lit ''sdk'', lit ''v1'')"
  by code_simp

lemma demo_token: "registry_token demo_image (lit ''r.io'') (lit ''sdk'') = Inr (JStr (lit ''t''))"
proof -
  obtain cred where c: "utf8_encode (lit ''x:'' @ lit ''p'') = Some cred"
    by (simp add: utf8_encode_def is_surrogate_def lit_def)
  have "json_of_bytes (dumps_bytes compact (JObj [(lit ''token'', JStr (lit ''t''))])) = Inr (JObj [(lit ''token'', JStr (lit ''t''))])"
    by (rule demo_json) simp
  then show ?thesis using c
    by (simp add: registry_token_def nonempty_env_def demo_image_def demo_doc_def item_def lit_append [symmetric])
qed

lemma demo_manifest_answer:
  "image_manifest demo_image (lit ''r.io'') (lit ''sdk'') (JStr (lit ''t'')) (lit ''v1'') (lit ''amd64'') =
     Inr (Some (JObj [(lit ''layers'', JArr [JObj [(lit ''digest'', JStr (lit ''d1''))]])]))"
proof -
  let ?m = "JObj [(lit ''layers'', JArr [JObj [(lit ''digest'', JStr (lit ''d1''))]])]"
  have "json_of_bytes (dumps_bytes compact ?m) = Inr ?m" by (rule demo_json) simp
  then show ?thesis
    by (simp add: image_manifest_def manifest_of_def blob_raw_def demo_image_def demo_doc_def is_index_def
        has_key_def lit_append [symmetric])
qed

lemma demo_layers:
  "walk_layers (read_layer demo_image (lit ''r.io'') (lit ''sdk'') (JStr (lit ''t'')))
     [JObj [(lit ''digest'', JStr (lit ''d1''))]] [] = Inr [(orch_name, lit ''symlink -> hawcx-manager'')]"
proof -
  have "rpartition_on 47 orch_path = (bin_dir, True, orch_name)"
    unfolding orch_path_def append_Cons append_Nil by (rule rpartition_on_parts) (simp add: orch_name_def lit_def)
  then show ?thesis
    by (simp add: read_layer_def blob_raw_def item_def demo_image_def demo_doc_def walk_layer_def note_entry_def
        entry_text_def orch_name_def lit_append [symmetric])
qed

text \<open>The theorem at an image of one layer.\<close>

theorem image_check_decides_witness:
  "\<exists>found token man js layers. image_check demo_image (lit ''r.io'' @ 47 # lit ''sdk'' @ 58 # lit ''v1'') (lit ''amd64'') =
       Inr (0, Listed found True) \<and>
     platform_manifest demo_image (lit ''r.io'') (lit ''sdk'') token (lit ''v1'') (lit ''amd64'') (JObj man) \<and>
     list_all2 (layer_entries demo_image (lit ''r.io'') (lit ''sdk'') token) js layers \<and>
     (\<exists>l \<in> set layers. \<exists>t \<in> set l. te_name t = lit ''usr/local/bin/haap-unseal-orch'')"
proof -
  have ref: "lit ''r.io'' @ 47 # lit ''sdk'' @ 58 # lit ''v1'' = lit ''r.io/sdk:v1''" by (simp add: lit_def)
  have run: "image_check demo_image (lit ''r.io'' @ 47 # lit ''sdk'' @ 58 # lit ''v1'') (lit ''amd64'') =
      Inr (0, Listed [(orch_name, lit ''symlink -> hawcx-manager'')] True)"
    unfolding ref using demo_ref demo_token demo_manifest_answer demo_layers
    by (simp add: image_check_def item_def elements_def has_key_def)
  have tag: "47 \<notin> set (lit ''r.io'')" "58 \<notin> set (lit ''v1'')" "lit ''v1'' \<noteq> []" by (simp_all add: lit_def)
  obtain token man js layers where
    "platform_manifest demo_image (lit ''r.io'') (lit ''sdk'') token (lit ''v1'') (lit ''amd64'') (JObj man)"
    "list_all2 (layer_entries demo_image (lit ''r.io'') (lit ''sdk'') token) js layers"
    "\<exists>l \<in> set layers. \<exists>t \<in> set l. te_name t = lit ''usr/local/bin/haap-unseal-orch''"
    using image_check_decides [OF run tag] by (elim exE disjE conjE) (simp, metis)
  with run show ?thesis by blast
qed

end
