(* ===== verification/Mock_Mcp.thy ===== *)
theory Mock_Mcp
  imports Template
begin

text \<open>
  \<open>scripts/mock-mcp-server.py\<close>, the stand-in tool backend of the integration runs: one route that
  has the sidecar verify a call, echoes the plaintext it is given, and has the sidecar encrypt
  the answer. The sidecar is an argument that may depend on the calls made so far; the calls are
  the state. What the web framework makes of a reply is left open, and so is the server loop.

  The theorems: a request that is refused at the door never reaches the sidecar, and a reply
  with a ciphertext is the sidecar's encryption of exactly the echo of what it verified.
\<close>

section \<open>Requests, replies and the sidecar\<close>

record web_request =
  wr_header :: "pystr \<Rightarrow> pystr option"       \<comment> \<open>looked up without regard to case\<close>
  wr_body :: bytes

datatype web_reply =
    JsonReply json json                       \<comment> \<open>the document and the status\<close>
  | Ciphertext json pystr                     \<comment> \<open>the body and the session header\<close>

record mock_config =
  rsv_url :: pystr
  rsv_bearer :: pystr

record rsv_call =
  call_url :: pystr
  call_body :: json
  call_headers :: "(pystr \<times> pystr) list"

type_synonym sidecar = "rsv_call list \<Rightarrow> rsv_call \<Rightarrow> exn + int \<times> json"

type_synonym 'a handler = "(exn, rsv_call list, 'a) act"

definition rsv_post :: "sidecar \<Rightarrow> rsv_call \<Rightarrow> (int \<times> json) handler" where
  "rsv_post rsv c calls = (rsv calls c, calls @ [c])"

definition rsv_request :: "mock_config \<Rightarrow> string \<Rightarrow> (string \<times> json) list \<Rightarrow> rsv_call" where
  "rsv_request cfg path body =
     \<lparr>call_url = rsv_url cfg @ lit path, call_body = JObj (map (\<lambda>(k, v). (lit k, v)) body),
      call_headers = [(lit ''Authorization'', lit ''Bearer '' @ rsv_bearer cfg)]\<rparr>"

section \<open>The route of tool calls\<close>

definition error_reply :: "string \<Rightarrow> int \<Rightarrow> web_reply" where
  "error_reply msg status = JsonReply (JObj [(lit ''error'', JStr (lit msg))]) (JInt status)"

definition rsv_error :: "string \<Rightarrow> json \<Rightarrow> int \<Rightarrow> web_reply" where
  "rsv_error msg answer status =
     JsonReply (JObj [(lit ''error'', JStr (lit msg)), (lit ''rsv'', answer)]) (JInt status)"

text \<open>The log line of the first answer sorts its keys, so that an answer that is no object raises;
  the one of the second answer takes the length of the ciphertext.\<close>

definition has_keys :: "json \<Rightarrow> exn + unit" where
  "has_keys j = (case j of JObj _ \<Rightarrow> Inr () | _ \<Rightarrow> Inl AttributeError)"

definition sized :: "json \<Rightarrow> exn + unit" where
  "sized j = (case j of JStr _ \<Rightarrow> Inr () | JArr _ \<Rightarrow> Inr () | JObj _ \<Rightarrow> Inr () | _ \<Rightarrow> Inl (TypeError BadToolArgument))"

definition decoded_text :: "json \<Rightarrow> exn + pystr" where
  "decoded_text j = (case j of
     JStr s \<Rightarrow> (case b64decode s of None \<Rightarrow> Inl (ValueError s) | Some bs \<Rightarrow> Inr (utf8_replace bs))
   | _ \<Rightarrow> Inl (TypeError BadToolArgument))"

definition echo_plaintext :: "pystr \<Rightarrow> pystr" where
  "echo_plaintext text =
     b64encode (dumps_bytes compact (JObj [(lit ''result'', JStr (lit ''echo: '' @ text))]))"

definition verify_request :: "mock_config \<Rightarrow> pystr \<Rightarrow> pystr \<Rightarrow> pystr \<Rightarrow> rsv_call" where
  "verify_request cfg token encrypted aad = rsv_request cfg ''/verify''
     [(''token_b64'', JStr token), (''encrypted_request_b64'', JStr encrypted), (''request_aad_b64'', JStr aad)]"

definition encrypt_request :: "mock_config \<Rightarrow> json \<Rightarrow> pystr \<Rightarrow> rsv_call" where
  "encrypt_request cfg handle text = rsv_request cfg ''/encrypt-response''
     [(''verification_handle'', handle), (''plaintext_b64'', JStr (echo_plaintext text))]"

definition answer_call :: "sidecar \<Rightarrow> mock_config \<Rightarrow> json \<Rightarrow> web_reply handler" where
  "answer_call rsv cfg verified =
     andthen (lift (item ''plaintext_b64'' verified)) (\<lambda>plaintext.
     andthen (lift (item ''verification_handle'' verified)) (\<lambda>handle.
     andthen (lift (item ''session_id'' verified)) (\<lambda>session.
     andthen (lift (decoded_text plaintext)) (\<lambda>text.
     andthen (rsv_post rsv (encrypt_request cfg handle text)) (\<lambda>(status, answer).
     if status \<noteq> 200 then ret (rsv_error ''encrypt-response failed'' answer status)
     else andthen (lift (item ''ciphertext_b64'' answer)) (\<lambda>ciphertext.
       andthen (lift (sized ciphertext)) (\<lambda>_. ret (Ciphertext ciphertext (py_str session)))))))))"

definition handle_tool_call :: "sidecar \<Rightarrow> mock_config \<Rightarrow> web_request \<Rightarrow> web_reply handler" where
  "handle_tool_call rsv cfg request =
     (let auth = (case wr_header request (lit ''Authorization'') of None \<Rightarrow> [] | Some v \<Rightarrow> v) in
      if \<not> starts (lit ''HAAP '') auth then ret (error_reply ''missing HAAP token'' 401)
      else
        let token = strip (drop (length (lit ''HAAP '')) auth);
            aad = (case wr_header request (lit ''X-HAAP-AAD'') of None \<Rightarrow> [] | Some v \<Rightarrow> v) in
        if aad = [] then ret (error_reply ''missing X-HAAP-AAD'' 400)
        else if wr_body request = [] then ret (error_reply ''empty body'' 400)
        else if \<not> (\<forall>b \<in> set (wr_body request). unat b < 128) then throw UnicodeError
        else
          let encrypted = strip (map unat (wr_body request)) in
          andthen (rsv_post rsv (verify_request cfg token encrypted aad)) (\<lambda>(status, verified).
          andthen (lift (has_keys verified)) (\<lambda>_.
          if status \<noteq> 200 then ret (rsv_error ''verify failed'' verified status)
          else answer_call rsv cfg verified)))"

definition healthz :: pystr where "healthz = lit ''ok'' @ [10]"

text \<open>The end of \<open>main\<close>, after the arguments are parsed: the exit status, or where it listens.\<close>

datatype launch = Exits int | Listens pystr int

definition serve :: "mock_config \<Rightarrow> pystr \<Rightarrow> exn + launch" where
  "serve cfg listen =
     (if rsv_bearer cfg = [] then Inr (Exits 2)
      else case split_on 58 listen of
          [host, port] \<Rightarrow> (case py_int port of None \<Rightarrow> Inl (ValueError port) | Some n \<Rightarrow> Inr (Listens host n))
        | _ \<Rightarrow> Inl (ValueError listen))"

section \<open>What a reply rests on\<close>

lemma item_Some: "item k j = Inr v \<longleftrightarrow> (\<exists>kvs. j = JObj kvs \<and> map_of kvs (lit k) = Some v)"
  by (cases j) (auto simp: item_def split: option.splits)

lemma decoded_text_Inr:
  "decoded_text j = Inr text \<longleftrightarrow> (\<exists>s bs. j = JStr s \<and> b64decode s = Some bs \<and> text = utf8_replace bs)"
  by (cases j) (auto simp: decoded_text_def split: option.splits)

lemma echo_document: "wf_json (JObj [(lit ''result'', JStr (lit ''echo: '' @ utf8_replace bs))])"
proof -
  have "scalars (lit ''echo: '' @ utf8_replace bs)"
    using utf8_replace_scalars [of bs] isascii_scalars [of "lit ''echo: ''"] by (auto simp: scalars_def)
  then show ?thesis by (simp add: scalars_wf)
qed

lemma echo_reads_back:
  "\<exists>body. b64decode (echo_plaintext (utf8_replace bs)) = Some body \<and>
     loads_bytes body = Inr (JObj [(lit ''result'', JStr (lit ''echo: '' @ utf8_replace bs))])"
proof -
  obtain body where "b64decode (echo_plaintext (utf8_replace bs)) = Some body"
    and "read_document body = Some (JObj [(lit ''result'', JStr (lit ''echo: '' @ utf8_replace bs))])"
    using boxed.both.decode_encode [OF echo_document [of bs]]
    unfolding bind_eq_Some_conv echo_plaintext_def by blast
  then show ?thesis by (cases "loads_bytes body") (simp_all add: read_document_def)
qed

text \<open>Different plaintexts are echoed by different documents.\<close>

lemma echo_distinguishes:
  "echo_plaintext (utf8_replace a) = echo_plaintext (utf8_replace b) \<longleftrightarrow> utf8_replace a = utf8_replace b"
  unfolding echo_plaintext_def using boxed.both.encode_inject [OF echo_document echo_document] by simp

lemma answer_call_runs:
  assumes "answer_call rsv cfg v calls = (r, calls')"
  shows "calls' = calls \<or> (\<exists>c. calls' = calls @ [c])"
  using assms
  by (auto simp: answer_call_def act_simps rsv_post_def split: sum.splits if_splits prod.splits)

lemma answer_call_ciphertext:
  assumes "answer_call rsv cfg v calls = (Inr (Ciphertext c session), calls')"
  shows "\<exists>kvs plain handle sid bs answer. v = JObj kvs \<and>
    map_of kvs (lit ''plaintext_b64'') = Some (JStr plain) \<and> b64decode plain = Some bs \<and>
    map_of kvs (lit ''verification_handle'') = Some handle \<and>
    map_of kvs (lit ''session_id'') = Some sid \<and> session = py_str sid \<and>
    calls' = calls @ [encrypt_request cfg handle (utf8_replace bs)] \<and>
    rsv calls (encrypt_request cfg handle (utf8_replace bs)) = Inr (200, JObj answer) \<and>
    map_of answer (lit ''ciphertext_b64'') = Some c"
  using assms
  by (auto simp: answer_call_def act_simps rsv_post_def item_Some decoded_text_Inr rsv_error_def
      split: sum.splits if_splits prod.splits)

text \<open>The call that reaches the sidecar first is always the verification of what the request
  carried.\<close>

definition forwards :: "mock_config \<Rightarrow> web_request \<Rightarrow> rsv_call \<Rightarrow> bool" where
  "forwards cfg request c \<longleftrightarrow>
     (\<exists>token aad. wr_header request (lit ''Authorization'') = Some (lit ''HAAP '' @ token) \<and>
        wr_header request (lit ''X-HAAP-AAD'') = Some aad \<and> aad \<noteq> [] \<and> wr_body request \<noteq> [] \<and>
        isascii (map unat (wr_body request)) \<and>
        c = verify_request cfg (strip token) (strip (map unat (wr_body request))) aad)"

lemma starts_drop: "starts p s \<Longrightarrow> s = p @ drop (length p) s"
  by (auto simp: starts_iff)

text \<open>Either the request is refused before any call, or the run is the verification call followed
  by the rest.\<close>

lemma handle_cases:
  assumes "handle_tool_call rsv cfg request [] = (r, calls)"
  obtains "calls = []" "\<forall>c session. r \<noteq> Inr (Ciphertext c session)"
  | c where "forwards cfg request c"
      "andthen (rsv_post rsv c) (\<lambda>(status, verified). andthen (lift (has_keys verified)) (\<lambda>_.
         if status \<noteq> 200 then ret (rsv_error ''verify failed'' verified status)
         else answer_call rsv cfg verified)) [] = (r, calls)"
proof -
  define auth where "auth = (case wr_header request (lit ''Authorization'') of None \<Rightarrow> [] | Some v \<Rightarrow> v)"
  define aad where "aad = (case wr_header request (lit ''X-HAAP-AAD'') of None \<Rightarrow> [] | Some v \<Rightarrow> v)"
  define token where "token = drop (length (lit ''HAAP '')) auth"
  show thesis
  proof (cases "starts (lit ''HAAP '') auth \<and> aad \<noteq> [] \<and> wr_body request \<noteq> [] \<and>
      (\<forall>b \<in> set (wr_body request). unat b < 128)")
    case True
    then have "auth = lit ''HAAP '' @ token" unfolding token_def by (intro starts_drop) simp
    then have "wr_header request (lit ''Authorization'') = Some (lit ''HAAP '' @ token)"
      by (simp add: auth_def split: option.splits)
    moreover have "wr_header request (lit ''X-HAAP-AAD'') = Some aad"
      using True by (simp add: aad_def split: option.splits)
    ultimately have f: "forwards cfg request (verify_request cfg (strip token) (strip (map unat (wr_body request))) aad)"
      using True by (auto simp: forwards_def isascii_def)
    show thesis
      by (rule that(2) [OF f])
        (use assms True in \<open>simp add: handle_tool_call_def Let_def auth_def aad_def token_def\<close>)
  next
    case False
    show thesis
      by (rule that(1))
        (use assms False in \<open>auto simp: handle_tool_call_def Let_def auth_def [symmetric] aad_def [symmetric]
           ret_def throw_def error_reply_def split: if_splits\<close>)
  qed
qed

text \<open>The two calls, written out.\<close>

lemma forwarded_call:
  assumes "forwards cfg request c"
  shows "\<exists>token aad. wr_header request (lit ''Authorization'') = Some (lit ''HAAP '' @ token) \<and>
     wr_header request (lit ''X-HAAP-AAD'') = Some aad \<and> aad \<noteq> [] \<and> wr_body request \<noteq> [] \<and>
     isascii (map unat (wr_body request)) \<and>
     c = \<lparr>call_url = rsv_url cfg @ lit ''/verify'',
       call_body = JObj [(lit ''token_b64'', JStr (strip token)),
         (lit ''encrypted_request_b64'', JStr (strip (map unat (wr_body request)))),
         (lit ''request_aad_b64'', JStr aad)],
       call_headers = [(lit ''Authorization'', lit ''Bearer '' @ rsv_bearer cfg)]\<rparr>"
  using assms by (auto simp: forwards_def verify_request_def rsv_request_def)

lemma sealed_call:
  assumes "answer_call rsv cfg verified [v] = (r, calls)" and "r = Inr (Ciphertext c session)"
  shows "\<exists>kvs plain handle sid bs answer sealed body encrypt. verified = JObj kvs \<and>
    map_of kvs (lit ''plaintext_b64'') = Some (JStr plain) \<and> b64decode plain = Some bs \<and>
    map_of kvs (lit ''verification_handle'') = Some handle \<and>
    map_of kvs (lit ''session_id'') = Some sid \<and> session = py_str sid \<and>
    calls = [v, encrypt] \<and>
    encrypt = \<lparr>call_url = rsv_url cfg @ lit ''/encrypt-response'',
      call_body = JObj [(lit ''verification_handle'', handle), (lit ''plaintext_b64'', JStr sealed)],
      call_headers = [(lit ''Authorization'', lit ''Bearer '' @ rsv_bearer cfg)]\<rparr> \<and>
    b64decode sealed = Some body \<and>
    loads_bytes body = Inr (JObj [(lit ''result'', JStr (lit ''echo: '' @ utf8_replace bs))]) \<and>
    rsv [v] encrypt = Inr (200, JObj answer) \<and> map_of answer (lit ''ciphertext_b64'') = Some c"
proof -
  from answer_call_ciphertext [OF assms(1) [unfolded assms(2)]] obtain kvs plain handle sid bs answer where facts: "verified = JObj kvs"
    "map_of kvs (lit ''plaintext_b64'') = Some (JStr plain)" "b64decode plain = Some bs"
    "map_of kvs (lit ''verification_handle'') = Some handle"
    "map_of kvs (lit ''session_id'') = Some sid" "session = py_str sid"
    "calls = [v, encrypt_request cfg handle (utf8_replace bs)]"
    "rsv [v] (encrypt_request cfg handle (utf8_replace bs)) = Inr (200, JObj answer)"
    "map_of answer (lit ''ciphertext_b64'') = Some c" by auto
  obtain body where "b64decode (echo_plaintext (utf8_replace bs)) = Some body"
    "loads_bytes body = Inr (JObj [(lit ''result'', JStr (lit ''echo: '' @ utf8_replace bs))])"
    using echo_reads_back by blast
  moreover have "encrypt_request cfg handle (utf8_replace bs) =
    \<lparr>call_url = rsv_url cfg @ lit ''/encrypt-response'',
      call_body = JObj [(lit ''verification_handle'', handle), (lit ''plaintext_b64'', JStr (echo_plaintext (utf8_replace bs)))],
      call_headers = [(lit ''Authorization'', lit ''Bearer '' @ rsv_bearer cfg)]\<rparr>"
    by (simp add: encrypt_request_def rsv_request_def)
  ultimately show ?thesis using facts by metis
qed

text \<open>C39: a request without a token, associated data or a body, or with a body that is not ASCII, makes
  no call of the sidecar; no request makes more than two. The first is a POST of exactly the token,
  the encrypted request and the associated data that came in to \<open>/verify\<close>, under the bearer. A
  ciphertext is answered only after it succeeded, and after a second POST, to
  \<open>/encrypt-response\<close> under the handle of the first, of a document that reads back as the echo of
  the verified plaintext; the ciphertext and the session are those of the two answers.\<close>

theorem echo_only_what_was_verified:
  assumes "handle_tool_call rsv cfg request [] = (r, calls)"
  shows "length calls \<le> 2 \<and>
    (calls \<noteq> [] \<longrightarrow>
       (\<exists>token aad. wr_header request (lit ''Authorization'') = Some (lit ''HAAP '' @ token) \<and>
          wr_header request (lit ''X-HAAP-AAD'') = Some aad \<and> aad \<noteq> [] \<and> wr_body request \<noteq> [] \<and>
          isascii (map unat (wr_body request)) \<and>
          hd calls = \<lparr>call_url = rsv_url cfg @ lit ''/verify'',
            call_body = JObj [(lit ''token_b64'', JStr (strip token)),
              (lit ''encrypted_request_b64'', JStr (strip (map unat (wr_body request)))),
              (lit ''request_aad_b64'', JStr aad)],
            call_headers = [(lit ''Authorization'', lit ''Bearer '' @ rsv_bearer cfg)]\<rparr>)) \<and>
    (\<forall>c session. r = Inr (Ciphertext c session) \<longrightarrow>
       (\<exists>verify encrypt kvs plain bs handle sid answer sealed body.
          calls = [verify, encrypt] \<and> rsv [] verify = Inr (200, JObj kvs) \<and>
          map_of kvs (lit ''plaintext_b64'') = Some (JStr plain) \<and> b64decode plain = Some bs \<and>
          map_of kvs (lit ''verification_handle'') = Some handle \<and>
          map_of kvs (lit ''session_id'') = Some sid \<and> session = py_str sid \<and>
          encrypt = \<lparr>call_url = rsv_url cfg @ lit ''/encrypt-response'',
            call_body = JObj [(lit ''verification_handle'', handle), (lit ''plaintext_b64'', JStr sealed)],
            call_headers = [(lit ''Authorization'', lit ''Bearer '' @ rsv_bearer cfg)]\<rparr> \<and>
          b64decode sealed = Some body \<and>
          loads_bytes body = Inr (JObj [(lit ''result'', JStr (lit ''echo: '' @ utf8_replace bs))]) \<and>
          rsv [verify] encrypt = Inr (200, JObj answer) \<and> map_of answer (lit ''ciphertext_b64'') = Some c))"
proof (cases rule: handle_cases [OF assms])
  case 1
  then show ?thesis by simp
next
  case (2 v)
  show ?thesis
  proof (cases "rsv [] v")
    case (Inl e)
    with 2(2) forwarded_call [OF 2(1)] show ?thesis by (auto simp: andthen_def rsv_post_def)
  next
    case (Inr p)
    obtain status verified where p: "p = (status, verified)" by (cases p) auto
    show ?thesis
    proof (cases "status = 200 \<and> (\<exists>kvs. verified = JObj kvs)")
      case True
      then have run: "answer_call rsv cfg verified [v] = (r, calls)"
        using 2(2) Inr p by (auto simp: andthen_def rsv_post_def lift_def has_keys_def)
      then have "length calls \<le> 2 \<and> hd calls = v" using answer_call_runs by fastforce
      moreover have "rsv [] v = Inr (200, verified)" using Inr p True by simp
      ultimately show ?thesis
        using forwarded_call [OF 2(1)] by (auto dest!: sealed_call [OF run])
    next
      case False
      with 2(2) forwarded_call [OF 2(1)] Inr p show ?thesis
        by (auto simp: andthen_def rsv_post_def lift_def has_keys_def ret_def rsv_error_def split: json.splits if_splits)
    qed
  qed
qed

section \<open>A run\<close>

definition demo_sidecar :: sidecar where
  "demo_sidecar calls c = Inr (200, JObj (if calls = []
     then [(lit ''plaintext_b64'', JStr (lit ''aGk='')), (lit ''verification_handle'', JStr (lit ''h'')),
           (lit ''session_id'', JInt 7)]
     else [(lit ''ciphertext_b64'', JStr (lit ''c2VhbGVk''))]))"

definition demo_request :: web_request where
  "demo_request = \<lparr>wr_header = \<lambda>n. if n = lit ''Authorization'' then Some (lit ''HAAP '' @ lit ''t'')
       else if n = lit ''X-HAAP-AAD'' then Some (lit ''a'') else None,
     wr_body = ascii_bytes (lit ''c'')\<rparr>"

definition demo_config :: mock_config where
  "demo_config = \<lparr>rsv_url = lit ''http://rsv'', rsv_bearer = lit ''b''\<rparr>"

lemma demo_plain: "b64decode (lit ''aGk='') = Some (ascii_bytes (lit ''hi''))"
  by code_simp

lemma demo_call:
  "\<exists>calls. handle_tool_call demo_sidecar demo_config demo_request [] =
     (Inr (Ciphertext (JStr (lit ''c2VhbGVk'')) (py_str (JInt 7))), calls)"
proof -
  have "wr_body demo_request \<noteq> []" "\<forall>b \<in> set (wr_body demo_request). unat b < 128"
    by (simp_all add: demo_request_def ascii_bytes_def lit_def)
  then show ?thesis
    by (simp add: handle_tool_call_def demo_request_def andthen_def rsv_post_def lift_def ret_def has_keys_def
        demo_sidecar_def answer_call_def item_def decoded_text_def demo_plain sized_def)
qed

text \<open>The theorem at this run.\<close>

theorem echo_only_what_was_verified_witness:
  "\<exists>verify encrypt sealed body.
     handle_tool_call demo_sidecar demo_config demo_request [] =
       (Inr (Ciphertext (JStr (lit ''c2VhbGVk'')) (py_str (JInt 7))), [verify, encrypt]) \<and>
     call_url verify = lit ''http://rsv'' @ lit ''/verify'' \<and>
     call_url encrypt = lit ''http://rsv'' @ lit ''/encrypt-response'' \<and>
     call_body encrypt = JObj [(lit ''verification_handle'', JStr (lit ''h'')), (lit ''plaintext_b64'', JStr sealed)] \<and>
     b64decode sealed = Some body \<and>
     loads_bytes body = Inr (JObj [(lit ''result'', JStr (lit ''echo: '' @ utf8_replace (ascii_bytes (lit ''hi''))))])"
proof -
  obtain calls where run: "handle_tool_call demo_sidecar demo_config demo_request [] =
      (Inr (Ciphertext (JStr (lit ''c2VhbGVk'')) (py_str (JInt 7))), calls)"
    using demo_call by blast
  have "rsv_url demo_config = lit ''http://rsv''" by (simp add: demo_config_def)
  moreover from echo_only_what_was_verified [OF run] obtain verify encrypt kvs plain bs handle sealed body where
    "calls = [verify, encrypt]" "demo_sidecar [] verify = Inr (200, JObj kvs)"
    "map_of kvs (lit ''plaintext_b64'') = Some (JStr plain)" "b64decode plain = Some bs"
    "map_of kvs (lit ''verification_handle'') = Some handle"
    "call_url encrypt = rsv_url demo_config @ lit ''/encrypt-response''"
    "call_body encrypt = JObj [(lit ''verification_handle'', handle), (lit ''plaintext_b64'', JStr sealed)]"
    "b64decode sealed = Some body"
    "loads_bytes body = Inr (JObj [(lit ''result'', JStr (lit ''echo: '' @ utf8_replace bs))])"
    "call_url verify = rsv_url demo_config @ lit ''/verify''"
    by (auto simp del: append_Cons)
  moreover from this(2) have "kvs = [(lit ''plaintext_b64'', JStr (lit ''aGk='')), (lit ''verification_handle'', JStr (lit ''h'')),
      (lit ''session_id'', JInt 7)]" by (simp add: demo_sidecar_def)
  ultimately have "plain = lit ''aGk=''" "handle = JStr (lit ''h'')" by simp_all
  then have "bs = ascii_bytes (lit ''hi'')" using \<open>b64decode plain = Some bs\<close> demo_plain by simp
  show ?thesis
    by (rule exI [of _ verify], rule exI [of _ encrypt], rule exI [of _ sealed], rule exI [of _ body])
      (use run \<open>calls = [verify, encrypt]\<close> \<open>call_url encrypt = _\<close> \<open>call_url verify = _\<close> \<open>call_body encrypt = _\<close>
        \<open>b64decode sealed = Some body\<close> \<open>loads_bytes body = _\<close> \<open>handle = _\<close> \<open>bs = _\<close> \<open>rsv_url demo_config = _\<close> in simp)
qed

end
