(* ===== verification/Chat_Agent.thy ===== *)
theory Chat_Agent
  imports Agent Template
begin

text \<open>
  \<open>python/examples/chat_demo_agent.py\<close>: an agent that is talked to over an inherited socket and
  drives two tool calls per prompt, one that should be allowed and one that should be refused.
  The chat channel is a socket, the agent is the one of \<^theory_text>\<open>Agent\<close>; what the log prints is left out,
  and the text of an exception is an argument.

  The theorems: on a channel that can be written every prompt is answered by a turn that ends in
  exactly one closing frame, and the turn claims an enforced ceiling only when the first call
  was answered and the second one rejected.
\<close>

section \<open>The chat channel\<close>

definition msg_chat_prompt :: byte where "msg_chat_prompt = 0x62"
definition msg_chat_delta :: byte where "msg_chat_delta = 0x63"
definition msg_chat_final :: byte where "msg_chat_final = 0x64"
definition msg_chat_error :: byte where "msg_chat_error = 0x65"

lemmas chat_types = msg_chat_prompt_def msg_chat_delta_def msg_chat_final_def msg_chat_error_def

text \<open>The process: its end of the channel, the agent once it is connected, and the identifiers that
  \<open>uuid4\<close> will give.\<close>

record chat =
  ch_sock :: sock
  ch_agent :: "agent option"
  ch_uuids :: "pystr list"

record chat_env =
  ce_env :: env
  ce_builtins :: builtins
  ce_sha :: "bytes \<Rightarrow> pystr"
  ce_str :: "exn \<Rightarrow> pystr"                      \<comment> \<open>\<open>str(e)\<close>\<close>
  ce_channel :: "os_kind + sock"                  \<comment> \<open>\<open>socket.socket(..., fileno=3)\<close>\<close>
  ce_dial :: dial
  ce_later :: "dial list"
  ce_uuids :: "pystr list"
  ce_connect_timeout :: timeout
  ce_call_timeout :: timeout

type_synonym 'a turn = "(exn, chat, 'a) act"

definition on_chan :: "(exn, sock, 'a) act \<Rightarrow> 'a turn" where
  "on_chan m c = (case m (ch_sock c) of (r, s) \<Rightarrow> (r, c\<lparr>ch_sock := s\<rparr>))"

definition recv_prompt :: "json turn" where
  "recv_prompt = on_chan (andthen read_frame (\<lambda>(t, payload).
     if t \<noteq> msg_chat_prompt then throw (ValueError (lit ''expected MSG_CHAT_PROMPT''))
     else andthen (lift (json_of_bytes payload)) (\<lambda>j. lift (item ''text'' j))))"

definition chat_payload :: "string \<Rightarrow> pystr \<Rightarrow> bytes" where
  "chat_payload k text = dumps_bytes spaced (JObj [(lit k, JStr text)])"

definition send_delta :: "pystr \<Rightarrow> unit turn" where
  "send_delta text = on_chan (write_frame msg_chat_delta (chat_payload ''text'' text))"

definition send_final :: "pystr \<Rightarrow> unit turn" where
  "send_final text = on_chan (write_frame msg_chat_final (chat_payload ''text'' text))"

definition send_error :: "pystr \<Rightarrow> unit turn" where
  "send_error message = on_chan (write_frame msg_chat_error (chat_payload ''message'' message))"

definition try_send_error :: "pystr \<Rightarrow> bool turn" where
  "try_send_error message =
     catch (andthen (send_error message) (\<lambda>_. ret True)) (\<lambda>e. if is_os_error e then ret False else throw e)"

section \<open>The gated calls\<close>

definition env_or :: "env \<Rightarrow> string \<Rightarrow> string \<Rightarrow> pystr" where
  "env_or env k dflt = (case env (lit k) of None \<Rightarrow> lit dflt | Some v \<Rightarrow> v)"

definition target_rs :: "env \<Rightarrow> pystr" where
  "target_rs env = env_or env ''HAAP_DEMO_RS_URL'' ''https://rs.demo.local/v1/documents/quarterly''"

definition demo_tool_id :: "env \<Rightarrow> pystr" where
  "demo_tool_id env = env_or env ''HAAP_DEMO_TOOL'' ''demo.documents''"

definition probe_action :: "env \<Rightarrow> pystr" where
  "probe_action env = env_or env ''HAAP_DEMO_PROBE_ACTION'' ''write''"

definition plain_call :: "env \<Rightarrow> string \<Rightarrow> (string \<times> string) \<Rightarrow> pystr \<Rightarrow> bytes option \<Rightarrow> tool_call_request" where
  "plain_call env meth h act body =
     \<lparr>request_id = [], target_rs_url = target_rs env, http_method = lit meth,
      headers = [(lit (fst h), lit (snd h))], tool = demo_tool_id env, mcp_tool_name = None, action = [act],
      resource = lit ''*'', constraints = [], plaintext_request_body = body, claimed_intent_hash = None,
      tool_arguments = JNull, content_type = None, transport = None, acting_for_user = None, provider = None\<rparr>"

definition read_call :: "env \<Rightarrow> tool_call_request" where
  "read_call env = plain_call env ''GET'' (''Accept'', ''application/json'') (lit ''read'') None"

definition probe_call :: "env \<Rightarrow> tool_call_request" where
  "probe_call env = plain_call env ''POST'' (''Content-Type'', ''application/json'') (probe_action env)
     (Some (ascii_bytes (lit ''{\"demo\": \"ceiling probe\"}'')))"

text \<open>\<open>agent.invoke\<close>, on \<open>None\<close> an \<open>AttributeError\<close>.\<close>

definition call_agent :: "chat_env \<Rightarrow> tool_call_request \<Rightarrow> tool_call_response turn" where
  "call_agent e r c = (case ch_agent c of
     None \<Rightarrow> (Inl AttributeError, c)
   | Some a \<Rightarrow>
       (case agent_invoke (ce_env e) (ce_builtins e) (ce_sha e)
               (case ch_uuids c of [] \<Rightarrow> [] | u # us \<Rightarrow> u) r a of
          (x, a') \<Rightarrow> (x, c\<lparr>ch_agent := Some a', ch_uuids := tl (ch_uuids c)\<rparr>)))"

text \<open>\<open>try: m  except RequestRejected as rej: h(rej.reason)\<close>.\<close>

definition except_rejected :: "'a turn \<Rightarrow> (json \<Rightarrow> 'a turn) \<Rightarrow> 'a turn" where
  "except_rejected m h = catch m (\<lambda>e. case e of RequestRejected i reason \<Rightarrow> h reason | _ \<Rightarrow> throw e)"

definition text_lines :: "string list \<Rightarrow> pystr" where
  "text_lines ls = join_with [10] (map lit ls)"

definition minted_text :: pystr where
  "minted_text = text_lines [''      A 184-byte Schnorr TBAC token was minted for this exact'',
     ''      (tool, action, resource) and spent on one request.'', [], []]"

definition quoted :: "pystr \<Rightarrow> pystr" where "quoted s = [39] @ s @ [39]"

definition setup_text :: "env \<Rightarrow> pystr" where
  "setup_text env = text_lines [''Setup problem: the in-ceiling call was refused, so this run proves'',
     ''nothing about the ceiling. Check that the class policy grants ''] @ quoted (lit ''read'') @ [10]
     @ lit ''on '' @ demo_tool_id env @ lit ''.''"

definition enforced_text :: "env \<Rightarrow> pystr" where
  "enforced_text env = text_lines [''Ceiling enforced.'', [], ''The ''] @ quoted (probe_action env)
     @ text_lines ['' request never became a token. The JIT-TQS mint'',
       ''gate compared the requested scope against the ceiling from this'', ''agent''] @ [39]
     @ text_lines [''s class policy, refused, and left the partial token unspent.'',
       ''No credential this agent holds could have widened it -- the agent'', ''never holds one.'']"

definition failed_text :: "env \<Rightarrow> pystr" where
  "failed_text env = lit ''Demo FAILED: '' @ quoted (probe_action env)
     @ text_lines ['' should have been refused and was not.'', [],
       ''Either this action is inside the class ceiling (pick one that is not,'',
       ''via HAAP_DEMO_PROBE_ACTION) or the ceiling is not being enforced. Do'',
       ''not present this run as a successful demo.'']"

text \<open>\<open>run_gated_tool_calls\<close>. Each call is its own \<open>try\<close>; whether the function has returned is the
  result of the \<open>try\<close>.\<close>

definition first_call :: "chat_env \<Rightarrow> bool turn" where
  "first_call e =
     except_rejected
       (andthen (call_agent e (read_call (ce_env e))) (\<lambda>response.
        andthen (send_delta (lit ''ALLOWED (HTTP '' @ dec_int (rsp_http_status response) @ lit '')'' @ [10])) (\<lambda>_.
        andthen (send_delta minted_text) (\<lambda>_. ret False))))
       (\<lambda>reason.
        andthen (send_delta (lit ''REFUSED -- '' @ py_str reason @ [10, 10])) (\<lambda>_.
        andthen (send_final (setup_text (ce_env e))) (\<lambda>_. ret True)))"

definition second_call :: "chat_env \<Rightarrow> bool turn" where
  "second_call e =
     except_rejected
       (andthen (call_agent e (probe_call (ce_env e))) (\<lambda>_. ret False))
       (\<lambda>reason.
        andthen (send_delta (text_lines [''REFUSED'', ''      ''] @ py_str reason @ [10, 10])) (\<lambda>_.
        andthen (send_final (enforced_text (ce_env e))) (\<lambda>_. ret True)))"

definition run_gated_tool_calls :: "chat_env \<Rightarrow> json \<Rightarrow> unit turn" where
  "run_gated_tool_calls e prompt =
     andthen (send_delta (lit ''Prompt: '' @ [34] @ py_str prompt @ [34, 10, 10])) (\<lambda>_.
     andthen (send_delta (lit ''[1/2] '' @ demo_tool_id (ce_env e) @ lit '' action=read -> '')) (\<lambda>_.
     andthen (first_call e) (\<lambda>returned. if returned then ret () else
     andthen (send_delta (lit ''[2/2] '' @ demo_tool_id (ce_env e) @ lit '' action='' @ probe_action (ce_env e) @ lit '' -> '')) (\<lambda>_.
     andthen (second_call e) (\<lambda>returned. if returned then ret () else
     andthen (send_delta (lit ''ALLOWED -- and that is a FAILURE'' @ [10, 10])) (\<lambda>_.
     send_final (failed_text (ce_env e))))))))"

section \<open>The loop of turns\<close>

text \<open>One turn after its prompt: whether there is still a channel to talk to.\<close>

definition answer_prompt :: "chat_env \<Rightarrow> pystr \<Rightarrow> json \<Rightarrow> bool turn" where
  "answer_prompt e connect_error prompt c = (case ch_agent c of
     None \<Rightarrow> try_send_error connect_error c
   | Some a \<Rightarrow>
       catch (andthen (run_gated_tool_calls e prompt) (\<lambda>_. ret True)) (\<lambda>x.
         if is_hawcx_error x then try_send_error (lit ''tool call failed: '' @ ce_str e x)
         else try_send_error (lit ''agent error: '' @ ce_str e x)) c)"

partial_function (option) serve :: "chat_env \<Rightarrow> pystr \<Rightarrow> chat \<Rightarrow> ((exn + int) \<times> chat) option" where
  "serve e connect_error c = (case recv_prompt c of
     (Inl x, c1) \<Rightarrow> Some (Inr 0, c1)
   | (Inr prompt, c1) \<Rightarrow> (case answer_prompt e connect_error prompt c1 of
       (Inl x, c2) \<Rightarrow> Some (Inl x, c2)
     | (Inr go, c2) \<Rightarrow> if go then serve e connect_error c2 else Some (Inr 0, c2)))"

text \<open>\<open>main\<close>: the exit status or the exception that ends the process, and the process at the end,
  when it got as far as a channel. \<open>finally\<close> closes the agent.\<close>

definition chat_done :: "((exn + int) \<times> chat) option \<Rightarrow> ((exn + int) \<times> chat option) option" where
  "chat_done = map_option (\<lambda>(r, c). (r, Some (c\<lparr>ch_agent := map_option agent_close (ch_agent c)\<rparr>)))"

definition chat_main :: "chat_env \<Rightarrow> ((exn + int) \<times> chat option) option" where
  "chat_main e = (case nonempty (ce_env e (lit ''HAAP_AGENT_INSTANCE_ID'')) of
     None \<Rightarrow> Some (Inr 2, None)
   | Some agent_id \<Rightarrow> (case ce_channel e of
       Inl k \<Rightarrow> Some (Inr 2, None)
     | Inr s \<Rightarrow>
         let c = \<lparr>ch_sock = s, ch_agent = None, ch_uuids = ce_uuids e\<rparr> in
         (case agent_connect_by_agent_id (ce_env e) (ce_dial e) agent_id (Collection []) 0 None
                 (ce_connect_timeout e) (ce_call_timeout e) (ce_later e) of
            Inl x \<Rightarrow>
              if is_hawcx_error x
              then chat_done (serve e (lit ''could not connect to the Assembler: '' @ ce_str e x) c)
              else Some (Inl x, Some c)
          | Inr a \<Rightarrow> chat_done (serve e [] (c\<lparr>ch_agent := Some a\<rparr>)))))"

section \<open>Frames written by a turn\<close>

datatype chat_frame = Delta pystr | Final pystr | Error pystr

fun wire :: "chat_frame \<Rightarrow> bytes" where
  "wire (Delta t) = (case encode_frame msg_chat_delta (chat_payload ''text'' t) of Inr f \<Rightarrow> f | Inl x \<Rightarrow> [])"
| "wire (Final t) = (case encode_frame msg_chat_final (chat_payload ''text'' t) of Inr f \<Rightarrow> f | Inl x \<Rightarrow> [])"
| "wire (Error t) = (case encode_frame msg_chat_error (chat_payload ''message'' t) of Inr f \<Rightarrow> f | Inl x \<Rightarrow> [])"

fun is_delta :: "chat_frame \<Rightarrow> bool" where
  "is_delta (Delta t) = True"
| "is_delta _ = False"

text \<open>A channel on which every write succeeds. \<open>emits m Q\<close>: started on such a channel, \<open>m\<close> leaves it
  so, reads nothing from it and writes some frames; \<open>Q\<close> relates the process before, the result, the
  frames and the process after.\<close>

definition writable :: "sock \<Rightarrow> bool" where
  "writable s \<longleftrightarrow> is_open s \<and> tx_plan s = []"

definition wrote :: "chat \<Rightarrow> chat_frame list \<Rightarrow> chat \<Rightarrow> bool" where
  "wrote c fs c' \<longleftrightarrow> ch_sock c' = (ch_sock c)\<lparr>tx := tx (ch_sock c) @ concat (map wire fs)\<rparr>"

lemma wrote_trans: "wrote c fs c1 \<Longrightarrow> wrote c1 gs c2 \<Longrightarrow> wrote c (fs @ gs) c2"
  by (simp add: wrote_def)

lemma wrote_writable: "wrote c fs c' \<Longrightarrow> writable (ch_sock c') = writable (ch_sock c)"
  by (simp add: wrote_def writable_def)

definition emits :: "'a turn \<Rightarrow> (chat \<Rightarrow> exn + 'a \<Rightarrow> chat_frame list \<Rightarrow> chat \<Rightarrow> bool) \<Rightarrow> bool" where
  "emits m Q \<longleftrightarrow> (\<forall>c r c'. writable (ch_sock c) \<longrightarrow> m c = (r, c') \<longrightarrow> (\<exists>fs. wrote c fs c' \<and> Q c r fs c'))"

lemma emits_mono: "emits m Q \<Longrightarrow> (\<And>c r fs c'. Q c r fs c' \<Longrightarrow> R c r fs c') \<Longrightarrow> emits m R"
  unfolding emits_def by blast

lemma emits_ret: "emits (ret x) (\<lambda>c r fs c'. r = Inr x \<and> fs = [] \<and> c' = c)"
  by (auto simp: emits_def ret_def wrote_def)

lemma emits_throw: "emits (throw e) (\<lambda>c r fs c'. r = Inl e \<and> fs = [] \<and> c' = c)"
  by (auto simp: emits_def throw_def wrote_def)

lemma emits_andthen:
  assumes m: "emits m Q" and f: "\<And>x. emits (f x) (R x)"
  shows "emits (andthen m f) (\<lambda>c r fs c'. (\<exists>x fs1 c1 fs2. Q c (Inr x) fs1 c1 \<and> R x c1 r fs2 c' \<and> fs = fs1 @ fs2) \<or>
    (\<exists>e. r = Inl e \<and> Q c (Inl e) fs c'))"
  unfolding emits_def
proof (intro allI impI)
  fix c r c'
  assume w: "writable (ch_sock c)" and run: "andthen m f c = (r, c')"
  obtain r1 c1 where 1: "m c = (r1, c1)" by force
  with m w obtain fs1 where q: "wrote c fs1 c1" "Q c r1 fs1 c1" unfolding emits_def by blast
  show "\<exists>fs. wrote c fs c' \<and> ((\<exists>x fs1 c1 fs2. Q c (Inr x) fs1 c1 \<and> R x c1 r fs2 c' \<and> fs = fs1 @ fs2) \<or>
      (\<exists>e. r = Inl e \<and> Q c (Inl e) fs c'))"
  proof (cases r1)
    case (Inl e)
    with 1 q run show ?thesis by (auto simp: andthen_def)
  next
    case (Inr x)
    with 1 run have "f x c1 = (r, c')" by (simp add: andthen_def)
    then obtain fs2 where "wrote c1 fs2 c'" "R x c1 r fs2 c'"
      using f [of x] w wrote_writable [OF q(1)] unfolding emits_def by blast
    then show ?thesis using q Inr wrote_trans by blast
  qed
qed

lemma emits_catch:
  assumes m: "emits m Q" and h: "\<And>x. emits (h x) (R x)"
  shows "emits (catch m h) (\<lambda>c r fs c'. (\<exists>x fs1 c1 fs2. Q c (Inl x) fs1 c1 \<and> R x c1 r fs2 c' \<and> fs = fs1 @ fs2) \<or>
    (\<exists>v. r = Inr v \<and> Q c (Inr v) fs c'))"
  unfolding emits_def
proof (intro allI impI)
  fix c r c'
  assume w: "writable (ch_sock c)" and run: "catch m h c = (r, c')"
  obtain r1 c1 where 1: "m c = (r1, c1)" by force
  with m w obtain fs1 where q: "wrote c fs1 c1" "Q c r1 fs1 c1" unfolding emits_def by blast
  show "\<exists>fs. wrote c fs c' \<and> ((\<exists>x fs1 c1 fs2. Q c (Inl x) fs1 c1 \<and> R x c1 r fs2 c' \<and> fs = fs1 @ fs2) \<or>
      (\<exists>v. r = Inr v \<and> Q c (Inr v) fs c'))"
  proof (cases r1)
    case (Inr v)
    with 1 q run show ?thesis by (auto simp: catch_def)
  next
    case (Inl x)
    with 1 run have "h x c1 = (r, c')" by (simp add: catch_def)
    then obtain fs2 where "wrote c1 fs2 c'" "R x c1 r fs2 c'"
      using h [of x] w wrote_writable [OF q(1)] unfolding emits_def by blast
    then show ?thesis using q Inl wrote_trans by blast
  qed
qed

section \<open>What the pieces write\<close>

definition same_agent :: "chat \<Rightarrow> chat \<Rightarrow> bool" where
  "same_agent c c' \<longleftrightarrow> ch_agent c' = ch_agent c \<and> ch_uuids c' = ch_uuids c"

lemma same_agent_refl [simp]: "same_agent c c"
  by (simp add: same_agent_def)

lemma same_agent_trans: "same_agent a b \<Longrightarrow> same_agent b c \<Longrightarrow> same_agent a c"
  by (simp add: same_agent_def)

definition sends :: "chat_frame \<Rightarrow> chat \<Rightarrow> exn + unit \<Rightarrow> chat_frame list \<Rightarrow> chat \<Rightarrow> bool" where
  "sends f c r fs c' \<longleftrightarrow> same_agent c c' \<and> (r = Inr () \<and> fs = [f] \<or> (\<exists>x. r = Inl (IpcError x) \<and> fs = []))"

lemma write_on_writable:
  assumes "writable s"
  shows "write_frame t p s = (case encode_frame t p of Inl x \<Rightarrow> (Inl x, s) | Inr f \<Rightarrow> (Inr (), s\<lparr>tx := tx s @ f\<rparr>))"
  using assms
  by (simp add: write_frame_def andthen_def lift_def sock_sendall_def writable_def split: sum.split)

lemma emits_send:
  assumes "wire f = (case encode_frame t p of Inr b \<Rightarrow> b | Inl x \<Rightarrow> [])"
  shows "emits (on_chan (write_frame t p)) (sends f)"
  unfolding emits_def
  using assms
  by (auto simp: on_chan_def write_on_writable wrote_def sends_def same_agent_def encode_frame_def Let_def
      split: sum.splits prod.splits if_splits)

lemma emits_sends:
  "emits (send_delta t) (sends (Delta t))" "emits (send_final t) (sends (Final t))"
  "emits (send_error t) (sends (Error t))"
  unfolding send_delta_def send_final_def send_error_def by (rule emits_send, simp)+

lemma emits_call: "emits (call_agent e r) (\<lambda>c x fs c'. fs = [] \<and> call_agent e r c = (x, c'))"
  unfolding emits_def
  by (auto simp: call_agent_def wrote_def split: option.splits prod.splits)

lemma emits_except:
  assumes m: "emits m Q" and h: "\<And>reason. emits (h reason) (H reason)"
  shows "emits (except_rejected m h) (\<lambda>c r fs c'.
    (\<exists>i reason fs1 c1 fs2. Q c (Inl (RequestRejected i reason)) fs1 c1 \<and> H reason c1 r fs2 c' \<and> fs = fs1 @ fs2) \<or>
    (Q c r fs c' \<and> (\<forall>i reason. r \<noteq> Inl (RequestRejected i reason))))"
proof -
  have "emits (case x of RequestRejected i reason \<Rightarrow> h reason | _ \<Rightarrow> throw x) (\<lambda>c r fs c'.
      (\<exists>i reason. x = RequestRejected i reason \<and> H reason c r fs c') \<or>
      (\<forall>i reason. x \<noteq> RequestRejected i reason) \<and> r = Inl x \<and> fs = [] \<and> c' = c)" for x
    by (cases x) (use h in \<open>auto intro: emits_mono emits_mono [OF emits_throw]\<close>)
  from emits_catch [OF m this] show ?thesis
    unfolding except_rejected_def by (rule emits_mono) (auto, blast+)
qed

text \<open>A turn claims an enforced ceiling after these two calls.\<close>

definition gated :: "chat_env \<Rightarrow> chat \<Rightarrow> chat \<Rightarrow> bool" where
  "gated e c c' \<longleftrightarrow> (\<exists>c0 resp c1 c2 i why c3. same_agent c c0 \<and>
     call_agent e (read_call (ce_env e)) c0 = (Inr resp, c1) \<and> same_agent c1 c2 \<and>
     call_agent e (probe_call (ce_env e)) c2 = (Inl (RequestRejected i why), c3) \<and> same_agent c3 c')"

definition deltas :: "chat_frame list \<Rightarrow> bool" where "deltas fs \<longleftrightarrow> list_all is_delta fs"

lemma deltas_simps [simp]: "deltas []" "deltas (Delta t # fs) = deltas fs" "deltas (fs @ gs) \<longleftrightarrow> deltas fs \<and> deltas gs"
  by (simp_all add: deltas_def)

lemma first_call_emits:
  "emits (first_call e) (\<lambda>c r fs c'.
     (r = Inr False \<and> deltas fs \<and> (\<exists>resp c1. call_agent e (read_call (ce_env e)) c = (Inr resp, c1) \<and> same_agent c1 c')) \<or>
     (r = Inr True \<and> (\<exists>ds. deltas ds \<and> fs = ds @ [Final (setup_text (ce_env e))])) \<or>
     (\<exists>x. r = Inl x \<and> deltas fs))"
  unfolding first_call_def
  by (rule emits_mono, (rule emits_except emits_andthen emits_call emits_sends emits_ret)+)
    (auto simp: sends_def intro: same_agent_trans)

lemma second_call_emits:
  "emits (second_call e) (\<lambda>c r fs c'.
     (r = Inr False \<and> fs = []) \<or>
     (r = Inr True \<and> (\<exists>ds. deltas ds \<and> fs = ds @ [Final (enforced_text (ce_env e))]) \<and>
        (\<exists>i why c1. call_agent e (probe_call (ce_env e)) c = (Inl (RequestRejected i why), c1) \<and> same_agent c1 c')) \<or>
     (\<exists>x. r = Inl x \<and> deltas fs))"
  unfolding second_call_def
  by (rule emits_mono, (rule emits_except emits_andthen emits_call emits_sends emits_ret)+)
    (auto simp: sends_def intro: same_agent_trans)

section \<open>A turn\<close>

lemma texts_differ: "setup_text env \<noteq> enforced_text env" "failed_text env \<noteq> enforced_text env"
  by (simp_all add: setup_text_def enforced_text_def failed_text_def text_lines_def lit_def)

text \<open>One closing frame, the last one; and what the claim rests on.\<close>

definition closes :: "chat_frame list \<Rightarrow> bool" where
  "closes fs \<longleftrightarrow> (\<exists>ds f. fs = ds @ [f] \<and> deltas ds \<and> \<not> is_delta f)"

definition turn_ok :: "chat_env \<Rightarrow> chat \<Rightarrow> chat_frame list \<Rightarrow> chat \<Rightarrow> bool" where
  "turn_ok e c fs c' \<longleftrightarrow> closes fs \<and> (last fs = Final (enforced_text (ce_env e)) \<longrightarrow> gated e c c')"

lemma closes_snoc [simp]: "closes (ds @ [f]) \<longleftrightarrow> deltas ds \<and> \<not> is_delta f"
  by (simp add: closes_def)

lemma closes_Cons [simp]: "closes (Delta t # fs) = closes fs"
  by (auto simp: closes_def Cons_eq_append_conv)

lemma run_gated_emits:
  "emits (run_gated_tool_calls e prompt) (\<lambda>c r fs c'.
     (r = Inr () \<and> turn_ok e c fs c') \<or> (\<exists>x. r = Inl x \<and> deltas fs))"
proof -
  let ?rest1 = "\<lambda>returned. if returned then ret () else
     andthen (send_delta (lit ''ALLOWED -- and that is a FAILURE'' @ [10, 10])) (\<lambda>_.
     send_final (failed_text (ce_env e)))"
  have 1: "emits (?rest1 b) (\<lambda>c r fs c'. same_agent c c' \<and> (if b then r = Inr () \<and> fs = [] else
      (r = Inr () \<and> (\<exists>ds. deltas ds \<and> fs = ds @ [Final (failed_text (ce_env e))])) \<or> (\<exists>x. r = Inl x \<and> deltas fs)))" for b
    by (cases b; simp; rule emits_mono, (rule emits_andthen emits_sends emits_ret)+)
      (auto simp: sends_def intro: same_agent_trans)
  let ?rest2 = "\<lambda>returned. if returned then ret () else
     andthen (send_delta (lit ''[2/2] '' @ demo_tool_id (ce_env e) @ lit '' action='' @ probe_action (ce_env e) @ lit '' -> '')) (\<lambda>_.
     andthen (second_call e) ?rest1)"
  have 2: "emits (?rest2 b) (\<lambda>c r fs c'. if b then r = Inr () \<and> fs = [] else
      (r = Inr () \<and> closes fs \<and> (last fs = Final (enforced_text (ce_env e)) \<longrightarrow>
         (\<exists>c2 i why c3. same_agent c c2 \<and> call_agent e (probe_call (ce_env e)) c2 = (Inl (RequestRejected i why), c3) \<and>
            same_agent c3 c'))) \<or> (\<exists>x. r = Inl x \<and> deltas fs))" for b
  proof (cases b)
    case True
    then show ?thesis by simp (rule emits_mono [OF emits_ret], simp)
  next
    case False
    then show ?thesis
      by simp (rule emits_mono [OF emits_andthen [OF emits_sends(1) emits_andthen [OF second_call_emits 1]]],
        auto simp: sends_def texts_differ closes_def, (blast intro: same_agent_trans)+)
  qed
  show ?thesis
    unfolding run_gated_tool_calls_def
    by (rule emits_mono [OF emits_andthen [OF emits_sends(1) emits_andthen [OF emits_sends(1)
          emits_andthen [OF first_call_emits 2]]]])
      (auto simp: sends_def turn_ok_def gated_def texts_differ closes_def, (blast intro: same_agent_trans)+)
qed

lemma emits_error_fits:
  assumes "length (chat_payload ''message'' t) < max_message_size"
  shows "emits (try_send_error t) (\<lambda>c r fs c'. r = Inr True \<and> fs = [Error t] \<and> same_agent c c')"
proof -
  have "emits (send_error t) (\<lambda>c r fs c'. r = Inr () \<and> fs = [Error t] \<and> same_agent c c')"
    using assms
    by (auto simp: emits_def send_error_def on_chan_def write_on_writable encode_frame_ok wrote_def same_agent_def)
  then have "emits (andthen (send_error t) (\<lambda>_. ret True)) (\<lambda>c r fs c'. r = Inr True \<and> fs = [Error t] \<and> same_agent c c')"
    by (rule emits_mono [OF emits_andthen [OF _ emits_ret]]) auto
  then show ?thesis
    unfolding try_send_error_def emits_def by (fastforce simp: catch_def split: prod.splits sum.splits)
qed

text \<open>The texts of errors that the process reports fit into a frame.\<close>

definition brief :: "chat_env \<Rightarrow> pystr \<Rightarrow> bool" where
  "brief e connect_error \<longleftrightarrow> length (chat_payload ''message'' connect_error) < max_message_size \<and>
     (\<forall>x. length (chat_payload ''message'' (lit ''tool call failed: '' @ ce_str e x)) < max_message_size \<and>
          length (chat_payload ''message'' (lit ''agent error: '' @ ce_str e x)) < max_message_size)"

lemma answer_prompt_emits:
  assumes b: "brief e ce"
  shows "emits (answer_prompt e ce prompt) (\<lambda>c r fs c'. r = Inr True \<and> turn_ok e c fs c')"
proof -
  have none: "emits (try_send_error ce) (\<lambda>c r fs c'. r = Inr True \<and> turn_ok e c fs c')"
    using emits_mono [OF emits_error_fits] b by (fastforce simp: brief_def turn_ok_def closes_def)
  have h: "emits (if is_hawcx_error x then try_send_error (lit ''tool call failed: '' @ ce_str e x)
      else try_send_error (lit ''agent error: '' @ ce_str e x)) (\<lambda>c r fs c'. r = Inr True \<and> (\<exists>t. fs = [Error t]))" for x
    using emits_mono [OF emits_error_fits] b by (fastforce simp: brief_def)
  have some: "emits (catch (andthen (run_gated_tool_calls e prompt) (\<lambda>_. ret True)) (\<lambda>x.
         if is_hawcx_error x then try_send_error (lit ''tool call failed: '' @ ce_str e x)
         else try_send_error (lit ''agent error: '' @ ce_str e x))) (\<lambda>c r fs c'. r = Inr True \<and> turn_ok e c fs c')"
    by (rule emits_mono [OF emits_catch [OF emits_andthen [OF run_gated_emits emits_ret] h]])
      (auto simp: turn_ok_def)
  show ?thesis
    using none some unfolding emits_def by (auto simp: answer_prompt_def split: option.splits)
qed

section \<open>The conversation\<close>

definition prompt_frame :: "pystr \<Rightarrow> bytes" where
  "prompt_frame text = to_be 4 (1 + length (chat_payload ''text'' text)) @ [msg_chat_prompt] @ chat_payload ''text'' text"

definition prompt_fits :: "pystr \<Rightarrow> bool" where
  "prompt_fits text \<longleftrightarrow> wf_str text \<and> length (chat_payload ''text'' text) < max_message_size"

lemma recv_prompt_frame:
  assumes p: "sock_pending (ch_sock c) = prompt_frame text @ rest" and fits: "prompt_fits text"
  obtains s where "recv_prompt c = (Inr (JStr text), c\<lparr>ch_sock := s\<rparr>)" "sock_pending s = rest"
    "sock_stop s = sock_stop (ch_sock c)" "s\<lparr>rx := []\<rparr> = (ch_sock c)\<lparr>rx := []\<rparr>"
proof -
  have "parse_frame (sock_pending (ch_sock c)) (sock_stop (ch_sock c)) =
      Inr ((msg_chat_prompt, chat_payload ''text'' text), rest)"
    unfolding p using parse_encode [OF encode_frame_ok] fits by (simp add: prompt_fits_def prompt_frame_def)
  note parsed = this
  obtain s where "read_frame (ch_sock c) = (case parse_frame (sock_pending (ch_sock c)) (sock_stop (ch_sock c)) of
         Inl e \<Rightarrow> (Inl e, s) | Inr (f, rest) \<Rightarrow> (Inr f, s))"
      "s\<lparr>rx := []\<rparr> = (ch_sock c)\<lparr>rx := []\<rparr>"
      "\<forall>f rest. parse_frame (sock_pending (ch_sock c)) (sock_stop (ch_sock c)) = Inr (f, rest) \<longrightarrow>
           sock_pending s = rest \<and> sock_stop s = sock_stop (ch_sock c)"
    by (rule read_frame_parses)
  then have s: "read_frame (ch_sock c) = (Inr (msg_chat_prompt, chat_payload ''text'' text), s)"
      "sock_pending s = rest" "sock_stop s = sock_stop (ch_sock c)" "s\<lparr>rx := []\<rparr> = (ch_sock c)\<lparr>rx := []\<rparr>"
    using parsed by simp_all
  have "json_of_bytes (chat_payload ''text'' text) = Inr (JObj [(lit ''text'', JStr text)])"
    using fits by (simp add: json_of_bytes_def chat_payload_def loads_dumps_bytes prompt_fits_def)
  with s(1) have "recv_prompt c = (Inr (JStr text), c\<lparr>ch_sock := s\<rparr>)"
    by (simp add: recv_prompt_def on_chan_def andthen_def lift_def item_def)
  with s(2-4) show thesis by (intro that)
qed

lemma recv_prompt_end:
  assumes "sock_pending (ch_sock c) = []"
  obtains x s where "recv_prompt c = (Inl x, c\<lparr>ch_sock := s\<rparr>)" "s\<lparr>rx := []\<rparr> = (ch_sock c)\<lparr>rx := []\<rparr>"
proof -
  have parsed: "parse_frame (sock_pending (ch_sock c)) (sock_stop (ch_sock c)) = Inl (end_of_input (sock_stop (ch_sock c)))"
    using assms by (simp add: parse_frame_def)
  obtain s where "read_frame (ch_sock c) = (case parse_frame (sock_pending (ch_sock c)) (sock_stop (ch_sock c)) of
         Inl e \<Rightarrow> (Inl e, s) | Inr (f, rest) \<Rightarrow> (Inr f, s))"
      and s: "s\<lparr>rx := []\<rparr> = (ch_sock c)\<lparr>rx := []\<rparr>"
    by (rule read_frame_parses)
  then have "recv_prompt c = (Inl (end_of_input (sock_stop (ch_sock c))), c\<lparr>ch_sock := s\<rparr>)"
    using parsed by (simp add: recv_prompt_def on_chan_def andthen_def)
  with s show thesis by (rule that [rotated])
qed

text \<open>The turns of a conversation, each from where the one before left the agent.\<close>

fun turns_ok :: "chat_env \<Rightarrow> chat \<Rightarrow> chat_frame list list \<Rightarrow> chat \<Rightarrow> bool" where
  "turns_ok e c [] c' = same_agent c c'"
| "turns_ok e c (t # ts) c' = (\<exists>c0 c1. same_agent c c0 \<and> turn_ok e c0 t c1 \<and> turns_ok e c1 ts c')"

lemma same_frame:
  assumes "s\<lparr>rx := []\<rparr> = s'\<lparr>rx := []\<rparr>"
  shows "tx s = tx s'" "writable s = writable s'"
  using sock_frame_fields [OF assms] arg_cong [OF assms, of tx_plan] by (simp_all add: writable_def)

text \<open>C40: every prompt is answered, in turn, by frames that end in exactly one closing frame, and when
  the peer closes the process ends with status 0. A turn claims that the ceiling is enforced
  only when the call inside it was answered and the one outside it rejected.\<close>

theorem chat_answers_every_prompt:
  assumes "writable (ch_sock c)" and "sock_pending (ch_sock c) = concat (map prompt_frame ps)"
    and "\<forall>p \<in> set ps. prompt_fits p" and "brief e ce"
  shows "\<exists>c' turns. serve e ce c = Some (Inr 0, c') \<and> length turns = length ps \<and> turns_ok e c turns c' \<and>
    tx (ch_sock c') = tx (ch_sock c) @ concat (map wire (concat turns))"
  using assms
proof (induction ps arbitrary: c)
  case Nil
  obtain x s where r: "recv_prompt c = (Inl x, c\<lparr>ch_sock := s\<rparr>)" and s: "s\<lparr>rx := []\<rparr> = (ch_sock c)\<lparr>rx := []\<rparr>"
    using recv_prompt_end Nil.prems(2) by auto
  have "serve e ce c = Some (Inr 0, c\<lparr>ch_sock := s\<rparr>)" by (simp add: serve.simps [of e ce c] r)
  moreover have "turns_ok e c [] (c\<lparr>ch_sock := s\<rparr>)" by (simp add: same_agent_def)
  ultimately show ?case using same_frame(1) [OF s] by (intro exI [of _ "c\<lparr>ch_sock := s\<rparr>"] exI [of _ "[]"]) simp
next
  case (Cons p ps)
  obtain s where r: "recv_prompt c = (Inr (JStr p), c\<lparr>ch_sock := s\<rparr>)"
      and s: "sock_pending s = concat (map prompt_frame ps)" "s\<lparr>rx := []\<rparr> = (ch_sock c)\<lparr>rx := []\<rparr>"
    by (rule recv_prompt_frame [of c p "concat (map prompt_frame ps)"]) (use Cons.prems in auto)
  let ?c0 = "c\<lparr>ch_sock := s\<rparr>"
  have w0: "writable (ch_sock ?c0)" using Cons.prems(1) same_frame(2) [OF s(2)] by simp
  obtain res c1 where a: "answer_prompt e ce (JStr p) ?c0 = (res, c1)" by force
  with w0 obtain t where t: "wrote ?c0 t c1" "res = Inr True" "turn_ok e ?c0 t c1"
    using answer_prompt_emits [OF Cons.prems(4), of "JStr p"] unfolding emits_def by blast
  have "writable (ch_sock c1)" using w0 wrote_writable [OF t(1)] by simp
  moreover have "sock_pending (ch_sock c1) = concat (map prompt_frame ps)"
    unfolding s(1) [symmetric] using t(1) by (simp add: wrote_def sock_pending_def)
  ultimately obtain c' turns where ih: "serve e ce c1 = Some (Inr 0, c')" "length turns = length ps" "turns_ok e c1 turns c'"
      "tx (ch_sock c') = tx (ch_sock c1) @ concat (map wire (concat turns))"
    using Cons.IH [of c1] Cons.prems(3,4) by auto
  have "serve e ce c = Some (Inr 0, c')"
    using ih(1) by (simp add: serve.simps [of e ce c] r a t(2))
  moreover have "turns_ok e c (t # turns) c'"
    unfolding turns_ok.simps using t(3) ih(3) by (intro exI [of _ ?c0] exI [of _ c1]) (simp add: same_agent_def)
  moreover have "tx (ch_sock c') = tx (ch_sock c) @ concat (map wire (concat (t # turns)))"
    using ih(4) t(1) same_frame(1) [OF s(2)] by (simp add: wrote_def)
  ultimately show ?case using ih(2) by (intro exI [of _ c'] exI [of _ "t # turns"]) simp
qed

section \<open>A conversation of one prompt\<close>

definition demo_chat :: chat where
  "demo_chat = \<lparr>ch_sock = \<lparr>rx = [Data (prompt_frame (lit ''hi''))], tx = [], tx_plan = [], is_open = True, deadline = None\<rparr>,
     ch_agent = Some demo_agent, ch_uuids = []\<rparr>"

definition demo_chat_env :: chat_env where
  "demo_chat_env = \<lparr>ce_env = \<lambda>v. None, ce_builtins = no_builtins, ce_sha = \<lambda>bs. [], ce_str = \<lambda>x. lit ''e'',
     ce_channel = Inr (ch_sock demo_chat), ce_dial = no_dial, ce_later = [], ce_uuids = [],
     ce_connect_timeout = None, ce_call_timeout = None\<rparr>"

theorem chat_answers_every_prompt_witness:
  "\<exists>c' t. serve demo_chat_env [] demo_chat = Some (Inr 0, c') \<and> closes t \<and> tx (ch_sock c') = concat (map wire t)"
proof -
  have fits: "prompt_fits (lit ''hi'')" "brief demo_chat_env []"
    by (simp_all add: prompt_fits_def brief_def demo_chat_env_def chat_payload_def dumps_bytes_def quote_def
        escape_char_def ascii_bytes_def spaced_def max_message_size_def lit_def wf_str_def is_high_def)
  obtain c' turns where "serve demo_chat_env [] demo_chat = Some (Inr 0, c')" "length turns = 1"
      "turns_ok demo_chat_env demo_chat turns c'" "tx (ch_sock c') = concat (map wire (concat turns))"
    using chat_answers_every_prompt [of demo_chat "[lit ''hi'']" demo_chat_env "[]"] fits
    by (auto simp: demo_chat_def writable_def sock_pending_def)
  moreover from this obtain t where "turns = [t]" by (auto simp: length_Suc_conv)
  ultimately show ?thesis by (auto simp: turn_ok_def)
qed

end
