(* ===== verification/Spec2Isabelle.thy ===== *)
theory Spec2Isabelle
  imports Egress_Http Egress_Tls Mcp_Config Crewai_Tool Cli Pod_Manifest Release_Checks Mock_Mcp Chat_Agent
begin

text \<open>
  A verification development for the Hawcx agent SDK (\<open>python/src/hawcx_haap\<close>).

  The SDK lets a confined agent make tool calls and HTTP requests without holding a credential.
  A call goes as one JSON message over a UNIX socket to the Assembler, which mints the token and
  makes the outbound request; HTTP goes through the egress broker, the only network the sandbox
  leaves the agent. Around this stand enrollment with the Authenticator, the classification of MCP
  answers, and the templates from which tools are generated.

  \<^bold>\<open>Theories and sources.\<close>
  \<^item> \<open>Prelude\<close>: bytes, big-endian integers, Python strings as lists of code points with the methods
    the code calls, decimal numerals, and actions (state passing with exceptions: \<open>andthen\<close>,
    \<open>catch\<close>), in which socket code is written.
  \<^item> \<open>Json\<close>, \<open>Codecs\<close>: \<open>json.dumps\<close> and \<open>json.loads\<close> (with enough fuel, \<open>fuel_enough\<close>), UTF-8 strict
    and with replacement, Base64; each with its round trip (\<open>loads_dumps\<close>, \<open>utf8_roundtrip\<close>,
    \<open>b64_roundtrip\<close>) under the locale \<open>text_codec\<close>; a JSON document inside a Base64 field is
    again a \<open>text_codec\<close> (\<open>layered_codec\<close>), which \<open>Mock_Mcp\<close> uses.
  \<^item> \<open>Errors\<close>: \<open>errors.py\<close>. A class that is raised in many places has one fault constructor per
    place.
  \<^item> \<open>Sockets\<close>: sockets as scripts of what \<open>recv\<close> will return, and the loop of \<open>_recv_exact\<close>. The
    locale \<open>byte_source\<close> is its contract; sockets and Windows pipes interpret it.
  \<^item> \<open>Egress_Wire\<close>, \<open>Egress_Socks\<close>: the SOCKS5 helpers and the two drivers of \<open>egress.py\<close>,
    whose handshakes are written twice, as in the source, and proved equal.
  \<^item> \<open>Pipe_Win\<close>, \<open>Egress_Control\<close>: \<open>pipe_win.py\<close>, and the placed control channel of \<open>egress.py\<close>.
  \<^item> \<open>Egress_Tls\<close>: TLS over a placed pipe. The locale \<open>byte_carrier\<close> extends \<open>byte_source\<close> by writes.
    The SSL object is a function; that \<open>wrap_bio\<close> makes none is an outcome of \<open>start_tls\<close>.
  \<^item> \<open>Egress_Config\<close>, \<open>Egress_Http\<close>: finding the broker, trust roots, the client factories with the
    keywords they pass on, and the stdlib HTTP client of \<open>egress.py\<close>. The transport that httpx picks
    for a URL is an argument (\<open>dials_through\<close>), as are the adapters of a fresh \<open>requests\<close> session.
  \<^item> \<open>Ipc_Frame\<close>, \<open>Ipc_Path\<close>, \<open>Ipc_Message\<close>, \<open>Ipc_Client\<close>: \<open>ipc.py\<close>, the frames and the handshake,
    the checks of a socket path, the messages, and \<open>AssemblerClient\<close> with its re-dial.
  \<^item> \<open>Agent\<close>: \<open>agent.py\<close> and \<open>auth_ipc.py\<close>, with the principal allowlist and enrollment.
  \<^item> \<open>Mcp_Caller\<close>, \<open>Mcp_Config\<close>: \<open>mcp_caller.py\<close>.
  \<^item> \<open>Crewai_Tool\<close>: \<open>hawcx_crewai/tool.py\<close>, a tool of CrewAI that forwards its runs to the agent.
  \<^item> \<open>Template\<close>, \<open>Extract\<close>: \<open>template.py\<close> and \<open>extract.py\<close>.
  \<^item> \<open>Wrap\<close>, \<open>Submit\<close>: \<open>wrap.py\<close>, the two code generators line by line, and \<open>submit.py\<close>.
  \<^item> \<open>Source_Bundle\<close>, \<open>Runtime_Bundle\<close>: \<open>source_bundle.py\<close>, which checks an uploaded archive and packs
    it with the trusted runtime, and \<open>bundle.py\<close>, which stages a project directory.
  \<^item> \<open>Cli\<close>: the six commands of \<open>cli.py\<close>, which compose the theories of templates and bundles over a
    file system, the standard streams and the requests that were posted.
  \<^item> \<open>Pod_Manifest\<close>: \<open>deploy/agent-pod/ci/validate_manifest.py\<close>, the check of a rendered agent pod.
  \<^item> \<open>Release_Checks\<close>: the three checks of \<open>scripts/check-*.py\<close> on images and packages, \<open>_binary.py\<close>
    and the build hook \<open>hatch_build.py\<close>. The check of an image is compared with
    what the registry answers.
  \<^item> \<open>Mock_Mcp\<close>: \<open>scripts/mock-mcp-server.py\<close>, the backend of the integration runs.
  \<^item> \<open>Chat_Agent\<close>: \<open>examples/chat_demo_agent.py\<close>, an agent with a chat protocol of its own.

  \<^bold>\<open>What the theorems show.\<close> The SOCKS5 drivers implement a reader of the concatenated bytes
  whatever the fragmentation, agree with each other, write nothing out of turn and leave no open
  socket behind; the control channel of Windows never attributes a reply to another request, since
  every exchange that may be out of step retires it. Frames and messages round-trip; a connection
  is returned only to a checked peer and a client only after a complete handshake; a call is
  written at most twice, a refusal is final, a late reply is never read; a failed re-dial wedges the
  client, and a timed-out or spent client recovers on the next dial that gets through. An agent
  that \<open>enroll\<close> returns is connected as the identity that the Authenticator's answer names. TLS over a
  pipe moves the bytes of TLS in order, a finished \<open>sendall\<close> has put all of them on the pipe, and every
  operation on it returns. A principal
  outside the allowlist is stopped before any byte is written. An MCP answer is ALLOW exactly under
  the condition of \<open>classify_allowed_iff\<close>, and an error object that stands on one line cannot hide in an event stream (one that is
  split over lines can). No client is built without the broker, and while the caller passes neither a
  proxy nor mounts, every web URL goes through it; TLS verification is relaxed by the caller only. A
  run of a CrewAI tool for a principal reaches the agent only if the principal is on the allowlist.

  A loaded template claims no authority, is well typed for the generator, and bounds its privileged
  tools; what the extractor drafts always validates, also through a file (\<open>extract\<close>, then
  \<open>validate\<close>). The generated module, read line by line, declares the tools of the template. A
  source bundle holds the trusted runtime and the accepted files and nothing else; a runtime bundle
  can be rebuilt to the same digest, and only generated launchers are dropped from it. The API key
  leaves in one request, over TLS or to a loopback name. No command replaces a file without
  \<open>--force\<close>, and only \<open>submit\<close> posts. A pod manifest that passes its check isolates keeper and agent;
  the check of an image succeeds exactly when some layer of the right platform has an entry with the
  orchestrator's path; and the mock backend answers only with the encryption of what was verified. The chat agent closes every turn
  exactly once.

  \<^bold>\<open>Representation.\<close> The outside world is data: what a socket will deliver, the outcome of a dial,
  the answers of \<open>stat\<close>, environment variables as a function. Codecs and libraries not under
  \<open>src\<close> (IDNA, SHA-256, PyYAML, httpx, the TLS handshake) are arguments or outcomes. Time-outs are in
  milliseconds. Only the JSON scanner uses fuel (twice the length of the text and one more); the loop
  that reads a stream terminates by a measure on the script, and the dialling loop of a pipe by the
  clock.

  \<^bold>\<open>Not modelled.\<close> The failure of \<open>socket()\<close> itself; locks and threads (each locked operation is one step; interleavings of whole
  operations are sequences of steps); the cryptography of TLS (the SSL object is an argument); what third-party
  HTTP libraries do with a connection; CPython's limits on recursion and on the digits of an integer;
  \<open>argparse\<close> (a command is given with its arguments parsed); redirects and proxies of \<open>urlopen\<close>;
  the keywords of the \<open>requests\<close> adapter; symbolic links and \<open>..\<close> in the paths of the command line; server loops and logging; the tests, the
  two framework examples (they show third-party code calling the modelled API), the TypeScript package and
  the Rust helper. Arguments of the models, besides those above: the \<open>zipfile\<close> reader and writer,
  \<open>ast.parse\<close>, \<open>pip\<close>, the field validation of pydantic, the YAML parser, the tar reader, the registry.
\<close>

end
